(* ===== verification/Prelude.thy ===== *)
theory Prelude
  imports Main "HOL-Library.Word" "HOL-Library.AList" "HOL-Library.Multiset" "HOL-Library.Sublist"
begin

text \<open>
  The vocabulary every component theory shares: Go values and the parts of Go's standard
  library the sources use.

  \<^item> \<open>go\<close>: what a Go function can do: return (\<open>Ok\<close>), return an error (\<open>Err\<close>), panic
    (\<open>Panic\<close>) or wait for ever on a lock or a channel it can never get (\<open>Blocked\<close>).
  \<^item> \<open>gomap\<close>: a Go map as an association list with distinct keys. The position of an entry is
    the place of its key in an iteration (\<open>range\<close>); Go leaves that order open, so statements
    about an iteration are made for every list, that is for every order.
  \<^item> bytes are \<open>8 word\<close>, \<open>uint16\<close> values \<open>16 word\<close>, Go strings byte strings (\<open>string\<close>), points
    in time (counted from the zero \<open>time.Time\<close>) and durations are integers in nanoseconds, a \<open>*time.Time\<close> is a \<open>time option\<close>, and
    a call of \<open>time.Now()\<close> is an argument \<open>now\<close> of the modelled function.
  \<^item> \<open>strings.Split\<close>, \<open>SplitN\<close>, \<open>HasPrefix\<close>, \<open>HasSuffix\<close>, \<open>Contains\<close>, \<open>ContainsAny\<close> on
    byte strings, and the conversions between strings and bytes.
\<close>

named_theorems gomap_simps "lookup and well-formedness equations of Go maps"
named_theorems gostring_simps "equations of the string operations"

section \<open>Outcomes of a Go call\<close>

datatype ('e, 'a) go = Ok 'a | Err 'e | Panic | Blocked

fun go_bind :: "('e, 'a) go \<Rightarrow> ('a \<Rightarrow> ('e, 'b) go) \<Rightarrow> ('e, 'b) go" where
  "go_bind (Ok a) f = f a"
| "go_bind (Err e) f = Err e"
| "go_bind Panic f = Panic"
| "go_bind Blocked f = Blocked"

fun is_Ok :: "('e, 'a) go \<Rightarrow> bool" where
  "is_Ok (Ok _) = True"
| "is_Ok _ = False"

lemma go_bind_Ok_iff [simp]: "go_bind m f = Ok b \<longleftrightarrow> (\<exists>a. m = Ok a \<and> f a = Ok b)"
  by (cases m) auto

text \<open>The code may return an error or wait, but it does not panic, and what it returns satisfies \<open>Q\<close>.\<close>

definition safe :: "('a \<Rightarrow> bool) \<Rightarrow> ('e, 'a) go \<Rightarrow> bool" where
  "safe Q r \<longleftrightarrow> (case r of Ok x \<Rightarrow> Q x | Err _ \<Rightarrow> True | Panic \<Rightarrow> False | Blocked \<Rightarrow> True)"

lemma safe_simps [simp]: "safe Q (Ok x) = Q x" "safe Q (Err e)" "\<not> safe Q Panic" "safe Q Blocked"
  by (simp_all add: safe_def)

lemma safe_bind: "safe P m \<Longrightarrow> (\<And>a. P a \<Longrightarrow> safe Q (f a)) \<Longrightarrow> safe Q (go_bind m f)"
  by (cases m) simp_all

lemma safe_mono: "safe P m \<Longrightarrow> (\<And>a. P a \<Longrightarrow> Q a) \<Longrightarrow> safe Q m"
  by (cases m) simp_all

lemma go_bind_assoc: "go_bind (go_bind m f) g = go_bind m (\<lambda>x. go_bind (f x) g)"
  by (cases m) simp_all

lemma safe_not_Panic: "safe Q m \<Longrightarrow> m \<noteq> Panic"
  by auto

type_synonym byte = "8 word"
type_synonym uint16 = "16 word"
type_synonym time = int
type_synonym duration = int

abbreviation second :: duration where "second \<equiv> 1000000000"
abbreviation minute :: duration where "minute \<equiv> 60 * second"
abbreviation hour :: duration where "hour \<equiv> 60 * minute"

text \<open>Unix time in nanoseconds and in seconds; the zero \<open>time.Time\<close> is 62135596800 seconds before its origin.\<close>

definition unix_nano :: "time \<Rightarrow> int" where
  "unix_nano t = t - 62135596800 * second"

definition unix :: "time \<Rightarrow> int" where
  "unix t = unix_nano t div second"

section \<open>Go maps\<close>

text \<open>Lookups stay lookups: the library's rewriting of them to list membership is switched off.\<close>

declare map_of_eq_Some_iff [simp del] Some_eq_map_of_iff [simp del]

type_synonym ('k, 'v) gomap = "('k \<times> 'v) list"

abbreviation gm_get :: "('k, 'v) gomap \<Rightarrow> 'k \<Rightarrow> 'v option" where
  "gm_get m k \<equiv> map_of m k"

abbreviation gm_set :: "('k, 'v) gomap \<Rightarrow> 'k \<Rightarrow> 'v \<Rightarrow> ('k, 'v) gomap" where
  "gm_set m k v \<equiv> AList.update k v m"

abbreviation gm_del :: "('k, 'v) gomap \<Rightarrow> 'k \<Rightarrow> ('k, 'v) gomap" where
  "gm_del m k \<equiv> AList.delete k m"

abbreviation gm_wf :: "('k, 'v) gomap \<Rightarrow> bool" where
  "gm_wf m \<equiv> distinct (map fst m)"

text \<open>Reading an absent key of a map whose values are slices or numbers gives the zero value.\<close>

definition gm_get0 :: "'v \<Rightarrow> ('k, 'v) gomap \<Rightarrow> 'k \<Rightarrow> 'v" where
  "gm_get0 z m k = (case gm_get m k of None \<Rightarrow> z | Some v \<Rightarrow> v)"

lemma gm_get0_simps [simp, gomap_simps]:
  "gm_get0 z [] k = z"
  "gm_get0 z ((k', v) # m) k = (if k = k' then v else gm_get0 z m k)"
  by (auto simp: gm_get0_def)

lemma gm_get_set [simp, gomap_simps]:
  "gm_get (gm_set m k v) k' = (if k' = k then Some v else gm_get m k')"
  by (simp add: update_conv')

lemma gm_get_del [simp, gomap_simps]:
  "gm_get (gm_del m k) k' = (if k' = k then None else gm_get m k')"
  by (simp add: delete_conv')

lemma gm_get0_set [simp, gomap_simps]: "gm_get0 z (gm_set m k v) k' = (if k' = k then v else gm_get0 z m k')"
  by (simp add: gm_get0_def)

lemma gm_wf_set [simp, gomap_simps]: "gm_wf m \<Longrightarrow> gm_wf (gm_set m k v)"
  by (simp add: distinct_update)

lemma gm_wf_del [simp, gomap_simps]: "gm_wf m \<Longrightarrow> gm_wf (gm_del m k)"
  by (simp add: distinct_delete)

lemma set_gm_del: "set (gm_del m k) = {(k', v) \<in> set m. k' \<noteq> k}"
  by (auto simp: AList.delete_eq)

lemma set_gm_set: "gm_wf m \<Longrightarrow> set (gm_set m k v) = insert (k, v) {(k', v') \<in> set m. k' \<noteq> k}"
proof (induction m)
  case (Cons p m)
  obtain a b where p: "p = (a, b)" by (cases p)
  show ?case
  proof (cases "a = k")
    case True
    with Cons.prems p have "\<forall>(k', v') \<in> set m. k' \<noteq> k" by force
    with True p show ?thesis by auto
  next
    case False
    with Cons p show ?thesis by auto
  qed
qed simp

lemma gm_get_iff: "gm_wf m \<Longrightarrow> gm_get m k = Some v \<longleftrightarrow> (k, v) \<in> set m"
  by (rule map_of_eq_Some_iff)

lemma gm_get_in: "gm_get m k = Some v \<Longrightarrow> (k, v) \<in> set m"
  by (rule map_of_SomeD)

lemma length_gm_del: "length (gm_del m k) \<le> length m"
  by (simp add: AList.delete_eq)

lemma length_gm_set:
  "length (gm_set m k v) = (if gm_get m k = None then Suc (length m) else length m)"
  by (induction m) auto

lemma length_gm_set_le: "length (gm_set m k v) \<le> Suc (length m)"
  by (simp add: length_gm_set)

text \<open>An address that is not in use, for what the program allocates.\<close>

definition fresh_key :: "(nat, 'v) gomap \<Rightarrow> nat" where
  "fresh_key m = Suc (foldl max 0 (map fst m))"

lemma foldl_max_start: "n \<le> foldl max (n :: nat) xs"
proof (induction xs arbitrary: n)
  case (Cons x xs)
  show ?case using Cons [of "max n x"] by simp
qed simp

lemma foldl_max_ge: "x \<in> set xs \<Longrightarrow> x \<le> foldl max (n :: nat) xs"
proof (induction xs arbitrary: n)
  case (Cons y xs)
  then show ?case using foldl_max_start [of "max n y" xs] by auto
qed simp

lemma fresh_key_new: "gm_get m k = Some v \<Longrightarrow> k \<noteq> fresh_key m"
proof
  assume "gm_get m k = Some v" and "k = fresh_key m"
  then have "fresh_key m \<in> set (map fst m)" by (auto dest!: gm_get_in intro: rev_image_eqI)
  from foldl_max_ge [OF this, of 0] show False by (simp add: fresh_key_def)
qed

lemma fresh_key_None [simp]: "gm_get m (fresh_key m) = None"
  using fresh_key_new [of m "fresh_key m"] by (cases "gm_get m (fresh_key m)") auto

text \<open>
  One pass over a map that keeps, changes or deletes each entry it visits
  (\<open>for k, v := range m { ... m[k] = v' ... delete(m, k) ... }\<close>).
\<close>

definition gm_filter_map :: "('k \<Rightarrow> 'v \<Rightarrow> 'w option) \<Rightarrow> ('k, 'v) gomap \<Rightarrow> ('k, 'w) gomap" where
  "gm_filter_map f m = List.map_filter (\<lambda>(k, v). map_option (Pair k) (f k v)) m"

lemma gm_filter_map_simps [simp]:
  "gm_filter_map f [] = []"
  "gm_filter_map f ((k, v) # m) =
     (case f k v of None \<Rightarrow> gm_filter_map f m | Some w \<Rightarrow> (k, w) # gm_filter_map f m)"
  by (auto simp: gm_filter_map_def List.map_filter_simps split: option.splits)

lemma fst_gm_filter_map: "fst ` set (gm_filter_map f m) \<subseteq> fst ` set m"
proof (induction m)
  case (Cons p m)
  then show ?case by (cases p) (auto 0 3 split: option.splits)
qed simp

lemma gm_wf_filter_map [simp, gomap_simps]: "gm_wf m \<Longrightarrow> gm_wf (gm_filter_map f m)"
proof (induction m)
  case (Cons p m)
  then show ?case using fst_gm_filter_map [of f m]
    by (cases p) (auto split: option.splits)
qed simp

lemma gm_get_filter_map [simp, gomap_simps]:
  assumes "gm_wf m"
  shows "gm_get (gm_filter_map f m) k = (case gm_get m k of None \<Rightarrow> None | Some v \<Rightarrow> f k v)"
  using assms
proof (induction m)
  case (Cons p m)
  obtain a b where p: "p = (a, b)" by (cases p)
  show ?case
  proof (cases "k = a")
    case True
    have "gm_get (gm_filter_map f m) a = None"
      using Cons.prems p fst_gm_filter_map [of f m] by (auto simp: map_of_eq_None_iff)
    with True p show ?thesis by (auto split: option.splits)
  next
    case False
    with Cons p show ?thesis by (auto split: option.splits)
  qed
qed simp

lemma set_gm_filter_map: "set (gm_filter_map f m) = {(k, w). \<exists>v. (k, v) \<in> set m \<and> f k v = Some w}"
  by (induction m) (auto split: option.splits)

section \<open>Strings\<close>

text \<open>\<open>strings.Split(s, sep)\<close> for a one-byte separator: never empty.\<close>

fun go_split :: "char \<Rightarrow> string \<Rightarrow> string list" where
  "go_split c [] = [[]]"
| "go_split c (x # xs) =
     (if x = c then [] # go_split c xs
      else (case go_split c xs of [] \<Rightarrow> [[x]] | y # ys \<Rightarrow> (x # y) # ys))"

text \<open>\<open>strings.SplitN(s, sep, n)\<close>: at most \<open>n\<close> pieces, the last one unsplit.\<close>

fun go_splitn :: "char \<Rightarrow> nat \<Rightarrow> string \<Rightarrow> string list" where
  "go_splitn c 0 s = []"
| "go_splitn c (Suc 0) s = [s]"
| "go_splitn c (Suc (Suc n)) s =
     (if c \<in> set s
      then takeWhile (\<lambda>x. x \<noteq> c) s # go_splitn c (Suc n) (tl (dropWhile (\<lambda>x. x \<noteq> c) s))
      else [s])"

fun go_join :: "char \<Rightarrow> string list \<Rightarrow> string" where
  "go_join c [] = []"
| "go_join c [x] = x"
| "go_join c (x # y # zs) = x @ c # go_join c (y # zs)"

definition has_prefix :: "string \<Rightarrow> string \<Rightarrow> bool" where
  "has_prefix s p = (take (length p) s = p)"

definition has_suffix :: "string \<Rightarrow> string \<Rightarrow> bool" where
  "has_suffix s p = (length p \<le> length s \<and> drop (length s - length p) s = p)"

fun str_contains :: "string \<Rightarrow> string \<Rightarrow> bool" where
  "str_contains [] p = (p = [])"
| "str_contains (x # xs) p = (has_prefix (x # xs) p \<or> str_contains xs p)"

definition contains_any :: "string \<Rightarrow> string \<Rightarrow> bool" where
  "contains_any s cs = list_ex (\<lambda>c. c \<in> set cs) s"

lemma go_split_not_Nil [simp]: "go_split c s \<noteq> []"
  by (induction s) (auto split: list.splits)

lemma go_join_Cons: "ls \<noteq> [] \<Longrightarrow> go_join c (x # ls) = x @ c # go_join c ls"
  by (cases ls) auto

lemma go_join_split [gostring_simps]: "go_join c (go_split c s) = s"
proof (induction s)
  case (Cons x xs)
  obtain y ys where sp: "go_split c xs = y # ys" by (cases "go_split c xs") auto
  show ?case
  proof (cases "x = c")
    case True
    with Cons show ?thesis by (simp add: go_join_Cons)
  next
    case False
    with Cons sp show ?thesis by (cases ys) auto
  qed
qed simp

lemma go_split_inject: "go_split c s = go_split c t \<longleftrightarrow> s = t"
  by (metis go_join_split)

lemma go_split_no_sep: "c \<notin> set s \<Longrightarrow> go_split c s = [s]"
  by (induction s) auto

lemma go_split_append_sep: "c \<notin> set s \<Longrightarrow> go_split c (s @ c # t) = s # go_split c t"
  by (induction s) auto

lemma go_split_join:
  "ls \<noteq> [] \<Longrightarrow> \<forall>l \<in> set ls. c \<notin> set l \<Longrightarrow> go_split c (go_join c ls) = ls"
  by (induction c ls rule: go_join.induct) (auto simp: go_split_append_sep go_split_no_sep)

lemma go_split_levels: "l \<in> set (go_split c s) \<Longrightarrow> c \<notin> set l"
  by (induction s arbitrary: l) (auto split: list.splits if_splits)

lemma go_splitn_append_sep:
  "c \<notin> set s \<Longrightarrow> go_splitn c (Suc (Suc n)) (s @ c # t) = s # go_splitn c (Suc n) t"
  by (auto simp: takeWhile_append dropWhile_append)

lemma has_prefix_append [simp]: "has_prefix (p @ s) p"
  by (simp add: has_prefix_def)

lemma has_prefix_iff: "has_prefix s p \<longleftrightarrow> (\<exists>r. s = p @ r)"
  unfolding has_prefix_def by (metis append_eq_conv_conj)

lemma str_contains_char: "str_contains s [c] \<longleftrightarrow> c \<in> set s"
  by (induction s) (auto simp: has_prefix_def)

section \<open>Bytes and strings\<close>

lemma unat_byte_less [simp]: "unat (b :: byte) < 256"
  using unsigned_less [of b, where ?'a = nat] by simp

lemma unat_uint16_less [simp]: "unat (w :: uint16) < 65536"
  using unsigned_less [of w, where ?'a = nat] by simp

definition byte_of_char :: "char \<Rightarrow> byte" where
  "byte_of_char c = word_of_nat (of_char c)"

definition char_of_byte :: "byte \<Rightarrow> char" where
  "char_of_byte b = char_of (unat b)"

lemma char_of_byte_of_char [simp]: "char_of_byte (byte_of_char c) = c"
proof -
  have "of_char c < (256 :: nat)" by simp
  then show ?thesis by (simp add: char_of_byte_def byte_of_char_def unat_of_nat take_bit_nat_eq_self)
qed

text \<open>\<open>[]byte(s)\<close> and \<open>string(b)\<close>.\<close>

definition bytes_of :: "string \<Rightarrow> byte list" where
  "bytes_of s = map byte_of_char s"

definition string_of :: "byte list \<Rightarrow> string" where
  "string_of bs = map char_of_byte bs"

lemma string_of_bytes_of [simp]: "string_of (bytes_of s) = s"
  by (simp add: string_of_def bytes_of_def comp_def)

lemma length_bytes_of [simp]: "length (bytes_of s) = length s"
  by (simp add: bytes_of_def)

section \<open>Decimal numbers\<close>

text \<open>The verb \<open>%d\<close> of the \<open>fmt\<close> package.\<close>

definition digit :: "nat \<Rightarrow> char" where
  "digit n = char_of (48 + n)"

fun show_nat :: "nat \<Rightarrow> string" where
  "show_nat n = (if n < 10 then [digit n] else show_nat (n div 10) @ [digit (n mod 10)])"

declare show_nat.simps [simp del]

definition show_int :: "int \<Rightarrow> string" where
  "show_int i = (if i < 0 then CHR ''-'' # show_nat (nat (- i)) else show_nat (nat i))"

lemma digit_inject: "m < 10 \<Longrightarrow> n < 10 \<Longrightarrow> digit m = digit n \<Longrightarrow> m = n"
proof -
  assume *: "m < 10" "n < 10" and "digit m = digit n"
  then have "(48 + m) mod 256 = (48 + n) mod 256"
    unfolding digit_def by (metis of_char_of)
  with * show "m = n" by simp
qed

lemma show_nat_nonempty: "show_nat n \<noteq> []" "[] \<noteq> show_nat n"
  by (subst show_nat.simps, simp)+

lemma show_nat_inject: "show_nat m = show_nat n \<Longrightarrow> m = n"
proof (induction m arbitrary: n rule: show_nat.induct)
  case (1 m)
  show ?case
  proof (cases "m < 10")
    case True
    with 1(2) have "n < 10"
      by (subst (asm) (1 2) show_nat.simps) (auto simp: show_nat_nonempty split: if_splits)
    with True 1(2) show ?thesis
      by (subst (asm) (1 2) show_nat.simps) (auto dest: digit_inject)
  next
    case False
    with 1(2) have n: "\<not> n < 10"
      by (subst (asm) (1 2) show_nat.simps) (auto simp: show_nat_nonempty split: if_splits)
    with False 1(2) have "show_nat (m div 10) = show_nat (n div 10)" and "digit (m mod 10) = digit (n mod 10)"
      by (subst (asm) (1 2) show_nat.simps; simp)+
    with False 1(1) have "m div 10 = n div 10" and "m mod 10 = n mod 10"
      by (auto intro: digit_inject [of "m mod 10" "n mod 10"])
    then show ?thesis by (metis div_mult_mod_eq)
  qed
qed

end
