(* ===== verification/Topic_Match.thy ===== *)
theory Topic_Match
  imports Prelude
begin

text \<open>
  MQTT topic matching as the MQTT specification states it, level by level, and the interface
  the broker's several matchers implement. The sources contain five matchers (topic store,
  retainer, message backend, blacklist, offline queue); the component theories interpret the
  locales of this theory on their own one.
\<close>

section \<open>The reference relation on topic levels\<close>

abbreviation levels :: "string \<Rightarrow> string list" where
  "levels s \<equiv> go_split (CHR ''/'') s"

text \<open>
  A filter ending in \<open>#\<close> matches any number of further levels (none included), \<open>+\<close> matches one
  level, any other filter level matches itself. A \<open>#\<close> level is a wildcard wherever it stands, so
  a filter with a \<open>#\<close> before its last level matches nothing beyond it.
\<close>

inductive mqtt_match :: "string list \<Rightarrow> string list \<Rightarrow> bool" where
  match_end: "mqtt_match [] []"
| match_hash: "mqtt_match ts [''#'']"
| match_plus: "mqtt_match ts fs \<Longrightarrow> mqtt_match (t # ts) (''+'' # fs)"
| match_level: "t \<noteq> ''#'' \<Longrightarrow> mqtt_match ts fs \<Longrightarrow> mqtt_match (t # ts) (t # fs)"

inductive_simps mqtt_match_simps:
  "mqtt_match ts []" "mqtt_match [] (f # fs)" "mqtt_match (t # ts) (f # fs)"

lemma mqtt_match_Nil_filter: "mqtt_match ts [] \<longleftrightarrow> ts = []"
  by (auto simp: mqtt_match_simps)

lemma mqtt_match_Nil_topic: "mqtt_match [] (f # fs) \<longleftrightarrow> f = ''#'' \<and> fs = []"
  by (auto simp: mqtt_match_simps)

lemma mqtt_match_Cons:
  "mqtt_match (t # ts) (f # fs) \<longleftrightarrow>
     (if f = ''#'' then fs = [] else (f = ''+'' \<or> f = t) \<and> mqtt_match ts fs)"
  by (auto simp: mqtt_match_simps intro: mqtt_match.intros)

lemmas mqtt_match_eqs [simp] = mqtt_match_Nil_filter mqtt_match_Nil_topic mqtt_match_Cons

lemma mqtt_match_refl: "''#'' \<notin> set ts \<Longrightarrow> mqtt_match ts ts"
  by (induction ts) auto

lemma mqtt_match_append_hash: "''#'' \<notin> set fs \<Longrightarrow> mqtt_match ts fs \<Longrightarrow> mqtt_match (ts @ us) (fs @ [''#''])"
proof (induction fs arbitrary: ts)
  case Nil
  then show ?case by (auto intro: match_hash)
next
  case (Cons f fs)
  then show ?case by (cases ts) auto
qed

section \<open>Topic names and topic filters\<close>

text \<open>A topic name a client may publish to, and a topic filter it may subscribe to.\<close>

definition publishable :: "string \<Rightarrow> bool" where
  "publishable t = (CHR ''#'' \<notin> set t \<and> CHR ''+'' \<notin> set t)"

fun valid_levels :: "string list \<Rightarrow> bool" where
  "valid_levels [] = True"
| "valid_levels (f # fs) =
     ((CHR ''#'' \<in> set f \<longrightarrow> f = ''#'' \<and> fs = []) \<and> (CHR ''+'' \<in> set f \<longrightarrow> f = ''+'') \<and> valid_levels fs)"

definition valid_filter :: "string \<Rightarrow> bool" where
  "valid_filter f = valid_levels (levels f)"

lemma go_split_chars: "l \<in> set (go_split c s) \<Longrightarrow> x \<in> set l \<Longrightarrow> x \<in> set s"
proof (induction s arbitrary: l)
  case (Cons a s)
  then show ?case by (cases "go_split c s") (fastforce split: if_splits)+
qed simp

lemma publishable_level: "publishable t \<Longrightarrow> l \<in> set (levels t) \<Longrightarrow> l \<noteq> ''#'' \<and> l \<noteq> ''+''"
  by (auto simp: publishable_def dest: go_split_chars [of _ _ _ "CHR ''#''"] go_split_chars [of _ _ _ "CHR ''+''"])

lemma publishable_hash_free: "publishable t \<Longrightarrow> ''#'' \<notin> set (levels t)"
  using publishable_level by blast

lemma valid_levels_no_wild:
  "\<forall>l \<in> set fs. CHR ''#'' \<notin> set l \<and> CHR ''+'' \<notin> set l \<Longrightarrow> valid_levels fs"
  by (induction fs) auto

lemma publishable_valid: "publishable t \<Longrightarrow> valid_filter t"
  unfolding publishable_def valid_filter_def
  by (rule valid_levels_no_wild) (blast dest: go_split_chars)

section \<open>The matcher interface\<close>

text \<open>
  What the rest of the broker relies on: on topic names clients may publish and filters clients
  may subscribe to, the matcher decides the reference relation.
\<close>

locale topic_matcher =
  fixes matches :: "string \<Rightarrow> string \<Rightarrow> bool"
  assumes matches_spec:
    "publishable topic \<Longrightarrow> valid_filter flt \<Longrightarrow>
       matches topic flt \<longleftrightarrow> mqtt_match (levels topic) (levels flt)"
begin

lemma matches_itself: "publishable t \<Longrightarrow> matches t t"
  by (simp add: matches_spec publishable_valid publishable_hash_free mqtt_match_refl)

lemma matches_hash: "publishable t \<Longrightarrow> matches t ''#''"
  by (simp add: matches_spec valid_filter_def match_hash)

lemma matches_plain:
  assumes "publishable t" and "publishable f"
  shows "matches t f \<longleftrightarrow> t = f"
proof -
  have "mqtt_match ts fs \<longleftrightarrow> ts = fs" if "\<forall>l \<in> set fs. l \<noteq> ''#'' \<and> l \<noteq> ''+''" for ts fs
    using that by (induction fs arbitrary: ts) (case_tac ts; auto)+
  then have "mqtt_match (levels t) (levels f) \<longleftrightarrow> levels t = levels f"
    using publishable_level [OF assms(2)] by blast
  then show ?thesis
    by (simp add: matches_spec assms publishable_valid go_split_inject)
qed

end

text \<open>A matcher that also decides the relation on filters no client may subscribe to.\<close>

locale total_matcher =
  fixes matches :: "string \<Rightarrow> string \<Rightarrow> bool"
  assumes matches_total:
    "''#'' \<notin> set (levels topic) \<Longrightarrow>
       matches topic flt \<longleftrightarrow> mqtt_match (levels topic) (levels flt)"

sublocale total_matcher \<subseteq> topic_matcher
  by unfold_locales (simp add: matches_total publishable_hash_free)

text \<open>Two matchers of the broker in use for the same subscription.\<close>

locale matcher_pair = a: topic_matcher m1 + b: topic_matcher m2
  for m1 m2 :: "string \<Rightarrow> string \<Rightarrow> bool"
begin

lemma agree: "publishable topic \<Longrightarrow> valid_filter flt \<Longrightarrow> m1 topic flt = m2 topic flt"
  by (simp add: a.matches_spec b.matches_spec)

end

end
