(* ===== verification/Topic_Store.thy ===== *)
theory Topic_Store
  imports Topic_Match
begin

text \<open>
  The subscription table, \<open>pkg/topic/store.go\<close>: regular subscriptions by topic filter, shared
  subscriptions (\<open>$share/group/topic\<close>) by group and topic with a round-robin index, and the
  wildcard matcher. A mailbox pointer is its identity, a number. The operations take the
  store's lock first, so each is one step; \<open>GetSubscribers\<close> moves the round-robin indices.
\<close>

section \<open>State\<close>

type_synonym mailbox = nat

record Subscription =
  sub_Mailbox :: mailbox
  sub_QoS :: byte

record SharedSubscription =
  sh_Group :: string
  sh_Topic :: string
  sh_Mailboxes :: "Subscription list"
  sh_NextIndex :: nat

record Store =
  subscriptions :: "(string, Subscription list) gomap"
  sharedSubscriptions :: "(string, SharedSubscription) gomap"

definition NewStore :: Store where
  "NewStore = \<lparr>subscriptions = [], sharedSubscriptions = []\<rparr>"

section \<open>Topic matching\<close>

text \<open>The loop of \<open>matchesTopicFilter\<close> over the filter's levels, by index.\<close>

function matches_loop :: "string list \<Rightarrow> string list \<Rightarrow> nat \<Rightarrow> bool" where
  "matches_loop topicSegments filterSegments i =
     (if i < length filterSegments then
        (if i \<ge> length topicSegments
         then filterSegments ! i = ''#'' \<and> i = length filterSegments - 1
         else if filterSegments ! i = ''#'' then i = length filterSegments - 1
         else if filterSegments ! i \<noteq> ''+'' \<and> filterSegments ! i \<noteq> topicSegments ! i then False
         else matches_loop topicSegments filterSegments (Suc i))
      else length topicSegments = length filterSegments)"
  by pat_completeness auto
termination
  by (relation "measure (\<lambda>(_, fs, i). length fs - i)") auto

declare matches_loop.simps [simp del]

definition matchesTopicFilter :: "string \<Rightarrow> string \<Rightarrow> bool" where
  "matchesTopicFilter topic flt =
     (let topicSegments = go_split (CHR ''/'') topic;
          filterSegments = go_split (CHR ''/'') flt
      in matches_loop topicSegments filterSegments 0)"

section \<open>Operations\<close>

text \<open>A mailbox is subscribed once: its QoS is updated in place, otherwise it is appended.\<close>

fun addOrUpdateSubscription :: "Subscription list \<Rightarrow> mailbox \<Rightarrow> byte \<Rightarrow> Subscription list" where
  "addOrUpdateSubscription [] mb qos = [\<lparr>sub_Mailbox = mb, sub_QoS = qos\<rparr>]"
| "addOrUpdateSubscription (existing # subs) mb qos =
     (if sub_Mailbox existing = mb then existing\<lparr>sub_QoS := qos\<rparr> # subs
      else existing # addOrUpdateSubscription subs mb qos)"

abbreviation share_prefix :: string where
  "share_prefix \<equiv> ''$share/''"

text \<open>\<open>strings.SplitN(shareTopic, "/", 3)\<close> with its length check: the group and the topic.\<close>

definition share_parts :: "string \<Rightarrow> (string \<times> string) option" where
  "share_parts shareTopic =
     (case go_splitn (CHR ''/'') 3 shareTopic of [_, grp, actualTopic] \<Rightarrow> Some (grp, actualTopic)
      | _ \<Rightarrow> None)"

definition group_key :: "string \<Rightarrow> string \<Rightarrow> string" where
  "group_key grp actualTopic = grp @ ''/'' @ actualTopic"

definition subscribeShared :: "Store \<Rightarrow> string \<Rightarrow> mailbox \<Rightarrow> byte \<Rightarrow> Store" where
  "subscribeShared s shareTopic mb qos =
     (case share_parts shareTopic of
        None \<Rightarrow>
          s\<lparr>subscriptions := gm_set (subscriptions s) shareTopic
              (gm_get0 [] (subscriptions s) shareTopic @ [\<lparr>sub_Mailbox = mb, sub_QoS = qos\<rparr>])\<rparr>
      | Some (grp, actualTopic) \<Rightarrow>
          (let groupKey = group_key grp actualTopic;
               sharedSub = (case gm_get (sharedSubscriptions s) groupKey of
                   Some sh \<Rightarrow> sh
                 | None \<Rightarrow> \<lparr>sh_Group = grp, sh_Topic = actualTopic, sh_Mailboxes = [], sh_NextIndex = 0\<rparr>)
           in s\<lparr>sharedSubscriptions := gm_set (sharedSubscriptions s) groupKey
                  (sharedSub\<lparr>sh_Mailboxes := addOrUpdateSubscription (sh_Mailboxes sharedSub) mb qos\<rparr>)\<rparr>))"

definition Subscribe :: "Store \<Rightarrow> string \<Rightarrow> mailbox \<Rightarrow> byte \<Rightarrow> Store" where
  "Subscribe s topic mb qos =
     (if has_prefix topic share_prefix then subscribeShared s topic mb qos
      else s\<lparr>subscriptions := gm_set (subscriptions s) topic
               (addOrUpdateSubscription (gm_get0 [] (subscriptions s) topic) mb qos)\<rparr>)"

text \<open>The subscribers that stay when a mailbox leaves.\<close>

definition drop_mailbox :: "mailbox \<Rightarrow> Subscription list \<Rightarrow> Subscription list" where
  "drop_mailbox mb subs = filter (\<lambda>sub. sub_Mailbox sub \<noteq> mb) subs"

definition unsubscribe_regular :: "Store \<Rightarrow> string \<Rightarrow> mailbox \<Rightarrow> Store" where
  "unsubscribe_regular s topic mb =
     (case gm_get (subscriptions s) topic of
        None \<Rightarrow> s
      | Some subscribers \<Rightarrow>
          (let newSubscribers = drop_mailbox mb subscribers
           in if length newSubscribers > 0
              then s\<lparr>subscriptions := gm_set (subscriptions s) topic newSubscribers\<rparr>
              else s\<lparr>subscriptions := gm_del (subscriptions s) topic\<rparr>))"

text \<open>What becomes of a shared subscription when a mailbox leaves: nothing is left of an empty one.\<close>

definition shrink_shared :: "mailbox \<Rightarrow> SharedSubscription \<Rightarrow> SharedSubscription option" where
  "shrink_shared mb sharedSub =
     (let newMailboxes = drop_mailbox mb (sh_Mailboxes sharedSub)
      in if length newMailboxes > 0
         then Some (sharedSub\<lparr>sh_Mailboxes := newMailboxes,
                sh_NextIndex := if sh_NextIndex sharedSub \<ge> length newMailboxes then 0
                                else sh_NextIndex sharedSub\<rparr>)
         else None)"

definition unsubscribeShared :: "Store \<Rightarrow> string \<Rightarrow> mailbox \<Rightarrow> Store" where
  "unsubscribeShared s shareTopic mb =
     (case share_parts shareTopic of
        None \<Rightarrow> unsubscribe_regular s shareTopic mb
      | Some (grp, actualTopic) \<Rightarrow>
          (let groupKey = group_key grp actualTopic
           in case gm_get (sharedSubscriptions s) groupKey of
                None \<Rightarrow> s
              | Some sharedSub \<Rightarrow>
                  (case shrink_shared mb sharedSub of
                     Some sh \<Rightarrow> s\<lparr>sharedSubscriptions := gm_set (sharedSubscriptions s) groupKey sh\<rparr>
                   | None \<Rightarrow> s\<lparr>sharedSubscriptions := gm_del (sharedSubscriptions s) groupKey\<rparr>)))"

definition Unsubscribe :: "Store \<Rightarrow> string \<Rightarrow> mailbox \<Rightarrow> Store" where
  "Unsubscribe s topic mb =
     (if has_prefix topic share_prefix then unsubscribeShared s topic mb
      else unsubscribe_regular s topic mb)"

text \<open>
  One pass over the shared subscriptions: a matching group gives the member its index points
  at and moves the index on. An index beyond the member list is Go's index panic.
\<close>

fun getSharedSubscribersForTopic ::
    "string \<Rightarrow> (string, SharedSubscription) gomap
      \<Rightarrow> (unit, Subscription list \<times> (string, SharedSubscription) gomap) go" where
  "getSharedSubscribersForTopic topic [] = Ok ([], [])"
| "getSharedSubscribersForTopic topic ((key, sharedSub) # rest) =
     (if matchesTopicFilter topic (sh_Topic sharedSub) \<and> length (sh_Mailboxes sharedSub) > 0
      then if sh_NextIndex sharedSub < length (sh_Mailboxes sharedSub)
           then go_bind (getSharedSubscribersForTopic topic rest) (\<lambda>(selectedSubs, rest').
                  Ok (sh_Mailboxes sharedSub ! sh_NextIndex sharedSub # selectedSubs,
                      (key, sharedSub\<lparr>sh_NextIndex :=
                          (sh_NextIndex sharedSub + 1) mod length (sh_Mailboxes sharedSub)\<rparr>) # rest'))
           else Panic
      else go_bind (getSharedSubscribersForTopic topic rest) (\<lambda>(selectedSubs, rest').
             Ok (selectedSubs, (key, sharedSub) # rest')))"

definition regular_subscribers :: "Store \<Rightarrow> string \<Rightarrow> Subscription list" where
  "regular_subscribers s topic =
     concat (map snd (filter (\<lambda>(subTopic, subs). matchesTopicFilter topic subTopic) (subscriptions s)))"

definition GetSubscribers :: "Store \<Rightarrow> string \<Rightarrow> (unit, Subscription list \<times> Store) go" where
  "GetSubscribers s topic =
     go_bind (getSharedSubscribersForTopic topic (sharedSubscriptions s)) (\<lambda>(sharedSubs, shared').
       Ok (regular_subscribers s topic @ sharedSubs, s\<lparr>sharedSubscriptions := shared'\<rparr>))"

text \<open>
  \<open>RemoveAllSubscriptions\<close>: a \<open>nil\<close> mailbox changes nothing; otherwise one pass over each map,
  and the regular filters that lost the mailbox are reported.
\<close>

definition remove_from_list :: "mailbox \<Rightarrow> Subscription list \<Rightarrow> Subscription list option" where
  "remove_from_list mb subs =
     (let updated = drop_mailbox mb subs
      in if length updated = length subs then Some subs
         else if length updated > 0 then Some updated else None)"

definition remove_from_shared :: "mailbox \<Rightarrow> SharedSubscription \<Rightarrow> SharedSubscription option" where
  "remove_from_shared mb sharedSub =
     (if length (drop_mailbox mb (sh_Mailboxes sharedSub)) = length (sh_Mailboxes sharedSub)
      then Some sharedSub else shrink_shared mb sharedSub)"

definition RemoveAllSubscriptions :: "Store \<Rightarrow> mailbox option \<Rightarrow> Store \<times> string list" where
  "RemoveAllSubscriptions s mbo =
     (case mbo of
        None \<Rightarrow> (s, [])
      | Some mb \<Rightarrow>
          (s\<lparr>subscriptions := gm_filter_map (\<lambda>_ subs. remove_from_list mb subs) (subscriptions s),
             sharedSubscriptions :=
               gm_filter_map (\<lambda>_ sh. remove_from_shared mb sh) (sharedSubscriptions s)\<rparr>,
           map fst (filter (\<lambda>(topic, subs). length (drop_mailbox mb subs) \<noteq> length subs)
             (subscriptions s))))"

section \<open>The matcher decides the reference relation\<close>

lemma matches_loop_mqtt:
  "i \<le> length fs \<Longrightarrow> i \<le> length ts \<Longrightarrow> matches_loop ts fs i \<longleftrightarrow> mqtt_match (drop i ts) (drop i fs)"
proof (induction ts fs i rule: matches_loop.induct)
  case (1 ts fs i)
  show ?case
  proof (cases "i < length fs")
    case False
    with 1 have "i = length fs" by simp
    with 1 show ?thesis by (subst matches_loop.simps) auto
  next
    case f: True
    then have fs: "drop i fs = fs ! i # drop (Suc i) fs" by (simp add: Cons_nth_drop_Suc)
    have last: "drop (Suc i) fs = [] \<longleftrightarrow> i = length fs - 1" using f by auto
    show ?thesis
    proof (cases "i < length ts")
      case False
      with 1 f fs last show ?thesis by (subst matches_loop.simps) auto
    next
      case t: True
      then have ts: "drop i ts = ts ! i # drop (Suc i) ts" by (simp add: Cons_nth_drop_Suc)
      show ?thesis
        using 1 f t last by (subst matches_loop.simps) (auto simp: fs ts)
    qed
  qed
qed

lemma matchesTopicFilter_iff:
  "matchesTopicFilter topic flt \<longleftrightarrow> mqtt_match (levels topic) (levels flt)"
  by (simp add: matchesTopicFilter_def matches_loop_mqtt)

interpretation store_matcher: total_matcher matchesTopicFilter
  by unfold_locales (simp add: matchesTopicFilter_iff)

section \<open>Shared topics\<close>

lemma share_parts_Some:
  assumes "share_parts f = Some (g, t)" and "has_prefix f share_prefix"
  shows "f = share_prefix @ g @ ''/'' @ t" and "CHR ''/'' \<notin> set g"
proof -
  obtain r where f: "f = ''$share'' @ CHR ''/'' # r"
    using assms(2) by (auto simp: has_prefix_iff)
  have sp: "go_splitn (CHR ''/'') 3 f = ''$share'' # go_splitn (CHR ''/'') 2 r"
    unfolding f numeral_3_eq_3 numeral_2_eq_2 by (rule go_splitn_append_sep) simp
  then have slash: "CHR ''/'' \<in> set r" and g: "g = takeWhile (\<lambda>x. x \<noteq> CHR ''/'') r"
    and t: "t = tl (dropWhile (\<lambda>x. x \<noteq> CHR ''/'') r)"
    using assms(1) by (auto simp: share_parts_def numeral_2_eq_2 split: if_splits)
  then show "CHR ''/'' \<notin> set g" by (auto dest: set_takeWhileD)
  have "dropWhile (\<lambda>x. x \<noteq> CHR ''/'') r = CHR ''/'' # t"
  proof (cases "dropWhile (\<lambda>x. x \<noteq> CHR ''/'') r")
    case Nil
    with slash show ?thesis by (auto simp: dropWhile_eq_Nil_conv)
  next
    case (Cons a as)
    then have "a = CHR ''/''" using hd_dropWhile [of "\<lambda>x. x \<noteq> CHR ''/''" r] by simp
    with Cons t show ?thesis by simp
  qed
  then have "r = g @ CHR ''/'' # t" using g by (metis takeWhile_dropWhile_id)
  then show "f = share_prefix @ g @ ''/'' @ t" using f by simp
qed

lemma share_parts_share:
  "CHR ''/'' \<notin> set g \<Longrightarrow> share_parts (share_prefix @ g @ ''/'' @ t) = Some (g, t)"
proof -
  assume g: "CHR ''/'' \<notin> set g"
  have "go_splitn (CHR ''/'') 3 (''$share'' @ CHR ''/'' # g @ CHR ''/'' # t)
      = ''$share'' # go_splitn (CHR ''/'') (Suc (Suc 0)) (g @ CHR ''/'' # t)"
    unfolding numeral_3_eq_3 by (rule go_splitn_append_sep) simp
  also have "go_splitn (CHR ''/'') (Suc (Suc 0)) (g @ CHR ''/'' # t) = g # go_splitn (CHR ''/'') (Suc 0) t"
    by (rule go_splitn_append_sep) (rule g)
  finally show ?thesis by (simp add: share_parts_def)
qed

lemma group_key_inject:
  assumes "CHR ''/'' \<notin> set g" and "CHR ''/'' \<notin> set g'"
  shows "group_key g t = group_key g' t' \<longleftrightarrow> g = g' \<and> t = t'"
proof
  assume eq: "group_key g t = group_key g' t'"
  have split: "takeWhile (\<lambda>x. x \<noteq> CHR ''/'') (group_key h u) = h" if "CHR ''/'' \<notin> set h" for h u
    using that by (auto simp: group_key_def takeWhile_append)
  from eq have "g = g'" using split [OF assms(1), of t] split [OF assms(2), of t'] by simp
  with eq show "g = g' \<and> t = t'" by (simp add: group_key_def)
qed simp

section \<open>The invariant\<close>

definition shared_ok :: "string \<Rightarrow> SharedSubscription \<Rightarrow> bool" where
  "shared_ok key sh \<longleftrightarrow>
     key = group_key (sh_Group sh) (sh_Topic sh) \<and> CHR ''/'' \<notin> set (sh_Group sh) \<and>
     sh_Mailboxes sh \<noteq> [] \<and> distinct (map sub_Mailbox (sh_Mailboxes sh)) \<and>
     sh_NextIndex sh < length (sh_Mailboxes sh)"

definition regular_ok :: "string \<Rightarrow> Subscription list \<Rightarrow> bool" where
  "regular_ok topic subs \<longleftrightarrow>
     subs \<noteq> [] \<and> (\<not> has_prefix topic share_prefix \<longrightarrow> distinct (map sub_Mailbox subs)) \<and>
     (has_prefix topic share_prefix \<longrightarrow> share_parts topic = None)"

definition store_inv :: "Store \<Rightarrow> bool" where
  "store_inv s \<longleftrightarrow>
     gm_wf (subscriptions s) \<and> gm_wf (sharedSubscriptions s) \<and>
     (\<forall>topic subs. gm_get (subscriptions s) topic = Some subs \<longrightarrow> regular_ok topic subs) \<and>
     (\<forall>key sh. gm_get (sharedSubscriptions s) key = Some sh \<longrightarrow> shared_ok key sh)"

lemma store_invD:
  assumes "store_inv s"
  shows "gm_wf (subscriptions s)" "gm_wf (sharedSubscriptions s)"
    and "gm_get (subscriptions s) topic = Some subs \<Longrightarrow> regular_ok topic subs"
    and "gm_get (sharedSubscriptions s) key = Some sh \<Longrightarrow> shared_ok key sh"
  using assms by (auto simp: store_inv_def)

lemma mailboxes_addOrUpdate:
  "set (map sub_Mailbox (addOrUpdateSubscription subs mb q)) = insert mb (set (map sub_Mailbox subs))"
  by (induction subs mb q rule: addOrUpdateSubscription.induct) auto

lemma distinct_addOrUpdate:
  "distinct (map sub_Mailbox subs) \<Longrightarrow> distinct (map sub_Mailbox (addOrUpdateSubscription subs mb q))"
proof (induction subs mb q rule: addOrUpdateSubscription.induct)
  case (2 e subs mb q)
  then show ?case using mailboxes_addOrUpdate [of subs mb q] by auto
qed simp

lemma addOrUpdate_not_Nil [simp]: "addOrUpdateSubscription subs mb q \<noteq> []"
  by (cases subs) auto

lemma length_addOrUpdate: "length subs \<le> length (addOrUpdateSubscription subs mb q)"
  by (induction subs) auto

lemma distinct_drop_mailbox:
  "distinct (map sub_Mailbox subs) \<Longrightarrow> distinct (map sub_Mailbox (drop_mailbox mb subs))"
  by (simp add: drop_mailbox_def distinct_map_filter)

lemma drop_mailbox_same: "length (drop_mailbox mb subs) = length subs \<longleftrightarrow> drop_mailbox mb subs = subs"
proof -
  have "length (filter P xs) = length xs \<longleftrightarrow> filter P xs = xs" for P and xs :: "Subscription list"
    by (metis filter_id_conv length_filter_less less_irrefl)
  then show ?thesis by (simp add: drop_mailbox_def)
qed

lemma remove_from_list_eq:
  "subs \<noteq> [] \<Longrightarrow> remove_from_list mb subs =
     (if drop_mailbox mb subs = [] then None else Some (drop_mailbox mb subs))"
  by (auto simp: remove_from_list_def drop_mailbox_same Let_def)

lemma remove_from_shared_eq:
  "shared_ok key sh \<Longrightarrow> remove_from_shared mb sh = shrink_shared mb sh"
  by (auto simp: remove_from_shared_def shrink_shared_def shared_ok_def drop_mailbox_same Let_def)

lemma shrink_shared_ok: "shared_ok key sh \<Longrightarrow> shrink_shared mb sh = Some sh' \<Longrightarrow> shared_ok key sh'"
  by (auto simp: shrink_shared_def shared_ok_def distinct_drop_mailbox Let_def split: if_splits)

lemma regular_ok_drop:
  "regular_ok topic subs \<Longrightarrow> drop_mailbox mb subs \<noteq> [] \<Longrightarrow> regular_ok topic (drop_mailbox mb subs)"
  by (simp add: regular_ok_def distinct_drop_mailbox)

lemma regular_ok_default:
  assumes "store_inv s" and "\<not> has_prefix topic share_prefix"
  shows "distinct (map sub_Mailbox (gm_get0 [] (subscriptions s) topic))"
  using store_invD(3) [OF assms(1)] assms(2)
  by (auto simp: gm_get0_def regular_ok_def split: option.splits)

lemma store_inv_NewStore: "store_inv NewStore"
  by (simp add: store_inv_def NewStore_def)

lemma shared_ok_addOrUpdate:
  "shared_ok key sh \<Longrightarrow>
     shared_ok key (sh\<lparr>sh_Mailboxes := addOrUpdateSubscription (sh_Mailboxes sh) mb q\<rparr>)"
  using length_addOrUpdate [of "sh_Mailboxes sh" mb q]
  by (auto simp: shared_ok_def distinct_addOrUpdate)

lemma store_inv_subscribeShared:
  assumes inv: "store_inv s" and pre: "has_prefix f share_prefix"
  shows "store_inv (subscribeShared s f mb q)"
proof (cases "share_parts f")
  case None
  with inv pre show ?thesis
    by (auto simp: store_inv_def subscribeShared_def regular_ok_def)
next
  case (Some p)
  obtain g t where p: "p = (g, t)" by (cases p)
  have g: "CHR ''/'' \<notin> set g" using share_parts_Some [OF Some [unfolded p] pre] by simp
  show ?thesis
    using inv shared_ok_addOrUpdate g
    by (auto simp: store_inv_def subscribeShared_def Some p Let_def shared_ok_def split: option.splits)
qed

lemma store_inv_Subscribe:
  assumes "store_inv s" shows "store_inv (Subscribe s f mb q)"
proof (cases "has_prefix f share_prefix")
  case True
  with assms show ?thesis by (simp add: Subscribe_def store_inv_subscribeShared)
next
  case False
  with assms regular_ok_default [OF assms False] show ?thesis
    by (auto simp: Subscribe_def store_inv_def regular_ok_def distinct_addOrUpdate)
qed

lemma store_inv_unsubscribe_regular: "store_inv s \<Longrightarrow> store_inv (unsubscribe_regular s f mb)"
  by (auto simp: unsubscribe_regular_def store_inv_def Let_def regular_ok_drop split: option.splits)

lemma store_inv_update_shared:
  assumes "store_inv s"
  shows "shared_ok key sh \<Longrightarrow> store_inv (s\<lparr>sharedSubscriptions := gm_set (sharedSubscriptions s) key sh\<rparr>)"
    and "store_inv (s\<lparr>sharedSubscriptions := gm_del (sharedSubscriptions s) key\<rparr>)"
  using assms by (auto simp: store_inv_def)

lemma store_inv_unsubscribeShared:
  assumes "store_inv s" shows "store_inv (unsubscribeShared s f mb)"
  using assms
  by (auto simp: unsubscribeShared_def store_inv_unsubscribe_regular Let_def split: option.splits
      intro!: store_inv_update_shared intro: shrink_shared_ok store_invD(4))

lemma store_inv_Unsubscribe: "store_inv s \<Longrightarrow> store_inv (Unsubscribe s f mb)"
  by (simp add: Unsubscribe_def store_inv_unsubscribeShared store_inv_unsubscribe_regular)

lemma store_inv_RemoveAll:
  assumes "store_inv s" shows "store_inv (fst (RemoveAllSubscriptions s mbo))"
proof (cases mbo)
  case None
  with assms show ?thesis by (simp add: RemoveAllSubscriptions_def)
next
  case (Some mb)
  note inv = store_invD [OF assms]
  have reg: "regular_ok topic subs'"
    if "gm_get (subscriptions s) topic = Some subs" "remove_from_list mb subs = Some subs'"
    for topic subs subs'
    using that inv(3) [OF that(1)] regular_ok_drop
    by (auto simp: remove_from_list_eq regular_ok_def split: if_splits)
  have sh: "shared_ok key sh'"
    if "gm_get (sharedSubscriptions s) key = Some sh" "remove_from_shared mb sh = Some sh'"
    for key sh sh'
    using that inv(4) [OF that(1)] shrink_shared_ok by (auto simp: remove_from_shared_eq)
  show ?thesis
    using reg sh by (auto simp: RemoveAllSubscriptions_def Some store_inv_def inv(1,2) split: option.splits)
qed

section \<open>The subscription table as an abstract map\<close>

text \<open>
  What a store promises its clients: a partial map from a topic filter, as the client spelled it,
  and a mailbox to the granted QoS.
\<close>

fun lookup_sub :: "mailbox \<Rightarrow> Subscription list \<Rightarrow> byte option" where
  "lookup_sub mb [] = None"
| "lookup_sub mb (sub # subs) = (if sub_Mailbox sub = mb then Some (sub_QoS sub) else lookup_sub mb subs)"

definition shared_topic :: "string \<Rightarrow> (string \<times> string) option" where
  "shared_topic f = (if has_prefix f share_prefix then share_parts f else None)"

definition malformed_share :: "string \<Rightarrow> bool" where
  "malformed_share f \<longleftrightarrow> has_prefix f share_prefix \<and> share_parts f = None"

definition subscribers_of :: "Store \<Rightarrow> string \<Rightarrow> Subscription list" where
  "subscribers_of s f =
     (case shared_topic f of
        None \<Rightarrow> gm_get0 [] (subscriptions s) f
      | Some (g, t) \<Rightarrow>
          (case gm_get (sharedSubscriptions s) (group_key g t) of
             None \<Rightarrow> [] | Some sh \<Rightarrow> sh_Mailboxes sh))"

definition subscribed :: "Store \<Rightarrow> string \<Rightarrow> mailbox \<Rightarrow> byte option" where
  "subscribed s f mb = lookup_sub mb (subscribers_of s f)"

lemma lookup_addOrUpdate [simp]:
  "lookup_sub m (addOrUpdateSubscription subs mb q) = (if m = mb then Some q else lookup_sub m subs)"
  by (induction subs) auto

lemma lookup_drop_mailbox [simp]:
  "lookup_sub m (drop_mailbox mb subs) = (if m = mb then None else lookup_sub m subs)"
  by (induction subs) (auto simp: drop_mailbox_def)

lemma lookup_sub_mailbox: "lookup_sub mb subs \<noteq> None \<longleftrightarrow> mb \<in> sub_Mailbox ` set subs"
  by (induction subs) auto

lemma shared_topic_Some:
  assumes "shared_topic f = Some (g, t)"
  shows "f = share_prefix @ g @ ''/'' @ t" "CHR ''/'' \<notin> set g"
  using assms share_parts_Some by (auto simp: shared_topic_def split: if_splits)

lemma shared_topic_key_inject:
  assumes "shared_topic f = Some (g, t)" and "shared_topic f' = Some (g', t')"
  shows "group_key g t = group_key g' t' \<longleftrightarrow> f = f'"
proof -
  have "group_key g t = group_key g' t' \<longleftrightarrow> g = g' \<and> t = t'"
    by (rule group_key_inject) (rule shared_topic_Some [OF assms(1)] shared_topic_Some [OF assms(2)])+
  moreover have "f = f' \<longleftrightarrow> g = g' \<and> t = t'"
  proof
    assume "f = f'"
    with assms show "g = g' \<and> t = t'" by simp
  next
    assume eq: "g = g' \<and> t = t'"
    show "f = f'" unfolding shared_topic_Some(1) [OF assms(1)] shared_topic_Some(1) [OF assms(2)]
      using eq by simp
  qed
  ultimately show ?thesis by simp
qed

lemma shared_topic_None_regular:
  "shared_topic f = None \<Longrightarrow> \<not> malformed_share f \<Longrightarrow> \<not> has_prefix f share_prefix"
  by (auto simp: shared_topic_def malformed_share_def split: if_splits)

lemma subscribers_of_Subscribe:
  assumes "\<not> malformed_share f"
  shows "subscribers_of (Subscribe s f mb q) f' =
     (if f' = f then addOrUpdateSubscription (subscribers_of s f) mb q else subscribers_of s f')"
proof (cases "shared_topic f")
  case None
  then have "\<not> has_prefix f share_prefix" using assms by (rule shared_topic_None_regular)
  with None show ?thesis
    by (auto simp: Subscribe_def subscribers_of_def gm_get0_def split: option.splits)
next
  case (Some p)
  obtain g t where p: "p = (g, t)" by (cases p)
  have sh: "has_prefix f share_prefix" "share_parts f = Some (g, t)"
    using Some p by (auto simp: shared_topic_def split: if_splits)
  show ?thesis
  proof (cases "shared_topic f'")
    case None
    with Some sh show ?thesis
      by (auto simp: Subscribe_def subscribeShared_def subscribers_of_def Let_def)
  next
    case (Some p')
    obtain g' t' where p': "p' = (g', t')" by (cases p')
    have "group_key g' t' = group_key g t \<longleftrightarrow> f' = f"
      using shared_topic_key_inject Some p' \<open>shared_topic f = Some p\<close> p by blast
    with sh Some p' show ?thesis
      by (auto simp: Subscribe_def subscribeShared_def subscribers_of_def Let_def shared_topic_def
          split: option.splits)
  qed
qed

lemma unsubscribe_regular_shared [simp]:
  "sharedSubscriptions (unsubscribe_regular s f mb) = sharedSubscriptions s"
  by (auto simp: unsubscribe_regular_def Let_def split: option.splits)

lemma unsubscribe_regular_subs:
  "gm_get0 [] (subscriptions (unsubscribe_regular s f mb)) f' =
     (if f' = f then drop_mailbox mb (gm_get0 [] (subscriptions s) f) else gm_get0 [] (subscriptions s) f')"
  by (auto simp: unsubscribe_regular_def gm_get0_def Let_def drop_mailbox_def split: option.splits)

lemma subscribers_of_Unsubscribe:
  "subscribers_of (Unsubscribe s f mb) f' =
     (if f' = f then drop_mailbox mb (subscribers_of s f) else subscribers_of s f')"
proof (cases "shared_topic f")
  case None
  then have "Unsubscribe s f mb = unsubscribe_regular s f mb"
    by (auto simp: Unsubscribe_def unsubscribeShared_def shared_topic_def split: if_splits)
  with None show ?thesis
    by (auto simp: subscribers_of_def unsubscribe_regular_subs split: option.splits)
next
  case (Some p)
  obtain g t where p: "p = (g, t)" by (cases p)
  have sh: "has_prefix f share_prefix" "share_parts f = Some (g, t)"
    using Some p by (auto simp: shared_topic_def split: if_splits)
  show ?thesis
  proof (cases "shared_topic f'")
    case None
    with Some sh show ?thesis
      by (auto simp: Unsubscribe_def unsubscribeShared_def subscribers_of_def Let_def split: option.splits)
  next
    case (Some p')
    obtain g' t' where p': "p' = (g', t')" by (cases p')
    have "group_key g' t' = group_key g t \<longleftrightarrow> f' = f"
      using shared_topic_key_inject Some p' \<open>shared_topic f = Some p\<close> p by blast
    with sh Some p' show ?thesis
      by (auto simp: Unsubscribe_def unsubscribeShared_def subscribers_of_def Let_def shared_topic_def
          shrink_shared_def drop_mailbox_def split: option.splits if_splits)
  qed
qed

lemma subscribers_of_RemoveAll:
  assumes inv: "store_inv s"
  shows "subscribers_of (fst (RemoveAllSubscriptions s (Some mb))) f = drop_mailbox mb (subscribers_of s f)"
proof (cases "shared_topic f")
  case None
  with store_invD [OF inv] show ?thesis
    by (auto simp: subscribers_of_def RemoveAllSubscriptions_def gm_get0_def remove_from_list_eq
        regular_ok_def drop_mailbox_def split: option.splits)
next
  case (Some p)
  have eq: "remove_from_shared mb sh = shrink_shared mb sh"
    if "gm_get (sharedSubscriptions s) key = Some sh" for key sh
    using store_invD(4) [OF inv that] by (rule remove_from_shared_eq)
  show ?thesis
    by (auto simp: subscribers_of_def RemoveAllSubscriptions_def eq store_invD(1,2) [OF inv] Some
        shrink_shared_def drop_mailbox_def Let_def split: option.splits prod.splits if_splits)
qed

section \<open>Retrieving subscribers\<close>

definition chosen :: "SharedSubscription \<Rightarrow> Subscription" where
  "chosen sh = sh_Mailboxes sh ! sh_NextIndex sh"

definition advance :: "string \<Rightarrow> SharedSubscription \<Rightarrow> SharedSubscription" where
  "advance topic sh =
     (if matchesTopicFilter topic (sh_Topic sh)
      then sh\<lparr>sh_NextIndex := Suc (sh_NextIndex sh) mod length (sh_Mailboxes sh)\<rparr> else sh)"

lemma advance_simps [simp]:
  "sh_Group (advance topic sh) = sh_Group sh" "sh_Topic (advance topic sh) = sh_Topic sh"
  "sh_Mailboxes (advance topic sh) = sh_Mailboxes sh"
  by (simp_all add: advance_def)

lemma getShared_eq:
  "\<forall>(k, sh) \<in> set m. sh_NextIndex sh < length (sh_Mailboxes sh) \<Longrightarrow>
   getSharedSubscribersForTopic topic m =
     Ok (map (\<lambda>(k, sh). chosen sh) (filter (\<lambda>(k, sh). matchesTopicFilter topic (sh_Topic sh)) m),
         map (\<lambda>(k, sh). (k, advance topic sh)) m)"
proof (induction m)
  case (Cons p m)
  obtain k sh where p: "p = (k, sh)" by (cases p)
  from Cons.prems p have "sh_NextIndex sh < length (sh_Mailboxes sh)" by simp
  with Cons p show ?case by (auto simp: chosen_def advance_def)
qed simp

lemma store_inv_entries:
  assumes "store_inv s"
  shows "\<forall>(k, sh) \<in> set (sharedSubscriptions s). shared_ok k sh"
  using store_invD(4) [OF assms] gm_get_iff [OF store_invD(2) [OF assms]] by blast

lemma store_inv_indices:
  assumes "store_inv s"
  shows "\<forall>(k, sh) \<in> set (sharedSubscriptions s). sh_NextIndex sh < length (sh_Mailboxes sh)"
  using store_inv_entries [OF assms] by (auto simp: shared_ok_def)

definition shared_choice :: "Store \<Rightarrow> string \<Rightarrow> Subscription list" where
  "shared_choice s topic = map (\<lambda>(k, sh). chosen sh)
     (filter (\<lambda>(k, sh). matchesTopicFilter topic (sh_Topic sh)) (sharedSubscriptions s))"

definition after_publish :: "Store \<Rightarrow> string \<Rightarrow> Store" where
  "after_publish s topic =
     s\<lparr>sharedSubscriptions := map (\<lambda>(k, sh). (k, advance topic sh)) (sharedSubscriptions s)\<rparr>"

lemma GetSubscribers_eq:
  "store_inv s \<Longrightarrow>
     GetSubscribers s topic = Ok (regular_subscribers s topic @ shared_choice s topic, after_publish s topic)"
  by (simp add: GetSubscribers_def getShared_eq store_inv_indices shared_choice_def after_publish_def)

lemma gm_get_map_advance:
  "gm_get (map (\<lambda>(k, sh). (k, f sh)) m) key = map_option f (gm_get m key)"
  by (induction m) auto

lemma shared_ok_advance: "shared_ok k sh \<Longrightarrow> shared_ok k (advance topic sh)"
  by (auto simp: shared_ok_def advance_def)

lemma store_inv_after_publish: "store_inv s \<Longrightarrow> store_inv (after_publish s topic)"
  by (auto simp: store_inv_def after_publish_def gm_get_map_advance shared_ok_advance comp_def
      case_prod_beta)

lemma subscribers_of_after_publish: "subscribers_of (after_publish s topic) f = subscribers_of s f"
  by (auto simp: subscribers_of_def after_publish_def gm_get_map_advance split: option.splits)

lemma regular_subscribers_after_publish:
  "regular_subscribers (after_publish s topic) topic' = regular_subscribers s topic'"
  by (simp add: regular_subscribers_def after_publish_def)

lemma set_regular_subscribers:
  assumes inv: "store_inv s"
  shows "sub \<in> set (regular_subscribers s topic) \<longleftrightarrow>
    (\<exists>f. shared_topic f = None \<and> mqtt_match (levels topic) (levels f) \<and> sub \<in> set (subscribers_of s f))"
proof -
  note wf = store_invD(1) [OF inv]
  have sh: "shared_topic f = None" if "gm_get (subscriptions s) f = Some subs" for f subs
    using store_invD(3) [OF inv that] by (simp add: regular_ok_def shared_topic_def)
  have "sub \<in> set (regular_subscribers s topic) \<longleftrightarrow>
      (\<exists>f subs. gm_get (subscriptions s) f = Some subs \<and> mqtt_match (levels topic) (levels f) \<and> sub \<in> set subs)"
    by (auto simp: regular_subscribers_def matchesTopicFilter_iff gm_get_iff [OF wf])
  moreover have "shared_topic f = None \<and> sub \<in> set (subscribers_of s f) \<longleftrightarrow>
      (\<exists>subs. gm_get (subscriptions s) f = Some subs \<and> sub \<in> set subs)" for f
    using sh [of f] by (cases "gm_get (subscriptions s) f"; cases "shared_topic f")
      (auto simp: subscribers_of_def gm_get0_def)
  ultimately show ?thesis by blast
qed

lemma set_shared_choice:
  assumes inv: "store_inv s"
  shows "sub \<in> set (shared_choice s topic) \<longleftrightarrow>
    (\<exists>key sh. gm_get (sharedSubscriptions s) key = Some sh \<and>
       mqtt_match (levels topic) (levels (sh_Topic sh)) \<and> sub = chosen sh)"
  using gm_get_iff [OF store_invD(2) [OF inv]]
  by (auto simp: shared_choice_def matchesTopicFilter_iff)

section \<open>The interface of the subscription table\<close>

text \<open>
  The contract the broker relies on: subscribing, unsubscribing and removing a mailbox change
  exactly the entries they name, and every operation keeps the table's invariant.
\<close>

locale subscription_table =
  fixes new :: 's
    and inv :: "'s \<Rightarrow> bool"
    and accepts :: "string \<Rightarrow> bool"
    and subscribe :: "'s \<Rightarrow> string \<Rightarrow> mailbox \<Rightarrow> byte \<Rightarrow> 's"
    and unsubscribe :: "'s \<Rightarrow> string \<Rightarrow> mailbox \<Rightarrow> 's"
    and remove_all :: "'s \<Rightarrow> mailbox \<Rightarrow> 's"
    and look :: "'s \<Rightarrow> string \<Rightarrow> mailbox \<Rightarrow> byte option"
  assumes inv_new: "inv new"
    and inv_subscribe: "inv s \<Longrightarrow> inv (subscribe s f mb q)"
    and inv_unsubscribe: "inv s \<Longrightarrow> inv (unsubscribe s f mb)"
    and inv_remove_all: "inv s \<Longrightarrow> inv (remove_all s mb)"
    and look_new: "look new f mb = None"
    and look_subscribe: "inv s \<Longrightarrow> accepts f \<Longrightarrow>
          look (subscribe s f mb q) f' mb' = (if f' = f \<and> mb' = mb then Some q else look s f' mb')"
    and look_unsubscribe: "inv s \<Longrightarrow>
          look (unsubscribe s f mb) f' mb' = (if f' = f \<and> mb' = mb then None else look s f' mb')"
    and look_remove_all: "inv s \<Longrightarrow>
          look (remove_all s mb) f mb' = (if mb' = mb then None else look s f mb')"
begin

text \<open>The loop that subscribes a mailbox to a list of filters (session restoration).\<close>

lemma inv_subscribe_list: "inv s \<Longrightarrow> inv (foldl (\<lambda>s (f, q). subscribe s f mb q) s subs)"
  by (induction subs arbitrary: s) (auto simp: inv_subscribe)

lemma look_subscribe_list:
  "inv s \<Longrightarrow> distinct (map fst subs) \<Longrightarrow> \<forall>(f, q) \<in> set subs. accepts f \<Longrightarrow>
   look (foldl (\<lambda>s (f, q). subscribe s f mb q) s subs) f mb' =
     (if mb' = mb \<and> f \<in> fst ` set subs then map_of subs f else look s f mb')"
proof (induction subs arbitrary: s)
  case (Cons p subs)
  obtain f0 q0 where p: "p = (f0, q0)" by (cases p)
  from Cons.prems p have "inv (subscribe s f0 mb q0)" by (simp add: inv_subscribe)
  note IH = Cons.IH [OF this]
  show ?case using Cons.prems p IH by (auto simp: look_subscribe rev_image_eqI)
qed simp

lemma takeover:
  assumes "inv s" and "distinct (map fst subs)" and "\<forall>(f, q) \<in> set subs. accepts f"
    and "\<And>f. look s f new_mb = None" and "old \<noteq> new_mb"
  defines "s' \<equiv> foldl (\<lambda>s (f, q). subscribe s f new_mb q) (remove_all s old) subs"
  shows "look s' f new_mb = map_of subs f" and "look s' f old = None"
    and "mb \<noteq> old \<Longrightarrow> mb \<noteq> new_mb \<Longrightarrow> look s' f mb = look s f mb"
proof -
  note L = look_subscribe_list [OF inv_remove_all [OF assms(1), of old] assms(2,3)]
  have "map_of subs f = None" if "f \<notin> fst ` set subs"
    using that by (simp add: map_of_eq_None_iff)
  then show "look s' f new_mb = map_of subs f" "look s' f old = None"
    using assms(1,4,5) by (auto simp: s'_def L look_remove_all)
  show "look s' f mb = look s f mb" if "mb \<noteq> old" "mb \<noteq> new_mb"
    using that assms(1) by (simp add: s'_def L look_remove_all)
qed

end

interpretation topics: subscription_table NewStore store_inv "\<lambda>f. \<not> malformed_share f" Subscribe
    Unsubscribe "\<lambda>s mb. fst (RemoveAllSubscriptions s (Some mb))" subscribed
proof unfold_locales
  show "subscribed NewStore f mb = None" for f mb
    by (simp add: subscribed_def subscribers_of_def NewStore_def split: option.splits)
qed (simp_all add: store_inv_NewStore store_inv_Subscribe store_inv_Unsubscribe store_inv_RemoveAll
      subscribed_def subscribers_of_Subscribe subscribers_of_Unsubscribe subscribers_of_RemoveAll)

section \<open>Reachable stores and round-robin rounds\<close>

inductive store_reachable :: "Store \<Rightarrow> bool" where
  reach_new: "store_reachable NewStore"
| reach_subscribe: "store_reachable s \<Longrightarrow> store_reachable (Subscribe s f mb q)"
| reach_unsubscribe: "store_reachable s \<Longrightarrow> store_reachable (Unsubscribe s f mb)"
| reach_remove_all:
    "store_reachable s \<Longrightarrow> RemoveAllSubscriptions s mbo = (s', removed) \<Longrightarrow> store_reachable s'"
| reach_get: "store_reachable s \<Longrightarrow> GetSubscribers s topic = Ok (subs, s') \<Longrightarrow> store_reachable s'"

lemma store_reachable_inv: "store_reachable s \<Longrightarrow> store_inv s"
proof (induction rule: store_reachable.induct)
  case (reach_remove_all s mbo s' removed)
  then show ?case using store_inv_RemoveAll [of s mbo] by simp
next
  case (reach_get s topic subs s')
  then show ?case using GetSubscribers_eq [of s topic] store_inv_after_publish [of s topic] by simp
qed (simp_all add: store_inv_NewStore store_inv_Subscribe store_inv_Unsubscribe)

text \<open>The subscribers of \<open>n\<close> publishes to a topic, one after the other.\<close>

fun publish_rounds :: "nat \<Rightarrow> Store \<Rightarrow> string \<Rightarrow> (unit, Subscription list list \<times> Store) go" where
  "publish_rounds 0 s topic = Ok ([], s)"
| "publish_rounds (Suc n) s topic =
     go_bind (GetSubscribers s topic) (\<lambda>(subs, s').
       go_bind (publish_rounds n s' topic) (\<lambda>(rest, s''). Ok (subs # rest, s'')))"

definition matching_groups :: "Store \<Rightarrow> string \<Rightarrow> SharedSubscription list" where
  "matching_groups s topic =
     filter (\<lambda>sh. matchesTopicFilter topic (sh_Topic sh)) (map snd (sharedSubscriptions s))"

lemma shared_choice_groups: "shared_choice s topic = map chosen (matching_groups s topic)"
  by (simp add: shared_choice_def matching_groups_def filter_map comp_def case_prod_unfold)

lemma matching_groups_after_publish:
  "matching_groups (after_publish s topic) topic = map (advance topic) (matching_groups s topic)"
proof -
  have "filter (\<lambda>sh. matchesTopicFilter topic (sh_Topic sh)) (map (advance topic) shs) =
      map (advance topic) (filter (\<lambda>sh. matchesTopicFilter topic (sh_Topic sh)) shs)" for shs
    by (induction shs) auto
  then show ?thesis
    by (simp add: matching_groups_def after_publish_def comp_def case_prod_unfold filter_map)
qed

lemma matching_groups_ok:
  "store_inv s \<Longrightarrow> sh \<in> set (matching_groups s topic) \<Longrightarrow>
     sh_NextIndex sh < length (sh_Mailboxes sh) \<and> matchesTopicFilter topic (sh_Topic sh)"
  using store_inv_indices [of s] by (auto simp: matching_groups_def)

lemma publish_rounds_single_group:
  assumes "store_inv s" and "matching_groups s topic = [sh]"
  shows "\<exists>outs s'. publish_rounds n s topic = Ok (outs, s') \<and>
     mset (concat outs) = repeat_mset n (mset (regular_subscribers s topic)) +
       mset (map (\<lambda>i. sh_Mailboxes sh ! ((sh_NextIndex sh + i) mod length (sh_Mailboxes sh))) [0..<n])"
  using assms
proof (induction n arbitrary: s sh)
  case (Suc n)
  let ?s' = "after_publish s topic"
  let ?sh' = "advance topic sh"
  let ?m = "length (sh_Mailboxes sh)"
  have ok: "sh_NextIndex sh < ?m" "matchesTopicFilter topic (sh_Topic sh)"
    using matching_groups_ok [OF Suc.prems(1), of sh topic] Suc.prems(2) by auto
  have idx: "sh_NextIndex ?sh' = Suc (sh_NextIndex sh) mod ?m"
    using ok by (simp add: advance_def)
  have "\<exists>outs s''. publish_rounds n ?s' topic = Ok (outs, s'') \<and>
     mset (concat outs) = repeat_mset n (mset (regular_subscribers ?s' topic)) +
       mset (map (\<lambda>i. sh_Mailboxes ?sh' ! ((sh_NextIndex ?sh' + i) mod length (sh_Mailboxes ?sh'))) [0..<n])"
    using Suc.prems by (intro Suc.IH) (simp_all add: store_inv_after_publish matching_groups_after_publish)
  then obtain outs s'' where r: "publish_rounds n ?s' topic = Ok (outs, s'')"
    and m: "mset (concat outs) = repeat_mset n (mset (regular_subscribers s topic)) +
       mset (map (\<lambda>i. sh_Mailboxes sh ! ((Suc (sh_NextIndex sh) mod ?m + i) mod ?m)) [0..<n])"
    by (auto simp: regular_subscribers_after_publish idx)
  have shift: "map (\<lambda>i. sh_Mailboxes sh ! ((Suc (sh_NextIndex sh) mod ?m + i) mod ?m)) [0..<n] =
      map (\<lambda>i. sh_Mailboxes sh ! ((sh_NextIndex sh + i) mod ?m)) [1..<Suc n]"
    by (simp add: mod_add_left_eq map_Suc_upt [symmetric] del: upt_Suc)
  have "[0..<Suc n] = 0 # [1..<Suc n]" by (simp add: upt_conv_Cons del: upt_Suc)
  then have "mset (map (\<lambda>i. sh_Mailboxes sh ! ((sh_NextIndex sh + i) mod ?m)) [0..<Suc n]) =
      add_mset (chosen sh) (mset (map (\<lambda>i. sh_Mailboxes sh ! ((sh_NextIndex sh + i) mod ?m)) [1..<Suc n]))"
    using ok by (simp add: chosen_def del: upt_Suc)
  with r m shift Suc.prems show ?case
    by (simp add: GetSubscribers_eq shared_choice_groups del: upt_Suc)
qed simp

lemma mset_rotate: "mset (rotate n xs) = mset xs"
  by (metis rotate_drop_take mset_append union_commute append_take_drop_id)

lemma full_rotation:
  "j < length xs \<Longrightarrow> mset (map (\<lambda>i. xs ! ((j + i) mod length xs)) [0..<length xs]) = mset xs"
proof -
  assume j: "j < length xs"
  have "map (\<lambda>i. xs ! ((j + i) mod length xs)) [0..<length xs] = rotate j xs"
    by (rule nth_equalityI) (auto simp: nth_rotate)
  then show ?thesis by (simp add: mset_rotate)
qed

section \<open>Properties\<close>




text \<open>
  (C6) On every store the operations can produce, \<open>GetSubscribers\<close> returns (its round-robin index
  never leaves the member list): every subscriber of every matching regular filter, and one
  member of every matching shared group, each once; the table itself is unchanged.
\<close>

theorem GetSubscribers_exact:
  assumes "store_reachable s"
  shows "\<exists>subs s'. GetSubscribers s topic = Ok (subs, s') \<and>
    mset subs =
      (\<Sum>(f, l) \<in># mset (subscriptions s). if mqtt_match (levels topic) (levels f) then mset l else {#}) +
      image_mset (\<lambda>(k, sh). sh_Mailboxes sh ! sh_NextIndex sh)
        (filter_mset (\<lambda>(k, sh). mqtt_match (levels topic) (levels (sh_Topic sh))) (mset (sharedSubscriptions s))) \<and>
    (\<forall>f mb. subscribed s' f mb = subscribed s f mb) \<and> store_inv s'"
proof -
  have inv: "store_inv s" using assms by (rule store_reachable_inv)
  have reg: "mset (concat (map snd (filter (\<lambda>(f, l). P f) m))) =
      (\<Sum>(f, l) \<in># mset m. if P f then mset l else {#})" for P and m :: "(string \<times> Subscription list) list"
    by (induction m) auto
  have "mset (regular_subscribers s topic @ shared_choice s topic) =
      (\<Sum>(f, l) \<in># mset (subscriptions s). if mqtt_match (levels topic) (levels f) then mset l else {#}) +
      image_mset (\<lambda>(k, sh). sh_Mailboxes sh ! sh_NextIndex sh)
        (filter_mset (\<lambda>(k, sh). mqtt_match (levels topic) (levels (sh_Topic sh))) (mset (sharedSubscriptions s)))"
    by (simp add: regular_subscribers_def shared_choice_def chosen_def matchesTopicFilter_iff reg)
  then show ?thesis
    using GetSubscribers_eq [OF inv, of topic] store_inv_after_publish [OF inv, of topic]
    by (simp add: subscribed_def subscribers_of_after_publish)
qed

theorem GetSubscribers_exact_witness:
  "\<exists>subs s'. GetSubscribers (Subscribe NewStore ''a/+'' 7 1) ''a/b'' = Ok (subs, s') \<and>
     mset subs = {#\<lparr>sub_Mailbox = 7, sub_QoS = 1\<rparr>#} \<and> store_inv s'"
proof -
  have r: "store_reachable (Subscribe NewStore ''a/+'' 7 1)" by (intro reach_subscribe reach_new)
  have st: "Subscribe NewStore ''a/+'' 7 1 =
      \<lparr>subscriptions = [(''a/+'', [\<lparr>sub_Mailbox = 7, sub_QoS = 1\<rparr>])], sharedSubscriptions = []\<rparr>"
    by (simp add: Subscribe_def NewStore_def has_prefix_def)
  from GetSubscribers_exact [OF r, of "''a/b''"] show ?thesis by (auto simp: st)
qed

text \<open>
  (C7) Shared subscriptions are fair: when one group matches a topic, as many publishes as the
  group has members reach every member exactly once (and every regular subscriber every time).
\<close>

theorem shared_group_fair:
  assumes "store_reachable s" and "matching_groups s topic = [sh]"
  shows "\<exists>outs s'. publish_rounds (length (sh_Mailboxes sh)) s topic = Ok (outs, s') \<and>
    mset (concat outs) =
      repeat_mset (length (sh_Mailboxes sh)) (mset (regular_subscribers s topic)) + mset (sh_Mailboxes sh)"
proof -
  have inv: "store_inv s" using assms(1) by (rule store_reachable_inv)
  have "sh_NextIndex sh < length (sh_Mailboxes sh)"
    using matching_groups_ok [OF inv, of sh topic] assms(2) by simp
  from full_rotation [OF this] show ?thesis
    using publish_rounds_single_group [OF inv assms(2), of "length (sh_Mailboxes sh)"] by simp
qed

theorem shared_group_fair_witness:
  "\<exists>outs s'. publish_rounds 2 (Subscribe (Subscribe NewStore ''$share/g/a'' 4 0) ''$share/g/a'' 5 0) ''a''
      = Ok (outs, s') \<and>
    mset (concat outs) = {#\<lparr>sub_Mailbox = 4, sub_QoS = 0\<rparr>, \<lparr>sub_Mailbox = 5, sub_QoS = 0\<rparr>#}"
proof -
  let ?s = "Subscribe (Subscribe NewStore ''$share/g/a'' 4 0) ''$share/g/a'' 5 0"
  let ?sh = "\<lparr>sh_Group = ''g'', sh_Topic = ''a'',
     sh_Mailboxes = [\<lparr>sub_Mailbox = 4, sub_QoS = 0\<rparr>, \<lparr>sub_Mailbox = 5, sub_QoS = 0\<rparr>], sh_NextIndex = 0\<rparr>"
  have r: "store_reachable ?s" by (intro reach_subscribe reach_new)
  have st: "?s = \<lparr>subscriptions = [], sharedSubscriptions = [(''g/a'', ?sh)]\<rparr>"
    by (simp add: Subscribe_def subscribeShared_def NewStore_def has_prefix_def share_parts_def
        group_key_def numeral_3_eq_3)
  have "matching_groups ?s ''a'' = [?sh]"
    by (simp add: matching_groups_def st matchesTopicFilter_iff)
  from shared_group_fair [OF r this] show ?thesis
    by (simp add: regular_subscribers_def st numeral_2_eq_2)
qed

end
