(* ===== verification/Mqtt_Codec.thy ===== *)
theory Mqtt_Codec
  imports Prelude
begin

unbundle bit_operations_syntax

text \<open>
  The packet parser and encoder of \<open>pkg/protocol/mqtt\<close> (\<open>types.go\<close>, \<open>parser.go\<close>). An
  \<open>io.Reader\<close> is the bytes still to be read, an \<open>io.Writer\<close> that does not fail the bytes
  written; a slice out of range is Go's panic. Integers that come from bytes keep their width:
  a length written with \<open>byte(n)\<close> is taken modulo 256, as in the code.
\<close>

section \<open>Bytes on the wire\<close>

text \<open>Go's conversion \<open>byte(n)\<close> of an int.\<close>

definition byte_of :: "nat \<Rightarrow> byte" where
  "byte_of n = word_of_nat n"

lemma unat_byte_of: "unat (byte_of n) = n mod 256"
  by (simp add: byte_of_def unat_of_nat take_bit_eq_mod)

text \<open>\<open>binary.BigEndian.Uint16\<close> and its inverse, as the code spells it.\<close>

definition be16 :: "byte \<Rightarrow> byte \<Rightarrow> uint16" where
  "be16 hi lo = word_of_nat (unat hi * 256 + unat lo)"

definition len_prefix :: "nat \<Rightarrow> byte list" where
  "len_prefix n = [byte_of (n div 256), byte_of (n mod 256)]"

definition be16_bytes :: "uint16 \<Rightarrow> byte list" where
  "be16_bytes w = [byte_of (unat w div 256), byte_of (unat w mod 256)]"

lemma unat_be16: "unat (be16 hi lo) = unat hi * 256 + unat lo"
proof -
  have "unat hi < 256" "unat lo < 256"
    by simp_all
  then have "unat hi * 256 + unat lo < 65536" by linarith
  then have "unat hi * 256 + unat lo < 2 ^ LENGTH(16)" by simp
  then show ?thesis unfolding be16_def unat_of_nat by (rule mod_less)
qed

lemma be16_len_prefix: "n < 65536 \<Longrightarrow> unat (be16 (byte_of (n div 256)) (byte_of (n mod 256))) = n"
  by (simp add: unat_be16 unat_byte_of)

lemma be16_be16_bytes: "be16 (byte_of (unat w div 256)) (byte_of (unat w mod 256)) = w"
proof -
  have "unat w < 65536" by simp
  then have "unat (be16 (byte_of (unat w div 256)) (byte_of (unat w mod 256))) = unat w"
    by (rule be16_len_prefix)
  then show ?thesis by (simp add: word_unat_eq_iff)
qed

section \<open>Packets\<close>

abbreviation (input) TypeCONNECT :: byte where "TypeCONNECT \<equiv> 1"
abbreviation (input) TypeCONNACK :: byte where "TypeCONNACK \<equiv> 2"
abbreviation (input) TypePUBLISH :: byte where "TypePUBLISH \<equiv> 3"
abbreviation (input) TypeSUBSCRIBE :: byte where "TypeSUBSCRIBE \<equiv> 8"
abbreviation (input) TypeSUBACK :: byte where "TypeSUBACK \<equiv> 9"

record FixedHeader =
  fh_PacketType :: byte
  fh_Flags :: byte
  fh_RemLength :: nat

record ConnectPacket =
  cp_ProtocolName :: string
  cp_ProtocolVersion :: byte
  cp_CleanSession :: bool
  cp_KeepAlive :: uint16
  cp_ClientID :: string

record ConnackPacket =
  ck_SessionPresent :: bool
  ck_ReturnCode :: byte

record PublishPacket =
  pp_TopicName :: string
  pp_Payload :: "byte list"

record SubscribePacket =
  sp_MessageID :: uint16
  sp_Topics :: "string list"
  sp_QoSs :: "byte list"

record SubackPacket =
  sa_MessageID :: uint16
  sa_ReturnCodes :: "byte list"

datatype parse_error =
    ReadError
  | RemainingLengthError
  | NotConnect
  | RemainingBytesError
  | InvalidProtocolName
  | ClientIDError
  | StringLengthError
  | StringContentError
  | PacketIDError

section \<open>Reading\<close>

text \<open>\<open>io.ReadFull\<close>: all the bytes asked for, or an error.\<close>

definition ReadFull :: "nat \<Rightarrow> byte list \<Rightarrow> 'e \<Rightarrow> ('e, byte list \<times> byte list) go" where
  "ReadFull n r e = (if n \<le> length r then Ok (take n r, drop n r) else Err e)"

text \<open>\<open>b[i]\<close> and \<open>b[i:i+2]\<close> read as a big-endian number: a panic out of range.\<close>

definition byte_at :: "byte list \<Rightarrow> nat \<Rightarrow> ('e, byte) go" where
  "byte_at b i = (if i < length b then Ok (b ! i) else Panic)"

definition uint16_at :: "byte list \<Rightarrow> nat \<Rightarrow> ('e, uint16) go" where
  "uint16_at b i = (if i + 2 \<le> length b then Ok (be16 (b ! i) (b ! (i + 1))) else Panic)"

definition DecodeFixedHeader :: "byte list \<Rightarrow> (parse_error, FixedHeader \<times> byte list) go" where
  "DecodeFixedHeader r =
     go_bind (ReadFull 1 r ReadError) (\<lambda>(headerByte, r').
       go_bind (ReadFull 1 r' RemainingLengthError) (\<lambda>(lenByte, r'').
         Ok (\<lparr>fh_PacketType = drop_bit 4 (headerByte ! 0),
              fh_Flags = headerByte ! 0 AND 0x0F,
              fh_RemLength = unat (lenByte ! 0)\<rparr>, r'')))"

definition readString :: "byte list \<Rightarrow> nat \<Rightarrow> (parse_error, string \<times> nat) go" where
  "readString b offset =
     (if length b < offset + 2 then Err StringLengthError
      else go_bind (uint16_at b offset) (\<lambda>w.
        let n = unat w; offset' = offset + 2
        in if length b < offset' + n then Err StringContentError
           else Ok (string_of (take n (drop offset' b)), offset' + n)))"

definition DecodeConnect :: "byte list \<Rightarrow> (parse_error, ConnectPacket) go" where
  "DecodeConnect r =
     go_bind (DecodeFixedHeader r) (\<lambda>(fh, r').
       if fh_PacketType fh \<noteq> TypeCONNECT then Err NotConnect
       else go_bind (ReadFull (fh_RemLength fh) r' RemainingBytesError) (\<lambda>(buf, _).
         case readString buf 0 of
           Ok (protocolName, offset) \<Rightarrow>
             if protocolName \<noteq> ''MQTT'' then Err InvalidProtocolName
             else go_bind (byte_at buf offset) (\<lambda>version.
               go_bind (byte_at buf (offset + 1)) (\<lambda>connectFlags.
                 go_bind (uint16_at buf (offset + 2)) (\<lambda>keepAlive.
                   case readString buf (offset + 4) of
                     Ok (clientID, _) \<Rightarrow>
                       Ok \<lparr>cp_ProtocolName = protocolName, cp_ProtocolVersion = version,
                           cp_CleanSession = (drop_bit 1 connectFlags AND 1 = 1),
                           cp_KeepAlive = keepAlive, cp_ClientID = clientID\<rparr>
                   | Err _ \<Rightarrow> Err ClientIDError
                   | Panic \<Rightarrow> Panic
                   | Blocked \<Rightarrow> Blocked)))
         | Err _ \<Rightarrow> Err InvalidProtocolName
         | Panic \<Rightarrow> Panic
         | Blocked \<Rightarrow> Blocked))"

text \<open>The loop over the topic filters: each turn moves the offset by at least three bytes.\<close>

function subscribe_loop ::
    "byte list \<Rightarrow> nat \<Rightarrow> string list \<Rightarrow> byte list \<Rightarrow> (parse_error, string list \<times> byte list) go" where
  "subscribe_loop buf offset topics qoss =
     (if offset < length buf then
        (case readString buf offset of
           Ok (topic, newOffset) \<Rightarrow>
             (if newOffset < length buf
              then subscribe_loop buf (newOffset + 1) (topics @ [topic]) (qoss @ [buf ! newOffset])
              else Panic)
         | Err e \<Rightarrow> Err e
         | Panic \<Rightarrow> Panic
         | Blocked \<Rightarrow> Blocked)
      else Ok (topics, qoss))"
  by pat_completeness auto
termination
  by (relation "measure (\<lambda>(buf, offset, _, _). length buf - offset)")
    (auto simp: readString_def uint16_at_def Let_def split: if_splits)

declare subscribe_loop.simps [simp del]

definition DecodeSubscribe :: "FixedHeader \<Rightarrow> byte list \<Rightarrow> (parse_error, SubscribePacket) go" where
  "DecodeSubscribe fh r =
     go_bind (ReadFull (fh_RemLength fh) r ReadError) (\<lambda>(buf, _).
       go_bind (uint16_at buf 0) (\<lambda>messageID.
         go_bind (subscribe_loop buf 2 [] []) (\<lambda>(topics, qoss).
           Ok \<lparr>sp_MessageID = messageID, sp_Topics = topics, sp_QoSs = qoss\<rparr>)))"

definition DecodePublish :: "FixedHeader \<Rightarrow> byte list \<Rightarrow> (parse_error, PublishPacket) go" where
  "DecodePublish fh r =
     go_bind (ReadFull (fh_RemLength fh) r ReadError) (\<lambda>(buf, _).
       go_bind (readString buf 0) (\<lambda>(topicName, offset).
         let qosLevel = drop_bit 1 (fh_Flags fh) AND 0x03
         in if qosLevel > 0
            then if length buf < offset + 2 then Err PacketIDError
                 else Ok \<lparr>pp_TopicName = topicName, pp_Payload = drop (offset + 2) buf\<rparr>
            else Ok \<lparr>pp_TopicName = topicName, pp_Payload = drop offset buf\<rparr>))"

section \<open>Writing\<close>

definition EncodeConnack :: "ConnackPacket \<Rightarrow> byte list" where
  "EncodeConnack p =
     [push_bit 4 TypeCONNACK, 2] @ [if ck_SessionPresent p then 1 else 0, ck_ReturnCode p]"

definition EncodeSuback :: "SubackPacket \<Rightarrow> byte list" where
  "EncodeSuback p =
     (let remLength = 2 + length (sa_ReturnCodes p)
      in [push_bit 4 TypeSUBACK, byte_of remLength] @ be16_bytes (sa_MessageID p) @ sa_ReturnCodes p)"

definition publish_variable_header :: "string \<Rightarrow> byte \<Rightarrow> uint16 \<Rightarrow> byte list" where
  "publish_variable_header topicName qos packetID =
     len_prefix (length (bytes_of topicName)) @ bytes_of topicName @
     (if qos > 0 then be16_bytes packetID else [])"

definition EncodePublish :: "PublishPacket \<Rightarrow> byte \<Rightarrow> uint16 \<Rightarrow> byte list" where
  "EncodePublish p qos packetID =
     (let vh = publish_variable_header (pp_TopicName p) qos packetID;
          flags = push_bit 1 qos AND 0x06;
          remLength = length vh + length (pp_Payload p)
      in [push_bit 4 TypePUBLISH OR flags, byte_of remLength] @ vh @ pp_Payload p)"

section \<open>Reading back what was written\<close>

lemma ReadFull_append [simp]: "n = length xs \<Longrightarrow> ReadFull n (xs @ r) e = Ok (xs, r)"
  by (simp add: ReadFull_def)

lemma readString_written:
  assumes "length s < 65536"
  shows "readString (pre @ len_prefix (length s) @ bytes_of s @ rest) (length pre) =
    Ok (s, length pre + 2 + length s)"
  using assms
  by (simp add: readString_def uint16_at_def len_prefix_def nth_append be16_len_prefix Let_def)

lemma DecodeFixedHeader_bytes:
  "DecodeFixedHeader (h # l # r) =
     Ok (\<lparr>fh_PacketType = drop_bit 4 h, fh_Flags = h AND 0x0F, fh_RemLength = unat l\<rparr>, r)"
  by (simp add: DecodeFixedHeader_def ReadFull_def)

text \<open>The header byte of a PUBLISH packet carries its type and its QoS.\<close>

lemma qos_cases: "(q :: byte) \<le> 2 \<Longrightarrow> q = 0 \<or> q = 1 \<or> q = 2"
proof -
  assume "q \<le> 2"
  then have "unat q \<le> 2" by (simp add: word_le_nat_alt)
  then have "unat q = 0 \<or> unat q = 1 \<or> unat q = 2" by arith
  then show ?thesis by (simp add: word_unat_eq_iff)
qed

lemma publish_header_byte:
  fixes qos :: byte
  assumes "qos \<le> 2"
  defines "h \<equiv> push_bit 4 TypePUBLISH OR (push_bit 1 qos AND 0x06)"
  shows "drop_bit 4 h = TypePUBLISH" and "drop_bit 1 (h AND 0x0F) AND 0x03 = qos"
  using qos_cases [OF assms(1)] by (auto simp: h_def)

lemma DecodePublish_written:
  fixes qos :: byte
  assumes "length topic < 65536" and "qos \<le> 2"
    and "drop_bit 1 (fh_Flags fh) AND 0x03 = qos"
    and "fh_RemLength fh = length (publish_variable_header topic qos pid) + length payload"
  shows "DecodePublish fh (publish_variable_header topic qos pid @ payload @ rest) =
    Ok \<lparr>pp_TopicName = topic, pp_Payload = payload\<rparr>"
proof -
  let ?vh = "publish_variable_header topic qos pid"
  have rd: "ReadFull (fh_RemLength fh) (?vh @ payload @ rest) ReadError = Ok (?vh @ payload, rest)"
    using assms(4) ReadFull_append [of "fh_RemLength fh" "?vh @ payload" rest ReadError] by simp
  have str: "readString (?vh @ payload) 0 = Ok (topic, 2 + length topic)"
    using readString_written [OF assms(1), of "[]"]
    by (simp add: publish_variable_header_def)
  have "DecodePublish fh (?vh @ payload @ rest) =
      (if qos > 0
       then if length (?vh @ payload) < 2 + length topic + 2 then Err PacketIDError
            else Ok \<lparr>pp_TopicName = topic, pp_Payload = drop (2 + length topic + 2) (?vh @ payload)\<rparr>
       else Ok \<lparr>pp_TopicName = topic, pp_Payload = drop (2 + length topic) (?vh @ payload)\<rparr>)"
    unfolding DecodePublish_def rd go_bind.simps prod.case str Let_def assms(3) by (rule refl)
  then show ?thesis
    by (simp add: publish_variable_header_def len_prefix_def be16_bytes_def)
qed

section \<open>The reference encoding of topic filters\<close>

text \<open>What a SUBSCRIBE packet holds after its packet identifier: filters with their QoS.\<close>

fun filter_bytes :: "(string \<times> byte) list \<Rightarrow> byte list" where
  "filter_bytes [] = []"
| "filter_bytes ((t, q) # fs) = len_prefix (length t) @ bytes_of t @ [q] @ filter_bytes fs"

lemma length_filter_bytes_Cons:
  "length (filter_bytes ((t, q) # fs)) = 3 + length t + length (filter_bytes fs)"
  by (simp add: len_prefix_def)

lemma subscribe_loop_filters:
  "\<forall>(t, q) \<in> set fs. length t < 65536 \<Longrightarrow>
   subscribe_loop (pre @ filter_bytes fs) (length pre) ts qs =
     Ok (ts @ map fst fs, qs @ map snd fs)"
proof (induction fs arbitrary: pre ts qs)
  case Nil
  then show ?case by (simp add: subscribe_loop.simps)
next
  case (Cons p fs)
  obtain t q where p: "p = (t, q)" by (cases p)
  let ?buf = "pre @ filter_bytes (p # fs)"
  let ?item = "len_prefix (length t) @ bytes_of t @ [q]"
  define n where "n = length pre + 2 + length t"
  have str: "readString ?buf (length pre) = Ok (t, n)"
    using readString_written [of t pre "[q] @ filter_bytes fs"] Cons.prems p by (simp add: n_def)
  have split: "?buf = (pre @ ?item) @ filter_bytes fs" using p by simp
  have at: "?buf ! n = q" using p by (simp add: nth_append len_prefix_def n_def)
  have "length (pre @ ?item) = n + 1" by (simp add: len_prefix_def n_def)
  moreover have "subscribe_loop ?buf (length (pre @ ?item)) (ts @ [t]) (qs @ [q]) =
      Ok ((ts @ [t]) @ map fst fs, (qs @ [q]) @ map snd fs)"
    unfolding split using Cons.prems by (intro Cons.IH) auto
  moreover have lt: "n < length ?buf" "length pre < length ?buf"
    using p by (simp_all add: len_prefix_def n_def)
  ultimately have rec: "subscribe_loop ?buf (n + 1) (ts @ [t]) (qs @ [q]) =
      Ok (ts @ map fst (p # fs), qs @ map snd (p # fs))"
    using p by simp
  show ?case
    unfolding subscribe_loop.simps [of ?buf "length pre"] str using lt rec at by simp
qed

section \<open>The remaining length of the MQTT specification\<close>

text \<open>
  MQTT's variable byte integer: seven bits a byte, least significant first, the top bit says
  that another byte follows, four bytes at most.
\<close>

fun decode_varint :: "nat \<Rightarrow> byte list \<Rightarrow> (nat \<times> byte list) option" where
  "decode_varint 0 bs = None"
| "decode_varint (Suc k) [] = None"
| "decode_varint (Suc k) (b # bs) =
     (if unat b < 128 then Some (unat b, bs)
      else map_option (\<lambda>(n, r). (unat b - 128 + 128 * n, r)) (decode_varint k bs))"

lemma decode_varint_shorter: "decode_varint k bs = Some (n, r) \<Longrightarrow> length r < length bs"
  by (induction k bs arbitrary: n r rule: decode_varint.induct) (fastforce split: if_splits)+

lemma decode_varint_4:
  "decode_varint 4 (b # bs) = (if unat b < 128 then Some (unat b, bs)
     else map_option (\<lambda>(n, r). (unat b - 128 + 128 * n, r)) (decode_varint 3 bs))"
proof -
  have four: "4 = Suc 3" by simp
  show ?thesis unfolding four by (rule decode_varint.simps(3))
qed

section \<open>Properties\<close>

text \<open>
  Round trip of PUBLISH: a packet \<open>EncodePublish\<close> writes is read back unchanged by
  \<open>DecodeFixedHeader\<close> and \<open>DecodePublish\<close>, whatever follows it, as long as the topic fits its
  two-byte length and the packet its one-byte remaining length.
\<close>

lemma publish_roundtrip:
  fixes qos :: byte
  assumes "length (pp_TopicName p) < 65536" and "qos \<le> 2"
    and "length (publish_variable_header (pp_TopicName p) qos pid) + length (pp_Payload p) < 256"
  shows "\<exists>fh r. DecodeFixedHeader (EncodePublish p qos pid @ rest) = Ok (fh, r)
    \<and> fh_PacketType fh = TypePUBLISH \<and> DecodePublish fh r = Ok p"
proof -
  let ?vh = "publish_variable_header (pp_TopicName p) qos pid"
  let ?h = "push_bit 4 TypePUBLISH OR (push_bit 1 qos AND 0x06)"
  let ?n = "length ?vh + length (pp_Payload p)"
  let ?fh = "\<lparr>fh_PacketType = drop_bit 4 ?h, fh_Flags = ?h AND 0x0F, fh_RemLength = unat (byte_of ?n)\<rparr>"
  have "EncodePublish p qos pid @ rest = ?h # byte_of ?n # (?vh @ pp_Payload p @ rest)"
    unfolding EncodePublish_def Let_def by simp
  then have "DecodeFixedHeader (EncodePublish p qos pid @ rest) = Ok (?fh, ?vh @ pp_Payload p @ rest)"
    by (simp only: DecodeFixedHeader_bytes)
  moreover have "fh_PacketType ?fh = TypePUBLISH"
    using publish_header_byte(1) [OF assms(2)] by simp
  moreover have "DecodePublish ?fh (?vh @ pp_Payload p @ rest) =
      Ok \<lparr>pp_TopicName = pp_TopicName p, pp_Payload = pp_Payload p\<rparr>"
    by (rule DecodePublish_written [OF assms(1,2)])
      (use publish_header_byte(2) [OF assms(2)] assms(3) in \<open>simp_all add: unat_byte_of\<close>)
  ultimately show ?thesis by auto
qed

lemma publish_roundtrip_witness:
  "\<exists>fh r. DecodeFixedHeader (EncodePublish \<lparr>pp_TopicName = ''a/b'', pp_Payload = [1, 2]\<rparr> 1 7 @ [9]) = Ok (fh, r)
    \<and> fh_PacketType fh = TypePUBLISH
    \<and> DecodePublish fh r = Ok \<lparr>pp_TopicName = ''a/b'', pp_Payload = [1, 2]\<rparr>"
  by (rule publish_roundtrip) (simp_all add: publish_variable_header_def len_prefix_def be16_bytes_def)

text \<open>
  The one-byte remaining length \<open>EncodePublish\<close> writes is the length MQTT prescribes exactly
  for packets of less than 128 bytes; any longer packet is written with a length field that a
  conforming receiver reads as another length or as a longer field.
\<close>

lemma EncodePublish_length_field:
  fixes p :: PublishPacket and qos :: byte and pid :: uint16
  defines "body \<equiv> publish_variable_header (pp_TopicName p) qos pid @ pp_Payload p"
  shows "decode_varint 4 (drop 1 (EncodePublish p qos pid)) = Some (length body, body) \<longleftrightarrow> length body < 128"
proof -
  have enc: "drop (Suc 0) (EncodePublish p qos pid) = byte_of (length body) # body"
    by (simp add: EncodePublish_def body_def Let_def)
  show ?thesis
  proof
    assume dec: "decode_varint 4 (drop 1 (EncodePublish p qos pid)) = Some (length body, body)"
    show "length body < 128"
    proof (cases "unat (byte_of (length body)) < 128")
      case True
      with dec have "length body = unat (byte_of (length body))" by (simp add: enc decode_varint_4)
      with True show ?thesis by simp
    next
      case False
      with dec obtain n where "decode_varint 3 body = Some (n, body)"
        by (auto simp: enc decode_varint_4 split: option.splits)
      then have "length body < length body" by (rule decode_varint_shorter)
      then show ?thesis by simp
    qed
  next
    assume "length body < 128"
    then show "decode_varint 4 (drop 1 (EncodePublish p qos pid)) = Some (length body, body)"
      by (simp add: enc decode_varint_4 unat_byte_of)
  qed
qed

text \<open>
  \<open>DecodeSubscribe\<close> reads back every topic filter and QoS of a SUBSCRIBE body, in order, and
  stops: its loop over the filters ends on every input.
\<close>

lemma DecodeSubscribe_filters:
  assumes "\<forall>(t, q) \<in> set fs. length t < 65536"
    and "fh_RemLength fh = 2 + length (filter_bytes fs)"
  shows "DecodeSubscribe fh (be16_bytes mid @ filter_bytes fs @ rest) =
    Ok \<lparr>sp_MessageID = mid, sp_Topics = map fst fs, sp_QoSs = map snd fs\<rparr>"
proof -
  let ?buf = "be16_bytes mid @ filter_bytes fs"
  have rd: "ReadFull (fh_RemLength fh) (?buf @ rest) ReadError = Ok (?buf, rest)"
    using assms(2) by (intro ReadFull_append) (simp add: be16_bytes_def)
  have id: "(uint16_at ?buf 0 :: (parse_error, uint16) go) = Ok mid"
    by (simp add: uint16_at_def be16_bytes_def be16_be16_bytes)
  have loop: "subscribe_loop ?buf 2 [] [] = Ok (map fst fs, map snd fs)"
    using subscribe_loop_filters [OF assms(1), of "be16_bytes mid" "[]" "[]"]
    by (simp add: be16_bytes_def numeral_2_eq_2)
  have "DecodeSubscribe fh (?buf @ rest) = Ok \<lparr>sp_MessageID = mid, sp_Topics = map fst fs, sp_QoSs = map snd fs\<rparr>"
    unfolding DecodeSubscribe_def rd go_bind.simps prod.case id loop by (rule refl)
  then show ?thesis by simp
qed

lemma DecodeSubscribe_filters_witness:
  "DecodeSubscribe \<lparr>fh_PacketType = 8, fh_Flags = 2, fh_RemLength = 12\<rparr>
      (be16_bytes 10 @ filter_bytes [(''a/b'', 1), (''#'', 0)] @ [])
    = Ok \<lparr>sp_MessageID = 10, sp_Topics = [''a/b'', ''#''], sp_QoSs = [1, 0]\<rparr>"
proof -
  have "\<forall>(t, q) \<in> set [(''a/b'', 1), (''#'', 0 :: byte)]. length t < 65536" by simp
  from DecodeSubscribe_filters [OF this, of "\<lparr>fh_PacketType = 8, fh_Flags = 2, fh_RemLength = 12\<rparr>" 10 "[]"]
  show ?thesis by (simp add: len_prefix_def)
qed

text \<open>
  \<open>DecodeConnect\<close> does not reject a CONNECT packet that ends less than four bytes after its
  protocol name: it indexes beyond the buffer and panics.
\<close>

theorem DecodeConnect_truncated_panics:
  assumes "length tail < 4"
  shows "DecodeConnect ([0x10, byte_of (6 + length tail)] @ len_prefix 4 @ bytes_of ''MQTT'' @ tail) = Panic"
proof -
  let ?buf = "len_prefix 4 @ bytes_of ''MQTT'' @ tail"
  have len: "length ?buf = 6 + length tail" by (simp add: len_prefix_def)
  have fh: "DecodeFixedHeader ([0x10, byte_of (6 + length tail)] @ ?buf) =
      Ok (\<lparr>fh_PacketType = TypeCONNECT, fh_Flags = 0, fh_RemLength = 6 + length tail\<rparr>, ?buf)"
    using assms by (simp add: DecodeFixedHeader_bytes unat_byte_of)
  have rd: "ReadFull (6 + length tail) ?buf RemainingBytesError = Ok (?buf, [])"
    using len by (simp add: ReadFull_def)
  have name: "readString ?buf 0 = Ok (''MQTT'', 6)"
  proof -
    have four: "length ''MQTT'' = 4" by simp
    show ?thesis
      using readString_written [of "''MQTT''" "[]" tail] unfolding four by simp
  qed
  have short: "length tail = 0 \<or> length tail = 1 \<or> length tail = 2 \<or> length tail = 3"
    using assms by arith
  have "DecodeConnect ([0x10, byte_of (6 + length tail)] @ ?buf) =
      go_bind (byte_at ?buf 6) (\<lambda>version. go_bind (byte_at ?buf (6 + 1)) (\<lambda>connectFlags.
        go_bind (uint16_at ?buf (6 + 2)) (\<lambda>keepAlive.
          case readString ?buf (6 + 4) of
            Ok (clientID, _) \<Rightarrow>
              Ok \<lparr>cp_ProtocolName = ''MQTT'', cp_ProtocolVersion = version,
                 cp_CleanSession = (drop_bit 1 connectFlags AND 1 = 1),
                 cp_KeepAlive = keepAlive, cp_ClientID = clientID\<rparr>
          | Err _ \<Rightarrow> Err ClientIDError | Panic \<Rightarrow> Panic | Blocked \<Rightarrow> Blocked)))"
    unfolding DecodeConnect_def fh go_bind.simps prod.case
    by (simp add: rd name)
  also have "\<dots> = Panic"
    using short len by (auto simp: byte_at_def uint16_at_def)
  finally show ?thesis by simp
qed

theorem DecodeConnect_truncated_panics_witness:
  "DecodeConnect ([0x10, byte_of (6 + length [4, 2 :: byte])] @ len_prefix 4 @ bytes_of ''MQTT'' @ [4, 2]) = Panic"
  by (rule DecodeConnect_truncated_panics) simp

end
