(* ===== verification/Kv_Store.thy ===== *)
theory Kv_Store
  imports Prelude
begin

text \<open>
  The key-value store of \<open>pkg/storage/store.go\<close>: the interface \<open>Store\<close> as the locale \<open>kv_store\<close>,
  whose laws say what a \<open>Get\<close> returns after each operation, and its in-memory implementation
  \<open>MemStore\<close>, which interprets it. The broker keeps its session registry (client identifier to
  mailbox) in a \<open>MemStore\<close>, so the locale's client lemmas are what the session registry rests on.
\<close>

section \<open>MemStore\<close>

datatype storage_error = ErrNotFound

record 'v MemStore =
  ms_data :: "(string, 'v) gomap"

definition NewMemStore :: "'v MemStore" where
  "NewMemStore = \<lparr>ms_data = []\<rparr>"

definition Get :: "'v MemStore \<Rightarrow> string \<Rightarrow> (storage_error, 'v) go" where
  "Get s key = (case gm_get (ms_data s) key of None \<Rightarrow> Err ErrNotFound | Some value \<Rightarrow> Ok value)"

definition Set :: "'v MemStore \<Rightarrow> string \<Rightarrow> 'v \<Rightarrow> 'v MemStore" where
  "Set s key value = s\<lparr>ms_data := gm_set (ms_data s) key value\<rparr>"

definition Delete :: "'v MemStore \<Rightarrow> string \<Rightarrow> 'v MemStore" where
  "Delete s key = s\<lparr>ms_data := gm_del (ms_data s) key\<rparr>"

definition mem_inv :: "'v MemStore \<Rightarrow> bool" where
  "mem_inv s = gm_wf (ms_data s)"

section \<open>The interface\<close>

datatype 'v kv_op = KSet string 'v | KDelete string

locale kv_store =
  fixes empty :: 's
    and get :: "'s \<Rightarrow> string \<Rightarrow> (storage_error, 'v) go"
    and set_key :: "'s \<Rightarrow> string \<Rightarrow> 'v \<Rightarrow> 's"
    and del_key :: "'s \<Rightarrow> string \<Rightarrow> 's"
    and inv :: "'s \<Rightarrow> bool"
  assumes inv_empty: "inv empty"
    and inv_set: "inv s \<Longrightarrow> inv (set_key s k v)"
    and inv_del: "inv s \<Longrightarrow> inv (del_key s k)"
    and get_empty: "get empty k = Err ErrNotFound"
    and get_set: "inv s \<Longrightarrow> get (set_key s k v) k' = (if k' = k then Ok v else get s k')"
    and get_del: "inv s \<Longrightarrow> get (del_key s k) k' = (if k' = k then Err ErrNotFound else get s k')"
begin

fun apply_op :: "'s \<Rightarrow> 'v kv_op \<Rightarrow> 's" where
  "apply_op s (KSet k v) = set_key s k v"
| "apply_op s (KDelete k) = del_key s k"

lemma inv_ops: "inv s \<Longrightarrow> inv (foldl apply_op s ops)"
proof (induction ops arbitrary: s)
  case (Cons op ops)
  then show ?case by (cases op) (simp_all add: inv_set inv_del)
qed simp

text \<open>The last operation on a key decides what it holds.\<close>

lemma get_last_set:
  assumes "inv s" and "k \<notin> (\<lambda>op. case op of KSet k' _ \<Rightarrow> k' | KDelete k' \<Rightarrow> k') ` set ops"
  shows "get (foldl apply_op (set_key s k v) ops) k = Ok v"
proof -
  have "get (foldl apply_op s' ops) k = get s' k" if "inv s'" for s'
    using that assms(2)
  proof (induction ops arbitrary: s')
    case (Cons op ops)
    then show ?case by (cases op) (simp_all add: inv_set inv_del get_set get_del)
  qed simp
  with assms(1) show ?thesis by (simp add: inv_set get_set)
qed

lemma set_takes_over: "inv s \<Longrightarrow> get (set_key (set_key s k v) k w) k = Ok w"
  by (simp add: inv_set get_set)

end

interpretation mem: kv_store NewMemStore Get Set Delete mem_inv
  by unfold_locales
    (auto simp: NewMemStore_def Get_def Set_def Delete_def mem_inv_def distinct_update distinct_delete)

lemma Get_NotFound_iff: "Get s k = Err ErrNotFound \<longleftrightarrow> gm_get (ms_data s) k = None"
  by (auto simp: Get_def split: option.splits)

lemma Get_Ok_iff: "Get s k = Ok v \<longleftrightarrow> gm_get (ms_data s) k = Some v"
  by (auto simp: Get_def split: option.splits)

text \<open>
  The contract of the storage interface on \<open>MemStore\<close>: after \<open>Set\<close> of a key and any
  sequence of operations on other keys, \<open>Get\<close> of the key returns the value that was set; after
  \<open>Delete\<close> it returns \<open>ErrNotFound\<close>.
\<close>

theorem MemStore_contract:
  fixes s :: "'v MemStore"
  assumes "mem_inv s" and "k \<notin> (\<lambda>op. case op of KSet k' _ \<Rightarrow> k' | KDelete k' \<Rightarrow> k') ` set ops"
  shows "Get (foldl mem.apply_op (Set s k v) ops) k = Ok v
    \<and> Get (Delete (foldl mem.apply_op (Set s k v) ops) k) k = Err ErrNotFound"
proof -
  have inv: "mem_inv (foldl mem.apply_op (Set s k v) ops)"
    using assms(1) by (intro mem.inv_ops mem.inv_set)
  show ?thesis
    using mem.get_last_set [OF assms] mem.get_del [OF inv, of k k] by simp
qed

theorem MemStore_contract_witness:
  "Get (foldl mem.apply_op (Set NewMemStore ''a'' (4 :: nat)) [KSet ''b'' 5, KDelete ''c'']) ''a'' = Ok 4
    \<and> Get (Delete (foldl mem.apply_op (Set NewMemStore ''a'' (4 :: nat)) [KSet ''b'' 5, KDelete ''c'']) ''a'') ''a''
      = Err ErrNotFound"
  by (rule MemStore_contract) (simp_all add: mem_inv_def NewMemStore_def)

end
