(* ===== verification/Actor_Runtime.thy ===== *)
theory Actor_Runtime
  imports Prelude
begin

text \<open>
  The actor runtime: mailboxes (\<open>pkg/actor/actor.go\<close>) and the one-for-one supervisor
  (\<open>pkg/supervisor/supervisor.go\<close>).

  A mailbox is a Go channel with a buffer: its messages in order and its capacity. \<open>Send\<close> on a
  full channel waits (\<open>Blocked\<close>) until another goroutine receives, which in a run of interleaved
  senders and receivers means that the step is not taken yet. A run is a sequence of successful
  sends and receives in any interleaving.

  The supervisor's loop runs its child again and again. The child's runs, how each ended and
  whether the context was done by then, are the input of the model; as the loop may go on for
  ever the model says after every finite number of runs whether the loop has returned.
\<close>

section \<open>Mailboxes\<close>

record 'm Mailbox =
  mb_size :: nat
  mb_messages :: "'m list"

datatype ctx_error = Canceled | DeadlineExceeded

definition NewMailbox :: "nat \<Rightarrow> 'm Mailbox" where
  "NewMailbox n = \<lparr>mb_size = n, mb_messages = []\<rparr>"

definition Send :: "'m Mailbox \<Rightarrow> 'm \<Rightarrow> (unit, 'm Mailbox) go" where
  "Send mb msg =
     (if length (mb_messages mb) < mb_size mb then Ok (mb\<lparr>mb_messages := mb_messages mb @ [msg]\<rparr>)
      else Blocked)"

text \<open>
  \<open>Receive\<close> selects among the cases that are ready: the context is done (\<open>ctx\<close>) or a message is
  there. When both are, Go chooses one of them at random, here by \<open>pick_ctx\<close>.
\<close>

definition Receive :: "bool \<Rightarrow> ctx_error option \<Rightarrow> 'm Mailbox \<Rightarrow> (ctx_error, 'm \<times> 'm Mailbox) go" where
  "Receive pick_ctx ctx mb =
     (case (ctx, mb_messages mb) of
        (None, []) \<Rightarrow> Blocked
      | (None, msg # rest) \<Rightarrow> Ok (msg, mb\<lparr>mb_messages := rest\<rparr>)
      | (Some err, []) \<Rightarrow> Err err
      | (Some err, msg # rest) \<Rightarrow> if pick_ctx then Err err else Ok (msg, mb\<lparr>mb_messages := rest\<rparr>))"

section \<open>Queues\<close>

datatype 'm mb_event = Sent 'm | Received 'm

fun sent :: "'m mb_event list \<Rightarrow> 'm list" where
  "sent [] = []"
| "sent (Sent m # es) = m # sent es"
| "sent (Received m # es) = sent es"

fun received :: "'m mb_event list \<Rightarrow> 'm list" where
  "received [] = []"
| "received (Received m # es) = m # received es"
| "received (Sent m # es) = received es"

lemma sent_append [simp]: "sent (xs @ ys) = sent xs @ sent ys"
  by (induction xs rule: sent.induct) auto

lemma received_append [simp]: "received (xs @ ys) = received xs @ received ys"
  by (induction xs rule: received.induct) auto

text \<open>
  A bounded queue: what the senders and the receiving actor may assume of a mailbox, whatever it
  is made of. \<open>contents\<close> is the abstraction to the list of messages that wait.
\<close>

locale bounded_queue =
  fixes empty :: 'q
    and enq :: "'q \<Rightarrow> 'm \<Rightarrow> 'q option"
    and deq :: "'q \<Rightarrow> ('m \<times> 'q) option"
    and contents :: "'q \<Rightarrow> 'm list"
    and bound :: nat
    and inv :: "'q \<Rightarrow> bool"
  assumes inv_empty: "inv empty" and contents_empty: "contents empty = []"
    and enq_some: "inv q \<Longrightarrow> enq q m = Some q' \<Longrightarrow> inv q' \<and> contents q' = contents q @ [m]"
    and deq_some: "inv q \<Longrightarrow> deq q = Some (m, q') \<Longrightarrow> inv q' \<and> contents q = m # contents q'"
    and bounded: "inv q \<Longrightarrow> length (contents q) \<le> bound"
begin

inductive runs_to :: "'m mb_event list \<Rightarrow> 'q \<Rightarrow> bool" where
  start: "runs_to [] empty"
| send: "runs_to es q \<Longrightarrow> enq q m = Some q' \<Longrightarrow> runs_to (es @ [Sent m]) q'"
| receive: "runs_to es q \<Longrightarrow> deq q = Some (m, q') \<Longrightarrow> runs_to (es @ [Received m]) q'"

text \<open>First in, first out, nothing lost, nothing twice, never more than the bound in between.\<close>

lemma runs_fifo: "runs_to es q \<Longrightarrow> inv q \<and> sent es = received es @ contents q"
proof (induction rule: runs_to.induct)
  case start
  show ?case by (simp add: inv_empty contents_empty)
next
  case (send es q m q')
  then show ?case using enq_some by force
next
  case (receive es q m q')
  then show ?case using deq_some by force
qed

lemma runs_bounded: "runs_to es q \<Longrightarrow> length (sent es) \<le> length (received es) + bound"
  using runs_fifo [of es q] bounded [of q] by simp

end

definition mb_enq :: "'m Mailbox \<Rightarrow> 'm \<Rightarrow> 'm Mailbox option" where
  "mb_enq mb m = (case Send mb m of Ok mb' \<Rightarrow> Some mb' | _ \<Rightarrow> None)"

definition mb_deq :: "bool \<Rightarrow> ctx_error option \<Rightarrow> 'm Mailbox \<Rightarrow> ('m \<times> 'm Mailbox) option" where
  "mb_deq pick_ctx ctx mb = (case Receive pick_ctx ctx mb of Ok r \<Rightarrow> Some r | _ \<Rightarrow> None)"

interpretation mailbox: bounded_queue "NewMailbox n" mb_enq "mb_deq pick_ctx ctx" mb_messages n
  "\<lambda>mb. mb_size mb = n \<and> length (mb_messages mb) \<le> n" for n pick_ctx ctx
  by unfold_locales
    (auto simp: NewMailbox_def mb_enq_def mb_deq_def Send_def Receive_def
      split: if_splits list.splits option.splits)

section \<open>The one-for-one supervisor\<close>

datatype RestartStrategy = RestartPermanent | RestartTransient | RestartTemporary

text \<open>How a run of the child ended: a nil error, an error, or a panic the supervisor recovers.\<close>

datatype exit = Normal | Failed string | Panicked string

text \<open>The runs of an actor in order, each with whether the context was done when it ended.\<close>

type_synonym runs = "(exit \<times> bool) list"

record Spec =
  spec_ID :: string
  spec_Actor :: runs
  spec_Restart :: RestartStrategy
  spec_startFunc :: "runs option"

datatype monitor = Running nat | Returned nat

definition startActor :: "Spec \<Rightarrow> runs" where
  "startActor spec = (case spec_startFunc spec of Some f \<Rightarrow> f | None \<Rightarrow> spec_Actor spec)"

definition run_error :: "string \<Rightarrow> exit \<Rightarrow> string option" where
  "run_error actor_id e =
     (case e of Normal \<Rightarrow> None | Failed err \<Rightarrow> Some err
      | Panicked r \<Rightarrow> Some (''actor '' @ actor_id @ '' panicked: '' @ r))"

definition shouldRestart :: "RestartStrategy \<Rightarrow> string option \<Rightarrow> bool" where
  "shouldRestart strategy err =
     (case strategy of
        RestartPermanent \<Rightarrow> True
      | RestartTransient \<Rightarrow> err \<noteq> None
      | RestartTemporary \<Rightarrow> False)"

text \<open>The loop of \<open>monitorChild\<close>; the counter is the restart metric it increments.\<close>

fun monitor_loop :: "Spec \<Rightarrow> runs \<Rightarrow> nat \<Rightarrow> monitor" where
  "monitor_loop spec [] n = Running n"
| "monitor_loop spec ((e, ctx_done) # rest) n =
     (let err = run_error (spec_ID spec) e
      in if ctx_done then Returned n
         else if \<not> shouldRestart (spec_Restart spec) err then Returned n
         else monitor_loop spec rest (Suc n))"

definition monitorChild :: "Spec \<Rightarrow> monitor" where
  "monitorChild spec = monitor_loop spec (startActor spec) 0"

definition StartChild :: "Spec \<Rightarrow> monitor" where
  "StartChild spec = monitorChild spec"

definition Supervisor_Start :: "Spec list \<Rightarrow> (string, monitor list) go" where
  "Supervisor_Start specs =
     (if specs = [] then Err ''no child specs provided'' else Ok (map StartChild specs))"

definition restartable :: "Spec \<Rightarrow> exit \<times> bool \<Rightarrow> bool" where
  "restartable spec r = (case r of (e, ctx_done) \<Rightarrow>
     \<not> ctx_done \<and> (case spec_Restart spec of RestartPermanent \<Rightarrow> True
                    | RestartTransient \<Rightarrow> e \<noteq> Normal | RestartTemporary \<Rightarrow> False))"

lemma monitor_loop_eq:
  "monitor_loop spec rs n =
     (let k = length (takeWhile (restartable spec) rs)
      in if k = length rs then Running (n + k) else Returned (n + k))"
proof (induction rs arbitrary: n)
  case (Cons r rs)
  obtain e d where r: "r = (e, d)" by (cases r)
  have "(if d then Returned n else if \<not> shouldRestart (spec_Restart spec) (run_error (spec_ID spec) e)
         then Returned n else monitor_loop spec rs (Suc n)) =
        (if restartable spec (e, d) then monitor_loop spec rs (Suc n) else Returned n)"
    by (auto simp: restartable_def shouldRestart_def run_error_def split: RestartStrategy.splits exit.splits)
  with r Cons show ?case by (simp add: Let_def)
qed simp

section \<open>Properties\<close>



text \<open>
  The supervisor follows the restart strategy: it restarts the child after the first \<open>k\<close>
  runs exactly when the context was not done after any of them and each ended in a way the
  strategy restarts (every way if permanent, an error or a panic if transient, none if temporary),
  and returns at the first run that is not to be restarted.
\<close>

lemma monitorChild_strategy:
  "monitorChild spec = Returned k \<longleftrightarrow>
     k < length (startActor spec) \<and> list_all (restartable spec) (take k (startActor spec))
     \<and> \<not> restartable spec (startActor spec ! k)"
proof -
  let ?rs = "startActor spec" and ?j = "length (takeWhile (restartable spec) (startActor spec))"
  have eq: "monitorChild spec = (if ?j = length ?rs then Running ?j else Returned ?j)"
    by (simp add: monitorChild_def monitor_loop_eq Let_def)
  have le: "?j \<le> length ?rs" by (rule length_takeWhile_le)
  show ?thesis
  proof
    assume "monitorChild spec = Returned k"
    with eq have k: "k = ?j" and "?j \<noteq> length ?rs" by (auto split: if_splits)
    with le have lt: "?j < length ?rs" by simp
    have "take k ?rs = takeWhile (restartable spec) ?rs" unfolding k by (simp add: takeWhile_eq_take [symmetric])
    then have "list_all (restartable spec) (take k ?rs)"
      by (auto simp: list_all_iff dest: set_takeWhileD)
    with k lt nth_length_takeWhile [OF lt]
    show "k < length ?rs \<and> list_all (restartable spec) (take k ?rs) \<and> \<not> restartable spec (?rs ! k)" by simp
  next
    assume r: "k < length ?rs \<and> list_all (restartable spec) (take k ?rs) \<and> \<not> restartable spec (?rs ! k)"
    then have split: "?rs = take k ?rs @ ?rs ! k # drop (Suc k) ?rs" by (simp add: id_take_nth_drop)
    have "takeWhile (restartable spec) (take k ?rs @ ?rs ! k # drop (Suc k) ?rs) = take k ?rs"
      using r by (subst takeWhile_append2) (auto simp: list_all_iff)
    then have "takeWhile (restartable spec) ?rs = take k ?rs" using split by simp
    with r have "?j = k" by simp
    with eq r show "monitorChild spec = Returned k" by simp
  qed
qed

end
