(* ===== verification/Session_Actor.thy ===== *)
theory Session_Actor
  imports Mqtt_Codec Actor_Runtime
begin

text \<open>
  The session actor (\<open>pkg/session/session.go\<close>): it takes \<open>Publish\<close> messages from its mailbox and
  writes PUBLISH packets to the client's connection. The connection is an \<open>io.Writer\<close> the actor is
  given, so writing and closing are arguments of the model. The packet structure belongs to a
  third-party package that only carries data here; its fields that the code sets are a record.

  The wire format is checked against a reference reader of MQTT PUBLISH packets, \<open>parse_publish\<close>,
  written from the MQTT specification: variable byte integers, length-prefixed strings and, for
  version 5, the four properties the encoder can write.
\<close>

section \<open>State and messages\<close>

record Publish =
  pm_Topic :: string
  pm_Payload :: "byte list"
  pm_QoS :: byte
  pm_Retain :: bool
  pm_UserProperties :: "(string, byte list) gomap"
  pm_TopicAlias :: uint16
  pm_ResponseTopic :: string
  pm_CorrelationData :: "byte list"

datatype session_msg = MPublish Publish | MStop | MUnknown

record Session =
  se_ID :: string
  se_protocolVersion :: byte
  se_brokerToClientAliases :: "(uint16, string) gomap"
  se_nextBrokerAlias :: uint16
  se_topicAliasMaximum :: uint16

definition New :: "string \<Rightarrow> Session" where
  "New sid = \<lparr>se_ID = sid, se_protocolVersion = 0, se_brokerToClientAliases = [],
     se_nextBrokerAlias = 1, se_topicAliasMaximum = 65535\<rparr>"

definition SetTopicAliasMaximum :: "Session \<Rightarrow> uint16 \<Rightarrow> Session" where
  "SetTopicAliasMaximum s maximum = s\<lparr>se_topicAliasMaximum := maximum\<rparr>"

definition SetProtocolVersion :: "Session \<Rightarrow> byte \<Rightarrow> Session" where
  "SetProtocolVersion s version = s\<lparr>se_protocolVersion := version\<rparr>"

definition GetProtocolVersion :: "Session \<Rightarrow> byte" where
  "GetProtocolVersion s = (if se_protocolVersion s = 0 then 4 else se_protocolVersion s)"

definition GetTopicAliasMaximum :: "Session \<Rightarrow> uint16" where
  "GetTopicAliasMaximum s = se_topicAliasMaximum s"

text \<open>\<open>assignTopicAlias\<close>; the loop returns the first alias of the topic it meets.\<close>

definition assignTopicAlias :: "Session \<Rightarrow> string \<Rightarrow> (uint16 \<times> bool) \<times> Session" where
  "assignTopicAlias s topic =
     (if se_nextBrokerAlias s > se_topicAliasMaximum s then ((0, False), s)
      else case find (\<lambda>(a, existingTopic). existingTopic = topic) (se_brokerToClientAliases s) of
             Some (a, _) \<Rightarrow> ((a, False), s)
           | None \<Rightarrow>
               let a = se_nextBrokerAlias s
               in ((a, True), s\<lparr>se_brokerToClientAliases := gm_set (se_brokerToClientAliases s) a topic,
                                se_nextBrokerAlias := a + 1\<rparr>))"

section \<open>The encoder\<close>

record Properties =
  pr_TopicAlias :: uint16
  pr_TopicAliasFlag :: bool
  pr_ResponseTopic :: string
  pr_CorrelationData :: "byte list"
  pr_User :: "(string \<times> string) list"

record Packet =
  pk_Qos :: byte
  pk_Retain :: bool
  pk_TopicName :: string
  pk_Payload :: "byte list"
  pk_ProtocolVersion :: byte
  pk_PacketID :: uint16
  pk_Properties :: Properties

text \<open>Strings and byte slices with their two-byte length.\<close>

definition put_bytes :: "byte list \<Rightarrow> byte list" where
  "put_bytes bs = len_prefix (length bs) @ bs"

abbreviation put_string :: "string \<Rightarrow> byte list" where
  "put_string s \<equiv> put_bytes (bytes_of s)"

text \<open>The loop that writes a variable byte integer, and its one-byte short cut.\<close>

fun varint_loop :: "nat \<Rightarrow> byte list" where
  "varint_loop n =
     (if n = 0 then []
      else (let b = byte_of (n mod 128); m = n div 128
            in (if m > 0 then b OR 0x80 else b) # varint_loop m))"

declare varint_loop.simps [simp del]

definition write_varint :: "nat \<Rightarrow> byte list" where
  "write_varint n = (if n < 128 then [byte_of n] else varint_loop n)"

definition encode_properties :: "Properties \<Rightarrow> byte list" where
  "encode_properties pr =
     (if pr_TopicAliasFlag pr \<and> pr_TopicAlias pr > 0 then 0x23 # be16_bytes (pr_TopicAlias pr) else []) @
     (if pr_ResponseTopic pr \<noteq> [] then 0x08 # put_string (pr_ResponseTopic pr) else []) @
     (if pr_CorrelationData pr \<noteq> [] then 0x09 # put_bytes (pr_CorrelationData pr) else []) @
     concat (map (\<lambda>(k, v). 0x26 # put_string k @ put_string v) (pr_User pr))"

definition variable_header :: "Packet \<Rightarrow> byte \<Rightarrow> byte list" where
  "variable_header pk qos =
     put_string (pk_TopicName pk) @
     (if qos > 0 then be16_bytes (pk_PacketID pk) else []) @
     (if pk_ProtocolVersion pk = 5
      then (let props = encode_properties (pk_Properties pk) in write_varint (length props) @ props)
      else [])"

definition encodePublishPacket :: "Packet \<Rightarrow> byte \<Rightarrow> byte list" where
  "encodePublishPacket pk qos =
     (let flags = (push_bit 1 qos AND 0x06) OR (if pk_Retain pk then 0x01 else 0);
          fixedHeaderByte = push_bit 4 3 OR flags;
          vh = variable_header pk qos;
          remainingLength = length vh + length (pk_Payload pk)
      in fixedHeaderByte # write_varint remainingLength @ vh @ pk_Payload pk)"

section \<open>The actor's loop\<close>

definition publish_packet :: "Session \<Rightarrow> Publish \<Rightarrow> Packet" where
  "publish_packet s m =
     \<lparr>pk_Qos = pm_QoS m, pk_Retain = pm_Retain m, pk_TopicName = pm_Topic m, pk_Payload = pm_Payload m,
      pk_ProtocolVersion = GetProtocolVersion s,
      pk_PacketID = (if pm_QoS m > 0 then 1 else 0),
      pk_Properties =
        \<lparr>pr_TopicAlias = (if pm_TopicAlias m > 0 then pm_TopicAlias m else 0),
         pr_TopicAliasFlag = (pm_TopicAlias m > 0),
         pr_ResponseTopic = pm_ResponseTopic m,
         pr_CorrelationData = pm_CorrelationData m,
         pr_User = map (\<lambda>(k, v). (k, string_of v)) (pm_UserProperties m)\<rparr>\<rparr>"

datatype session_exit = ContextDone | WriteFailed | Stopped_normally

text \<open>
  \<open>Start\<close> over the messages received before the context is done. \<open>write c bs\<close> is the connection
  after the write and whether it succeeded, \<open>close c\<close> the connection after \<open>Close\<close>.
\<close>

fun Start :: "('c \<Rightarrow> byte list \<Rightarrow> 'c \<times> bool) \<Rightarrow> ('c \<Rightarrow> 'c) \<Rightarrow> Session \<Rightarrow> 'c \<Rightarrow> session_msg list
    \<Rightarrow> session_exit \<times> 'c" where
  "Start write close s conn [] = (ContextDone, conn)"
| "Start write close s conn (MPublish m # rest) =
     (case write conn (encodePublishPacket (publish_packet s m) (pm_QoS m)) of
        (conn', True) \<Rightarrow> Start write close s conn' rest
      | (conn', False) \<Rightarrow> (WriteFailed, conn'))"
| "Start write close s conn (MStop # rest) = (Stopped_normally, close conn)"
| "Start write close s conn (MUnknown # rest) = Start write close s conn rest"

section \<open>Variable byte integers\<close>

lemma byte_or_128:
  assumes "n < 128"
  shows "unat (byte_of n OR 0x80) = n + 128"
proof -
  have "unat (byte_of n OR 0x80) = unat (byte_of n + 0x80)"
  proof -
    have "byte_of n AND 0x80 = 0"
    proof (rule bit_word_eqI)
      fix i assume "i < LENGTH(8)"
      have "\<not> bit n 7" using assms by (simp add: bit_iff_odd)
      moreover have "bit (0x80 :: byte) i \<longleftrightarrow> i = 7"
        using bit_exp_iff [where ?'a = "8 word", of 7 i] by auto
      ultimately show "bit (byte_of n AND 0x80) i = bit (0 :: byte) i"
        by (auto simp: byte_of_def bit_and_iff bit_of_nat_iff_bit bit_simps)
    qed
    then have "byte_of n OR 0x80 = byte_of n + 0x80" by (simp add: disjunctive_add_eq_or)
    then show ?thesis by simp
  qed
  also have "\<dots> = n + 128"
    using assms by (simp add: unat_word_ariths unat_byte_of)
  finally show ?thesis .
qed

lemma varint_loop_decode:
  assumes "0 < n" and "n < 128 ^ k"
  shows "decode_varint k (varint_loop n @ rest) = Some (n, rest)"
  using assms
proof (induction k arbitrary: n)
  case (Suc k)
  show ?case
  proof (cases "n div 128 = 0")
    case True
    then have "n < 128" by (simp add: div_eq_0_iff)
    with True Suc.prems show ?thesis
      by (simp add: varint_loop.simps [of n] varint_loop.simps [of 0] Let_def unat_byte_of)
  next
    case False
    then have pos: "0 < n div 128" by simp
    have "n div 128 < 128 ^ k" using Suc.prems(2) by (simp add: less_mult_imp_div_less mult.commute)
    from Suc.IH [OF pos this] have ih: "decode_varint k (varint_loop (n div 128) @ rest) = Some (n div 128, rest)" .
    have "unat (byte_of (n mod 128) OR 0x80) = n mod 128 + 128" by (rule byte_or_128) simp
    then show ?thesis using False Suc.prems ih
      by (simp add: varint_loop.simps [of n] Let_def)
  qed
qed simp

lemma write_varint_decode:
  assumes "n < 268435456"
  shows "decode_varint 4 (write_varint n @ rest) = Some (n, rest)"
proof (cases "n < 128")
  case True
  then show ?thesis by (simp add: write_varint_def decode_varint_4 unat_byte_of)
next
  case False
  then have "decode_varint 4 (varint_loop n @ rest) = Some (n, rest)"
    using assms by (intro varint_loop_decode) simp_all
  with False show ?thesis by (simp add: write_varint_def)
qed

section \<open>A reader of PUBLISH packets, from the MQTT specification\<close>

datatype property = PAlias uint16 | PResponse string | PCorrelation "byte list" | PUser string string

definition take_bytes :: "byte list \<Rightarrow> (byte list \<times> byte list) option" where
  "take_bytes bs =
     (case bs of
        a # b # r \<Rightarrow> (let n = unat (be16 a b) in if n \<le> length r then Some (take n r, drop n r) else None)
      | _ \<Rightarrow> None)"

definition parse_property :: "byte list \<Rightarrow> (property \<times> byte list) option" where
  "parse_property bs =
     (case bs of
        [] \<Rightarrow> None
      | t # r \<Rightarrow>
          if t = 0x23 then (case r of a # b # r' \<Rightarrow> Some (PAlias (be16 a b), r') | _ \<Rightarrow> None)
          else if t = 0x08 then map_option (\<lambda>(s, r'). (PResponse (string_of s), r')) (take_bytes r)
          else if t = 0x09 then map_option (\<lambda>(s, r'). (PCorrelation s, r')) (take_bytes r)
          else if t = 0x26
          then (case take_bytes r of
                  None \<Rightarrow> None
                | Some (k, r') \<Rightarrow> map_option (\<lambda>(v, r''). (PUser (string_of k) (string_of v), r'')) (take_bytes r'))
          else None)"

text \<open>Every property takes at least one byte, so the length of the input is enough fuel.\<close>

fun parse_props :: "nat \<Rightarrow> byte list \<Rightarrow> property list option" where
  "parse_props fuel [] = Some []"
| "parse_props 0 (b # bs) = None"
| "parse_props (Suc fuel) (b # bs) =
     (case parse_property (b # bs) of
        None \<Rightarrow> None
      | Some (p, r) \<Rightarrow> map_option ((#) p) (parse_props fuel r))"

record parsed =
  pa_Type :: nat
  pa_Retain :: bool
  pa_Qos :: nat
  pa_Topic :: string
  pa_PacketID :: "uint16 option"
  pa_Props :: "property list"
  pa_Payload :: "byte list"

definition parse_props_section :: "byte \<Rightarrow> byte list \<Rightarrow> (property list \<times> byte list) option" where
  "parse_props_section version bs =
     (if version = 5
      then (case decode_varint 4 bs of
              None \<Rightarrow> None
            | Some (n, r) \<Rightarrow> if n \<le> length r
                             then map_option (\<lambda>ps. (ps, drop n r)) (parse_props n (take n r)) else None)
      else Some ([], bs))"

definition parse_packet_id :: "nat \<Rightarrow> byte list \<Rightarrow> (uint16 option \<times> byte list) option" where
  "parse_packet_id qos bs =
     (if qos = 0 then Some (None, bs)
      else case bs of a # b # r \<Rightarrow> Some (Some (be16 a b), r) | _ \<Rightarrow> None)"

definition parse_publish :: "byte \<Rightarrow> byte list \<Rightarrow> parsed option" where
  "parse_publish version bs =
     (case bs of [] \<Rightarrow> None | h # r \<Rightarrow>
      (case decode_varint 4 r of None \<Rightarrow> None | Some (n, body) \<Rightarrow>
       if n \<noteq> length body then None else
       (case take_bytes body of None \<Rightarrow> None | Some (topic, r1) \<Rightarrow>
        (let qos = unat h div 2 mod 4 in
         case parse_packet_id qos r1 of None \<Rightarrow> None | Some (pid, r2) \<Rightarrow>
         (case parse_props_section version r2 of None \<Rightarrow> None | Some (ps, payload) \<Rightarrow>
          Some \<lparr>pa_Type = unat h div 16, pa_Retain = odd (unat h), pa_Qos = qos,
                pa_Topic = string_of topic, pa_PacketID = pid, pa_Props = ps, pa_Payload = payload\<rparr>)))))"

text \<open>The properties the encoder means to write.\<close>

definition props_of :: "Properties \<Rightarrow> property list" where
  "props_of pr =
     (if pr_TopicAliasFlag pr \<and> pr_TopicAlias pr > 0 then [PAlias (pr_TopicAlias pr)] else []) @
     (if pr_ResponseTopic pr \<noteq> [] then [PResponse (pr_ResponseTopic pr)] else []) @
     (if pr_CorrelationData pr \<noteq> [] then [PCorrelation (pr_CorrelationData pr)] else []) @
     map (\<lambda>(k, v). PUser k v) (pr_User pr)"

definition fits :: "Packet \<Rightarrow> bool" where
  "fits pk =
     (length (pk_TopicName pk) < 65536 \<and> length (pr_ResponseTopic (pk_Properties pk)) < 65536
      \<and> length (pr_CorrelationData (pk_Properties pk)) < 65536
      \<and> list_all (\<lambda>(k, v). length k < 65536 \<and> length v < 65536) (pr_User (pk_Properties pk)))"

fun put_property :: "property \<Rightarrow> byte list" where
  "put_property (PAlias a) = 0x23 # be16_bytes a"
| "put_property (PResponse s) = 0x08 # put_string s"
| "put_property (PCorrelation bs) = 0x09 # put_bytes bs"
| "put_property (PUser k v) = 0x26 # put_string k @ put_string v"

fun property_fits :: "property \<Rightarrow> bool" where
  "property_fits (PAlias a) = True"
| "property_fits (PResponse s) = (length s < 65536)"
| "property_fits (PCorrelation bs) = (length bs < 65536)"
| "property_fits (PUser k v) = (length k < 65536 \<and> length v < 65536)"

lemma encode_properties_eq: "encode_properties pr = concat (map put_property (props_of pr))"
  by (auto simp: encode_properties_def props_of_def case_prod_unfold comp_def)

lemma props_of_fits: "fits pk \<Longrightarrow> list_all property_fits (props_of (pk_Properties pk))"
  by (auto simp: fits_def props_of_def list_all_iff)

lemma take_bytes_put: "length bs < 65536 \<Longrightarrow> take_bytes (put_bytes bs @ rest) = Some (bs, rest)"
  by (simp add: take_bytes_def put_bytes_def len_prefix_def be16_len_prefix Let_def)

lemma parse_property_put: "property_fits p \<Longrightarrow> parse_property (put_property p @ rest) = Some (p, rest)"
  by (cases p) (simp_all add: parse_property_def be16_bytes_def be16_be16_bytes take_bytes_put)

lemma put_property_Cons: "\<exists>b bs. put_property p = b # bs"
  by (cases p) auto

lemma parse_props_put:
  "list_all property_fits ps \<Longrightarrow> length ps \<le> fuel \<Longrightarrow>
    parse_props fuel (concat (map put_property ps)) = Some ps"
proof (induction ps arbitrary: fuel)
  case (Cons p ps)
  then obtain f where f: "fuel = Suc f" by (cases fuel) auto
  obtain b bs where pp: "put_property p = b # bs" using put_property_Cons by blast
  have "parse_property (b # bs @ concat (map put_property ps)) = Some (p, concat (map put_property ps))"
    using parse_property_put [of p "concat (map put_property ps)"] Cons.prems(1) pp by simp
  moreover have "parse_props f (concat (map put_property ps)) = Some ps"
    using Cons f by simp
  ultimately show ?case by (simp add: f pp)
qed simp

lemma length_props_le: "length ps \<le> length (concat (map put_property ps))"
proof (induction ps)
  case (Cons p ps)
  obtain b bs where "put_property p = b # bs" using put_property_Cons by blast
  with Cons show ?case by simp
qed simp

lemma parse_props_section_put:
  assumes "fits pk" and "length (encode_properties (pk_Properties pk)) < 268435456"
  shows "parse_props_section 5
      (write_varint (length (encode_properties (pk_Properties pk))) @ encode_properties (pk_Properties pk) @ payload)
    = Some (props_of (pk_Properties pk), payload)"
proof -
  let ?ps = "props_of (pk_Properties pk)"
  have "parse_props (length (concat (map put_property ?ps))) (concat (map put_property ?ps)) = Some ?ps"
    by (rule parse_props_put [OF props_of_fits [OF assms(1)] length_props_le])
  then show ?thesis
    unfolding parse_props_section_def write_varint_decode [OF assms(2)] by (simp add: encode_properties_eq)
qed

lemma header_byte:
  fixes qos :: byte and r :: bool
  assumes "qos \<le> 2"
  defines "h \<equiv> push_bit 4 3 OR ((push_bit 1 qos AND 0x06) OR (if r then 0x01 else 0)) :: byte"
  shows "unat h div 16 = 3" and "odd (unat h) = r" and "unat h div 2 mod 4 = unat qos"
  using qos_cases [OF assms(1)] by (auto simp: h_def)

lemma parse_packet_id_put:
  fixes qos :: byte
  shows "parse_packet_id (unat qos) ((if qos > 0 then be16_bytes pid else []) @ rest) =
    Some (if qos > 0 then Some pid else None, rest)"
  by (auto simp: parse_packet_id_def be16_bytes_def be16_be16_bytes word_gt_0 unat_eq_zero)

lemma Start_writes:
  assumes "\<forall>conn bs. write conn bs = (conn @ [bs], True)"
  shows "snd (Start write close s conn ms) =
    (if MStop \<in> set ms then close else id)
      (conn @ [encodePublishPacket (publish_packet s m) (pm_QoS m). MPublish m \<leftarrow> takeWhile (\<lambda>m. m \<noteq> MStop) ms])"
  using assms
proof (induction ms arbitrary: conn)
  case (Cons m ms)
  then show ?case by (cases m) simp_all
qed simp

section \<open>Topic aliases\<close>

text \<open>Every alias handed out is between 1 and the next one to come, and no topic has two.\<close>

definition alias_inv :: "Session \<Rightarrow> bool" where
  "alias_inv s =
     (gm_wf (se_brokerToClientAliases s) \<and> distinct (map snd (se_brokerToClientAliases s))
      \<and> list_all (\<lambda>(a, t). 1 \<le> a \<and> a < se_nextBrokerAlias s) (se_brokerToClientAliases s)
      \<and> 1 \<le> se_nextBrokerAlias s)"

lemma alias_inv_New: "alias_inv (New sid)"
  by (simp add: alias_inv_def New_def)

lemma gm_set_fresh: "k \<notin> fst ` set m \<Longrightarrow> gm_set m k v = m @ [(k, v)]"
  by (induction m) auto

lemma uint16_next: "(a :: uint16) < 65535 \<Longrightarrow> a < a + 1 \<and> 1 \<le> a + 1"
proof -
  assume "a < 65535"
  then have "unat a < 65535" by (simp add: word_less_nat_alt)
  then have "unat (a + 1) = unat a + 1" by (simp add: unat_word_ariths)
  then show "a < a + 1 \<and> 1 \<le> a + 1" by (simp add: word_less_nat_alt word_le_nat_alt)
qed

lemma assignTopicAlias_cases:
  assumes "alias_inv s"
  shows "(se_nextBrokerAlias s > se_topicAliasMaximum s \<and> assignTopicAlias s t = ((0, False), s))
    \<or> (se_nextBrokerAlias s \<le> se_topicAliasMaximum s
       \<and> (\<exists>a. gm_get (se_brokerToClientAliases s) a = Some t \<and> assignTopicAlias s t = ((a, False), s)))
    \<or> (se_nextBrokerAlias s \<le> se_topicAliasMaximum s \<and> t \<notin> snd ` set (se_brokerToClientAliases s)
       \<and> assignTopicAlias s t = ((se_nextBrokerAlias s, True),
           s\<lparr>se_brokerToClientAliases := se_brokerToClientAliases s @ [(se_nextBrokerAlias s, t)],
             se_nextBrokerAlias := se_nextBrokerAlias s + 1\<rparr>))"
proof (cases "se_nextBrokerAlias s > se_topicAliasMaximum s")
  case False
  let ?m = "se_brokerToClientAliases s"
  show ?thesis
  proof (cases "find (\<lambda>(a, e). e = t) ?m")
    case None
    then have "t \<notin> snd ` set ?m" by (force simp: find_None_iff)
    moreover have "se_nextBrokerAlias s \<notin> fst ` set ?m"
      using assms by (force simp: alias_inv_def list_all_iff)
    ultimately show ?thesis using None False
      by (simp add: assignTopicAlias_def gm_set_fresh Let_def)
  next
    case (Some p)
    then obtain a where p: "p = (a, t)" "(a, t) \<in> set ?m" by (auto simp: find_Some_iff) (metis nth_mem)
    then have "gm_get ?m a = Some t" using assms by (simp add: alias_inv_def gm_get_iff)
    with Some False p show ?thesis by (auto simp: assignTopicAlias_def)
  qed
qed (simp add: assignTopicAlias_def)

lemma alias_inv_assign:
  assumes "alias_inv s" and "se_nextBrokerAlias s < 65535"
  shows "alias_inv (snd (assignTopicAlias s t))"
proof -
  let ?n = "se_nextBrokerAlias s" and ?m = "se_brokerToClientAliases s"
  have n: "?n < ?n + 1" "1 \<le> ?n + 1" using uint16_next [OF assms(2)] by auto
  have lt: "a < ?n + 1" if "(a, b) \<in> set ?m" for a b
    using that assms(1) n(1) less_trans [of a ?n "?n + 1"] by (auto simp: alias_inv_def list_all_iff)
  have "?n \<notin> fst ` set ?m" using assms(1) by (force simp: alias_inv_def list_all_iff)
  with assms(1) n lt assignTopicAlias_cases [OF assms(1), of t] show ?thesis
    by (auto simp: alias_inv_def list_all_iff)
qed

section \<open>Properties\<close>

text \<open>
  (C13) Round trip of the session actor's encoder: the packet \<open>encodePublishPacket\<close> writes, for
  MQTT 3.1.1 and for MQTT 5, is read back by a reader built from the MQTT specification as a PUBLISH
  packet with the same retain flag, QoS, topic, packet identifier, properties and payload.
\<close>

theorem encodePublishPacket_roundtrip:
  fixes qos :: byte
  assumes "qos \<le> 2" and "fits pk"
    and "length (variable_header pk qos) + length (pk_Payload pk) < 268435456"
  shows "parse_publish (pk_ProtocolVersion pk) (encodePublishPacket pk qos) =
    Some \<lparr>pa_Type = 3, pa_Retain = pk_Retain pk, pa_Qos = unat qos, pa_Topic = pk_TopicName pk,
      pa_PacketID = (if qos > 0 then Some (pk_PacketID pk) else None),
      pa_Props = (if pk_ProtocolVersion pk = 5 then props_of (pk_Properties pk) else []),
      pa_Payload = pk_Payload pk\<rparr>"
proof -
  let ?v5 = "pk_ProtocolVersion pk = 5" and ?props = "encode_properties (pk_Properties pk)"
  define h :: byte where
    "h = push_bit 4 3 OR ((push_bit 1 qos AND 0x06) OR (if pk_Retain pk then 0x01 else 0))"
  define tail where "tail = (if ?v5 then write_varint (length ?props) @ ?props else []) @ pk_Payload pk"
  define pid where "pid = (if qos > 0 then be16_bytes (pk_PacketID pk) else [])"
  have body: "variable_header pk qos @ pk_Payload pk = put_string (pk_TopicName pk) @ pid @ tail"
    by (simp add: variable_header_def tail_def pid_def Let_def)
  have enc: "encodePublishPacket pk qos =
      h # write_varint (length (put_string (pk_TopicName pk) @ pid @ tail)) @ put_string (pk_TopicName pk) @ pid @ tail"
    unfolding encodePublishPacket_def Let_def h_def [symmetric] body [symmetric] by simp
  have len: "decode_varint 4 (write_varint (length (put_string (pk_TopicName pk) @ pid @ tail)) @ bs) =
      Some (length (put_string (pk_TopicName pk) @ pid @ tail), bs)" for bs
    using assms(3) unfolding body [symmetric] by (intro write_varint_decode) simp
  have top: "take_bytes (put_string (pk_TopicName pk) @ pid @ tail) = Some (bytes_of (pk_TopicName pk), pid @ tail)"
    using assms(2) by (intro take_bytes_put) (simp add: fits_def)
  have id: "parse_packet_id (unat qos) (pid @ tail) = Some (if qos > 0 then Some (pk_PacketID pk) else None, tail)"
    unfolding pid_def by (rule parse_packet_id_put)
  have props: "parse_props_section (pk_ProtocolVersion pk) tail =
      Some (if ?v5 then props_of (pk_Properties pk) else [], pk_Payload pk)"
  proof (cases ?v5)
    case True
    have "length ?props < 268435456" using assms(3) True by (simp add: variable_header_def Let_def)
    from parse_props_section_put [OF assms(2) this] True show ?thesis by (simp add: tail_def)
  qed (simp add: tail_def parse_props_section_def)
  have hq: "unat h div 16 = 3" "odd (unat h) = pk_Retain pk" "unat h div 2 mod 4 = unat qos"
    unfolding h_def by (rule header_byte [OF assms(1)])+
  show ?thesis
    unfolding enc parse_publish_def list.case len option.case prod.case top hq Let_def id props
    by simp
qed

theorem encodePublishPacket_roundtrip_witness:
  "let pk = \<lparr>pk_Qos = 1, pk_Retain = True, pk_TopicName = ''a/b'', pk_Payload = [7], pk_ProtocolVersion = 5,
      pk_PacketID = 9, pk_Properties = \<lparr>pr_TopicAlias = 4, pr_TopicAliasFlag = True, pr_ResponseTopic = ''r'',
        pr_CorrelationData = [1, 2], pr_User = [(''k'', ''v'')]\<rparr>\<rparr>
   in parse_publish 5 (encodePublishPacket pk 1) =
     Some \<lparr>pa_Type = 3, pa_Retain = True, pa_Qos = 1, pa_Topic = ''a/b'', pa_PacketID = Some 9,
       pa_Props = [PAlias 4, PResponse ''r'', PCorrelation [1, 2], PUser ''k'' ''v''], pa_Payload = [7]\<rparr>"
proof -
  let ?pk = "\<lparr>pk_Qos = 1, pk_Retain = True, pk_TopicName = ''a/b'', pk_Payload = [7], pk_ProtocolVersion = 5,
      pk_PacketID = 9, pk_Properties = \<lparr>pr_TopicAlias = 4, pr_TopicAliasFlag = True, pr_ResponseTopic = ''r'',
        pr_CorrelationData = [1, 2], pr_User = [(''k'', ''v'')]\<rparr>\<rparr>"
  have "fits ?pk" by (simp add: fits_def)
  moreover have "length (variable_header ?pk 1) + length (pk_Payload ?pk) < 268435456"
    by (simp add: variable_header_def put_bytes_def len_prefix_def be16_bytes_def encode_properties_def
        write_varint_def Let_def)
  ultimately show ?thesis
    using encodePublishPacket_roundtrip [of 1 ?pk] by (simp add: props_of_def)
qed

text \<open>
  (C21) Delivery of the session actor: on a connection that accepts every write, the actor writes
  one packet for each \<open>Publish\<close> message it received before the first \<open>Stop\<close>, in the order of its
  mailbox and nothing else, and closes the connection exactly when it got a \<open>Stop\<close>.
\<close>

theorem session_delivers_in_order:
  assumes "\<forall>conn bs. write conn bs = (conn @ [bs], True)"
  shows "Start write close s [] ms =
    (if MStop \<in> set ms then Stopped_normally else ContextDone,
     (if MStop \<in> set ms then close else id)
       [encodePublishPacket (publish_packet s m) (pm_QoS m). MPublish m \<leftarrow> takeWhile (\<lambda>m. m \<noteq> MStop) ms])"
proof -
  have "fst (Start write close s conn ms) = (if MStop \<in> set ms then Stopped_normally else ContextDone)" for conn
  proof (induction ms arbitrary: conn)
    case (Cons m ms)
    then show ?case using assms by (cases m) simp_all
  qed simp
  with Start_writes [OF assms, of close s "[]" ms] show ?thesis by (simp add: prod_eq_iff)
qed

theorem session_delivers_in_order_witness:
  "let m = \<lparr>pm_Topic = ''t'', pm_Payload = [1], pm_QoS = 0, pm_Retain = False, pm_UserProperties = [],
            pm_TopicAlias = 0, pm_ResponseTopic = [], pm_CorrelationData = []\<rparr>
   in Start (\<lambda>conn bs. (conn @ [bs], True)) (\<lambda>conn. conn @ [[]]) (New ''c'') [] [MUnknown, MPublish m, MStop, MPublish m]
      = (Stopped_normally, [encodePublishPacket (publish_packet (New ''c'') m) 0, []])"
proof -
  let ?m = "\<lparr>pm_Topic = ''t'', pm_Payload = [1], pm_QoS = 0, pm_Retain = False, pm_UserProperties = [],
            pm_TopicAlias = 0, pm_ResponseTopic = [], pm_CorrelationData = []\<rparr>"
  show ?thesis
    using session_delivers_in_order [of "\<lambda>conn bs. (conn @ [bs], True)" "\<lambda>conn. conn @ [[]]" "New ''c''"
        "[MUnknown, MPublish ?m, MStop, MPublish ?m]"]
    by simp
qed

text \<open>
  Outgoing topic aliases below the top of the 16-bit range: an alias that
  \<open>assignTopicAlias\<close> returns stands for the given topic, lies between 1 and the maximum, is
  never shared with another topic and is new exactly when the topic had none; the only other
  outcome is the refusal (alias 0) when the maximum has been handed out.
\<close>

lemma assignTopicAlias_sound:
  assumes "alias_inv s" and "se_topicAliasMaximum s < 65535"
    and "assignTopicAlias s t = ((a, fresh), s')"
  shows "alias_inv s' \<and>
    (if se_nextBrokerAlias s > se_topicAliasMaximum s then a = 0 \<and> \<not> fresh \<and> s' = s
     else 1 \<le> a \<and> gm_get (se_brokerToClientAliases s') a = Some t
       \<and> (fresh \<longleftrightarrow> t \<notin> snd ` set (se_brokerToClientAliases s)))"
proof (cases "se_nextBrokerAlias s > se_topicAliasMaximum s")
  case True
  with assms show ?thesis by (auto simp: assignTopicAlias_def)
next
  case False
  then have "se_nextBrokerAlias s < 65535" using assms(2) by simp
  from alias_inv_assign [OF assms(1) this, of t] assms(3) have inv: "alias_inv s'" by simp
  have one: "1 \<le> b" if "gm_get (se_brokerToClientAliases s) b = Some t" for b
    using gm_get_in [OF that] assms(1) by (force simp: alias_inv_def list_all_iff)
  have new: "gm_get (se_brokerToClientAliases s @ [(se_nextBrokerAlias s, t)]) (se_nextBrokerAlias s) = Some t"
  proof -
    have "se_nextBrokerAlias s \<notin> fst ` set (se_brokerToClientAliases s)"
      using assms(1) by (force simp: alias_inv_def list_all_iff)
    then have "gm_get (se_brokerToClientAliases s) (se_nextBrokerAlias s) = None"
      by (simp add: map_of_eq_None_iff)
    then show ?thesis by (simp add: map_add_def)
  qed
  show ?thesis
    using assignTopicAlias_cases [OF assms(1), of t] assms(3) False inv one new assms(1)
    by (auto simp: alias_inv_def map_add_def dest: gm_get_in intro: rev_image_eqI)
qed

lemma assignTopicAlias_sound_witness:
  "let s = SetTopicAliasMaximum (New ''c'') 10 in
    assignTopicAlias s ''t'' = ((1, True), s\<lparr>se_brokerToClientAliases := [(1, ''t'')], se_nextBrokerAlias := 2\<rparr>)
    \<and> alias_inv (s\<lparr>se_brokerToClientAliases := [(1, ''t'')], se_nextBrokerAlias := 2\<rparr>)"
proof -
  let ?s = "SetTopicAliasMaximum (New ''c'') 10"
  let ?s' = "?s\<lparr>se_brokerToClientAliases := [(1, ''t'')], se_nextBrokerAlias := 2\<rparr>"
  have eq: "assignTopicAlias ?s ''t'' = ((1, True), ?s')"
    by (simp add: assignTopicAlias_def SetTopicAliasMaximum_def New_def Let_def)
  have "alias_inv ?s" using alias_inv_New by (simp add: alias_inv_def SetTopicAliasMaximum_def)
  moreover have "se_topicAliasMaximum ?s < 65535" by (simp add: SetTopicAliasMaximum_def)
  ultimately have "alias_inv ?s'" using assignTopicAlias_sound [OF _ _ eq] by blast
  with eq show ?thesis by (simp only: Let_def simp_thms)
qed

text \<open>
  With the default maximum of 65535 the counter wraps: after alias 65535 the next topic gets
  alias 0, which MQTT 5 forbids, and from then on existing aliases are overwritten.
\<close>

lemma assignTopicAlias_wraps:
  assumes "se_nextBrokerAlias s = 65535" and "se_topicAliasMaximum s = 65535" and "t \<noteq> t'"
    and "t \<notin> snd ` set (se_brokerToClientAliases s)" and "t' \<notin> snd ` set (se_brokerToClientAliases s)"
    and "gm_wf (se_brokerToClientAliases s)"
  shows "fst (assignTopicAlias (snd (assignTopicAlias s t)) t') = (0, True)"
proof -
  let ?m = "se_brokerToClientAliases s"
  have "find (\<lambda>(a, e). e = t) ?m = None" using assms(4) by (force simp: find_None_iff)
  moreover have "find (\<lambda>(a, e). e = t') (gm_set ?m 65535 t) = None"
    using assms(3,5) set_gm_set [OF assms(6), of 65535 t] by (force simp: find_None_iff)
  ultimately show ?thesis using assms(1,2) by (simp add: assignTopicAlias_def Let_def)
qed

end
