(* ===== verification/Message_Storage.thy ===== *)
theory Message_Storage
  imports Topic_Match
begin

text \<open>
  Message storage (\<open>pkg/storage/messages\<close>): the in-memory backend of \<open>memory_backend.go\<close> (message
  streams, retained messages, stream subscriptions, iterators, retention) and the storage front
  end of \<open>storage.go\<close> that shards messages over daily streams and reads them back in batches.

  The clock is read once per call (\<open>now\<close>). The calendar depends on the time zone of the process,
  so the day of a time stamp (\<open>Format("2006-01-02")\<close>) and the shift by days (\<open>AddDate\<close>) are
  arguments, as are the identifiers generated from the clock. \<open>sort.Slice\<close> is a stable sort here:
  it leaves the order of streams with the same start time to the order of the map, which is open.
\<close>

section \<open>Data\<close>

record Message =
  msg_ID :: string
  msg_Topic :: string
  msg_Payload :: "byte list"
  msg_QoS :: byte
  msg_Retained :: bool
  msg_Timestamp :: time
  msg_Headers :: "(string, string) gomap"
  msg_ExpiryTime :: "time option"
  msg_ClientID :: string
  msg_StreamID :: string
  msg_SequenceNo :: nat

record StreamInfo =
  si_ID :: string
  si_Topic :: string
  si_StartTime :: time
  si_EndTime :: time
  si_MessageCount :: nat
  si_SizeBytes :: nat

record SubscriptionOptions =
  so_StartTime :: "time option"
  so_EndTime :: "time option"
  so_BatchSize :: int
  so_MaxMessages :: int

record StorageStats =
  st_TotalMessages :: nat
  st_TotalStreams :: nat
  st_RetainedMessages :: nat
  st_StorageSize :: nat
  st_ActiveSubscriptions :: nat

record Config =
  cf_Backend :: string
  cf_Shards :: int
  cf_RetentionDays :: int
  cf_MaxMessages :: nat

record memoryIterator =
  mi_messages :: "Message list"
  mi_position :: nat
  mi_closed :: bool

record memorySubscription =
  ms_id :: string
  ms_streamID :: string
  ms_opts :: SubscriptionOptions
  ms_msgChan :: "Message list list"
  ms_closed :: bool

record MemoryBackend =
  mb_streams :: "(string, Message list) gomap"
  mb_streamMeta :: "(string, StreamInfo) gomap"
  mb_retained :: "(string, Message) gomap"
  mb_subscriptions :: "(string, memorySubscription) gomap"
  mb_subCounter :: nat
  mb_config :: Config

definition DefaultConfig :: Config where
  "DefaultConfig = \<lparr>cf_Backend = ''memory'', cf_Shards = 4, cf_RetentionDays = 7, cf_MaxMessages = 1000000\<rparr>"

definition NewMemoryBackend :: "Config \<Rightarrow> MemoryBackend" where
  "NewMemoryBackend config =
     \<lparr>mb_streams = [], mb_streamMeta = [], mb_retained = [], mb_subscriptions = [],
      mb_subCounter = 0, mb_config = config\<rparr>"

section \<open>Topic matching of the backend\<close>

text \<open>The two loops of \<open>topicMatches\<close>: the levels before a final \<open>#\<close>, and all levels.\<close>

definition prefix_levels_match :: "string list \<Rightarrow> string list \<Rightarrow> bool" where
  "prefix_levels_match topicLevels filterLevels =
     list_all (\<lambda>i. i < length topicLevels \<and> \<not> (filterLevels ! i \<noteq> ''+'' \<and> filterLevels ! i \<noteq> topicLevels ! i))
       [0..<length filterLevels - 1]"

definition all_levels_match :: "string list \<Rightarrow> string list \<Rightarrow> bool" where
  "all_levels_match topicLevels filterLevels =
     list_all (\<lambda>i. filterLevels ! i = ''+'' \<or> filterLevels ! i = topicLevels ! i) [0..<length filterLevels]"

definition topicMatches :: "string \<Rightarrow> string \<Rightarrow> bool" where
  "topicMatches topic flt =
     (if topic = flt then True
      else if flt = ''#'' then True
      else (let topicLevels = go_split (CHR ''/'') topic; filterLevels = go_split (CHR ''/'') flt
            in if length filterLevels > 0 \<and> filterLevels ! (length filterLevels - 1) = ''#''
               then prefix_levels_match topicLevels filterLevels
               else if length topicLevels \<noteq> length filterLevels then False
               else all_levels_match topicLevels filterLevels))"

section \<open>Backend operations\<close>

text \<open>The loop of \<open>AppendMessages\<close>: the index and the stream both grow.\<close>

fun append_loop :: "string \<Rightarrow> time \<Rightarrow> nat \<Rightarrow> Message list \<Rightarrow> Message list \<Rightarrow> StreamInfo
    \<Rightarrow> Message list \<times> StreamInfo" where
  "append_loop streamID now i [] stream meta = (stream, meta)"
| "append_loop streamID now i (msg # msgs) stream meta =
     (let msg1 = msg\<lparr>msg_StreamID := streamID, msg_SequenceNo := length stream + i + 1,
                     msg_Timestamp := (if msg_Timestamp msg = 0 then now else msg_Timestamp msg)\<rparr>;
          meta1 = meta\<lparr>si_Topic := (if si_Topic meta = [] then msg_Topic msg1 else si_Topic meta),
                       si_EndTime := msg_Timestamp msg1,
                       si_MessageCount := si_MessageCount meta + 1,
                       si_SizeBytes := si_SizeBytes meta + length (msg_Payload msg1)\<rparr>
      in append_loop streamID now (Suc i) msgs (stream @ [msg1]) meta1)"

text \<open>A send on the buffered channel of a subscription that is dropped when the buffer is full.\<close>

definition notify :: "string \<Rightarrow> Message list \<Rightarrow> memorySubscription \<Rightarrow> memorySubscription" where
  "notify streamID messages sub =
     (if ms_streamID sub = streamID \<and> \<not> ms_closed sub
      then (if length (ms_msgChan sub) < 10 then sub\<lparr>ms_msgChan := ms_msgChan sub @ [messages]\<rparr> else sub)
      else sub)"

definition notifySubscriptions :: "MemoryBackend \<Rightarrow> string \<Rightarrow> Message list \<Rightarrow> MemoryBackend" where
  "notifySubscriptions mb streamID messages =
     mb\<lparr>mb_subscriptions := map (\<lambda>(k, sub). (k, notify streamID messages sub)) (mb_subscriptions mb)\<rparr>"

text \<open>The index of the first message after the cutoff; 0 when there is none.\<close>

fun keep_from :: "time \<Rightarrow> nat \<Rightarrow> Message list \<Rightarrow> nat" where
  "keep_from cutoff i [] = 0"
| "keep_from cutoff i (msg # msgs) =
     (if msg_Timestamp msg > cutoff then i else keep_from cutoff (Suc i) msgs)"

definition applyRetention ::
  "(time \<Rightarrow> int \<Rightarrow> time) \<Rightarrow> time \<Rightarrow> MemoryBackend \<Rightarrow> string \<Rightarrow> (unit, MemoryBackend) go" where
  "applyRetention addDays now mb streamID =
     (if cf_RetentionDays (mb_config mb) \<le> 0 then Ok mb
      else (let cutoff = addDays now (- cf_RetentionDays (mb_config mb));
                messages = gm_get0 [] (mb_streams mb) streamID;
                keepFrom = keep_from cutoff 0 messages
            in if keepFrom > 0
               then (case gm_get (mb_streamMeta mb) streamID of
                       None \<Rightarrow> Panic
                     | Some meta \<Rightarrow>
                         Ok (mb\<lparr>mb_streams := gm_set (mb_streams mb) streamID (drop keepFrom messages),
                                mb_streamMeta := gm_set (mb_streamMeta mb) streamID
                                  (meta\<lparr>si_MessageCount := length messages - keepFrom\<rparr>)\<rparr>))
               else Ok mb))"

definition AppendMessages ::
  "(time \<Rightarrow> int \<Rightarrow> time) \<Rightarrow> time \<Rightarrow> MemoryBackend \<Rightarrow> string \<Rightarrow> Message list \<Rightarrow> (unit, MemoryBackend) go" where
  "AppendMessages addDays now mb streamID messages =
     (let mb1 = (if gm_get (mb_streams mb) streamID = None
                 then mb\<lparr>mb_streams := gm_set (mb_streams mb) streamID [],
                         mb_streamMeta := gm_set (mb_streamMeta mb) streamID
                           \<lparr>si_ID = streamID, si_Topic = [], si_StartTime = now, si_EndTime = 0,
                            si_MessageCount = 0, si_SizeBytes = 0\<rparr>\<rparr>
                 else mb);
          stream = gm_get0 [] (mb_streams mb1) streamID
      in case gm_get (mb_streamMeta mb1) streamID of
           None \<Rightarrow> if messages = [] then applyRetention addDays now
                     (notifySubscriptions (mb1\<lparr>mb_streams := gm_set (mb_streams mb1) streamID stream\<rparr>) streamID messages) streamID
                   else Panic
         | Some meta \<Rightarrow>
             (let (stream', meta') = append_loop streamID now 0 messages stream meta
              in applyRetention addDays now
                   (notifySubscriptions
                      (mb1\<lparr>mb_streams := gm_set (mb_streams mb1) streamID stream',
                           mb_streamMeta := gm_set (mb_streamMeta mb1) streamID meta'\<rparr>)
                      streamID messages) streamID))"

definition GetStreams :: "MemoryBackend \<Rightarrow> string \<Rightarrow> time \<Rightarrow> StreamInfo list" where
  "GetStreams mb topicFilter startTime =
     sort_key si_StartTime
       (filter (\<lambda>meta. topicMatches (si_Topic meta) topicFilter \<and> si_EndTime meta > startTime)
          (map snd (mb_streamMeta mb)))"

definition CreateIterator :: "MemoryBackend \<Rightarrow> string \<Rightarrow> string \<Rightarrow> time \<Rightarrow> memoryIterator" where
  "CreateIterator mb streamID topicFilter startTime =
     (case gm_get (mb_streams mb) streamID of
        None \<Rightarrow> \<lparr>mi_messages = [], mi_position = 0, mi_closed = False\<rparr>
      | Some messages \<Rightarrow>
          \<lparr>mi_messages = filter (\<lambda>msg. topicMatches (msg_Topic msg) topicFilter \<and> msg_Timestamp msg > startTime) messages,
           mi_position = 0, mi_closed = False\<rparr>)"

definition backend_Subscribe :: "MemoryBackend \<Rightarrow> string \<Rightarrow> SubscriptionOptions \<Rightarrow> memorySubscription \<times> MemoryBackend" where
  "backend_Subscribe mb streamID opts =
     (let counter = mb_subCounter mb + 1;
          subID = ''sub-'' @ show_nat counter;
          sub = \<lparr>ms_id = subID, ms_streamID = streamID, ms_opts = opts, ms_msgChan = [], ms_closed = False\<rparr>
      in (sub, mb\<lparr>mb_subCounter := counter, mb_subscriptions := gm_set (mb_subscriptions mb) subID sub\<rparr>))"

definition backend_StoreRetained :: "MemoryBackend \<Rightarrow> string \<Rightarrow> Message \<Rightarrow> MemoryBackend" where
  "backend_StoreRetained mb topic message =
     (if msg_Payload message = [] then mb\<lparr>mb_retained := gm_del (mb_retained mb) topic\<rparr>
      else mb\<lparr>mb_retained := gm_set (mb_retained mb) topic (message\<lparr>msg_Retained := True\<rparr>)\<rparr>)"

definition GetRetained :: "MemoryBackend \<Rightarrow> string \<Rightarrow> Message list" where
  "GetRetained mb topicFilter =
     map snd (filter (\<lambda>(topic, msg). topicMatches topic topicFilter) (mb_retained mb))"

definition backend_DeleteRetained :: "MemoryBackend \<Rightarrow> string \<Rightarrow> MemoryBackend" where
  "backend_DeleteRetained mb topic = mb\<lparr>mb_retained := gm_del (mb_retained mb) topic\<rparr>"

definition Stats :: "MemoryBackend \<Rightarrow> StorageStats" where
  "Stats mb =
     \<lparr>st_TotalMessages = sum_list (map (si_MessageCount \<circ> snd) (mb_streamMeta mb)),
      st_TotalStreams = length (mb_streams mb),
      st_RetainedMessages = length (mb_retained mb),
      st_StorageSize = sum_list (map (si_SizeBytes \<circ> snd) (mb_streamMeta mb)),
      st_ActiveSubscriptions = length (mb_subscriptions mb)\<rparr>"

definition sub_Close :: "memorySubscription \<Rightarrow> memorySubscription" where
  "sub_Close sub = (if \<not> ms_closed sub then sub\<lparr>ms_closed := True\<rparr> else sub)"

definition backend_Close :: "MemoryBackend \<Rightarrow> MemoryBackend" where
  "backend_Close mb = mb\<lparr>mb_subscriptions := map (\<lambda>(k, sub). (k, sub_Close sub)) (mb_subscriptions mb)\<rparr>"

text \<open>One tick of \<open>cleanupRoutine\<close>: expired retained messages, then retention on every stream.\<close>

fun retain_streams :: "(time \<Rightarrow> int \<Rightarrow> time) \<Rightarrow> time \<Rightarrow> string list \<Rightarrow> MemoryBackend \<Rightarrow> (unit, MemoryBackend) go" where
  "retain_streams addDays now [] mb = Ok mb"
| "retain_streams addDays now (streamID # ids) mb =
     go_bind (applyRetention addDays now mb streamID) (retain_streams addDays now ids)"

definition cleanup_tick :: "(time \<Rightarrow> int \<Rightarrow> time) \<Rightarrow> time \<Rightarrow> MemoryBackend \<Rightarrow> (unit, MemoryBackend) go" where
  "cleanup_tick addDays now mb =
     (let mb1 = mb\<lparr>mb_retained := filter (\<lambda>(topic, msg). \<not> (case msg_ExpiryTime msg of None \<Rightarrow> False | Some e \<Rightarrow> e < now))
                                   (mb_retained mb)\<rparr>
      in retain_streams addDays now (map fst (mb_streams mb1)) mb1)"

section \<open>Iterators\<close>

definition Next :: "memoryIterator \<Rightarrow> int \<Rightarrow> (string, Message list \<times> memoryIterator) go" where
  "Next mi limit =
     (if mi_closed mi then Err ''iterator is closed''
      else if mi_position mi \<ge> length (mi_messages mi) then Ok ([], mi)
      else (let end0 = int (mi_position mi) + limit;
                end1 = (if end0 > int (length (mi_messages mi)) then int (length (mi_messages mi)) else end0)
            in if end1 < int (mi_position mi) then Panic
               else Ok (take (nat end1 - mi_position mi) (drop (mi_position mi) (mi_messages mi)),
                        mi\<lparr>mi_position := nat end1\<rparr>)))"

definition HasMore :: "memoryIterator \<Rightarrow> bool" where
  "HasMore mi = (\<not> mi_closed mi \<and> mi_position mi < length (mi_messages mi))"

definition iter_Close :: "memoryIterator \<Rightarrow> memoryIterator" where
  "iter_Close mi = mi\<lparr>mi_closed := True\<rparr>"

section \<open>The storage front end\<close>

text \<open>
  The runes of a Go string: the code points of its valid UTF-8 sequences, and the replacement
  character for every byte that starts no valid sequence.
\<close>

definition cont_byte :: "nat \<Rightarrow> nat \<Rightarrow> char \<Rightarrow> bool" where
  "cont_byte lo hi c = (lo \<le> of_char c \<and> of_char c \<le> hi)"

fun rune_at :: "string \<Rightarrow> nat \<times> nat" where
  "rune_at [] = (0, 0)"
| "rune_at (c0 # cs) =
     (let b0 = of_char c0; bad = (0xFFFD, 1)
      in if b0 < 0x80 then (b0, 1)
         else if 0xC2 \<le> b0 \<and> b0 \<le> 0xDF
         then (case cs of
                 c1 # _ \<Rightarrow> if cont_byte 0x80 0xBF c1 then ((b0 - 0xC0) * 64 + (of_char c1 - 0x80), 2) else bad
               | _ \<Rightarrow> bad)
         else if 0xE0 \<le> b0 \<and> b0 \<le> 0xEF
         then (case cs of
                 c1 # c2 # _ \<Rightarrow>
                   if cont_byte (if b0 = 0xE0 then 0xA0 else 0x80) (if b0 = 0xED then 0x9F else 0xBF) c1
                      \<and> cont_byte 0x80 0xBF c2
                   then ((b0 - 0xE0) * 4096 + (of_char c1 - 0x80) * 64 + (of_char c2 - 0x80), 3) else bad
               | _ \<Rightarrow> bad)
         else if 0xF0 \<le> b0 \<and> b0 \<le> 0xF4
         then (case cs of
                 c1 # c2 # c3 # _ \<Rightarrow>
                   if cont_byte (if b0 = 0xF0 then 0x90 else 0x80) (if b0 = 0xF4 then 0x8F else 0xBF) c1
                      \<and> cont_byte 0x80 0xBF c2 \<and> cont_byte 0x80 0xBF c3
                   then ((b0 - 0xF0) * 262144 + (of_char c1 - 0x80) * 4096 + (of_char c2 - 0x80) * 64
                         + (of_char c3 - 0x80), 4) else bad
               | _ \<Rightarrow> bad)
         else bad)"

function runes :: "string \<Rightarrow> nat list" where
  "runes s = (if s = [] then [] else (case rune_at s of (r, n) \<Rightarrow> r # runes (drop (max 1 n) s)))"
  by pat_completeness auto
termination
  by (relation "measure length") auto

declare runes.simps [simp del]

text \<open>\<open>hash\<close>: the 64-bit \<open>int\<close> wraps; the negation of the least value is the least value again.\<close>

definition hash :: "string \<Rightarrow> 64 word" where
  "hash s = (let h = foldl (\<lambda>h c. 31 * h + word_of_nat c) 0 (runes s) in if sint h < 0 then - h else h)"

definition go_rem :: "int \<Rightarrow> int \<Rightarrow> int" where
  "go_rem a b = sgn a * (\<bar>a\<bar> mod \<bar>b\<bar>)"

definition getStreamID :: "(time \<Rightarrow> string) \<Rightarrow> Config \<Rightarrow> string \<Rightarrow> time \<Rightarrow> (string, string) go" where
  "getStreamID date config topic timestamp =
     (if cf_Shards config = 0 then Panic
      else Ok (''stream-'' @ date timestamp @ ''-shard-'' @ show_int (go_rem (sint (hash topic)) (cf_Shards config))))"

definition NewMessageStorage :: "Config option \<Rightarrow> (string, MemoryBackend) go" where
  "NewMessageStorage config0 =
     (let config = (case config0 of None \<Rightarrow> DefaultConfig | Some c \<Rightarrow> c)
      in if cf_Backend config = ''memory'' then Ok (NewMemoryBackend config)
         else if cf_Backend config = ''persistent'' then Err ''persistent backend not yet implemented''
         else if cf_Backend config = ''distributed'' then Err ''distributed backend not yet implemented''
         else Err (''unsupported backend: '' @ cf_Backend config))"

text \<open>The front end holds the backend and its configuration; the state below is the backend.\<close>

definition prepare :: "time \<Rightarrow> string \<Rightarrow> Message \<Rightarrow> Message" where
  "prepare now new_id message =
     message\<lparr>msg_ID := (if msg_ID message = [] then new_id else msg_ID message),
             msg_Timestamp := (if msg_Timestamp message = 0 then now else msg_Timestamp message)\<rparr>"

definition lift_panic :: "(unit, 'a) go \<Rightarrow> (string, 'a) go" where
  "lift_panic m = (case m of Ok a \<Rightarrow> Ok a | Err _ \<Rightarrow> Err [] | Panic \<Rightarrow> Panic | Blocked \<Rightarrow> Blocked)"

definition StoreMessage ::
  "(time \<Rightarrow> string) \<Rightarrow> (time \<Rightarrow> int \<Rightarrow> time) \<Rightarrow> time \<Rightarrow> string \<Rightarrow> MemoryBackend \<Rightarrow> Message \<Rightarrow> (string, MemoryBackend) go" where
  "StoreMessage date addDays now new_id mb message0 =
     (let message = prepare now new_id message0
      in if msg_Retained message then Ok (backend_StoreRetained mb (msg_Topic message) message)
         else go_bind (getStreamID date (mb_config mb) (msg_Topic message) (msg_Timestamp message))
                (\<lambda>streamID. lift_panic (AppendMessages addDays now mb streamID [message])))"

text \<open>\<open>StoreMessages\<close>: grouping, then the retained messages, then stream by stream.\<close>

fun group_messages ::
  "(time \<Rightarrow> string) \<Rightarrow> Config \<Rightarrow> time \<Rightarrow> (nat \<Rightarrow> string) \<Rightarrow> nat \<Rightarrow> Message list
    \<Rightarrow> (string, Message list) gomap \<Rightarrow> Message list \<Rightarrow> (string, (string, Message list) gomap \<times> Message list) go" where
  "group_messages date config now new_id i [] streamMessages retainedMessages = Ok (streamMessages, retainedMessages)"
| "group_messages date config now new_id i (msg0 # msgs) streamMessages retainedMessages =
     (let msg = prepare now (new_id i) msg0
      in if msg_Retained msg
         then group_messages date config now new_id (Suc i) msgs streamMessages (retainedMessages @ [msg])
         else go_bind (getStreamID date config (msg_Topic msg) (msg_Timestamp msg)) (\<lambda>streamID.
                group_messages date config now new_id (Suc i) msgs
                  (gm_set streamMessages streamID (gm_get0 [] streamMessages streamID @ [msg])) retainedMessages))"

fun append_streams ::
  "(time \<Rightarrow> int \<Rightarrow> time) \<Rightarrow> time \<Rightarrow> (string, Message list) gomap \<Rightarrow> MemoryBackend \<Rightarrow> (string, MemoryBackend) go" where
  "append_streams addDays now [] mb = Ok mb"
| "append_streams addDays now ((streamID, msgs) # rest) mb =
     go_bind (lift_panic (AppendMessages addDays now mb streamID msgs)) (append_streams addDays now rest)"

definition StoreMessages ::
  "(time \<Rightarrow> string) \<Rightarrow> (time \<Rightarrow> int \<Rightarrow> time) \<Rightarrow> time \<Rightarrow> (nat \<Rightarrow> string) \<Rightarrow> MemoryBackend \<Rightarrow> Message list
    \<Rightarrow> (string, MemoryBackend) go" where
  "StoreMessages date addDays now new_id mb messages =
     go_bind (group_messages date (mb_config mb) now new_id 0 messages [] []) (\<lambda>(streamMessages, retainedMessages).
       append_streams addDays now streamMessages
         (foldl (\<lambda>mb msg. backend_StoreRetained mb (msg_Topic msg) msg) mb retainedMessages))"

definition GetRetainedMessages :: "MemoryBackend \<Rightarrow> string \<Rightarrow> Message list" where
  "GetRetainedMessages mb topicFilter = GetRetained mb topicFilter"

definition DeleteRetainedMessage :: "MemoryBackend \<Rightarrow> string \<Rightarrow> MemoryBackend" where
  "DeleteRetainedMessage mb topic = backend_DeleteRetained mb topic"

definition storage_Subscribe ::
  "(time \<Rightarrow> string) \<Rightarrow> time \<Rightarrow> MemoryBackend \<Rightarrow> string \<Rightarrow> SubscriptionOptions
    \<Rightarrow> (string, memorySubscription \<times> MemoryBackend) go" where
  "storage_Subscribe date now mb topicFilter opts =
     go_bind (getStreamID date (mb_config mb) topicFilter now) (\<lambda>streamID. Ok (backend_Subscribe mb streamID opts))"

text \<open>A batch that is asked for is not empty while the iterator has more.\<close>

lemma Next_progress:
  assumes "HasMore mi" and "0 < n" and "Next mi n = Ok (ms, mi')"
  shows "ms = take (nat n) (drop (mi_position mi) (mi_messages mi))"
    and "mi' = mi\<lparr>mi_position := min (length (mi_messages mi)) (mi_position mi + nat n)\<rparr>"
    and "ms \<noteq> []"
  using assms by (auto simp: Next_def HasMore_def Let_def min_def nat_add_distrib split: if_splits)

text \<open>
  The inner loop of \<open>GetMessages\<close> reads one stream in batches of at most 100 messages; it ends
  because every round that starts reads at least one message.
\<close>

function read_stream :: "memoryIterator \<Rightarrow> int \<Rightarrow> Message list \<Rightarrow> (string, Message list \<times> int) go" where
  "read_stream mi remaining acc =
     (if HasMore mi \<and> remaining > 0
      then (case Next mi (if remaining > 100 then 100 else remaining) of
              Ok (messages, mi') \<Rightarrow> read_stream mi' (remaining - int (length messages)) (acc @ messages)
            | Err e \<Rightarrow> Err (''failed to read messages: '' @ e)
            | Panic \<Rightarrow> Panic
            | Blocked \<Rightarrow> Blocked)
      else Ok (acc, remaining))"
  by pat_completeness auto
termination
proof (relation "measure (\<lambda>(mi, _, _). length (mi_messages mi) - mi_position mi)", goal_cases)
  case (2 mi remaining acc p ms mi')
  then have n: "0 < (if remaining > 100 then 100 else remaining :: int)" by auto
  from Next_progress(2) [OF _ n, of mi ms mi'] 2 show ?case by (auto simp: HasMore_def)
qed simp

declare read_stream.simps [simp del]

fun read_streams :: "MemoryBackend \<Rightarrow> string \<Rightarrow> time \<Rightarrow> StreamInfo list \<Rightarrow> int \<Rightarrow> Message list
    \<Rightarrow> (string, Message list) go" where
  "read_streams mb topicFilter startTime [] remaining acc = Ok acc"
| "read_streams mb topicFilter startTime (stream # streams) remaining acc =
     (if remaining \<le> 0 then Ok acc
      else go_bind (read_stream (CreateIterator mb (si_ID stream) topicFilter startTime) remaining acc)
             (\<lambda>(acc', remaining'). read_streams mb topicFilter startTime streams remaining' acc'))"

definition GetMessages :: "MemoryBackend \<Rightarrow> string \<Rightarrow> time \<Rightarrow> int \<Rightarrow> (string, Message list) go" where
  "GetMessages mb topicFilter startTime limit =
     read_streams mb topicFilter startTime (GetStreams mb topicFilter startTime) limit []"

section \<open>Topic matching\<close>

lemma prefix_levels_match_iff:
  "prefix_levels_match ts (fs @ [''#'']) \<longleftrightarrow> length fs \<le> length ts \<and> list_all2 (\<lambda>f t. f = ''+'' \<or> f = t) fs (take (length fs) ts)"
  unfolding prefix_levels_match_def list_all_iff list_all2_conv_all_nth
  by (force simp: nth_append not_less_eq_eq)

lemma mqtt_match_hash_end:
  "''#'' \<notin> set fs \<Longrightarrow> mqtt_match ts (fs @ [''#'']) \<longleftrightarrow>
    length fs \<le> length ts \<and> list_all2 (\<lambda>f t. f = ''+'' \<or> f = t) fs (take (length fs) ts)"
proof (induction fs arbitrary: ts)
  case Nil
  show ?case by (simp add: match_hash)
next
  case (Cons f fs)
  then show ?case by (cases ts) auto
qed

lemma mqtt_match_no_hash:
  "''#'' \<notin> set fs \<Longrightarrow> mqtt_match ts fs \<longleftrightarrow> list_all2 (\<lambda>f t. f = ''+'' \<or> f = t) fs ts"
proof (induction fs arbitrary: ts)
  case (Cons f fs)
  then show ?case by (cases ts) auto
qed auto

lemma valid_levels_hash: "valid_levels fs \<Longrightarrow> ''#'' \<notin> set (butlast fs)"
  by (induction fs) auto

lemma levels_hash: "levels f = [''#''] \<longleftrightarrow> f = ''#''"
  using go_split_inject [of "CHR ''/''" f "''#''"] by simp

lemma topicMatches_levels:
  assumes "''#'' \<notin> set (levels topic)" and "''#'' \<notin> set (butlast (levels flt))"
  shows "topicMatches topic flt \<longleftrightarrow> mqtt_match (levels topic) (levels flt)"
proof -
  let ?ts = "levels topic" and ?fs = "levels flt"
  have last: "?fs ! (length ?fs - Suc 0) = last ?fs" by (simp add: last_conv_nth)
  have eq: "mqtt_match ?ts ?fs" if "topic = flt" using assms(1) that mqtt_match_refl by auto
  have hash: "mqtt_match ?ts ?fs" if "flt = ''#''" using that by (simp add: match_hash)
  show ?thesis
  proof (cases "last ?fs = ''#''")
    case True
    then have fs: "?fs = butlast ?fs @ [''#'']" by (metis append_butlast_last_id go_split_not_Nil)
    have "prefix_levels_match ?ts ?fs = mqtt_match ?ts ?fs"
      using prefix_levels_match_iff [of ?ts "butlast ?fs"] mqtt_match_hash_end [OF assms(2), of ?ts] fs by simp
    with True eq hash show ?thesis by (auto simp: topicMatches_def Let_def last)
  next
    case False
    then have "''#'' \<notin> set ?fs"
      using assms(2) by (metis append_butlast_last_id go_split_not_Nil in_set_conv_decomp insertE set_ConsD
          rotate1.simps(2) set_rotate1)
    then have "mqtt_match ?ts ?fs = list_all2 (\<lambda>f t. f = ''+'' \<or> f = t) ?fs ?ts" by (rule mqtt_match_no_hash)
    also have "\<dots> = (length ?ts = length ?fs \<and> all_levels_match ?ts ?fs)"
      by (auto simp: all_levels_match_def list_all2_conv_all_nth list_all_iff)
    finally show ?thesis using False eq hash by (auto simp: topicMatches_def Let_def last)
  qed
qed

interpretation backend_matcher: topic_matcher topicMatches
proof unfold_locales
  fix topic flt :: string
  assume "publishable topic" and "valid_filter flt"
  then show "topicMatches topic flt \<longleftrightarrow> mqtt_match (levels topic) (levels flt)"
    by (intro topicMatches_levels)
      (simp_all add: publishable_hash_free valid_filter_def valid_levels_hash)
qed

section \<open>Reading back in batches\<close>

lemma Next_Ok: "HasMore mi \<Longrightarrow> 0 < n \<Longrightarrow> \<exists>ms mi'. Next mi n = Ok (ms, mi')"
  by (auto simp: Next_def HasMore_def Let_def)

lemma read_stream_eq:
  assumes "\<not> mi_closed mi"
  shows "read_stream mi remaining acc =
    (let rest = drop (mi_position mi) (mi_messages mi); got = take (nat remaining) rest
     in Ok (acc @ got, remaining - int (length got)))"
  using assms
proof (induction mi remaining acc rule: read_stream.induct)
  case (1 mi remaining acc)
  let ?n = "if remaining > 100 then 100 else remaining" and ?rest = "drop (mi_position mi) (mi_messages mi)"
  show ?case
  proof (cases "HasMore mi \<and> remaining > 0")
    case False
    then show ?thesis using 1(2) by (auto simp: read_stream.simps [of mi] HasMore_def Let_def)
  next
    case True
    then have n: "0 < ?n" by auto
    obtain ms mi' where nx: "Next mi ?n = Ok (ms, mi')" using Next_Ok [OF _ n] True by blast
    note pr = Next_progress(1,2) [OF _ n nx]
    have open': "\<not> mi_closed mi'" using pr True 1(2) by simp
    have rest': "drop (mi_position mi') (mi_messages mi') = drop (nat ?n) ?rest"
      using pr True by (simp add: add.commute min_def)
    have len: "length ms = min (length ?rest) (nat ?n)" using pr True by simp
    have "read_stream mi remaining acc = read_stream mi' (remaining - int (length ms)) (acc @ ms)"
      using True nx by (subst read_stream.simps) simp
    also have "\<dots> = (let got = take (nat (remaining - int (length ms))) (drop (nat ?n) ?rest)
        in Ok (acc @ ms @ got, remaining - int (length ms) - int (length got)))"
      using 1(1) [OF True nx refl open'] by (simp add: rest' Let_def)
    also have "\<dots> = (let got = take (nat remaining) ?rest in Ok (acc @ got, remaining - int (length got)))"
    proof -
      have key: "ms @ take (nat (remaining - int (length ms))) (drop (nat ?n) ?rest) = take (nat remaining) ?rest"
      proof (cases "nat ?n < length ?rest")
        case True
        then have ln: "length ms = nat ?n" using len by simp
        have eq: "nat remaining = nat ?n + nat (remaining - int (length ms))" using n ln by auto
        have ms: "ms = take (nat ?n) ?rest" using pr(1) \<open>HasMore mi \<and> remaining > 0\<close> by blast
        show ?thesis unfolding eq take_add ms [symmetric] ..
      next
        case False
        have "nat ?n \<le> nat remaining" by auto
        with False show ?thesis using pr(1) True by simp
      qed
      have "int (length (take (nat remaining) ?rest)) =
          int (length ms) + int (length (take (nat (remaining - int (length ms))) (drop (nat ?n) ?rest)))"
        unfolding key [symmetric] by (simp only: length_append of_nat_add)
      then show ?thesis unfolding Let_def key by (simp only: diff_diff_eq)
    qed
    finally show ?thesis by (simp add: Let_def)
  qed
qed

text \<open>The messages of one stream that match, and of all streams in the order they are read.\<close>

definition stream_matches :: "MemoryBackend \<Rightarrow> string \<Rightarrow> time \<Rightarrow> string \<Rightarrow> Message list" where
  "stream_matches mb topicFilter startTime streamID =
     filter (\<lambda>msg. topicMatches (msg_Topic msg) topicFilter \<and> msg_Timestamp msg > startTime)
       (gm_get0 [] (mb_streams mb) streamID)"

lemma CreateIterator_eq:
  "CreateIterator mb sid f t = \<lparr>mi_messages = stream_matches mb f t sid, mi_position = 0, mi_closed = False\<rparr>"
  by (auto simp: CreateIterator_def stream_matches_def gm_get0_def split: option.splits)

lemma read_streams_eq:
  "read_streams mb f t streams remaining acc =
     Ok (acc @ take (nat remaining) (concat (map (stream_matches mb f t \<circ> si_ID) streams)))"
proof (induction streams arbitrary: remaining acc)
  case (Cons s streams)
  let ?m = "stream_matches mb f t (si_ID s)"
  have "read_stream (CreateIterator mb (si_ID s) f t) remaining acc =
      Ok (acc @ take (nat remaining) ?m, remaining - int (length (take (nat remaining) ?m)))"
    by (simp add: CreateIterator_eq read_stream_eq Let_def)
  moreover have "nat (remaining - int (length (take (nat remaining) ?m))) = nat remaining - length ?m"
    if "0 < remaining" using that by (simp add: min_def) linarith
  ultimately show ?case using Cons by simp
qed simp

text \<open>
  (C25) Reading messages back: \<open>GetMessages\<close> ends without error and returns the first \<open>limit\<close>
  messages of the matching streams in order of their start; the batches of 100 it reads in are
  invisible and no message is skipped or returned twice.
\<close>

theorem GetMessages_exact:
  "GetMessages mb topicFilter startTime limit =
     Ok (take (nat limit) (concat (map (stream_matches mb topicFilter startTime \<circ> si_ID)
       (GetStreams mb topicFilter startTime))))"
  by (simp add: GetMessages_def read_streams_eq)

section \<open>The backend's invariant\<close>

definition stream_ok :: "string \<Rightarrow> Message list option \<Rightarrow> StreamInfo option \<Rightarrow> bool" where
  "stream_ok sid ms meta =
     (case (ms, meta) of
        (None, None) \<Rightarrow> True
      | (Some ms, Some meta) \<Rightarrow>
          si_ID meta = sid \<and> si_MessageCount meta = length ms \<and> (\<forall>m \<in> set ms. msg_StreamID m = sid)
      | _ \<Rightarrow> False)"

definition retained_ok :: "(string, Message) gomap \<Rightarrow> bool" where
  "retained_ok m = (gm_wf m \<and> list_all (\<lambda>(topic, msg). msg_Payload msg \<noteq> [] \<and> msg_Retained msg) m)"

definition backend_inv :: "MemoryBackend \<Rightarrow> bool" where
  "backend_inv mb =
     (gm_wf (mb_streams mb) \<and> gm_wf (mb_streamMeta mb) \<and> retained_ok (mb_retained mb)
      \<and> (\<forall>sid. stream_ok sid (gm_get (mb_streams mb) sid) (gm_get (mb_streamMeta mb) sid)))"

lemma backend_inv_set_stream:
  assumes "backend_inv mb" and "si_ID meta = sid" and "si_MessageCount meta = length ms"
    and "\<forall>m \<in> set ms. msg_StreamID m = sid"
  shows "backend_inv (mb\<lparr>mb_streams := gm_set (mb_streams mb) sid ms, mb_streamMeta := gm_set (mb_streamMeta mb) sid meta\<rparr>)"
proof -
  have "stream_ok sid (Some ms) (Some meta)" using assms(2-4) by (simp add: stream_ok_def)
  with assms(1) show ?thesis by (simp add: backend_inv_def distinct_update)
qed

lemma backend_inv_new: "backend_inv (NewMemoryBackend config)"
  by (simp add: backend_inv_def NewMemoryBackend_def stream_ok_def retained_ok_def)

lemma retained_ok_set:
  "retained_ok m \<Longrightarrow> msg_Payload msg \<noteq> [] \<Longrightarrow> retained_ok (gm_set m t (msg\<lparr>msg_Retained := True\<rparr>))"
  using set_gm_set [of m t "msg\<lparr>msg_Retained := True\<rparr>"]
  by (auto simp: retained_ok_def list_all_iff distinct_update)

lemma retained_ok_del: "retained_ok m \<Longrightarrow> retained_ok (gm_del m t)"
  by (auto simp: retained_ok_def list_all_iff distinct_delete set_gm_del)

lemma retained_ok_filter: "retained_ok m \<Longrightarrow> retained_ok (filter P m)"
  by (auto simp: retained_ok_def list_all_iff distinct_map_filter)

lemma backend_inv_StoreRetained: "backend_inv mb \<Longrightarrow> backend_inv (backend_StoreRetained mb t msg)"
  by (auto simp: backend_inv_def backend_StoreRetained_def retained_ok_set retained_ok_del)

lemma backend_inv_DeleteRetained: "backend_inv mb \<Longrightarrow> backend_inv (backend_DeleteRetained mb t)"
  by (auto simp: backend_inv_def backend_DeleteRetained_def retained_ok_del)

lemma append_loop_stamps:
  "append_loop sid now i msgs stream meta = (stream', meta') \<Longrightarrow>
     (\<exists>new. stream' = stream @ new \<and> length new = length msgs
       \<and> (\<forall>m \<in> set new. msg_StreamID m = sid)
       \<and> map msg_SequenceNo new = map (\<lambda>j. length stream + i + 2 * j + 1) [0..<length msgs]
       \<and> map msg_Topic new = map msg_Topic msgs \<and> map msg_Payload new = map msg_Payload msgs)
     \<and> si_ID meta' = si_ID meta \<and> si_MessageCount meta' = si_MessageCount meta + length msgs"
proof (induction msgs arbitrary: i stream meta)
  case (Cons m msgs)
  let ?m = "m\<lparr>msg_StreamID := sid, msg_SequenceNo := length stream + i + 1,
             msg_Timestamp := (if msg_Timestamp m = 0 then now else msg_Timestamp m)\<rparr>"
  from Cons.prems obtain meta1 where
    step: "append_loop sid now (Suc i) msgs (stream @ [?m]) meta1 = (stream', meta')"
    and meta1: "si_ID meta1 = si_ID meta" "si_MessageCount meta1 = si_MessageCount meta + 1"
    by (auto simp: Let_def)
  from Cons.IH [OF step] obtain new where
    new: "stream' = (stream @ [?m]) @ new" "length new = length msgs" "\<forall>m \<in> set new. msg_StreamID m = sid"
      "map msg_SequenceNo new = map (\<lambda>j. length (stream @ [?m]) + Suc i + 2 * j + 1) [0..<length msgs]"
      "map msg_Topic new = map msg_Topic msgs" "map msg_Payload new = map msg_Payload msgs"
      and meta': "si_ID meta' = si_ID meta1" "si_MessageCount meta' = si_MessageCount meta1 + length msgs"
    by blast
  have "map msg_SequenceNo (?m # new) = map (\<lambda>j. length stream + i + 2 * j + 1) [0..<length (m # msgs)]"
    using new(4) by (simp add: upt_conv_Cons map_Suc_upt [symmetric] comp_def del: upt_Suc)
  then show ?case using new meta' meta1 by (intro conjI exI [of _ "?m # new"]) auto
qed simp

lemma applyRetention_off: "cf_RetentionDays (mb_config mb) \<le> 0 \<Longrightarrow> applyRetention addDays now mb sid = Ok mb"
  by (simp add: applyRetention_def)

lemma notifySubscriptions_fields [simp]:
  "mb_streams (notifySubscriptions mb sid ms) = mb_streams mb"
  "mb_streamMeta (notifySubscriptions mb sid ms) = mb_streamMeta mb"
  "mb_retained (notifySubscriptions mb sid ms) = mb_retained mb"
  "mb_config (notifySubscriptions mb sid ms) = mb_config mb"
  by (simp_all add: notifySubscriptions_def)

lemma applyRetention_inv:
  assumes "backend_inv mb"
  obtains mb' k where "applyRetention addDays now mb sid = Ok mb'" and "backend_inv mb'"
    and "gm_get0 [] (mb_streams mb') sid = drop k (gm_get0 [] (mb_streams mb) sid)"
    and "\<forall>sid'. sid' \<noteq> sid \<longrightarrow> gm_get (mb_streams mb') sid' = gm_get (mb_streams mb) sid'"
    and "mb_retained mb' = mb_retained mb"
proof (cases "cf_RetentionDays (mb_config mb) \<le> 0")
  case True
  with that [of mb 0] assms show ?thesis by (simp add: applyRetention_off)
next
  case False
  let ?ms = "gm_get0 [] (mb_streams mb) sid"
  define k where "k = keep_from (addDays now (- cf_RetentionDays (mb_config mb))) 0 ?ms"
  have ok: "stream_ok sid (gm_get (mb_streams mb) sid) (gm_get (mb_streamMeta mb) sid)"
    using assms by (simp add: backend_inv_def)
  show ?thesis
  proof (cases "k > 0")
    case False
    with \<open>\<not> cf_RetentionDays (mb_config mb) \<le> 0\<close> have "applyRetention addDays now mb sid = Ok mb"
      by (simp add: applyRetention_def Let_def k_def)
    with that [of mb 0] assms show ?thesis by simp
  next
    case True
    then have "?ms \<noteq> []" by (cases ?ms) (auto simp: k_def)
    then obtain ms where ms: "gm_get (mb_streams mb) sid = Some ms" by (auto simp: gm_get0_def split: option.splits)
    with ok obtain meta where meta: "gm_get (mb_streamMeta mb) sid = Some meta"
      by (auto simp: stream_ok_def split: option.splits)
    let ?mb = "mb\<lparr>mb_streams := gm_set (mb_streams mb) sid (drop k ?ms),
        mb_streamMeta := gm_set (mb_streamMeta mb) sid (meta\<lparr>si_MessageCount := length ?ms - k\<rparr>)\<rparr>"
    have "applyRetention addDays now mb sid = Ok ?mb"
      using \<open>\<not> cf_RetentionDays (mb_config mb) \<le> 0\<close> True meta by (simp add: applyRetention_def Let_def k_def)
    moreover have "backend_inv ?mb"
      using assms ok ms meta by (auto simp: backend_inv_def stream_ok_def gm_get0_def dest: in_set_dropD)
    ultimately show ?thesis using that [of ?mb k] ms by (simp add: gm_get0_def)
  qed
qed

text \<open>What \<open>AppendMessages\<close> hands to retention: the stream with the new messages at its end.\<close>

lemma AppendMessages_step:
  assumes "backend_inv mb"
  obtains mb1 new where "AppendMessages addDays now mb sid msgs = applyRetention addDays now mb1 sid"
    and "backend_inv mb1" and "mb_config mb1 = mb_config mb" and "mb_retained mb1 = mb_retained mb"
    and "gm_get (mb_streams mb1) sid = Some (gm_get0 [] (mb_streams mb) sid @ new)"
    and "\<forall>sid'. sid' \<noteq> sid \<longrightarrow> gm_get (mb_streams mb1) sid' = gm_get (mb_streams mb) sid'"
    and "map msg_Topic new = map msg_Topic msgs" and "map msg_Payload new = map msg_Payload msgs"
    and "map msg_SequenceNo new =
      map (\<lambda>j. length (gm_get0 [] (mb_streams mb) sid) + 2 * j + 1) [0..<length msgs]"
proof -
  define mb0 where "mb0 = (if gm_get (mb_streams mb) sid = None
     then mb\<lparr>mb_streams := gm_set (mb_streams mb) sid [],
             mb_streamMeta := gm_set (mb_streamMeta mb) sid
               \<lparr>si_ID = sid, si_Topic = [], si_StartTime = now, si_EndTime = 0,
                si_MessageCount = 0, si_SizeBytes = 0\<rparr>\<rparr>
     else mb)"
  have ok: "stream_ok sid (gm_get (mb_streams mb) sid) (gm_get (mb_streamMeta mb) sid)"
    using assms by (simp add: backend_inv_def)
  have inv0: "backend_inv mb0" unfolding mb0_def using assms by (auto intro!: backend_inv_set_stream)
  let ?ms = "gm_get0 [] (mb_streams mb) sid"
  have ms0: "gm_get (mb_streams mb0) sid = Some ?ms" "gm_get0 [] (mb_streams mb0) sid = ?ms"
    by (auto simp: mb0_def gm_get0_def)
  obtain meta where meta: "gm_get (mb_streamMeta mb0) sid = Some meta" "si_ID meta = sid"
      "si_MessageCount meta = length ?ms" "\<forall>m \<in> set ?ms. msg_StreamID m = sid"
    using inv0 ms0 by (force simp: backend_inv_def stream_ok_def split: option.splits dest: spec [of _ sid])
  obtain stream' meta' where loop: "append_loop sid now 0 msgs ?ms meta = (stream', meta')" by force
  from append_loop_stamps [OF loop] obtain new where
    new: "stream' = ?ms @ new" "length new = length msgs" "\<forall>m \<in> set new. msg_StreamID m = sid"
      "map msg_SequenceNo new = map (\<lambda>j. length ?ms + 0 + 2 * j + 1) [0..<length msgs]"
      "map msg_Topic new = map msg_Topic msgs" "map msg_Payload new = map msg_Payload msgs"
      and meta': "si_ID meta' = si_ID meta" "si_MessageCount meta' = si_MessageCount meta + length msgs"
    by blast
  define mb1 where "mb1 = notifySubscriptions
    (mb0\<lparr>mb_streams := gm_set (mb_streams mb0) sid stream', mb_streamMeta := gm_set (mb_streamMeta mb0) sid meta'\<rparr>) sid msgs"
  have "AppendMessages addDays now mb sid msgs = applyRetention addDays now mb1 sid"
    unfolding AppendMessages_def mb0_def [symmetric] Let_def ms0(2) meta(1) option.case loop prod.case mb1_def ..
  moreover have "backend_inv mb1"
    using inv0 new(1,2,3) meta(2-4) meta' by (auto simp: mb1_def backend_inv_def stream_ok_def)
  moreover have "gm_get (mb_streams mb1) sid' = gm_get (mb_streams mb) sid'" if "sid' \<noteq> sid" for sid'
    using that by (simp add: mb1_def mb0_def)
  ultimately show ?thesis
    using that [of mb1 new] new by (simp add: mb1_def) (simp add: mb0_def)
qed

section \<open>Retention\<close>

lemma keep_from_dropWhile:
  "keep_from cutoff i ms =
     (if list_all (\<lambda>m. msg_Timestamp m \<le> cutoff) ms then 0
      else i + length (takeWhile (\<lambda>m. msg_Timestamp m \<le> cutoff) ms))"
  by (induction ms arbitrary: i) auto

lemma drop_keep_from:
  "drop (keep_from cutoff 0 ms) ms =
     (if list_all (\<lambda>m. msg_Timestamp m \<le> cutoff) ms then ms
      else dropWhile (\<lambda>m. msg_Timestamp m \<le> cutoff) ms)"
  by (simp add: keep_from_dropWhile dropWhile_eq_drop)

lemma sorted_dropWhile_filter:
  "sorted (map f ms) \<Longrightarrow> dropWhile (\<lambda>m. f m \<le> (c :: int)) ms = filter (\<lambda>m. f m > c) ms"
proof (induction ms)
  case (Cons m ms)
  show ?case
  proof (cases "f m \<le> c")
    case True
    with Cons show ?thesis by auto
  next
    case False
    with Cons.prems have "\<forall>x \<in> set ms. f x > c" by auto
    with False show ?thesis by simp
  qed
qed simp

lemma applyRetention_stream:
  fixes addDays :: "time \<Rightarrow> int \<Rightarrow> time" and now :: time
  assumes "backend_inv mb" and "cf_RetentionDays (mb_config mb) > 0"
  defines "cutoff \<equiv> addDays now (- cf_RetentionDays (mb_config mb))"
  shows "\<exists>mb'. applyRetention addDays now mb sid = Ok mb' \<and> backend_inv mb' \<and>
    gm_get0 [] (mb_streams mb') sid =
      (let ms = gm_get0 [] (mb_streams mb) sid
       in if list_all (\<lambda>m. msg_Timestamp m \<le> cutoff) ms then ms else dropWhile (\<lambda>m. msg_Timestamp m \<le> cutoff) ms)"
proof -
  let ?ms = "gm_get0 [] (mb_streams mb) sid"
  obtain mb' where ok: "applyRetention addDays now mb sid = Ok mb'" and inv: "backend_inv mb'"
    using applyRetention_inv [OF assms(1), where addDays = addDays and now = now and sid = sid] by metis
  have "gm_get0 [] (mb_streams mb') sid = drop (keep_from cutoff 0 ?ms) ?ms"
    using ok assms(2) by (auto simp: applyRetention_def Let_def cutoff_def gm_get0_def split: if_splits option.splits)
  with ok inv show ?thesis by (auto simp: drop_keep_from Let_def)
qed

section \<open>Properties\<close>

text \<open>A message with nothing but a topic, a payload and a time, for concrete runs.\<close>

definition plain_msg :: "string \<Rightarrow> byte list \<Rightarrow> time \<Rightarrow> Message" where
  "plain_msg topic payload timestamp =
     \<lparr>msg_ID = ''m'', msg_Topic = topic, msg_Payload = payload, msg_QoS = 0, msg_Retained = False,
      msg_Timestamp = timestamp, msg_Headers = [], msg_ExpiryTime = None, msg_ClientID = [],
      msg_StreamID = [], msg_SequenceNo = 0\<rparr>"

text \<open>
  Appending to a stream never fails on a well-formed backend, keeps it well formed, touches
  no other stream and no retained message, and adds the messages at the end of the stream in order;
  retention can only cut off an initial part of the stream.
\<close>

lemma AppendMessages_correct:
  assumes "backend_inv mb"
  shows "\<exists>mb' new k. AppendMessages addDays now mb sid msgs = Ok mb' \<and> backend_inv mb'
    \<and> gm_get0 [] (mb_streams mb') sid = drop k (gm_get0 [] (mb_streams mb) sid @ new)
    \<and> map msg_Topic new = map msg_Topic msgs \<and> map msg_Payload new = map msg_Payload msgs
    \<and> (\<forall>sid'. sid' \<noteq> sid \<longrightarrow> gm_get (mb_streams mb') sid' = gm_get (mb_streams mb) sid')
    \<and> mb_retained mb' = mb_retained mb"
proof -
  obtain mb1 new where app: "AppendMessages addDays now mb sid msgs = applyRetention addDays now mb1 sid"
    and inv: "backend_inv mb1" and st: "gm_get (mb_streams mb1) sid = Some (gm_get0 [] (mb_streams mb) sid @ new)"
      "\<forall>sid'. sid' \<noteq> sid \<longrightarrow> gm_get (mb_streams mb1) sid' = gm_get (mb_streams mb) sid'"
      "map msg_Topic new = map msg_Topic msgs" "map msg_Payload new = map msg_Payload msgs"
      "mb_retained mb1 = mb_retained mb"
    using AppendMessages_step [OF assms, where addDays = addDays and now = now and sid = sid and msgs = msgs] by metis
  obtain mb' k where "applyRetention addDays now mb1 sid = Ok mb'" "backend_inv mb'"
      "gm_get0 [] (mb_streams mb') sid = drop k (gm_get0 [] (mb_streams mb1) sid)"
      "\<forall>sid'. sid' \<noteq> sid \<longrightarrow> gm_get (mb_streams mb') sid' = gm_get (mb_streams mb1) sid'"
      "mb_retained mb' = mb_retained mb1"
    using applyRetention_inv [OF inv, where addDays = addDays and now = now and sid = sid] by metis
  with app st show ?thesis by (intro exI [of _ mb'] exI [of _ new] exI [of _ k]) (simp add: gm_get0_def)
qed

lemma AppendMessages_correct_witness:
  "\<exists>mb' new k. AppendMessages (\<lambda>t d. t + d * 24 * hour) 50 (NewMemoryBackend DefaultConfig) ''s'' [plain_msg ''t'' [7] 0] = Ok mb'
    \<and> backend_inv mb'
    \<and> gm_get0 [] (mb_streams mb') ''s'' = drop k (gm_get0 [] (mb_streams (NewMemoryBackend DefaultConfig)) ''s'' @ new)
    \<and> map msg_Topic new = map msg_Topic [plain_msg ''t'' [7] 0] \<and> map msg_Payload new = map msg_Payload [plain_msg ''t'' [7] 0]
    \<and> (\<forall>sid'. sid' \<noteq> ''s'' \<longrightarrow> gm_get (mb_streams mb') sid' = gm_get (mb_streams (NewMemoryBackend DefaultConfig)) sid')
    \<and> mb_retained mb' = mb_retained (NewMemoryBackend DefaultConfig)"
  by (rule AppendMessages_correct [OF backend_inv_new])

text \<open>
  Retention on a stream in order of time: if some message is younger than the cutoff exactly
  the younger messages stay; if none is, all stay, although every one of them has expired.
\<close>

lemma applyRetention_effect:
  assumes "backend_inv mb" and "cf_RetentionDays (mb_config mb) > 0"
    and "sorted (map msg_Timestamp (gm_get0 [] (mb_streams mb) sid))"
  shows "\<exists>mb'. applyRetention addDays now mb sid = Ok mb' \<and> backend_inv mb'
    \<and> (let ms = gm_get0 [] (mb_streams mb) sid;
           young = filter (\<lambda>m. msg_Timestamp m > addDays now (- cf_RetentionDays (mb_config mb))) ms
       in gm_get0 [] (mb_streams mb') sid = (if young = [] then ms else young))"
proof -
  let ?c = "addDays now (- cf_RetentionDays (mb_config mb))" and ?ms = "gm_get0 [] (mb_streams mb) sid"
  have "(filter (\<lambda>m. msg_Timestamp m > ?c) ?ms = []) = list_all (\<lambda>m. msg_Timestamp m \<le> ?c) ?ms"
    by (auto simp: filter_empty_conv list_all_iff not_less)
  moreover obtain mb' where "applyRetention addDays now mb sid = Ok mb'" "backend_inv mb'"
    "gm_get0 [] (mb_streams mb') sid =
      (if list_all (\<lambda>m. msg_Timestamp m \<le> ?c) ?ms then ?ms else dropWhile (\<lambda>m. msg_Timestamp m \<le> ?c) ?ms)"
    using applyRetention_stream [OF assms(1,2), of addDays now sid] unfolding Let_def by blast
  ultimately show ?thesis
    unfolding Let_def sorted_dropWhile_filter [OF assms(3)] by (intro exI [of _ mb']) presburger
qed

lemma applyRetention_effect_witness:
  "let mb = (NewMemoryBackend DefaultConfig)\<lparr>mb_streams := [(''s'', [plain_msg ''t'' [7] 3\<lparr>msg_StreamID := ''s''\<rparr>])],
        mb_streamMeta := [(''s'', \<lparr>si_ID = ''s'', si_Topic = ''t'', si_StartTime = 3, si_EndTime = 3,
          si_MessageCount = 1, si_SizeBytes = 1\<rparr>)]\<rparr>
   in \<exists>mb'. applyRetention (\<lambda>t d. t + d * 24 * hour) (30 * 24 * hour) mb ''s'' = Ok mb' \<and> backend_inv mb'
      \<and> gm_get0 [] (mb_streams mb') ''s'' = [plain_msg ''t'' [7] 3\<lparr>msg_StreamID := ''s''\<rparr>]"
proof -
  let ?m = "plain_msg ''t'' [7] 3\<lparr>msg_StreamID := ''s''\<rparr>"
  let ?mb = "(NewMemoryBackend DefaultConfig)\<lparr>mb_streams := [(''s'', [?m])],
        mb_streamMeta := [(''s'', \<lparr>si_ID = ''s'', si_Topic = ''t'', si_StartTime = 3, si_EndTime = 3,
          si_MessageCount = 1, si_SizeBytes = 1\<rparr>)]\<rparr>"
  have inv: "backend_inv ?mb"
    by (simp add: backend_inv_def NewMemoryBackend_def stream_ok_def retained_ok_def)
  have days: "cf_RetentionDays (mb_config ?mb) > 0" and sorted: "sorted (map msg_Timestamp (gm_get0 [] (mb_streams ?mb) ''s''))"
    by (simp_all add: NewMemoryBackend_def DefaultConfig_def)
  from applyRetention_effect [OF inv days sorted, of "\<lambda>t d. t + d * 24 * hour" "30 * 24 * hour"]
  show ?thesis by (simp add: NewMemoryBackend_def DefaultConfig_def plain_msg_def)
qed

text \<open>
  Sequence numbers are not unique within a stream: without retention, a batch of two messages
  gets the numbers \<open>n + 1\<close> and \<open>n + 3\<close> in a stream of \<open>n\<close> messages, and the next message gets
  \<open>n + 3\<close> again.
\<close>

theorem AppendMessages_duplicate_sequence:
  assumes "backend_inv mb" and "cf_RetentionDays (mb_config mb) \<le> 0"
  shows "\<exists>mb1 mb2 old. AppendMessages addDays now mb sid [a, b] = Ok mb1 \<and> AppendMessages addDays now' mb1 sid [c] = Ok mb2
    \<and> map msg_SequenceNo (gm_get0 [] (mb_streams mb2) sid) = old @ [length old + 1, length old + 3, length old + 3]
    \<and> old = map msg_SequenceNo (gm_get0 [] (mb_streams mb) sid)"
proof -
  let ?ms = "gm_get0 [] (mb_streams mb) sid"
  obtain mb1 new where app1: "AppendMessages addDays now mb sid [a, b] = applyRetention addDays now mb1 sid"
    and inv1: "backend_inv mb1" and cf1: "mb_config mb1 = mb_config mb"
    and st1: "gm_get (mb_streams mb1) sid = Some (?ms @ new)"
    and seq1: "map msg_SequenceNo new = map (\<lambda>j. length ?ms + 2 * j + 1) [0..<length [a, b]]"
    using AppendMessages_step [OF assms(1), where addDays = addDays and now = now and sid = sid and msgs = "[a, b]"]
    by metis
  obtain mb2 new2 where app2: "AppendMessages addDays now' mb1 sid [c] = applyRetention addDays now' mb2 sid"
    and cf2: "mb_config mb2 = mb_config mb1"
    and st2: "gm_get (mb_streams mb2) sid = Some (gm_get0 [] (mb_streams mb1) sid @ new2)"
    and seq2: "map msg_SequenceNo new2 =
      map (\<lambda>j. length (gm_get0 [] (mb_streams mb1) sid) + 2 * j + 1) [0..<length [c]]"
    using AppendMessages_step [OF inv1, where addDays = addDays and now = now' and sid = sid and msgs = "[c]"]
    by metis
  have s1: "gm_get0 [] (mb_streams mb1) sid = ?ms @ new" and s2: "gm_get0 [] (mb_streams mb2) sid = ?ms @ new @ new2"
    using st1 st2 by (simp_all add: gm_get0_def)
  have two: "map msg_SequenceNo new = [length ?ms + 1, length ?ms + 3]" using seq1 by (simp add: upt_rec)
  have "length (map msg_SequenceNo new) = 2" unfolding two by simp
  then have "length new = 2" by simp
  then have three: "map msg_SequenceNo new2 = [length ?ms + 3]" using seq2 s1 by simp
  have "AppendMessages addDays now mb sid [a, b] = Ok mb1" "AppendMessages addDays now' mb1 sid [c] = Ok mb2"
    using app1 app2 cf1 cf2 assms(2) by (simp_all add: applyRetention_off)
  then show ?thesis using s2 two three by auto
qed

theorem AppendMessages_duplicate_sequence_witness:
  "\<exists>mb1 mb2 old. AppendMessages (\<lambda>t d. t) 5 (NewMemoryBackend (DefaultConfig\<lparr>cf_RetentionDays := 0\<rparr>)) ''s''
      [plain_msg ''t'' [1] 3, plain_msg ''t'' [2] 4] = Ok mb1
    \<and> AppendMessages (\<lambda>t d. t) 6 mb1 ''s'' [plain_msg ''t'' [3] 5] = Ok mb2
    \<and> map msg_SequenceNo (gm_get0 [] (mb_streams mb2) ''s'') = old @ [length old + 1, length old + 3, length old + 3]
    \<and> old = map msg_SequenceNo (gm_get0 [] (mb_streams (NewMemoryBackend (DefaultConfig\<lparr>cf_RetentionDays := 0\<rparr>))) ''s'')"
  by (rule AppendMessages_duplicate_sequence [OF backend_inv_new]) (simp add: NewMemoryBackend_def)

text \<open>
  Stored messages can be lost to readers: two topics of the same day and shard share a
  stream, the stream is found by the topic of its first message only, and so a message stored under
  another topic is in the backend but not returned by \<open>GetMessages\<close> for its own topic.
\<close>

lemma GetMessages_misses_second_topic:
  "\<exists>mb1 mb2. StoreMessage (\<lambda>_. ''d'') (\<lambda>t d. t) 9 ''i'' (NewMemoryBackend (DefaultConfig\<lparr>cf_Shards := 1, cf_RetentionDays := 0\<rparr>))
        (plain_msg ''a'' [1] 3) = Ok mb1
    \<and> StoreMessage (\<lambda>_. ''d'') (\<lambda>t d. t) 9 ''j'' mb1 (plain_msg ''b'' [2] 4) = Ok mb2
    \<and> map msg_Topic (concat (map snd (mb_streams mb2))) = [''a'', ''b'']
    \<and> GetMessages mb2 ''b'' 0 100 = Ok []"
proof -
  define sid where "sid = ''stream-d-shard-'' @ show_int 0"
  have id: "getStreamID (\<lambda>_. ''d'') c t ts = Ok sid" if "cf_Shards c = 1" for c t ts
    using that by (simp add: getStreamID_def go_rem_def sid_def)
  show ?thesis
    by (simp add: StoreMessage_def prepare_def plain_msg_def Let_def NewMemoryBackend_def id AppendMessages_def
        notifySubscriptions_def applyRetention_def lift_panic_def GetMessages_exact GetStreams_def topicMatches_def
        all_levels_match_def)
qed

end
