(* ===== verification/Retainer.thy ===== *)
theory Retainer
  imports Message_Storage
begin

text \<open>
  The retainer (\<open>pkg/retainer/retainer.go\<close>): retained messages with a payload limit, a limit on
  their number and an expiry time, kept in the storage backend of \<open>Message_Storage\<close>. The state is
  the backend and the retainer's configuration. Its specification is the table of live retained
  messages, \<open>retained_view\<close>: a topic is mapped to its message until that expires.
\<close>

section \<open>State and operations\<close>

record RetainedMessage =
  rm_Topic :: string
  rm_Payload :: "byte list"
  rm_QoS :: byte
  rm_Timestamp :: time
  rm_ExpiryTime :: "time option"
  rm_ClientID :: string
  rm_Headers :: "(string, string) gomap"

record RetainerConfig =
  rc_MessageExpiryInterval :: duration
  rc_MaxPayloadSize :: int
  rc_StopPublishClearMsg :: bool
  rc_MaxRetainedMessages :: nat
  rc_CleanupInterval :: duration

definition RetainerDefaultConfig :: RetainerConfig where
  "RetainerDefaultConfig =
     \<lparr>rc_MessageExpiryInterval = 0, rc_MaxPayloadSize = 1024 * 1024, rc_StopPublishClearMsg = False,
      rc_MaxRetainedMessages = 10000, rc_CleanupInterval = 5 * minute\<rparr>"

record Retainer =
  rt_storage :: MemoryBackend
  rt_config :: RetainerConfig
  rt_cleanupRunning :: bool
  rt_stopped :: bool

definition NewRetainer :: "MemoryBackend \<Rightarrow> RetainerConfig option \<Rightarrow> Retainer" where
  "NewRetainer storage config0 =
     (let config = (case config0 of None \<Rightarrow> RetainerDefaultConfig | Some c \<Rightarrow> c)
      in \<lparr>rt_storage = storage, rt_config = config, rt_cleanupRunning = (rc_CleanupInterval config > 0),
          rt_stopped = False\<rparr>)"

definition StoreRetained ::
  "time \<Rightarrow> string \<Rightarrow> Retainer \<Rightarrow> string \<Rightarrow> byte list \<Rightarrow> byte \<Rightarrow> string \<Rightarrow> (string, Retainer) go" where
  "StoreRetained now new_id r topic payload qos clientID =
     (if rc_MaxPayloadSize (rt_config r) > 0 \<and> int (length payload) > rc_MaxPayloadSize (rt_config r)
      then Err (''payload size '' @ show_nat (length payload) @ '' exceeds maximum '' @ show_int (rc_MaxPayloadSize (rt_config r)))
      else if payload = [] then Ok (r\<lparr>rt_storage := backend_DeleteRetained (rt_storage r) topic\<rparr>)
      else if rc_MaxRetainedMessages (rt_config r) > 0
              \<and> st_RetainedMessages (Stats (rt_storage r)) \<ge> rc_MaxRetainedMessages (rt_config r)
      then Err (''maximum retained messages limit ('' @ show_nat (rc_MaxRetainedMessages (rt_config r)) @ '') reached'')
      else (let msg = \<lparr>msg_ID = new_id, msg_Topic = topic, msg_Payload = payload, msg_QoS = qos, msg_Retained = True,
                       msg_Timestamp = now, msg_Headers = [],
                       msg_ExpiryTime = (if rc_MessageExpiryInterval (rt_config r) > 0
                                         then Some (now + rc_MessageExpiryInterval (rt_config r)) else None),
                       msg_ClientID = clientID, msg_StreamID = [], msg_SequenceNo = 0\<rparr>
            in Ok (r\<lparr>rt_storage := backend_StoreRetained (rt_storage r) topic msg\<rparr>)))"

definition expired :: "time \<Rightarrow> Message \<Rightarrow> bool" where
  "expired now msg = (case msg_ExpiryTime msg of None \<Rightarrow> False | Some e \<Rightarrow> now > e)"

definition retained_message :: "Message \<Rightarrow> RetainedMessage" where
  "retained_message msg =
     \<lparr>rm_Topic = msg_Topic msg, rm_Payload = msg_Payload msg, rm_QoS = msg_QoS msg,
      rm_Timestamp = msg_Timestamp msg, rm_ExpiryTime = msg_ExpiryTime msg, rm_ClientID = msg_ClientID msg,
      rm_Headers = msg_Headers msg\<rparr>"

definition Retainer_GetRetainedMessages :: "time \<Rightarrow> Retainer \<Rightarrow> string \<Rightarrow> RetainedMessage list" where
  "Retainer_GetRetainedMessages now r topicFilter =
     map retained_message (filter (\<lambda>msg. \<not> expired now msg) (GetRetained (rt_storage r) topicFilter))"

definition Retainer_DeleteRetained :: "Retainer \<Rightarrow> string \<Rightarrow> Retainer" where
  "Retainer_DeleteRetained r topic = r\<lparr>rt_storage := backend_DeleteRetained (rt_storage r) topic\<rparr>"

record RetainerStats =
  rs_RetainedMessages :: nat
  rs_TotalSize :: nat
  rs_MaxMessages :: nat
  rs_MaxPayloadSize :: int
  rs_ExpiryInterval :: duration

definition GetStats :: "Retainer \<Rightarrow> RetainerStats" where
  "GetStats r =
     (let storageStats = Stats (rt_storage r)
      in \<lparr>rs_RetainedMessages = st_RetainedMessages storageStats, rs_TotalSize = st_StorageSize storageStats,
          rs_MaxMessages = rc_MaxRetainedMessages (rt_config r),
          rs_MaxPayloadSize = rc_MaxPayloadSize (rt_config r),
          rs_ExpiryInterval = rc_MessageExpiryInterval (rt_config r)\<rparr>)"

text \<open>\<open>Close\<close> closes the channel of the cleanup goroutine; closing it twice panics.\<close>

definition Close :: "Retainer \<Rightarrow> (string, Retainer) go" where
  "Close r =
     (if rt_cleanupRunning r then (if rt_stopped r then Panic else Ok (r\<lparr>rt_stopped := True\<rparr>)) else Ok r)"

definition cleanupExpiredMessages :: "time \<Rightarrow> Retainer \<Rightarrow> Retainer" where
  "cleanupExpiredMessages now r =
     foldl (\<lambda>r msg. if expired now msg then r\<lparr>rt_storage := backend_DeleteRetained (rt_storage r) (msg_Topic msg)\<rparr> else r)
       r (GetRetained (rt_storage r) ''#'')"

definition MatchTopicFilter :: "string \<Rightarrow> string \<Rightarrow> bool" where
  "MatchTopicFilter topic flt =
     (if topic = flt then True
      else if flt = ''#'' then True
      else (let topicLevels = go_split (CHR ''/'') topic; filterLevels = go_split (CHR ''/'') flt
            in if length filterLevels > 0 \<and> filterLevels ! (length filterLevels - 1) = ''#''
               then prefix_levels_match topicLevels filterLevels
               else if length topicLevels \<noteq> length filterLevels then False
               else all_levels_match topicLevels filterLevels))"

lemma MatchTopicFilter_eq: "MatchTopicFilter = topicMatches"
  by (intro ext) (simp add: MatchTopicFilter_def topicMatches_def)

interpretation retainer_matcher: matcher_pair MatchTopicFilter topicMatches
  unfolding MatchTopicFilter_eq by unfold_locales

section \<open>The specification: a table of live messages\<close>

definition retained_view :: "time \<Rightarrow> Retainer \<Rightarrow> string \<Rightarrow> Message option" where
  "retained_view now r topic =
     (case gm_get (mb_retained (rt_storage r)) topic of
        None \<Rightarrow> None
      | Some msg \<Rightarrow> if expired now msg then None else Some msg)"

lemma retained_view_iff:
  "retained_view now r topic = Some msg \<longleftrightarrow>
     gm_get (mb_retained (rt_storage r)) topic = Some msg \<and> \<not> expired now msg"
  by (auto simp: retained_view_def split: option.splits)

definition retainer_inv :: "Retainer \<Rightarrow> bool" where
  "retainer_inv r =
     (backend_inv (rt_storage r) \<and> list_all (\<lambda>(topic, msg). msg_Topic msg = topic) (mb_retained (rt_storage r))
      \<and> (rc_MaxRetainedMessages (rt_config r) > 0 \<longrightarrow>
           length (mb_retained (rt_storage r)) \<le> rc_MaxRetainedMessages (rt_config r))
      \<and> (rc_MaxPayloadSize (rt_config r) > 0 \<longrightarrow>
           list_all (\<lambda>(topic, msg). int (length (msg_Payload msg)) \<le> rc_MaxPayloadSize (rt_config r))
             (mb_retained (rt_storage r))))"

lemma retainer_inv_new: "retainer_inv (NewRetainer (NewMemoryBackend c) rc)"
  by (simp add: retainer_inv_def NewRetainer_def backend_inv_new Let_def)
    (simp add: NewMemoryBackend_def)

lemma retainer_inv_wf: "retainer_inv r \<Longrightarrow> gm_wf (mb_retained (rt_storage r))"
  by (simp add: retainer_inv_def backend_inv_def retained_ok_def)

lemma retainer_inv_delete:
  assumes "retainer_inv r"
  shows "retainer_inv (r\<lparr>rt_storage := backend_DeleteRetained (rt_storage r) topic\<rparr>)"
proof -
  have "length (gm_del (mb_retained (rt_storage r)) topic) \<le> length (mb_retained (rt_storage r))"
    by (rule length_gm_del)
  with assms show ?thesis
    by (auto simp: retainer_inv_def backend_inv_DeleteRetained)
      (auto simp: backend_DeleteRetained_def list_all_iff set_gm_del)
qed

lemma StoreRetained_inv:
  assumes "retainer_inv r" and "StoreRetained now new_id r topic payload qos clientID = Ok r'"
  shows "retainer_inv r'"
proof (cases "payload = []")
  case True
  with assms(2) have "r' = r\<lparr>rt_storage := backend_DeleteRetained (rt_storage r) topic\<rparr>"
    by (auto simp: StoreRetained_def split: if_splits)
  with retainer_inv_delete [OF assms(1)] show ?thesis by simp
next
  case False
  let ?m = "mb_retained (rt_storage r)" and ?c = "rt_config r"
  define msg where "msg = \<lparr>msg_ID = new_id, msg_Topic = topic, msg_Payload = payload, msg_QoS = qos, msg_Retained = True,
     msg_Timestamp = now, msg_Headers = [],
     msg_ExpiryTime = (if rc_MessageExpiryInterval ?c > 0 then Some (now + rc_MessageExpiryInterval ?c) else None),
     msg_ClientID = clientID, msg_StreamID = [], msg_SequenceNo = 0\<rparr>"
  have size: "rc_MaxPayloadSize ?c > 0 \<longrightarrow> int (length payload) \<le> rc_MaxPayloadSize ?c"
    and room: "rc_MaxRetainedMessages ?c > 0 \<longrightarrow> length ?m < rc_MaxRetainedMessages ?c"
    and r': "r' = r\<lparr>rt_storage := backend_StoreRetained (rt_storage r) topic msg\<rparr>"
    using assms(2) False by (auto simp: StoreRetained_def Stats_def Let_def msg_def split: if_splits)
  have fields: "msg_Topic msg = topic" "msg_Payload msg = payload" by (simp_all add: msg_def)
  have bs: "backend_StoreRetained (rt_storage r) topic msg = (rt_storage r)\<lparr>mb_retained := gm_set ?m topic msg\<rparr>"
    using False by (simp add: backend_StoreRetained_def msg_def)
  have len: "length (gm_set ?m topic msg) \<le> Suc (length ?m)" by (rule length_gm_set_le)
  note set_eq = set_gm_set [OF retainer_inv_wf [OF assms(1)], of topic msg]
  have "backend_inv (backend_StoreRetained (rt_storage r) topic msg)"
    using assms(1) by (intro backend_inv_StoreRetained) (simp add: retainer_inv_def)
  moreover have "list_all (\<lambda>(t, m). msg_Topic m = t) (gm_set ?m topic msg)"
    using assms(1) by (auto simp: list_all_iff set_eq retainer_inv_def fields)
  moreover have "rc_MaxRetainedMessages ?c > 0 \<longrightarrow> length (gm_set ?m topic msg) \<le> rc_MaxRetainedMessages ?c"
    using room len by linarith
  moreover have "rc_MaxPayloadSize ?c > 0 \<longrightarrow>
      list_all (\<lambda>(t, m). int (length (msg_Payload m)) \<le> rc_MaxPayloadSize ?c) (gm_set ?m topic msg)"
    using assms(1) size by (auto simp: list_all_iff set_eq retainer_inv_def fields)
  ultimately show ?thesis by (simp add: retainer_inv_def r' bs)
qed

definition stored_message :: "time \<Rightarrow> string \<Rightarrow> RetainerConfig \<Rightarrow> string \<Rightarrow> byte list \<Rightarrow> byte \<Rightarrow> string \<Rightarrow> Message" where
  "stored_message now new_id c topic payload qos clientID =
     \<lparr>msg_ID = new_id, msg_Topic = topic, msg_Payload = payload, msg_QoS = qos, msg_Retained = True,
      msg_Timestamp = now, msg_Headers = [],
      msg_ExpiryTime = (if rc_MessageExpiryInterval c > 0 then Some (now + rc_MessageExpiryInterval c) else None),
      msg_ClientID = clientID, msg_StreamID = [], msg_SequenceNo = 0\<rparr>"

lemma StoreRetained_lookup:
  assumes "StoreRetained now new_id r topic payload qos clientID = Ok r'"
  shows "gm_get (mb_retained (rt_storage r')) t =
    (if t = topic then if payload = [] then None else Some (stored_message now new_id (rt_config r) topic payload qos clientID)
     else gm_get (mb_retained (rt_storage r)) t)"
  using assms
  by (auto simp: StoreRetained_def stored_message_def backend_DeleteRetained_def backend_StoreRetained_def Let_def
      split: if_splits)

lemma GetRetained_iff:
  assumes "gm_wf (mb_retained mb)"
  shows "msg \<in> set (GetRetained mb f) \<longleftrightarrow> (\<exists>topic. gm_get (mb_retained mb) topic = Some msg \<and> topicMatches topic f)"
  using assms by (force simp: GetRetained_def gm_get_iff)

lemma retained_topics_distinct:
  assumes "retainer_inv r"
  shows "distinct (map rm_Topic (Retainer_GetRetainedMessages now r f))"
proof -
  let ?m = "mb_retained (rt_storage r)"
  have eq: "map msg_Topic (map snd xs) = map fst xs" if "list_all (\<lambda>(t, m). msg_Topic m = t) xs" for xs :: "(string \<times> Message) list"
    using that by (induction xs) auto
  have "list_all (\<lambda>(t, m). msg_Topic m = t) (filter P ?m)" for P
    using assms by (auto simp: retainer_inv_def list_all_iff)
  then have "map msg_Topic (GetRetained (rt_storage r) f) = map fst (filter (\<lambda>(topic, msg). topicMatches topic f) ?m)"
    unfolding GetRetained_def by (rule eq)
  then have "distinct (map msg_Topic (GetRetained (rt_storage r) f))"
    using retainer_inv_wf [OF assms] by (simp add: distinct_map_filter)
  then have "distinct (map msg_Topic (filter P (GetRetained (rt_storage r) f)))" for P
    by (rule distinct_map_filter)
  then show ?thesis by (simp add: Retainer_GetRetainedMessages_def comp_def retained_message_def)
qed

text \<open>The cleanup loop deletes the topics of the expired messages, whatever order it meets them in.\<close>

lemma cleanup_loop:
  fixes r :: Retainer and now :: time
  defines "del \<equiv> \<lambda>r msg. if expired now msg then r\<lparr>rt_storage := backend_DeleteRetained (rt_storage r) (msg_Topic msg)\<rparr> else r"
  shows "gm_get (mb_retained (rt_storage (foldl del r msgs))) t =
      (if \<exists>msg \<in> set msgs. expired now msg \<and> msg_Topic msg = t then None else gm_get (mb_retained (rt_storage r)) t)"
    and "retainer_inv r \<Longrightarrow> retainer_inv (foldl del r msgs)"
proof (induction msgs arbitrary: r)
  case (Cons m msgs)
  { case 1 then show ?case by (simp add: Cons.IH(1)) (auto simp: del_def backend_DeleteRetained_def) }
  { case 2 then show ?case using Cons.IH(2) retainer_inv_delete by (auto simp: del_def) }
qed simp_all

lemma cleanup_lookup:
  assumes "retainer_inv r"
  shows "gm_get (mb_retained (rt_storage (cleanupExpiredMessages now r))) t = retained_view now r t"
proof -
  let ?m = "mb_retained (rt_storage r)"
  have wf: "gm_wf ?m" by (rule retainer_inv_wf [OF assms])
  have topic: "msg_Topic msg = t'" if "gm_get ?m t' = Some msg" for msg t'
    using gm_get_in [OF that] assms by (force simp: retainer_inv_def list_all_iff)
  have all: "topicMatches t' ''#''" for t' by (simp add: topicMatches_def)
  have "(\<exists>msg \<in> set (GetRetained (rt_storage r) ''#''). expired now msg \<and> msg_Topic msg = t) \<longleftrightarrow>
      (\<exists>msg. gm_get ?m t = Some msg \<and> expired now msg)"
    unfolding Bex_def GetRetained_iff [OF wf] using topic all by metis
  then show ?thesis
    unfolding cleanupExpiredMessages_def cleanup_loop(1) by (auto simp: retained_view_def split: option.splits)
qed

section \<open>Properties\<close>

text \<open>
  (C14) Storing a retained message updates the table of live messages at its topic only: an empty
  payload removes the topic, any other payload is what the topic holds until the configured expiry;
  limits on size and number and one message per topic are kept.
\<close>

theorem StoreRetained_refines:
  assumes "retainer_inv r" and "StoreRetained now new_id r topic payload qos clientID = Ok r'"
  shows "retainer_inv r' \<and> retained_view t r' topic' =
    (if topic' = topic
     then if payload = [] \<or> rc_MessageExpiryInterval (rt_config r) > 0 \<and> t > now + rc_MessageExpiryInterval (rt_config r)
          then None else Some (stored_message now new_id (rt_config r) topic payload qos clientID)
     else retained_view t r topic')"
proof -
  have "expired t (stored_message now new_id (rt_config r) topic payload qos clientID) \<longleftrightarrow>
      rc_MessageExpiryInterval (rt_config r) > 0 \<and> t > now + rc_MessageExpiryInterval (rt_config r)"
    by (simp add: expired_def stored_message_def)
  with StoreRetained_inv [OF assms] StoreRetained_lookup [OF assms(2)] show ?thesis
    by (auto simp: retained_view_def)
qed

theorem StoreRetained_refines_witness:
  "let r = NewRetainer (NewMemoryBackend DefaultConfig) None;
       r' = r\<lparr>rt_storage := backend_StoreRetained (rt_storage r) ''t'' (stored_message 9 ''i'' (rt_config r) ''t'' [1] 0 ''c'')\<rparr>
   in StoreRetained 9 ''i'' r ''t'' [1] 0 ''c'' = Ok r' \<and> retainer_inv r'
      \<and> retained_view 20 r' ''t'' = Some (stored_message 9 ''i'' (rt_config r) ''t'' [1] 0 ''c'')"
proof -
  let ?r = "NewRetainer (NewMemoryBackend DefaultConfig) None"
  let ?r' = "?r\<lparr>rt_storage := backend_StoreRetained (rt_storage ?r) ''t'' (stored_message 9 ''i'' (rt_config ?r) ''t'' [1] 0 ''c'')\<rparr>"
  have store: "StoreRetained 9 ''i'' ?r ''t'' [1] 0 ''c'' = Ok ?r'"
    by (simp add: StoreRetained_def NewRetainer_def RetainerDefaultConfig_def NewMemoryBackend_def Stats_def
        stored_message_def Let_def)
  have "rc_MessageExpiryInterval (rt_config ?r) = 0"
    by (simp add: NewRetainer_def RetainerDefaultConfig_def Let_def)
  with StoreRetained_refines [OF retainer_inv_new store, of 20 "''t''"] store show ?thesis
    by (simp only: Let_def) simp
qed

text \<open>
  A subscriber gets the live retained messages its filter matches and no others: for a filter
  that is valid and topics that can be published, \<open>GetRetainedMessages\<close> returns exactly the messages
  of the table whose topic matches by MQTT's rules, one for each topic.
\<close>

lemma GetRetainedMessages_exact:
  assumes "retainer_inv r" and "valid_filter f"
    and "\<forall>(topic, msg) \<in> set (mb_retained (rt_storage r)). publishable topic"
  shows "set (Retainer_GetRetainedMessages now r f) =
      {retained_message msg | topic msg. retained_view now r topic = Some msg \<and> mqtt_match (levels topic) (levels f)}
    \<and> distinct (map rm_Topic (Retainer_GetRetainedMessages now r f))"
proof
  let ?m = "mb_retained (rt_storage r)"
  have wf: "gm_wf ?m" by (rule retainer_inv_wf [OF assms(1)])
  have match: "topicMatches topic f \<longleftrightarrow> mqtt_match (levels topic) (levels f)" if "gm_get ?m topic = Some msg" for topic msg
    using gm_get_in [OF that] assms(2,3) backend_matcher.matches_spec by blast
  show "set (Retainer_GetRetainedMessages now r f) =
      {retained_message msg | topic msg. retained_view now r topic = Some msg \<and> mqtt_match (levels topic) (levels f)}"
  proof (intro set_eqI iffI)
    fix x assume "x \<in> set (Retainer_GetRetainedMessages now r f)"
    then show "x \<in> {retained_message msg | topic msg.
        retained_view now r topic = Some msg \<and> mqtt_match (levels topic) (levels f)}"
      by (auto simp: Retainer_GetRetainedMessages_def GetRetained_iff [OF wf] retained_view_iff match) blast
  next
    fix x assume "x \<in> {retained_message msg | topic msg.
        retained_view now r topic = Some msg \<and> mqtt_match (levels topic) (levels f)}"
    then obtain topic msg where "x = retained_message msg" "gm_get ?m topic = Some msg" "\<not> expired now msg"
      "mqtt_match (levels topic) (levels f)" by (auto simp: retained_view_iff)
    then show "x \<in> set (Retainer_GetRetainedMessages now r f)"
      using match by (auto simp: Retainer_GetRetainedMessages_def GetRetained_iff [OF wf] intro!: imageI)
  qed
qed (rule retained_topics_distinct [OF assms(1)])

lemma GetRetainedMessages_exact_witness:
  "let r = (NewRetainer (NewMemoryBackend DefaultConfig) None)\<lparr>rt_storage :=
        (NewMemoryBackend DefaultConfig)\<lparr>mb_retained := [(''a/b'', stored_message 9 ''i'' RetainerDefaultConfig ''a/b'' [1] 0 ''c'')]\<rparr>\<rparr>
   in set (Retainer_GetRetainedMessages 10 r ''a/+'') =
      {retained_message msg | topic msg. retained_view 10 r topic = Some msg \<and> mqtt_match (levels topic) (levels ''a/+'')}
    \<and> distinct (map rm_Topic (Retainer_GetRetainedMessages 10 r ''a/+''))"
proof -
  let ?r = "(NewRetainer (NewMemoryBackend DefaultConfig) None)\<lparr>rt_storage :=
        (NewMemoryBackend DefaultConfig)\<lparr>mb_retained := [(''a/b'', stored_message 9 ''i'' RetainerDefaultConfig ''a/b'' [1] 0 ''c'')]\<rparr>\<rparr>"
  have "retainer_inv ?r"
    by (simp add: retainer_inv_def backend_inv_def retained_ok_def stream_ok_def NewRetainer_def NewMemoryBackend_def
        stored_message_def RetainerDefaultConfig_def Let_def)
  then show ?thesis
    using GetRetainedMessages_exact [of ?r "''a/+''" 10] by (simp add: valid_filter_def publishable_def Let_def)
qed

text \<open>
  The periodic cleanup is invisible to subscribers: it removes exactly the messages that have
  expired, so from then on every lookup gives what it would have given without it.
\<close>

lemma cleanup_invisible:
  assumes "retainer_inv r" and "now \<le> t"
  shows "retainer_inv (cleanupExpiredMessages now r)
    \<and> retained_view t (cleanupExpiredMessages now r) topic = retained_view t r topic
    \<and> (\<forall>msg. gm_get (mb_retained (rt_storage (cleanupExpiredMessages now r))) topic = Some msg \<longrightarrow> \<not> expired now msg)"
proof -
  have "expired t msg" if "expired now msg" for msg
    using that assms(2) by (auto simp: expired_def split: option.splits)
  then have "retained_view t (cleanupExpiredMessages now r) topic = retained_view t r topic"
    by (auto simp: retained_view_def [of t "cleanupExpiredMessages now r"] cleanup_lookup [OF assms(1)])
      (auto simp: retained_view_def split: option.splits if_splits)
  moreover have "retainer_inv (cleanupExpiredMessages now r)"
    unfolding cleanupExpiredMessages_def by (rule cleanup_loop(2) [OF assms(1)])
  ultimately show ?thesis by (simp add: cleanup_lookup [OF assms(1)] retained_view_iff)
qed

lemma cleanup_invisible_witness:
  "let r = NewRetainer (NewMemoryBackend DefaultConfig) None
   in retainer_inv (cleanupExpiredMessages 5 r)
    \<and> retained_view 7 (cleanupExpiredMessages 5 r) ''a'' = retained_view 7 r ''a''
    \<and> (\<forall>msg. gm_get (mb_retained (rt_storage (cleanupExpiredMessages 5 r))) ''a'' = Some msg \<longrightarrow> \<not> expired 5 msg)"
  using cleanup_invisible [OF retainer_inv_new, of 5 7] by (simp add: Let_def)

text \<open>
  At the limit of retained messages a topic that already has one cannot be updated: replacing
  its message, which would not add one, is refused.
\<close>

theorem StoreRetained_full_refuses_update:
  assumes "retainer_inv r" and "gm_get (mb_retained (rt_storage r)) topic = Some old"
    and "rc_MaxRetainedMessages (rt_config r) = length (mb_retained (rt_storage r))"
    and "payload \<noteq> []" and "rc_MaxPayloadSize (rt_config r) \<le> 0 \<or> int (length payload) \<le> rc_MaxPayloadSize (rt_config r)"
  shows "\<exists>e. StoreRetained now new_id r topic payload qos clientID = Err e"
proof -
  have "0 < length (mb_retained (rt_storage r))" using gm_get_in [OF assms(2)] by (cases "mb_retained (rt_storage r)") auto
  then show ?thesis using assms(3-5) by (auto simp: StoreRetained_def Stats_def)
qed

theorem StoreRetained_full_refuses_update_witness:
  "let r = (NewRetainer (NewMemoryBackend DefaultConfig) (Some (RetainerDefaultConfig\<lparr>rc_MaxRetainedMessages := 1\<rparr>)))
      \<lparr>rt_storage := (NewMemoryBackend DefaultConfig)\<lparr>mb_retained :=
        [(''a'', stored_message 9 ''i'' RetainerDefaultConfig ''a'' [1] 0 ''c'')]\<rparr>\<rparr>
   in \<exists>e. StoreRetained 10 ''j'' r ''a'' [2] 0 ''c'' = Err e"
proof -
  let ?r = "(NewRetainer (NewMemoryBackend DefaultConfig) (Some (RetainerDefaultConfig\<lparr>rc_MaxRetainedMessages := 1\<rparr>)))
      \<lparr>rt_storage := (NewMemoryBackend DefaultConfig)\<lparr>mb_retained :=
        [(''a'', stored_message 9 ''i'' RetainerDefaultConfig ''a'' [1] 0 ''c'')]\<rparr>\<rparr>"
  have "retainer_inv ?r"
    by (simp add: retainer_inv_def backend_inv_def retained_ok_def stream_ok_def NewRetainer_def NewMemoryBackend_def
        stored_message_def RetainerDefaultConfig_def Let_def)
  moreover have "gm_get (mb_retained (rt_storage ?r)) ''a'' = Some (stored_message 9 ''i'' RetainerDefaultConfig ''a'' [1] 0 ''c'')"
    by simp
  moreover have "rc_MaxRetainedMessages (rt_config ?r) = length (mb_retained (rt_storage ?r))"
      and "int (length [2 :: byte]) \<le> rc_MaxPayloadSize (rt_config ?r)"
    by (simp_all add: NewRetainer_def RetainerDefaultConfig_def Let_def)
  ultimately show ?thesis
    using StoreRetained_full_refuses_update [of ?r "''a''" _ "[2]" 10 "''j''" 0 "''c''"] by (simp add: Let_def)
qed

end
