(* ===== verification/Persistent_Session.thy ===== *)
theory Persistent_Session
  imports Kv_Store Topic_Match
begin

text \<open>
  Persistent sessions (\<open>pkg/persistent\<close>): the session manager of \<open>session.go\<close>, the offline
  message manager of \<open>offline.go\<close> and the will message manager of \<open>will.go\<close>.

  \<^item> A session object is shared by pointer between the manager's map of active sessions and its
    users, so its state is the value the map holds.
  \<^item> Saved sessions are JSON documents (of type \<open>'d\<close>) in a \<open>MemStore\<close>. The JSON encoding is the pair
    of arguments \<open>enc\<close> and \<open>dec\<close>; what the code relies on is the hypothesis \<open>json_roundtrip enc dec\<close>.
  \<^item> The publisher of will messages and the delivery callback are given to the managers by the
    broker: they are arguments, functions on the state \<open>'w\<close> of the rest of the program; a
    publisher that returns an error has changed nothing (the broker's fails on nil arguments only).
  \<^item> \<open>held\<close> lists the clients whose session lock the running goroutine holds. Go's locks are not
    re-entrant: taking one of them again waits for ever.
\<close>

section \<open>State\<close>

record InflightMessage =
  im_PacketID :: uint16
  im_Topic :: string
  im_Payload :: "byte list"
  im_QoS :: byte
  im_Retain :: bool
  im_Timestamp :: time
  im_RetryCount :: int
  im_Headers :: "(string, string) gomap"

record QueuedMessage =
  qm_Topic :: string
  qm_Payload :: "byte list"
  qm_QoS :: byte
  qm_Retain :: bool
  qm_Timestamp :: time
  qm_ExpiryTime :: "time option"
  qm_Headers :: "(string, string) gomap"

record WillMessage =
  wm_Topic :: string
  wm_Payload :: "byte list"
  wm_QoS :: byte
  wm_Retain :: bool
  wm_DelayInterval :: duration

record PersistentSession =
  ps_ClientID :: string
  ps_CleanSession :: bool
  ps_Connected :: bool
  ps_CreatedAt :: time
  ps_LastActivity :: time
  ps_ExpiryInterval :: duration
  ps_Subscriptions :: "(string, byte) gomap"
  ps_PacketIDCounter :: uint16
  ps_InflightQoS1 :: "(uint16, InflightMessage) gomap"
  ps_InflightQoS2 :: "(uint16, InflightMessage) gomap"
  ps_MessageQueue :: "QueuedMessage list"
  ps_WillMessage :: "WillMessage option"

record PersistConfig =
  pc_MaxOfflineMessages :: nat
  pc_MessageExpiryInterval :: duration
  pc_DefaultSessionExpiry :: duration
  pc_RetryInterval :: duration
  pc_MaxRetryAttempts :: int
  pc_CleanupInterval :: duration
  pc_MaxInflightMessages :: uint16

definition PersistDefaultConfig :: PersistConfig where
  "PersistDefaultConfig =
     \<lparr>pc_MaxOfflineMessages = 10000, pc_MessageExpiryInterval = 24 * hour, pc_DefaultSessionExpiry = 24 * hour,
      pc_RetryInterval = 30 * second, pc_MaxRetryAttempts = 3, pc_CleanupInterval = 5 * minute,
      pc_MaxInflightMessages = 100\<rparr>"

text \<open>A scheduled will: its message, its client and the time the timer fires.\<close>

record willTimer =
  wt_willMsg :: WillMessage
  wt_clientID :: string
  wt_fires :: time

record 'd SessionManager =
  sm_store :: "'d MemStore"
  sm_config :: PersistConfig
  sm_activeSessions :: "(string, PersistentSession) gomap"
  sm_timers :: "(string, willTimer) gomap"
  sm_closed :: bool

type_synonym 'd json_enc = "PersistentSession \<Rightarrow> 'd option"
type_synonym 'd json_dec = "'d \<Rightarrow> PersistentSession option"
type_synonym ('w, 'd) publisher = "string list \<Rightarrow> WillMessage \<Rightarrow> string \<Rightarrow> 'w \<times> 'd SessionManager \<Rightarrow> (string, 'w \<times> 'd SessionManager) go"

definition json_roundtrip :: "'d json_enc \<Rightarrow> 'd json_dec \<Rightarrow> bool" where
  "json_roundtrip enc dec \<longleftrightarrow> (\<forall>s. \<exists>d. enc s = Some d \<and> dec d = Some s)"

definition NewSessionManager :: "'d MemStore \<Rightarrow> PersistConfig option \<Rightarrow> 'd SessionManager" where
  "NewSessionManager store config0 =
     \<lparr>sm_store = store, sm_config = (case config0 of None \<Rightarrow> PersistDefaultConfig | Some c \<Rightarrow> c),
      sm_activeSessions = [], sm_timers = [], sm_closed = False\<rparr>"

section \<open>Saving and loading\<close>

definition session_key :: "string \<Rightarrow> string" where
  "session_key clientID = ''session:'' @ clientID"

definition saveSession :: "'d json_enc \<Rightarrow> 'd SessionManager \<Rightarrow> PersistentSession \<Rightarrow> (string, 'd SessionManager) go" where
  "saveSession enc sm session =
     (case enc session of
        None \<Rightarrow> Err ''failed to marshal session''
      | Some data \<Rightarrow> Ok (sm\<lparr>sm_store := Set (sm_store sm) (session_key (ps_ClientID session)) data\<rparr>))"

definition loadSession :: "'d json_dec \<Rightarrow> 'd SessionManager \<Rightarrow> string \<Rightarrow> (string, PersistentSession) go" where
  "loadSession dec sm clientID =
     (case Get (sm_store sm) (session_key clientID) of
        Ok data \<Rightarrow> (case dec data of None \<Rightarrow> Err ''failed to unmarshal session'' | Some s \<Rightarrow> Ok s)
      | _ \<Rightarrow> Err ''not found'')"

definition deleteSession :: "'d SessionManager \<Rightarrow> string \<Rightarrow> 'd SessionManager" where
  "deleteSession sm clientID = sm\<lparr>sm_store := Delete (sm_store sm) (session_key clientID)\<rparr>"

text \<open>Every caller logs a failed save and goes on.\<close>

definition log_save :: "'d json_enc \<Rightarrow> 'd SessionManager \<Rightarrow> PersistentSession \<Rightarrow> 'd SessionManager" where
  "log_save enc sm session = (case saveSession enc sm session of Ok sm' \<Rightarrow> sm' | _ \<Rightarrow> sm)"

definition put_session :: "'d SessionManager \<Rightarrow> string \<Rightarrow> PersistentSession \<Rightarrow> 'd SessionManager" where
  "put_session sm clientID session = sm\<lparr>sm_activeSessions := gm_set (sm_activeSessions sm) clientID session\<rparr>"

definition no_session :: "string \<Rightarrow> string" where
  "no_session clientID = ''session not found for client '' @ clientID"

section \<open>Connecting\<close>

definition wipe :: "PersistentSession \<Rightarrow> PersistentSession" where
  "wipe s = s\<lparr>ps_CleanSession := True, ps_Subscriptions := [], ps_MessageQueue := [],
              ps_InflightQoS1 := [], ps_InflightQoS2 := [], ps_WillMessage := None\<rparr>"

definition fresh_session :: "PersistConfig \<Rightarrow> time \<Rightarrow> string \<Rightarrow> bool \<Rightarrow> duration \<Rightarrow> PersistentSession" where
  "fresh_session config now clientID cleanSession expiryInterval =
     \<lparr>ps_ClientID = clientID, ps_CleanSession = cleanSession, ps_Connected = True, ps_CreatedAt = now,
      ps_LastActivity = now,
      ps_ExpiryInterval = (let e = (if expiryInterval = 0 then pc_DefaultSessionExpiry config else expiryInterval)
                           in if expiryInterval > 0 then expiryInterval else e),
      ps_Subscriptions = [], ps_PacketIDCounter = 1, ps_InflightQoS1 = [], ps_InflightQoS2 = [],
      ps_MessageQueue = [], ps_WillMessage = None\<rparr>"

definition CreateOrResumeSession ::
  "'d json_enc \<Rightarrow> 'd json_dec \<Rightarrow> time \<Rightarrow> 'd SessionManager \<Rightarrow> string \<Rightarrow> bool \<Rightarrow> duration
    \<Rightarrow> PersistentSession \<times> 'd SessionManager" where
  "CreateOrResumeSession enc dec now sm clientID cleanSession expiryInterval =
     (case gm_get (sm_activeSessions sm) clientID of
        Some existing \<Rightarrow>
          (let s1 = existing\<lparr>ps_Connected := True, ps_LastActivity := now\<rparr>;
               s2 = (if cleanSession then wipe s1 else s1)
           in (s2, put_session sm clientID s2))
      | None \<Rightarrow>
          (case (if \<not> cleanSession then loadSession dec sm clientID else Err []) of
             Ok session \<Rightarrow>
               (let s1 = session\<lparr>ps_Connected := True, ps_LastActivity := now\<rparr>;
                    s2 = (if expiryInterval > 0 then s1\<lparr>ps_ExpiryInterval := expiryInterval\<rparr> else s1)
                in (s2, put_session sm clientID s2))
           | _ \<Rightarrow>
               (let s = fresh_session (sm_config sm) now clientID cleanSession expiryInterval;
                    sm1 = put_session sm clientID s
                in (s, if \<not> cleanSession then log_save enc sm1 s else sm1))))"

section \<open>Will messages\<close>

definition publishImmediately :: "('w, 'd) publisher option \<Rightarrow> string list \<Rightarrow> WillMessage \<Rightarrow> string
    \<Rightarrow> 'w \<times> 'd SessionManager \<Rightarrow> (string, 'w \<times> 'd SessionManager) go" where
  "publishImmediately publisher held willMsg clientID st =
     (case publisher of None \<Rightarrow> Panic | Some publish \<Rightarrow> publish held willMsg clientID st)"

definition scheduleDelayedWillMessage :: "time \<Rightarrow> WillMessage \<Rightarrow> string \<Rightarrow> 'd SessionManager \<Rightarrow> 'd SessionManager" where
  "scheduleDelayedWillMessage now willMsg clientID sm =
     (let timerID = clientID @ ''-'' @ show_int now
      in sm\<lparr>sm_timers := gm_set (sm_timers sm) timerID
              \<lparr>wt_willMsg = willMsg, wt_clientID = clientID, wt_fires = now + wm_DelayInterval willMsg\<rparr>\<rparr>)"

definition PublishWillMessage :: "('w, 'd) publisher option \<Rightarrow> time \<Rightarrow> string list \<Rightarrow> WillMessage option \<Rightarrow> string
    \<Rightarrow> 'w \<times> 'd SessionManager \<Rightarrow> (string, 'w \<times> 'd SessionManager) go" where
  "PublishWillMessage publisher now held willMsg clientID st =
     (case willMsg of
        None \<Rightarrow> Err (''will message is nil for client '' @ clientID)
      | Some wm \<Rightarrow>
          if wm_DelayInterval wm > 0
          then Ok (fst st, scheduleDelayedWillMessage now wm clientID (snd st))
          else publishImmediately publisher held wm clientID st)"

definition CancelWillMessage :: "string \<Rightarrow> 'd SessionManager \<Rightarrow> 'd SessionManager" where
  "CancelWillMessage clientID sm =
     sm\<lparr>sm_timers := filter (\<lambda>(timerID, t). wt_clientID t \<noteq> clientID) (sm_timers sm)\<rparr>"

text \<open>The function a timer runs when it fires: the timer goes first, then the will is published.\<close>

definition fire_timer :: "('w, 'd) publisher option \<Rightarrow> string \<Rightarrow> 'w \<times> 'd SessionManager \<Rightarrow> (string, 'w \<times> 'd SessionManager) go" where
  "fire_timer publisher timerID st =
     (case gm_get (sm_timers (snd st)) timerID of
        None \<Rightarrow> Ok st
      | Some t \<Rightarrow>
          (let st1 = (fst st, (snd st)\<lparr>sm_timers := gm_del (sm_timers (snd st)) timerID\<rparr>)
           in case publishImmediately publisher [] (wt_willMsg t) (wt_clientID t) st1 of
                Err _ \<Rightarrow> Ok st1
              | r \<Rightarrow> r))"

definition GetScheduledWillMessages :: "'d SessionManager \<Rightarrow> (string \<times> string \<times> string \<times> duration) list" where
  "GetScheduledWillMessages sm =
     map (\<lambda>(timerID, t). (timerID, wt_clientID t, wm_Topic (wt_willMsg t), wm_DelayInterval (wt_willMsg t))) (sm_timers sm)"

definition will_Close :: "'d SessionManager \<Rightarrow> 'd SessionManager" where
  "will_Close sm = sm\<lparr>sm_timers := []\<rparr>"

section \<open>Disconnecting\<close>

text \<open>
  \<open>DisconnectSession\<close> holds the lock of the session from the first read on; a publisher it calls
  runs with that lock held.
\<close>

definition disconnect_will ::
  "('w, 'd) publisher option \<Rightarrow> time \<Rightarrow> string \<Rightarrow> bool \<Rightarrow> PersistentSession \<Rightarrow> 'w \<times> 'd SessionManager
    \<Rightarrow> (string, 'w \<times> 'd SessionManager) go" where
  "disconnect_will publisher now clientID graceful session st =
     (if \<not> graceful \<and> ps_WillMessage session \<noteq> None
      then (case PublishWillMessage publisher now [clientID] (ps_WillMessage session) clientID st of
              Err _ \<Rightarrow> Ok st
            | r \<Rightarrow> r)
      else if graceful then Ok (fst st, CancelWillMessage clientID (snd st))
      else Ok st)"

definition disconnect_save :: "'d json_enc \<Rightarrow> string \<Rightarrow> PersistentSession \<Rightarrow> 'd SessionManager \<Rightarrow> 'd SessionManager" where
  "disconnect_save enc clientID session sm =
     (if ps_CleanSession session
      then deleteSession (sm\<lparr>sm_activeSessions := gm_del (sm_activeSessions sm) clientID\<rparr>) clientID
      else log_save enc (put_session sm clientID session) session)"

definition DisconnectSession ::
  "'d json_enc \<Rightarrow> ('w, 'd) publisher option \<Rightarrow> time \<Rightarrow> string \<Rightarrow> bool \<Rightarrow> 'w \<times> 'd SessionManager
    \<Rightarrow> (string, 'w \<times> 'd SessionManager) go" where
  "DisconnectSession enc publisher now clientID graceful st =
     (case gm_get (sm_activeSessions (snd st)) clientID of
        None \<Rightarrow> Err (no_session clientID)
      | Some session0 \<Rightarrow>
          (let session = session0\<lparr>ps_Connected := False, ps_LastActivity := now\<rparr>
           in go_bind (disconnect_will publisher now clientID graceful session
                         (fst st, put_session (snd st) clientID session))
                (\<lambda>(w, sm). Ok (w, disconnect_save enc clientID (session\<lparr>ps_WillMessage := None\<rparr>) sm))))"

section \<open>Operations on a session\<close>

definition AddSubscription :: "'d json_enc \<Rightarrow> time \<Rightarrow> 'd SessionManager \<Rightarrow> string \<Rightarrow> string \<Rightarrow> byte \<Rightarrow> (string, 'd SessionManager) go" where
  "AddSubscription enc now sm clientID topic qos =
     (case gm_get (sm_activeSessions sm) clientID of
        None \<Rightarrow> Err (no_session clientID)
      | Some s \<Rightarrow>
          (let s' = s\<lparr>ps_Subscriptions := gm_set (ps_Subscriptions s) topic qos, ps_LastActivity := now\<rparr>;
               sm' = put_session sm clientID s'
           in Ok (if \<not> ps_CleanSession s' then log_save enc sm' s' else sm')))"

definition RemoveSubscription :: "'d json_enc \<Rightarrow> time \<Rightarrow> 'd SessionManager \<Rightarrow> string \<Rightarrow> string \<Rightarrow> (string, 'd SessionManager) go" where
  "RemoveSubscription enc now sm clientID topic =
     (case gm_get (sm_activeSessions sm) clientID of
        None \<Rightarrow> Err (no_session clientID)
      | Some s \<Rightarrow>
          (let s' = s\<lparr>ps_Subscriptions := gm_del (ps_Subscriptions s) topic, ps_LastActivity := now\<rparr>;
               sm' = put_session sm clientID s'
           in Ok (if \<not> ps_CleanSession s' then log_save enc sm' s' else sm')))"

definition SetWillMessage ::
  "'d SessionManager \<Rightarrow> string \<Rightarrow> string \<Rightarrow> byte list \<Rightarrow> byte \<Rightarrow> bool \<Rightarrow> duration \<Rightarrow> (string, 'd SessionManager) go" where
  "SetWillMessage sm clientID topic payload qos retain delayInterval =
     (case gm_get (sm_activeSessions sm) clientID of
        None \<Rightarrow> Err (no_session clientID)
      | Some s \<Rightarrow>
          Ok (put_session sm clientID
                (s\<lparr>ps_WillMessage := Some \<lparr>wm_Topic = topic, wm_Payload = payload, wm_QoS = qos, wm_Retain = retain,
                                          wm_DelayInterval = delayInterval\<rparr>\<rparr>)))"

definition queued :: "PersistConfig \<Rightarrow> time \<Rightarrow> string \<Rightarrow> byte list \<Rightarrow> byte \<Rightarrow> bool \<Rightarrow> QueuedMessage" where
  "queued config now topic payload qos retain =
     \<lparr>qm_Topic = topic, qm_Payload = payload, qm_QoS = qos, qm_Retain = retain, qm_Timestamp = now,
      qm_ExpiryTime = (if pc_MessageExpiryInterval config > 0 then Some (now + pc_MessageExpiryInterval config) else None),
      qm_Headers = []\<rparr>"

definition QueueMessage ::
  "'d json_enc \<Rightarrow> time \<Rightarrow> 'd SessionManager \<Rightarrow> string \<Rightarrow> string \<Rightarrow> byte list \<Rightarrow> byte \<Rightarrow> bool \<Rightarrow> (string, 'd SessionManager) go" where
  "QueueMessage enc now sm clientID topic payload qos retain =
     (case gm_get (sm_activeSessions sm) clientID of
        None \<Rightarrow> Err (no_session clientID)
      | Some s \<Rightarrow>
          if ps_Connected s then Ok sm
          else if ps_CleanSession s then Ok sm
          else if length (ps_MessageQueue s) \<ge> pc_MaxOfflineMessages (sm_config sm) \<and> ps_MessageQueue s = [] then Panic
          else (let queue = (if length (ps_MessageQueue s) \<ge> pc_MaxOfflineMessages (sm_config sm)
                             then drop 1 (ps_MessageQueue s) else ps_MessageQueue s);
                    s' = s\<lparr>ps_MessageQueue := queue @ [queued (sm_config sm) now topic payload qos retain]\<rparr>
                in Ok (log_save enc (put_session sm clientID s') s')))"

definition NextPacketID :: "'d SessionManager \<Rightarrow> string \<Rightarrow> (string, uint16 \<times> 'd SessionManager) go" where
  "NextPacketID sm clientID =
     (case gm_get (sm_activeSessions sm) clientID of
        None \<Rightarrow> Err (no_session clientID)
      | Some s \<Rightarrow>
          (let c = ps_PacketIDCounter s + 1; c' = (if c = 0 then 1 else c)
           in Ok (c', put_session sm clientID (s\<lparr>ps_PacketIDCounter := c'\<rparr>))))"

definition sm_Close :: "'d json_enc \<Rightarrow> 'd SessionManager \<Rightarrow> 'd SessionManager" where
  "sm_Close enc sm =
     (if sm_closed sm then sm
      else foldl (\<lambda>sm (cid, s). if \<not> ps_CleanSession s then log_save enc sm s else sm)
             (will_Close (sm\<lparr>sm_closed := True\<rparr>)) (sm_activeSessions sm))"

section \<open>Cleanup\<close>

definition session_expired :: "time \<Rightarrow> PersistentSession \<Rightarrow> bool" where
  "session_expired now s = (\<not> ps_Connected s \<and> now - ps_LastActivity s > ps_ExpiryInterval s)"

definition valid_message :: "time \<Rightarrow> QueuedMessage \<Rightarrow> bool" where
  "valid_message now msg = (case qm_ExpiryTime msg of None \<Rightarrow> True | Some e \<Rightarrow> now < e)"

text \<open>The first pass: expired sessions are noted, the queues of the others lose expired messages.\<close>

fun cleanup_pass :: "'d json_enc \<Rightarrow> time \<Rightarrow> PersistentSession list \<Rightarrow> 'd SessionManager \<Rightarrow> string list
    \<Rightarrow> 'd SessionManager \<times> string list" where
  "cleanup_pass enc now [] sm expiredClients = (sm, expiredClients)"
| "cleanup_pass enc now (s # rest) sm expiredClients =
     (if session_expired now s then cleanup_pass enc now rest sm (expiredClients @ [ps_ClientID s])
      else (let validMessages = filter (valid_message now) (ps_MessageQueue s)
            in if length validMessages \<noteq> length (ps_MessageQueue s)
               then (let s' = s\<lparr>ps_MessageQueue := validMessages\<rparr>;
                         sm1 = put_session sm (ps_ClientID s) s';
                         sm2 = (if \<not> ps_CleanSession s' then log_save enc sm1 s' else sm1)
                     in cleanup_pass enc now rest sm2 expiredClients)
               else cleanup_pass enc now rest sm expiredClients))"

fun remove_expired :: "time \<Rightarrow> string list \<Rightarrow> 'd SessionManager \<Rightarrow> 'd SessionManager" where
  "remove_expired now [] sm = sm"
| "remove_expired now (cid # rest) sm =
     (case gm_get (sm_activeSessions sm) cid of
        None \<Rightarrow> remove_expired now rest sm
      | Some s \<Rightarrow>
          if session_expired now s
          then remove_expired now rest (deleteSession (sm\<lparr>sm_activeSessions := gm_del (sm_activeSessions sm) cid\<rparr>) cid)
          else remove_expired now rest sm)"

definition cleanupExpiredSessions :: "'d json_enc \<Rightarrow> time \<Rightarrow> 'd SessionManager \<Rightarrow> 'd SessionManager" where
  "cleanupExpiredSessions enc now sm =
     (let (sm1, expiredClients) = cleanup_pass enc now (map snd (sm_activeSessions sm)) sm []
      in remove_expired now expiredClients sm1)"

section \<open>Offline messages\<close>

type_synonym 'w callback = "string \<Rightarrow> string \<Rightarrow> byte list \<Rightarrow> byte \<Rightarrow> bool \<Rightarrow> 'w \<Rightarrow> 'w \<times> string option"

record 'w OfflineMessageManager =
  om_deliveryCallbacks :: "(string, 'w callback) gomap"

definition SetDeliveryCallback :: "'w OfflineMessageManager \<Rightarrow> string \<Rightarrow> 'w callback \<Rightarrow> 'w OfflineMessageManager" where
  "SetDeliveryCallback omm clientID callback =
     omm\<lparr>om_deliveryCallbacks := gm_set (om_deliveryCallbacks omm) clientID callback\<rparr>"

definition RemoveDeliveryCallback :: "'w OfflineMessageManager \<Rightarrow> string \<Rightarrow> 'w OfflineMessageManager" where
  "RemoveDeliveryCallback omm clientID = omm\<lparr>om_deliveryCallbacks := gm_del (om_deliveryCallbacks omm) clientID\<rparr>"

definition undeliverable :: "time \<Rightarrow> QueuedMessage \<Rightarrow> bool" where
  "undeliverable now msg = (case qm_ExpiryTime msg of None \<Rightarrow> False | Some e \<Rightarrow> now > e)"

text \<open>The delivery loop stops at the first failing callback; \<open>'w\<close> records what was delivered.\<close>

fun deliver_loop :: "time \<Rightarrow> 'w callback \<Rightarrow> string \<Rightarrow> QueuedMessage list \<Rightarrow> 'w \<Rightarrow> 'w \<times> string option" where
  "deliver_loop now callback clientID [] w = (w, None)"
| "deliver_loop now callback clientID (msg # rest) w =
     (if undeliverable now msg then deliver_loop now callback clientID rest w
      else (case callback clientID (qm_Topic msg) (qm_Payload msg) (qm_QoS msg) (qm_Retain msg) w of
              (w', None) \<Rightarrow> deliver_loop now callback clientID rest w'
            | (w', Some e) \<Rightarrow> (w', Some e)))"

definition DeliverOfflineMessages ::
  "'d json_enc \<Rightarrow> time \<Rightarrow> 'w OfflineMessageManager \<Rightarrow> string \<Rightarrow> 'w \<times> 'd SessionManager \<Rightarrow> ('w \<times> 'd SessionManager) \<times> string option" where
  "DeliverOfflineMessages enc now omm clientID st =
     (case gm_get (om_deliveryCallbacks omm) clientID of
        None \<Rightarrow> (st, Some (''no delivery callback registered for client '' @ clientID))
      | Some callback \<Rightarrow>
          (case gm_get (sm_activeSessions (snd st)) clientID of
             None \<Rightarrow> (st, Some (no_session clientID))
           | Some s \<Rightarrow>
               if \<not> ps_Connected s then (st, Some (''client '' @ clientID @ '' is not connected''))
               else (case deliver_loop now callback clientID (ps_MessageQueue s) (fst st) of
                       (w, Some e) \<Rightarrow> ((w, snd st), Some e)
                     | (w, None) \<Rightarrow>
                         (let s' = s\<lparr>ps_MessageQueue := []\<rparr>; sm' = put_session (snd st) clientID s'
                          in ((w, if \<not> ps_CleanSession s' then log_save enc sm' s' else sm'), None)))))"

definition basicTopicMatch :: "string \<Rightarrow> string \<Rightarrow> bool" where
  "basicTopicMatch topic flt = (if topic = flt then True else if flt = ''#'' then True else False)"

definition BasicTopicMatcher_Matches :: "string \<Rightarrow> string \<Rightarrow> bool" where
  "BasicTopicMatcher_Matches publishTopic subscriptionTopic = basicTopicMatch publishTopic subscriptionTopic"

text \<open>The pass over the active sessions; each session's read lock is taken first.\<close>

fun queue_pass ::
  "'d json_enc \<Rightarrow> time \<Rightarrow> (string \<Rightarrow> string \<Rightarrow> bool) \<Rightarrow> string list \<Rightarrow> string \<Rightarrow> byte list \<Rightarrow> byte \<Rightarrow> bool
    \<Rightarrow> (string \<times> PersistentSession) list \<Rightarrow> 'd SessionManager \<Rightarrow> (string, 'd SessionManager) go" where
  "queue_pass enc now matcher held topic payload qos retain [] sm = Ok sm"
| "queue_pass enc now matcher held topic payload qos retain ((cid, s) # rest) sm =
     (if cid \<in> set held then Blocked
      else if ps_Connected s \<or> ps_CleanSession s then queue_pass enc now matcher held topic payload qos retain rest sm
      else if list_ex (\<lambda>(subTopic, _). matcher topic subTopic) (ps_Subscriptions s)
      then (case QueueMessage enc now sm cid topic payload qos retain of
              Ok sm' \<Rightarrow> queue_pass enc now matcher held topic payload qos retain rest sm'
            | Err _ \<Rightarrow> queue_pass enc now matcher held topic payload qos retain rest sm
            | Panic \<Rightarrow> Panic
            | Blocked \<Rightarrow> Blocked)
      else queue_pass enc now matcher held topic payload qos retain rest sm)"

definition QueueMessageForOfflineClients ::
  "'d json_enc \<Rightarrow> time \<Rightarrow> (string \<Rightarrow> string \<Rightarrow> bool) \<Rightarrow> string list \<Rightarrow> string \<Rightarrow> byte list \<Rightarrow> byte \<Rightarrow> bool
    \<Rightarrow> 'd SessionManager \<Rightarrow> (string, 'd SessionManager) go" where
  "QueueMessageForOfflineClients enc now matcher held topic payload qos retain sm =
     queue_pass enc now matcher held topic payload qos retain (sm_activeSessions sm) sm"

fun getOldestMessageTime :: "QueuedMessage list \<Rightarrow> time option" where
  "getOldestMessageTime [] = None"
| "getOldestMessageTime (m # ms) =
     Some (foldl (\<lambda>oldest msg. if qm_Timestamp msg < oldest then qm_Timestamp msg else oldest) (qm_Timestamp m) ms)"

record OfflineStats =
  os_MessageCount :: nat
  os_TotalBytes :: nat
  os_ExpiredCount :: nat
  os_OldestMessage :: "time option"
  os_LastActivity :: time

definition GetOfflineMessageStats :: "time \<Rightarrow> 'd SessionManager \<Rightarrow> (string, OfflineStats) gomap" where
  "GetOfflineMessageStats now sm =
     gm_filter_map (\<lambda>cid s.
       if \<not> ps_Connected s \<and> \<not> ps_CleanSession s
       then Some \<lparr>os_MessageCount = length (ps_MessageQueue s),
                  os_TotalBytes = sum_list (map (length \<circ> qm_Payload) (ps_MessageQueue s)),
                  os_ExpiredCount = length (filter (undeliverable now) (ps_MessageQueue s)),
                  os_OldestMessage = getOldestMessageTime (ps_MessageQueue s),
                  os_LastActivity = ps_LastActivity s\<rparr>
       else None) (sm_activeSessions sm)"

section \<open>The invariant of the session manager\<close>

definition session_ok :: "PersistConfig \<Rightarrow> string \<Rightarrow> PersistentSession \<Rightarrow> bool" where
  "session_ok c cid s =
     (ps_ClientID s = cid \<and> ps_PacketIDCounter s \<noteq> 0 \<and> gm_wf (ps_Subscriptions s)
      \<and> length (ps_MessageQueue s) \<le> pc_MaxOfflineMessages c)"

definition sm_inv :: "'d json_dec \<Rightarrow> 'd SessionManager \<Rightarrow> bool" where
  "sm_inv dec sm =
     (gm_wf (sm_activeSessions sm) \<and> mem_inv (sm_store sm)
      \<and> (\<forall>cid s. gm_get (sm_activeSessions sm) cid = Some s \<longrightarrow> session_ok (sm_config sm) cid s)
      \<and> (\<forall>cid d s. Get (sm_store sm) (session_key cid) = Ok d \<longrightarrow> dec d = Some s \<longrightarrow> session_ok (sm_config sm) cid s))"

lemma session_key_inject [simp]: "session_key a = session_key b \<longleftrightarrow> a = b"
  by (simp add: session_key_def)

lemma put_session_simps [simp]:
  "sm_config (put_session sm cid s) = sm_config sm" "sm_store (put_session sm cid s) = sm_store sm"
  "sm_timers (put_session sm cid s) = sm_timers sm"
  "sm_activeSessions (put_session sm cid s) = gm_set (sm_activeSessions sm) cid s"
  by (simp_all add: put_session_def)

lemma log_save_simps [simp]:
  "sm_config (log_save enc sm s) = sm_config sm" "sm_activeSessions (log_save enc sm s) = sm_activeSessions sm"
  "sm_timers (log_save enc sm s) = sm_timers sm"
  by (simp_all add: log_save_def saveSession_def split: option.splits)

lemma deleteSession_simps [simp]:
  "sm_config (deleteSession sm cid) = sm_config sm" "sm_activeSessions (deleteSession sm cid) = sm_activeSessions sm"
  "sm_timers (deleteSession sm cid) = sm_timers sm"
  by (simp_all add: deleteSession_def)

lemma log_save_store:
  assumes "json_roundtrip enc dec"
  shows "\<exists>d. enc s = Some d \<and> dec d = Some s
    \<and> sm_store (log_save enc sm s) = Set (sm_store sm) (session_key (ps_ClientID s)) d"
proof -
  obtain d where "enc s = Some d" "dec d = Some s" using assms by (auto simp: json_roundtrip_def)
  then show ?thesis by (intro exI [of _ d]) (simp add: log_save_def saveSession_def)
qed

lemma sm_inv_put: "sm_inv dec sm \<Longrightarrow> session_ok (sm_config sm) cid s \<Longrightarrow> sm_inv dec (put_session sm cid s)"
  by (auto simp: sm_inv_def distinct_update)

lemma sm_inv_save:
  assumes "json_roundtrip enc dec" and "sm_inv dec sm" and "session_ok (sm_config sm) (ps_ClientID s) s"
  shows "sm_inv dec (log_save enc sm s)"
proof -
  obtain d where d: "dec d = Some s"
    "sm_store (log_save enc sm s) = Set (sm_store sm) (session_key (ps_ClientID s)) d"
    using log_save_store [OF assms(1)] by blast
  have m: "mem_inv (sm_store sm)" using assms(2) by (simp add: sm_inv_def)
  with assms(2,3) d mem.inv_set [OF m] mem.get_set [OF m] show ?thesis by (auto simp: sm_inv_def)
qed

lemma sm_inv_delete:
  assumes "sm_inv dec sm"
  shows "sm_inv dec (deleteSession (sm\<lparr>sm_activeSessions := gm_del (sm_activeSessions sm) cid\<rparr>) cid)"
proof -
  have m: "mem_inv (sm_store sm)" using assms by (simp add: sm_inv_def)
  with assms mem.inv_del [OF m] mem.get_del [OF m] show ?thesis
    by (auto simp: sm_inv_def deleteSession_def distinct_delete)
qed

lemma sm_inv_new: "sm_inv dec (NewSessionManager NewMemStore c)"
  by (simp add: sm_inv_def NewSessionManager_def mem.inv_empty mem.get_empty)

lemma sm_inv_timers: "sm_inv dec (sm\<lparr>sm_timers := t\<rparr>) = sm_inv dec sm"
  by (simp add: sm_inv_def)

lemma sm_inv_closed: "sm_inv dec (sm\<lparr>sm_closed := b\<rparr>) = sm_inv dec sm"
  by (simp add: sm_inv_def)

lemmas sm_inv_intros = sm_inv_put sm_inv_save sm_inv_delete

lemma session_okD: "sm_inv dec sm \<Longrightarrow> gm_get (sm_activeSessions sm) cid = Some s \<Longrightarrow> session_ok (sm_config sm) cid s"
  by (simp add: sm_inv_def)

lemma loadSession_Ok:
  "loadSession dec sm cid = Ok s \<longleftrightarrow> (\<exists>d. Get (sm_store sm) (session_key cid) = Ok d \<and> dec d = Some s)"
  by (auto simp: loadSession_def split: go.splits option.splits)

section \<open>Every operation keeps the invariant\<close>

lemma CreateOrResumeSession_inv:
  assumes "json_roundtrip enc dec" and "sm_inv dec sm"
  shows "sm_inv dec (snd (CreateOrResumeSession enc dec now sm cid clean expiry))"
proof (cases "gm_get (sm_activeSessions sm) cid")
  case (Some s)
  with session_okD [OF assms(2) Some] assms(2) show ?thesis
    by (auto simp: CreateOrResumeSession_def Let_def wipe_def session_ok_def intro!: sm_inv_put)
next
  case None
  let ?load = "if \<not> clean then loadSession dec sm cid else Err []"
  let ?f = "fresh_session (sm_config sm) now cid clean expiry"
  show ?thesis
  proof (cases "\<exists>s. ?load = Ok s")
    case True
    then obtain s where s: "?load = Ok s" by blast
    then have "session_ok (sm_config sm) cid s"
      using assms(2) by (auto simp: sm_inv_def loadSession_Ok split: if_splits)
    with None s assms(2) show ?thesis
      by (auto simp: CreateOrResumeSession_def Let_def session_ok_def intro!: sm_inv_put)
  next
    case False
    have ok: "session_ok (sm_config sm) cid ?f" by (simp add: session_ok_def fresh_session_def)
    have id: "ps_ClientID ?f = cid" by (simp add: fresh_session_def)
    from False have "CreateOrResumeSession enc dec now sm cid clean expiry =
        (?f, if \<not> clean then log_save enc (put_session sm cid ?f) ?f else put_session sm cid ?f)"
      using None by (auto simp: CreateOrResumeSession_def Let_def split: go.splits)
    then show ?thesis using assms ok id by (auto intro!: sm_inv_intros)
  qed
qed

lemma update_session_inv:
  assumes "json_roundtrip enc dec" and "sm_inv dec sm" and "session_ok (sm_config sm) cid s"
  shows "sm_inv dec (if b then log_save enc (put_session sm cid s) s else put_session sm cid s)"
  using assms by (auto simp: session_ok_def intro!: sm_inv_intros)

lemma AddSubscription_inv:
  "json_roundtrip enc dec \<Longrightarrow> sm_inv dec sm \<Longrightarrow> AddSubscription enc now sm cid topic qos = Ok sm' \<Longrightarrow> sm_inv dec sm'"
  using update_session_inv [of enc dec sm cid] session_okD [of dec sm cid]
  by (auto simp: AddSubscription_def Let_def session_ok_def distinct_update split: option.splits)

lemma RemoveSubscription_inv:
  "json_roundtrip enc dec \<Longrightarrow> sm_inv dec sm \<Longrightarrow> RemoveSubscription enc now sm cid topic = Ok sm' \<Longrightarrow> sm_inv dec sm'"
  using update_session_inv [of enc dec sm cid] session_okD [of dec sm cid]
  by (auto simp: RemoveSubscription_def Let_def session_ok_def distinct_delete split: option.splits)

lemma SetWillMessage_inv:
  "sm_inv dec sm \<Longrightarrow> SetWillMessage sm cid topic payload qos retain d = Ok sm' \<Longrightarrow> sm_inv dec sm'"
  using session_okD [of dec sm cid]
  by (auto simp: SetWillMessage_def session_ok_def intro!: sm_inv_put split: option.splits)

lemma QueueMessage_inv:
  assumes "json_roundtrip enc dec" and "sm_inv dec sm" and "QueueMessage enc now sm cid topic payload qos retain = Ok sm'"
  shows "sm_inv dec sm'"
proof -
  from assms(3) obtain s where s: "gm_get (sm_activeSessions sm) cid = Some s"
    by (auto simp: QueueMessage_def split: option.splits)
  note ok = session_okD [OF assms(2) s]
  show ?thesis
  proof (cases "sm' = sm")
    case False
    define s' where "s' = s\<lparr>ps_MessageQueue :=
        (if length (ps_MessageQueue s) \<ge> pc_MaxOfflineMessages (sm_config sm) then drop 1 (ps_MessageQueue s) else ps_MessageQueue s)
          @ [queued (sm_config sm) now topic payload qos retain]\<rparr>"
    have sm': "sm' = log_save enc (put_session sm cid s') s'"
      and ne: "\<not> (length (ps_MessageQueue s) \<ge> pc_MaxOfflineMessages (sm_config sm) \<and> ps_MessageQueue s = [])"
      using assms(3) s False by (auto simp: QueueMessage_def Let_def s'_def split: if_splits)
    from ok ne have "session_ok (sm_config sm) cid s'"
      by (cases "ps_MessageQueue s") (auto simp: session_ok_def s'_def)
    from update_session_inv [OF assms(1,2) this, of True] sm' show ?thesis by simp
  qed (use assms(2) in simp)
qed

lemma NextPacketID_inv:
  "sm_inv dec sm \<Longrightarrow> NextPacketID sm cid = Ok (n, sm') \<Longrightarrow> sm_inv dec sm'"
  using session_okD [of dec sm cid]
  by (auto simp: NextPacketID_def session_ok_def Let_def intro!: sm_inv_put split: option.splits if_splits)

lemma save_put_inv:
  "json_roundtrip enc dec \<Longrightarrow> sm_inv dec sm \<Longrightarrow> session_ok (sm_config sm) cid s \<Longrightarrow>
     sm_inv dec (log_save enc (put_session sm cid s) s)"
  using update_session_inv [of enc dec sm cid s True] by simp

lemma queue_pass_inv:
  assumes "json_roundtrip enc dec"
  shows "sm_inv dec sm \<Longrightarrow> queue_pass enc now matcher held topic payload qos retain ss sm = Ok sm' \<Longrightarrow> sm_inv dec sm'"
proof (induction ss arbitrary: sm)
  case (Cons p ss)
  then show ?case by (cases p) (auto split: if_splits go.splits intro: QueueMessage_inv [OF assms])
qed simp

lemma DeliverOfflineMessages_inv:
  assumes "json_roundtrip enc dec" and "sm_inv dec (snd st)"
  shows "sm_inv dec (snd (fst (DeliverOfflineMessages enc now omm cid st)))"
proof -
  have "session_ok (sm_config (snd st)) cid (s\<lparr>ps_MessageQueue := []\<rparr>)"
    if "gm_get (sm_activeSessions (snd st)) cid = Some s" for s
    using session_okD [OF assms(2) that] by (simp add: session_ok_def)
  with assms show ?thesis
    by (auto simp: DeliverOfflineMessages_def Let_def intro!: save_put_inv sm_inv_put split: option.splits prod.splits)
qed

lemma cleanup_pass_inv:
  assumes "json_roundtrip enc dec"
  shows "sm_inv dec sm \<Longrightarrow> \<forall>s \<in> set ss. session_ok (sm_config sm) (ps_ClientID s) s \<Longrightarrow>
    sm_inv dec (fst (cleanup_pass enc now ss sm ex))"
proof (induction ss arbitrary: sm ex)
  case (Cons s ss)
  let ?s = "s\<lparr>ps_MessageQueue := filter (valid_message now) (ps_MessageQueue s)\<rparr>"
  have "session_ok (sm_config sm) (ps_ClientID s) s" using Cons.prems by simp
  then have "session_ok (sm_config sm) (ps_ClientID s) ?s"
    by (auto simp: session_ok_def intro: le_trans [OF length_filter_le])
  with Cons save_put_inv [OF assms Cons.prems(1)] sm_inv_put [OF Cons.prems(1)] show ?case by (simp add: Let_def)
qed simp

lemma remove_expired_inv: "sm_inv dec sm \<Longrightarrow> sm_inv dec (remove_expired now cids sm)"
  by (induction now cids sm rule: remove_expired.induct) (auto split: option.splits intro: sm_inv_delete)

lemma cleanupExpiredSessions_inv:
  assumes "json_roundtrip enc dec" and "sm_inv dec sm"
  shows "sm_inv dec (cleanupExpiredSessions enc now sm)"
proof -
  have "\<forall>s \<in> set (map snd (sm_activeSessions sm)). session_ok (sm_config sm) (ps_ClientID s) s"
    using assms(2) by (auto simp: sm_inv_def gm_get_iff session_ok_def)
  from cleanup_pass_inv [OF assms this, of now "[]"] show ?thesis
    by (auto simp: cleanupExpiredSessions_def split: prod.splits intro: remove_expired_inv)
qed

lemma save_all_inv:
  assumes "json_roundtrip enc dec"
  shows "sm_inv dec sm \<Longrightarrow> \<forall>p \<in> set ss. session_ok (sm_config sm) (ps_ClientID (snd p)) (snd p) \<Longrightarrow>
    sm_inv dec (foldl (\<lambda>sm (cid, s). if \<not> ps_CleanSession s then log_save enc sm s else sm) sm ss)"
proof (induction ss arbitrary: sm)
  case (Cons p ss)
  then show ?case using sm_inv_save [OF assms, of sm "snd p"] by (cases p) auto
qed simp

lemma sm_Close_inv:
  assumes "json_roundtrip enc dec" and "sm_inv dec sm"
  shows "sm_inv dec (sm_Close enc sm)"
proof -
  have "\<forall>p \<in> set (sm_activeSessions sm). session_ok (sm_config sm) (ps_ClientID (snd p)) (snd p)"
    using assms(2) by (auto simp: sm_inv_def gm_get_iff session_ok_def)
  moreover have "sm_inv dec (will_Close (sm\<lparr>sm_closed := True\<rparr>))"
    using assms(2) by (simp add: will_Close_def sm_inv_timers sm_inv_closed)
  ultimately show ?thesis
    using save_all_inv [OF assms(1), of "will_Close (sm\<lparr>sm_closed := True\<rparr>)" "sm_activeSessions sm"] assms(2)
    by (simp add: sm_Close_def will_Close_def)
qed

definition keeps_inv :: "'d json_dec \<Rightarrow> ('w, 'd) publisher option \<Rightarrow> bool" where
  "keeps_inv dec publisher \<longleftrightarrow>
     (\<forall>p held wm cid st st'. publisher = Some p \<longrightarrow> sm_inv dec (snd st) \<longrightarrow> p held wm cid st = Ok st' \<longrightarrow>
        sm_inv dec (snd st') \<and> sm_config (snd st') = sm_config (snd st))"

lemma PublishWillMessage_inv:
  assumes "keeps_inv dec publisher" and "sm_inv dec (snd st)"
    and "PublishWillMessage publisher now held wm cid st = Ok st'"
  shows "sm_inv dec (snd st') \<and> sm_config (snd st') = sm_config (snd st)"
  using assms
  by (cases st; cases st') (auto simp: PublishWillMessage_def publishImmediately_def scheduleDelayedWillMessage_def sm_inv_timers keeps_inv_def
      Let_def split: option.splits if_splits)

lemma DisconnectSession_inv:
  assumes "json_roundtrip enc dec" and "keeps_inv dec publisher" and "sm_inv dec (snd st)"
    and "DisconnectSession enc publisher now cid graceful st = Ok st'"
  shows "sm_inv dec (snd st')"
proof -
  from assms(4) obtain s0 where s0: "gm_get (sm_activeSessions (snd st)) cid = Some s0"
    by (auto simp: DisconnectSession_def split: option.splits)
  define s where "s = s0\<lparr>ps_Connected := False, ps_LastActivity := now\<rparr>"
  define st1 where "st1 = (fst st, put_session (snd st) cid s)"
  have ok: "session_ok (sm_config (snd st)) cid s"
    using session_okD [OF assms(3) s0] by (simp add: session_ok_def s_def)
  have inv1: "sm_inv dec (snd st1)" "sm_config (snd st1) = sm_config (snd st)"
    using sm_inv_put [OF assms(3) ok] by (simp_all add: st1_def)
  obtain w sm2 where mid: "disconnect_will publisher now cid graceful s st1 = Ok (w, sm2)"
    and fin: "st' = (w, disconnect_save enc cid (s\<lparr>ps_WillMessage := None\<rparr>) sm2)"
    using assms(4) s0 by (auto simp: DisconnectSession_def Let_def s_def st1_def)
  have inv2: "sm_inv dec sm2 \<and> sm_config sm2 = sm_config (snd st)"
    using mid inv1 PublishWillMessage_inv [OF assms(2) inv1(1), of now "[cid]" "ps_WillMessage s" cid "(w, sm2)"]
    by (auto simp: disconnect_will_def CancelWillMessage_def sm_inv_timers split: if_splits go.splits)
  have "session_ok (sm_config sm2) cid (s\<lparr>ps_WillMessage := None\<rparr>)" using ok inv2 by (simp add: session_ok_def)
  with inv2 fin save_put_inv [OF assms(1), of sm2 cid "s\<lparr>ps_WillMessage := None\<rparr>"] show ?thesis
    by (auto simp: disconnect_save_def intro: sm_inv_delete)
qed

section \<open>Reachable states\<close>

text \<open>The operations of the package, interleaved in any order by the goroutines of the broker.\<close>

inductive sm_step :: "'d json_enc \<Rightarrow> 'd json_dec \<Rightarrow> 'd SessionManager \<Rightarrow> 'd SessionManager \<Rightarrow> bool" for enc dec where
  connect: "sm_step enc dec sm (snd (CreateOrResumeSession enc dec now sm cid clean expiry))"
| disconnect: "keeps_inv dec publisher \<Longrightarrow> DisconnectSession enc publisher now cid graceful ((), sm) = Ok ((), sm')
    \<Longrightarrow> sm_step enc dec sm sm'"
| subscribe: "AddSubscription enc now sm cid topic qos = Ok sm' \<Longrightarrow> sm_step enc dec sm sm'"
| unsubscribe: "RemoveSubscription enc now sm cid topic = Ok sm' \<Longrightarrow> sm_step enc dec sm sm'"
| set_will: "SetWillMessage sm cid topic payload qos retain d = Ok sm' \<Longrightarrow> sm_step enc dec sm sm'"
| queue: "QueueMessage enc now sm cid topic payload qos retain = Ok sm' \<Longrightarrow> sm_step enc dec sm sm'"
| queue_all: "QueueMessageForOfflineClients enc now matcher held topic payload qos retain sm = Ok sm' \<Longrightarrow> sm_step enc dec sm sm'"
| packet_id: "NextPacketID sm cid = Ok (n, sm') \<Longrightarrow> sm_step enc dec sm sm'"
| deliver: "sm_step enc dec sm (snd (fst (DeliverOfflineMessages enc now omm cid ((), sm))))"
| cleanup: "sm_step enc dec sm (cleanupExpiredSessions enc now sm)"
| close: "sm_step enc dec sm (sm_Close enc sm)"

lemma sm_step_inv: "sm_step enc dec sm sm' \<Longrightarrow> json_roundtrip enc dec \<Longrightarrow> sm_inv dec sm \<Longrightarrow> sm_inv dec sm'"
proof (induction rule: sm_step.induct)
  case (disconnect publisher now cid graceful sm sm')
  then show ?case using DisconnectSession_inv [of enc dec publisher "((), sm)" now cid graceful "((), sm')"] by simp
next
  case (queue_all now matcher held topic payload qos retain sm sm')
  then show ?case by (auto simp: QueueMessageForOfflineClients_def intro: queue_pass_inv)
next
  case (deliver sm now omm cid)
  then show ?case using DeliverOfflineMessages_inv [of enc dec "((), sm)" now omm cid] by simp
qed (auto intro: CreateOrResumeSession_inv AddSubscription_inv RemoveSubscription_inv SetWillMessage_inv QueueMessage_inv
    NextPacketID_inv cleanupExpiredSessions_inv sm_Close_inv)

section \<open>Queues, packet identifiers and delivery\<close>

fun queue_messages :: "'d json_enc \<Rightarrow> 'd SessionManager \<Rightarrow> string \<Rightarrow> (time \<times> string \<times> byte list \<times> byte \<times> bool) list
    \<Rightarrow> (string, 'd SessionManager) go" where
  "queue_messages enc sm cid [] = Ok sm"
| "queue_messages enc sm cid ((now, topic, payload, qos, retain) # ms) =
     go_bind (QueueMessage enc now sm cid topic payload qos retain) (\<lambda>sm'. queue_messages enc sm' cid ms)"

abbreviation queued_of :: "PersistConfig \<Rightarrow> time \<times> string \<times> byte list \<times> byte \<times> bool \<Rightarrow> QueuedMessage" where
  "queued_of c m \<equiv> (case m of (now, topic, payload, qos, retain) \<Rightarrow> queued c now topic payload qos retain)"

lemma QueueMessage_offline:
  assumes "gm_get (sm_activeSessions sm) cid = Some s" and "\<not> ps_Connected s" and "\<not> ps_CleanSession s"
    and "0 < pc_MaxOfflineMessages (sm_config sm)" and "length (ps_MessageQueue s) \<le> pc_MaxOfflineMessages (sm_config sm)"
  shows "\<exists>sm'. QueueMessage enc now sm cid topic payload qos retain = Ok sm' \<and> sm_config sm' = sm_config sm
    \<and> gm_get (sm_activeSessions sm') cid = Some (s\<lparr>ps_MessageQueue :=
        drop (length (ps_MessageQueue s) + 1 - pc_MaxOfflineMessages (sm_config sm))
          (ps_MessageQueue s @ [queued (sm_config sm) now topic payload qos retain])\<rparr>)"
proof -
  let ?max = "pc_MaxOfflineMessages (sm_config sm)" and ?q = "ps_MessageQueue s"
  let ?m = "queued (sm_config sm) now topic payload qos retain"
  have "drop (length ?q + 1 - ?max) (?q @ [?m]) = (if length ?q \<ge> ?max then drop 1 ?q else ?q) @ [?m]"
    using assms(4,5) by (cases "length ?q = ?max") auto
  then show ?thesis using assms by (auto simp: QueueMessage_def Let_def)
qed

lemma drop_newest: "k \<le> length xs - n \<Longrightarrow> drop (length (drop k xs) - n) (drop k xs) = drop (length xs - n) xs"
proof -
  assume "k \<le> length xs - n"
  then have "length xs - k - n + k = length xs - n" by arith
  then show ?thesis by (simp only: length_drop drop_drop)
qed

lemma queue_messages_keep_newest:
  assumes "gm_get (sm_activeSessions sm) cid = Some s" and "\<not> ps_Connected s" and "\<not> ps_CleanSession s"
    and "0 < pc_MaxOfflineMessages (sm_config sm)" and "length (ps_MessageQueue s) \<le> pc_MaxOfflineMessages (sm_config sm)"
  shows "\<exists>sm'. queue_messages enc sm cid ms = Ok sm' \<and>
    gm_get (sm_activeSessions sm') cid = Some (s\<lparr>ps_MessageQueue :=
      (let q = ps_MessageQueue s @ map (queued_of (sm_config sm)) ms
       in drop (length q - pc_MaxOfflineMessages (sm_config sm)) q)\<rparr>)"
  using assms
proof (induction ms arbitrary: sm s)
  case (Cons m ms)
  obtain now topic payload qos retain where m: "m = (now, topic, payload, qos, retain)" by (cases m)
  let ?max = "pc_MaxOfflineMessages (sm_config sm)" and ?q = "ps_MessageQueue s"
  let ?q1 = "drop (length ?q + 1 - ?max) (?q @ [queued_of (sm_config sm) m])"
  obtain sm1 where q1: "QueueMessage enc now sm cid topic payload qos retain = Ok sm1" "sm_config sm1 = sm_config sm"
      "gm_get (sm_activeSessions sm1) cid = Some (s\<lparr>ps_MessageQueue := ?q1\<rparr>)"
    using QueueMessage_offline [OF Cons.prems] m by fastforce
  have "length ?q1 \<le> ?max" using Cons.prems(4) by simp
  with Cons.IH [OF q1(3)] Cons.prems q1 obtain sm2 where
    sm2: "queue_messages enc sm1 cid ms = Ok sm2"
      "gm_get (sm_activeSessions sm2) cid = Some (s\<lparr>ps_MessageQueue :=
        drop (length (?q1 @ map (queued_of (sm_config sm)) ms) - ?max) (?q1 @ map (queued_of (sm_config sm)) ms)\<rparr>)"
    by (auto simp: Let_def)
  have "drop (length (?q1 @ map (queued_of (sm_config sm)) ms) - ?max) (?q1 @ map (queued_of (sm_config sm)) ms) =
      drop (length (?q @ map (queued_of (sm_config sm)) (m # ms)) - ?max) (?q @ map (queued_of (sm_config sm)) (m # ms))"
  proof -
    have "?q1 @ map (queued_of (sm_config sm)) ms =
        drop (length ?q + 1 - ?max) (?q @ map (queued_of (sm_config sm)) (m # ms))"
      using Cons.prems(4,5) by simp
    then show ?thesis by (simp only: drop_newest) (subst drop_newest; simp)
  qed
  with sm2 q1 m show ?case by (auto simp: Let_def)
qed simp

lemma mod_shift_inject:
  fixes c m :: nat
  assumes "(c + i) mod m = (c + j) mod m" and "i < m" and "j < m"
  shows "i = j"
proof -
  have "i = j" if "i \<le> j" "(c + j) mod m = (c + i) mod m" "j < m" for i j
  proof -
    have "m dvd (c + j) - (c + i)" using that(1,2) by (subst (asm) mod_eq_dvd_iff_nat) auto
    then have "m dvd j - i" by simp
    with that(3) have "j - i = 0" using nat_dvd_not_less [of "j - i" m] by linarith
    with that(1) show ?thesis by simp
  qed
  from this [of i j] this [of j i] assms show ?thesis by (cases "i \<le> j") auto
qed

fun packet_ids :: "nat \<Rightarrow> 'd SessionManager \<Rightarrow> string \<Rightarrow> (string, uint16 list \<times> 'd SessionManager) go" where
  "packet_ids 0 sm cid = Ok ([], sm)"
| "packet_ids (Suc n) sm cid =
     go_bind (NextPacketID sm cid) (\<lambda>(p, sm'). go_bind (packet_ids n sm' cid) (\<lambda>(ps, sm''). Ok (p # ps, sm'')))"

lemma NextPacketID_value:
  assumes "gm_get (sm_activeSessions sm) cid = Some s" and "ps_PacketIDCounter s \<noteq> 0"
  shows "\<exists>p sm'. NextPacketID sm cid = Ok (p, sm') \<and> unat p = unat (ps_PacketIDCounter s) mod 65535 + 1
    \<and> gm_get (sm_activeSessions sm') cid = Some (s\<lparr>ps_PacketIDCounter := p\<rparr>)"
proof -
  let ?c = "ps_PacketIDCounter s" and ?p = "if ps_PacketIDCounter s + 1 = 0 then 1 else ps_PacketIDCounter s + 1"
  have "unat ?c < 65536" by simp
  moreover have "0 < unat ?c" using assms(2) by (simp add: unat_gt_0)
  moreover have "?c + 1 = 0 \<longleftrightarrow> unat ?c = 65535"
  proof (cases "unat ?c = 65535")
    case True
    then show ?thesis by (simp add: word_unat_eq_iff unat_word_ariths)
  next
    case False
    with \<open>unat ?c < 65536\<close> have "(unat ?c + 1) mod 65536 = unat ?c + 1" by (intro mod_less) linarith
    with False show ?thesis by (simp add: word_unat_eq_iff unat_word_ariths)
  qed
  moreover have "unat (?c + 1) = unat ?c mod 65535 + 1" if "unat ?c \<noteq> 65535"
  proof -
    from that \<open>unat ?c < 65536\<close> have "(unat ?c + 1) mod 65536 = unat ?c + 1" and "unat ?c mod 65535 = unat ?c"
      by (intro mod_less, linarith)+
    then show ?thesis by (simp add: unat_word_ariths)
  qed
  ultimately have "unat ?p = unat ?c mod 65535 + 1" by (cases "unat ?c = 65535") auto
  then show ?thesis using assms(1) by (auto simp: NextPacketID_def Let_def)
qed

lemma packet_ids_value:
  assumes "gm_get (sm_activeSessions sm) cid = Some s" and "ps_PacketIDCounter s \<noteq> 0"
  shows "\<exists>ps sm'. packet_ids n sm cid = Ok (ps, sm')
    \<and> map unat ps = map (\<lambda>i. (unat (ps_PacketIDCounter s) + i) mod 65535 + 1) [0..<n]"
  using assms
proof (induction n arbitrary: sm s)
  case (Suc n)
  obtain p sm1 where p: "NextPacketID sm cid = Ok (p, sm1)" "unat p = unat (ps_PacketIDCounter s) mod 65535 + 1"
      "gm_get (sm_activeSessions sm1) cid = Some (s\<lparr>ps_PacketIDCounter := p\<rparr>)"
    using NextPacketID_value [OF Suc.prems] by blast
  then have "p \<noteq> 0" by auto
  with Suc.IH [OF p(3)] obtain ps sm2 where
    ps: "packet_ids n sm1 cid = Ok (ps, sm2)" "map unat ps = map (\<lambda>i. (unat p + i) mod 65535 + 1) [0..<n]"
    by auto
  have "(unat p + i) mod 65535 = (unat (ps_PacketIDCounter s) + Suc i) mod 65535" for i
    unfolding p(2) by (metis (no_types, lifting) add.commute add_Suc_right mod_add_right_eq plus_1_eq_Suc)
  then have "map unat (p # ps) = map (\<lambda>i. (unat (ps_PacketIDCounter s) + i) mod 65535 + 1) [0..<Suc n]"
    using p(2) ps(2) by (simp add: upt_conv_Cons map_Suc_upt [symmetric] del: upt_Suc)
  with p(1) ps(1) show ?case by auto
qed simp

lemma deliver_loop_all:
  assumes "\<forall>c t p q r w. callback c t p q r w = (w @ [(t, p, q, r)], None)"
  shows "deliver_loop now callback cid ms w =
    (w @ map (\<lambda>m. (qm_Topic m, qm_Payload m, qm_QoS m, qm_Retain m)) (filter (\<lambda>m. \<not> undeliverable now m) ms), None)"
  using assms by (induction ms arbitrary: w) simp_all

section \<open>Cleanup\<close>

abbreviation kept :: "time \<Rightarrow> PersistentSession \<Rightarrow> PersistentSession" where
  "kept now s \<equiv> s\<lparr>ps_MessageQueue := filter (valid_message now) (ps_MessageQueue s)\<rparr>"

lemma kept_same: "length (filter (valid_message now) (ps_MessageQueue s)) = length (ps_MessageQueue s) \<Longrightarrow> kept now s = s"
  by (metis PersistentSession.surjective PersistentSession.update_convs(11) PersistentSession.select_convs(11)
      filter_True length_filter_less less_irrefl)

lemma cleanup_pass_lookup:
  assumes "distinct (map ps_ClientID ss)" and "\<forall>s \<in> set ss. gm_get (sm_activeSessions sm) (ps_ClientID s) = Some s"
  shows "gm_get (sm_activeSessions (fst (cleanup_pass enc now ss sm ex))) cid =
      (case gm_get (sm_activeSessions sm) cid of
         None \<Rightarrow> None
       | Some s \<Rightarrow> Some (if s \<in> set ss \<and> ps_ClientID s = cid \<and> \<not> session_expired now s then kept now s else s))
    \<and> snd (cleanup_pass enc now ss sm ex) = ex @ map ps_ClientID (filter (session_expired now) ss)"
  using assms
proof (induction ss arbitrary: sm ex)
  case (Cons s ss)
  show ?case
  proof (cases "session_expired now s")
    case True
    with Cons show ?thesis by (auto split: option.splits)
  next
    case False
    define sm2 where "sm2 = (if length (filter (valid_message now) (ps_MessageQueue s)) \<noteq> length (ps_MessageQueue s)
      then (if \<not> ps_CleanSession s then log_save enc (put_session sm (ps_ClientID s) (kept now s)) (kept now s)
            else put_session sm (ps_ClientID s) (kept now s)) else sm)"
    have step: "cleanup_pass enc now (s # ss) sm ex = cleanup_pass enc now ss sm2 ex"
      using False by (simp add: sm2_def Let_def)
    have get2: "gm_get (sm_activeSessions sm2) c = (if c = ps_ClientID s then Some (kept now s) else gm_get (sm_activeSessions sm) c)" for c
      using Cons.prems kept_same [of now s] by (auto simp: sm2_def)
    have "\<forall>s' \<in> set ss. gm_get (sm_activeSessions sm2) (ps_ClientID s') = Some s'"
      using Cons.prems get2 by (auto simp: image_iff)
    from Cons.IH [OF _ this] Cons.prems(1) have
      ih: "gm_get (sm_activeSessions (fst (cleanup_pass enc now ss sm2 ex))) cid =
        (case gm_get (sm_activeSessions sm2) cid of None \<Rightarrow> None
         | Some s \<Rightarrow> Some (if s \<in> set ss \<and> ps_ClientID s = cid \<and> \<not> session_expired now s then kept now s else s))"
        "snd (cleanup_pass enc now ss sm2 ex) = ex @ map ps_ClientID (filter (session_expired now) ss)" by auto
    show ?thesis
    proof (cases "cid = ps_ClientID s")
      case True
      have "kept now s \<notin> set ss"
      proof
        assume "kept now s \<in> set ss"
        then have "ps_ClientID (kept now s) \<in> ps_ClientID ` set ss" by (rule imageI)
        with Cons.prems(1) show False by simp
      qed
      with True ih step get2 Cons.prems False show ?thesis by simp
    next
      case neq: False
      then have "x \<in> set ss \<and> ps_ClientID x = cid \<longleftrightarrow> x \<in> set (s # ss) \<and> ps_ClientID x = cid" for x by auto
      with neq ih step get2 False show ?thesis by (auto split: option.splits)
    qed
  qed
qed (simp split: option.splits)

lemma remove_expired_lookup:
  "gm_get (sm_activeSessions (remove_expired now cids sm)) cid =
     (case gm_get (sm_activeSessions sm) cid of
        None \<Rightarrow> None
      | Some s \<Rightarrow> if cid \<in> set cids \<and> session_expired now s then None else Some s)"
  by (induction now cids sm rule: remove_expired.induct) (auto split: option.splits if_splits)

section \<open>Properties\<close>

text \<open>A concrete client and the plain document encoding, for concrete runs.\<close>

definition sample_session :: PersistentSession where
  "sample_session = (fresh_session PersistDefaultConfig 5 ''c'' False 0)
     \<lparr>ps_Connected := False, ps_Subscriptions := [(''a/+'', 1)]\<rparr>"

definition sample_manager :: "PersistentSession SessionManager" where
  "sample_manager = (NewSessionManager NewMemStore None)\<lparr>sm_activeSessions := [(''c'', sample_session)]\<rparr>"

lemma json_roundtrip_plain: "json_roundtrip Some Some"
  by (simp add: json_roundtrip_def)

lemma sample_manager_inv: "sm_inv Some sample_manager"
  by (auto simp: sm_inv_def sample_manager_def NewSessionManager_def sample_session_def fresh_session_def session_ok_def
      mem.inv_empty mem.get_empty PersistDefaultConfig_def split: if_splits)

lemmas sample_defs = sample_manager_def sample_session_def NewSessionManager_def fresh_session_def PersistDefaultConfig_def

text \<open>
  (C9) In every state the broker's goroutines can bring the session manager to, by any
  interleaving of its operations, every client has one session, filed under its own identifier,
  whose offline queue is within the configured limit and whose packet identifier is never 0; the
  same holds of every saved session.
\<close>

theorem session_manager_invariant:
  assumes "json_roundtrip enc dec" and "(sm_step enc dec)\<^sup>*\<^sup>* (NewSessionManager NewMemStore c) sm"
  shows "sm_inv dec sm"
  using assms(2) by induction (auto intro: sm_inv_new sm_step_inv [OF _ assms(1)])

theorem session_manager_invariant_witness:
  "sm_inv Some (cleanupExpiredSessions Some 9
     (snd (CreateOrResumeSession Some Some 7 (NewSessionManager NewMemStore None) ''c'' False 0)))"
  by (rule session_manager_invariant [OF json_roundtrip_plain, where c = None])
    (blast intro: rtranclp.rtrancl_into_rtrancl sm_step.connect sm_step.cleanup rtranclp.rtrancl_refl)

text \<open>
  (C11) A persistent session survives a restart of the broker: after a graceful disconnect, a new
  session manager over the same store resumes the session on the next connect with the
  subscriptions, queued messages, inflight messages and packet identifier it had; only the
  connection state, the will and the expiry (if given) are new.
\<close>

theorem session_survives_restart:
  assumes "json_roundtrip enc dec" and "sm_inv dec sm" and "gm_get (sm_activeSessions sm) cid = Some s"
    and "\<not> ps_CleanSession s"
  shows "\<exists>sm'. DisconnectSession enc publisher now cid True (w, sm) = Ok (w, sm') \<and>
    fst (CreateOrResumeSession enc dec now' (NewSessionManager (sm_store sm') c) cid False expiry) =
      s\<lparr>ps_Connected := True, ps_LastActivity := now', ps_WillMessage := None,
        ps_ExpiryInterval := (if expiry > 0 then expiry else ps_ExpiryInterval s)\<rparr>"
proof -
  define s1 where "s1 = s\<lparr>ps_Connected := False, ps_LastActivity := now, ps_WillMessage := None\<rparr>"
  define sm1 where "sm1 = CancelWillMessage cid (put_session sm cid (s\<lparr>ps_Connected := False, ps_LastActivity := now\<rparr>))"
  define sm' where "sm' = log_save enc (put_session sm1 cid s1) s1"
  have dis: "DisconnectSession enc publisher now cid True (w, sm) = Ok (w, sm')"
    using assms(3,4) by (simp add: DisconnectSession_def disconnect_will_def disconnect_save_def Let_def sm'_def sm1_def s1_def)
  have id: "ps_ClientID s1 = cid" using session_okD [OF assms(2,3)] by (simp add: session_ok_def s1_def)
  obtain d where d: "dec d = Some s1" "sm_store sm' = Set (sm_store (put_session sm1 cid s1)) (session_key cid) d"
    using log_save_store [OF assms(1), of s1 "put_session sm1 cid s1"] id by (auto simp: sm'_def)
  have "Get (sm_store sm') (session_key cid) = Ok d" by (simp add: d(2) Get_def Set_def)
  then have "loadSession dec (NewSessionManager (sm_store sm') c) cid = Ok s1"
    by (simp add: loadSession_Ok NewSessionManager_def d(1))
  with dis show ?thesis
    by (intro exI [of _ sm']) (simp add: CreateOrResumeSession_def NewSessionManager_def Let_def s1_def)
qed

theorem session_survives_restart_witness:
  "\<exists>sm'. DisconnectSession Some (None :: (unit, PersistentSession) publisher option) 8 ''c'' True ((), sample_manager) = Ok ((), sm') \<and>
    fst (CreateOrResumeSession Some Some 9 (NewSessionManager (sm_store sm') None) ''c'' False 0) =
      sample_session\<lparr>ps_Connected := True, ps_LastActivity := 9, ps_WillMessage := None,
        ps_ExpiryInterval := (if (0 :: duration) > 0 then 0 else ps_ExpiryInterval sample_session)\<rparr>"
  by (rule session_survives_restart [OF json_roundtrip_plain sample_manager_inv]) (simp_all add: sample_defs)

text \<open>
  The offline queue is a bounded queue that drops its oldest message: after queueing any
  sequence of messages for a disconnected persistent session it holds, in order, the newest of the
  old and the new messages, as many as the limit allows.
\<close>

lemma offline_queue_keeps_newest:
  assumes "sm_inv dec sm" and "gm_get (sm_activeSessions sm) cid = Some s" and "\<not> ps_Connected s"
    and "\<not> ps_CleanSession s" and "0 < pc_MaxOfflineMessages (sm_config sm)"
  shows "\<exists>sm'. queue_messages enc sm cid ms = Ok sm' \<and>
    gm_get (sm_activeSessions sm') cid = Some (s\<lparr>ps_MessageQueue :=
      (let q = ps_MessageQueue s @ map (queued_of (sm_config sm)) ms
       in drop (length q - pc_MaxOfflineMessages (sm_config sm)) q)\<rparr>)"
  using queue_messages_keep_newest [OF assms(2-5)] session_okD [OF assms(1,2)] by (simp add: session_ok_def)

lemma offline_queue_keeps_newest_witness:
  "\<exists>sm'. queue_messages Some sample_manager ''c'' [(6, ''a/b'', [1], 1, False), (7, ''a/c'', [2], 0, False)] = Ok sm' \<and>
    gm_get (sm_activeSessions sm') ''c'' = Some (sample_session\<lparr>ps_MessageQueue :=
      (let q = ps_MessageQueue sample_session @
             map (queued_of (sm_config sample_manager)) [(6, ''a/b'', [1], 1, False), (7, ''a/c'', [2], 0, False)]
       in drop (length q - pc_MaxOfflineMessages (sm_config sample_manager)) q)\<rparr>)"
  by (rule offline_queue_keeps_newest [OF sample_manager_inv]) (simp_all add: sample_defs)

text \<open>
  (C28) Packet identifiers cycle through 1 to 65535: the identifiers \<open>NextPacketID\<close> returns are
  never 0, and any 65535 consecutive ones of a session are pairwise different.
\<close>

theorem packet_ids_distinct:
  assumes "sm_inv dec sm" and "gm_get (sm_activeSessions sm) cid = Some s" and "n \<le> 65535"
  shows "\<exists>ps sm'. packet_ids n sm cid = Ok (ps, sm') \<and> length ps = n \<and> 0 \<notin> set ps \<and> distinct ps"
proof -
  have c0: "ps_PacketIDCounter s \<noteq> 0" using session_okD [OF assms(1,2)] by (simp add: session_ok_def)
  let ?c = "unat (ps_PacketIDCounter s)"
  obtain ps sm' where ps: "packet_ids n sm cid = Ok (ps, sm')" "map unat ps = map (\<lambda>i. (?c + i) mod 65535 + 1) [0..<n]"
    using packet_ids_value [OF assms(2) c0, of n] by blast
  have "inj_on (\<lambda>i. (?c + i) mod 65535 + 1) (set [0..<n])"
  proof (rule inj_onI)
    fix i j assume ij: "i \<in> set [0..<n]" "j \<in> set [0..<n]" "(?c + i) mod 65535 + 1 = (?c + j) mod 65535 + 1"
    then show "i = j" using assms(3) by (intro mod_shift_inject [of ?c i 65535 j]) auto
  qed
  then have "distinct (map unat ps)" unfolding ps(2) by (simp add: distinct_map)
  then have "distinct ps" by (simp add: distinct_map)
  moreover have "length ps = n" using arg_cong [OF ps(2), of length] by simp
  moreover have "0 \<notin> set (map unat ps)" unfolding ps(2) by auto
  then have "0 \<notin> set ps" by force
  ultimately show ?thesis using ps(1) by blast
qed

theorem packet_ids_distinct_witness:
  "\<exists>ps sm'. packet_ids 3 sample_manager ''c'' = Ok (ps, sm') \<and> length ps = 3 \<and> 0 \<notin> set ps \<and> distinct ps"
  by (rule packet_ids_distinct [OF sample_manager_inv]) (simp_all add: sample_manager_def)

text \<open>
  Offline messages are delivered on reconnect: with a callback that accepts every message,
  \<open>DeliverOfflineMessages\<close> hands over exactly the queued messages that have not expired, in the order
  they were queued, and leaves the queue empty. When the callback fails the whole queue is kept.
\<close>

lemma offline_delivery:
  fixes callback :: "(string \<times> byte list \<times> byte \<times> bool) list callback"
  assumes "gm_get (om_deliveryCallbacks omm) cid = Some callback"
    and "gm_get (sm_activeSessions sm) cid = Some s" and "ps_Connected s"
  shows "((\<forall>c t p q r w. callback c t p q r w = (w @ [(t, p, q, r)], None)) \<longrightarrow>
      (\<exists>sm'. DeliverOfflineMessages enc now omm cid ([], sm) =
        ((map (\<lambda>m. (qm_Topic m, qm_Payload m, qm_QoS m, qm_Retain m)) (filter (\<lambda>m. \<not> undeliverable now m) (ps_MessageQueue s)), sm'), None)
        \<and> gm_get (sm_activeSessions sm') cid = Some (s\<lparr>ps_MessageQueue := []\<rparr>)))
    \<and> (\<forall>w sm' e. DeliverOfflineMessages enc now omm cid ([], sm) = ((w, sm'), Some e) \<longrightarrow> sm' = sm)"
proof (intro conjI impI allI)
  assume "\<forall>c t p q r w. callback c t p q r w = (w @ [(t, p, q, r)], None)"
  note loop = deliver_loop_all [OF this]
  show "\<exists>sm'. DeliverOfflineMessages enc now omm cid ([], sm) =
        ((map (\<lambda>m. (qm_Topic m, qm_Payload m, qm_QoS m, qm_Retain m)) (filter (\<lambda>m. \<not> undeliverable now m) (ps_MessageQueue s)), sm'), None)
        \<and> gm_get (sm_activeSessions sm') cid = Some (s\<lparr>ps_MessageQueue := []\<rparr>)"
    using assms by (simp add: DeliverOfflineMessages_def loop Let_def)
next
  fix w sm' e assume "DeliverOfflineMessages enc now omm cid ([], sm) = ((w, sm'), Some e)"
  then show "sm' = sm" using assms by (auto simp: DeliverOfflineMessages_def Let_def split: prod.splits option.splits)
qed

lemma offline_delivery_witness:
  "let cb = (\<lambda>c t p q r w. (w @ [(t, p, q, r)], None)) :: (string \<times> byte list \<times> byte \<times> bool) list callback;
       s = sample_session\<lparr>ps_Connected := True, ps_MessageQueue := [queued PersistDefaultConfig 6 ''a/b'' [1] 1 False]\<rparr>;
       sm = put_session sample_manager ''c'' s
   in \<exists>sm'. DeliverOfflineMessages Some 8 (SetDeliveryCallback \<lparr>om_deliveryCallbacks = []\<rparr> ''c'' cb) ''c'' ([], sm) =
      (([(''a/b'', [1], 1, False)], sm'), None)"
proof -
  let ?cb = "(\<lambda>c t p q r w. (w @ [(t, p, q, r)], None)) :: (string \<times> byte list \<times> byte \<times> bool) list callback"
  let ?omm = "SetDeliveryCallback \<lparr>om_deliveryCallbacks = []\<rparr> ''c'' ?cb"
  let ?s = "sample_session\<lparr>ps_Connected := True, ps_MessageQueue := [queued PersistDefaultConfig 6 ''a/b'' [1] 1 False]\<rparr>"
  let ?sm = "put_session sample_manager ''c'' ?s"
  have "gm_get (om_deliveryCallbacks ?omm) ''c'' = Some ?cb" by (simp add: SetDeliveryCallback_def)
  moreover have "gm_get (sm_activeSessions ?sm) ''c'' = Some ?s" "ps_Connected ?s" by simp_all
  ultimately show ?thesis
    using offline_delivery [of ?omm "''c''" ?cb ?sm ?s Some 8]
    by (auto simp: queued_def undeliverable_def PersistDefaultConfig_def)
qed

text \<open>
  The periodic cleanup removes exactly the sessions that have been offline for longer than
  their expiry interval; every other session stays as it is, less its expired queued messages.
\<close>

lemma cleanup_removes_expired:
  assumes "sm_inv dec sm"
  shows "gm_get (sm_activeSessions (cleanupExpiredSessions enc now sm)) cid =
    (case gm_get (sm_activeSessions sm) cid of
       None \<Rightarrow> None
     | Some s \<Rightarrow> if session_expired now s then None else Some (kept now s))"
proof -
  let ?ss = "map snd (sm_activeSessions sm)"
  have wf: "gm_wf (sm_activeSessions sm)" and ok: "\<forall>cid s. gm_get (sm_activeSessions sm) cid = Some s \<longrightarrow> ps_ClientID s = cid"
    using assms by (auto simp: sm_inv_def session_ok_def)
  have ids: "map ps_ClientID ?ss = map fst (sm_activeSessions sm)"
    using ok wf by (auto simp: gm_get_iff)
  have dist: "distinct (map ps_ClientID ?ss)" unfolding ids by (rule wf)
  have look: "\<forall>s \<in> set ?ss. gm_get (sm_activeSessions sm) (ps_ClientID s) = Some s"
    using ok wf by (auto simp: gm_get_iff)
  obtain sm1 ex where pass: "cleanup_pass enc now ?ss sm [] = (sm1, ex)" by fastforce
  from cleanup_pass_lookup [OF dist look, of enc now "[]" cid] pass
  have l1: "gm_get (sm_activeSessions sm1) cid =
      (case gm_get (sm_activeSessions sm) cid of None \<Rightarrow> None
       | Some s \<Rightarrow> Some (if s \<in> set ?ss \<and> ps_ClientID s = cid \<and> \<not> session_expired now s then kept now s else s))"
    and ex: "ex = map ps_ClientID (filter (session_expired now) ?ss)" by auto
  have exp: "session_expired now (kept now s) = session_expired now s" for s by (simp add: session_expired_def)
  show ?thesis
  proof (cases "gm_get (sm_activeSessions sm) cid")
    case None
    with l1 pass show ?thesis by (simp add: cleanupExpiredSessions_def remove_expired_lookup)
  next
    case (Some s)
    then have s: "s \<in> set ?ss" "ps_ClientID s = cid" using ok by (auto dest: gm_get_in intro: rev_image_eqI)
    then have "session_expired now s \<Longrightarrow> cid \<in> set ex" unfolding ex by auto
    with Some s l1 pass exp show ?thesis by (auto simp: cleanupExpiredSessions_def remove_expired_lookup)
  qed
qed

lemma cleanup_removes_expired_witness:
  "gm_get (sm_activeSessions (cleanupExpiredSessions Some (30 * 24 * hour) sample_manager)) ''c'' = None"
  using cleanup_removes_expired [OF sample_manager_inv, of Some "30 * 24 * hour" "''c''"]
  by (simp add: session_expired_def sample_defs)

text \<open>
  Messages for offline clients are lost for every wildcard filter but \<open>#\<close>: if all
  subscriptions of the offline clients are valid filters with a wildcard, other than \<open>#\<close> alone, then
  publishing to any topic queues nothing, also where the subscription matches the topic.
\<close>

lemma offline_wildcards_not_queued:
  assumes "publishable topic"
    and "\<forall>(cid, s) \<in> set (sm_activeSessions sm). \<forall>(f, qos) \<in> set (ps_Subscriptions s). \<not> publishable f \<and> f \<noteq> ''#''"
  shows "QueueMessageForOfflineClients enc now BasicTopicMatcher_Matches [] topic payload qos retain sm = Ok sm"
proof -
  have "queue_pass enc now BasicTopicMatcher_Matches [] topic payload qos retain ss sm = Ok sm"
    if "\<forall>(cid, s) \<in> set ss. \<forall>(f, qos) \<in> set (ps_Subscriptions s). \<not> publishable f \<and> f \<noteq> ''#''" for ss
    using that
  proof (induction ss)
    case (Cons p ss)
    obtain cid s where p: "p = (cid, s)" by (cases p)
    have "\<not> BasicTopicMatcher_Matches topic f" if "(f, qos) \<in> set (ps_Subscriptions s)" for f qos
      using that Cons.prems p assms(1) by (auto simp: BasicTopicMatcher_Matches_def basicTopicMatch_def)
    then have "\<not> list_ex (\<lambda>(f, _). BasicTopicMatcher_Matches topic f) (ps_Subscriptions s)"
      by (auto simp: list_ex_iff)
    with Cons p show ?case by simp
  qed simp
  with assms(2) show ?thesis by (simp add: QueueMessageForOfflineClients_def)
qed

lemma offline_wildcards_not_queued_witness:
  "QueueMessageForOfflineClients Some 8 BasicTopicMatcher_Matches [] ''a/b'' [1] 1 False sample_manager = Ok sample_manager
    \<and> mqtt_match (levels ''a/b'') (levels ''a/+'') \<and> gm_get (ps_Subscriptions sample_session) ''a/+'' = Some 1"
proof -
  have "QueueMessageForOfflineClients Some 8 BasicTopicMatcher_Matches [] ''a/b'' [1] 1 False sample_manager = Ok sample_manager"
    by (rule offline_wildcards_not_queued) (auto simp: publishable_def sample_defs)
  then show ?thesis by (simp add: sample_session_def)
qed

text \<open>With a limit of 0 the first message queued for an offline client panics the broker.\<close>

lemma QueueMessage_limit_zero_panics:
  assumes "gm_get (sm_activeSessions sm) cid = Some s" and "\<not> ps_Connected s" and "\<not> ps_CleanSession s"
    and "pc_MaxOfflineMessages (sm_config sm) = 0" and "ps_MessageQueue s = []"
  shows "QueueMessage enc now sm cid topic payload qos retain = Panic"
  using assms by (simp add: QueueMessage_def)

text \<open>Taking the lock of a session that the running goroutine already holds waits for ever.\<close>

lemma queue_pass_held:
  assumes "(cid, s) \<in> set ss" and "cid \<in> set held" and "0 < pc_MaxOfflineMessages (sm_config sm)"
  shows "queue_pass enc now matcher held topic payload qos retain ss sm \<in> {Blocked, Panic}"
  using assms
proof (induction ss arbitrary: sm)
  case (Cons p ss)
  obtain cid' s' where p: "p = (cid', s')" by (cases p)
  show ?case
  proof (cases "cid' \<in> set held")
    case False
    then have tl: "(cid, s) \<in> set ss" using Cons.prems p by auto
    have cfg: "sm_config sm' = sm_config sm" if "QueueMessage enc now sm cid' topic payload qos retain = Ok sm'" for sm'
      using that by (auto simp: QueueMessage_def Let_def split: option.splits if_splits)
    show ?thesis using False p Cons.IH [OF tl Cons.prems(2)] Cons.prems(3) cfg
      by (auto split: go.splits)
  qed (simp add: p)
qed simp

end
