(* ===== verification/Auth.thy ===== *)
theory Auth
  imports Prelude
begin

text \<open>
  Authentication (\<open>pkg/auth/auth.go\<close> and \<open>pkg/auth/memory.go\<close>): the chain of authenticators and the
  in-memory user table. The hash functions come from cryptographic packages; they are the argument
  \<open>hashes\<close>, and the one fact used of them, that bcrypt accepts the password it hashed, is the
  hypothesis \<open>bcrypt_ok\<close>. The interface \<open>Authenticator\<close> is the locale \<open>authenticator\<close>.
\<close>

section \<open>Results and the chain\<close>

datatype AuthResult = AuthSuccess | AuthFailure | AuthError | AuthIgnore

fun AuthResult_String :: "AuthResult \<Rightarrow> string" where
  "AuthResult_String AuthSuccess = ''success''"
| "AuthResult_String AuthFailure = ''failure''"
| "AuthResult_String AuthError = ''error''"
| "AuthResult_String AuthIgnore = ''ignore''"

record Authenticator =
  au_Name :: string
  au_Enabled :: bool
  au_Authenticate :: "string \<Rightarrow> string \<Rightarrow> AuthResult"

record AuthChain =
  ac_authenticators :: "Authenticator list"
  ac_enabled :: bool

definition NewAuthChain :: AuthChain where
  "NewAuthChain = \<lparr>ac_authenticators = [], ac_enabled = True\<rparr>"

definition AddAuthenticator :: "AuthChain \<Rightarrow> Authenticator \<Rightarrow> AuthChain" where
  "AddAuthenticator ac a = ac\<lparr>ac_authenticators := ac_authenticators ac @ [a]\<rparr>"

fun chain_loop :: "Authenticator list \<Rightarrow> string \<Rightarrow> string \<Rightarrow> AuthResult" where
  "chain_loop [] username password = (if username = [] \<and> password = [] then AuthSuccess else AuthFailure)"
| "chain_loop (a # rest) username password =
     (if \<not> au_Enabled a then chain_loop rest username password
      else (case au_Authenticate a username password of
              AuthSuccess \<Rightarrow> AuthSuccess
            | AuthFailure \<Rightarrow> AuthFailure
            | AuthError \<Rightarrow> chain_loop rest username password
            | AuthIgnore \<Rightarrow> chain_loop rest username password))"

definition AuthChain_Authenticate :: "AuthChain \<Rightarrow> string \<Rightarrow> string \<Rightarrow> AuthResult" where
  "AuthChain_Authenticate ac username password =
     (if \<not> ac_enabled ac then AuthIgnore
      else if length (ac_authenticators ac) = 0 then AuthSuccess
      else chain_loop (ac_authenticators ac) username password)"

definition AuthChain_SetEnabled :: "AuthChain \<Rightarrow> bool \<Rightarrow> AuthChain" where
  "AuthChain_SetEnabled ac enabled = ac\<lparr>ac_enabled := enabled\<rparr>"

definition AuthChain_Clear :: "AuthChain \<Rightarrow> AuthChain" where
  "AuthChain_Clear ac = ac\<lparr>ac_authenticators := []\<rparr>"

definition AuthChain_Count :: "AuthChain \<Rightarrow> nat" where
  "AuthChain_Count ac = length (ac_authenticators ac)"

section \<open>Passwords\<close>

datatype HashAlgorithm = HashPlain | HashSHA256 | HashBcrypt | HashOther string

record hashes =
  h_sha256hex :: "string \<Rightarrow> string"
  h_bcrypt :: "string \<Rightarrow> string option"
  h_bcrypt_compare :: "string \<Rightarrow> string \<Rightarrow> bool"

definition bcrypt_ok :: "hashes \<Rightarrow> bool" where
  "bcrypt_ok H \<longleftrightarrow> (\<forall>p h. h_bcrypt H p = Some h \<longrightarrow> h_bcrypt_compare H h p)"

definition hashPassword :: "hashes \<Rightarrow> string \<Rightarrow> string \<Rightarrow> HashAlgorithm \<Rightarrow> (string, string) go" where
  "hashPassword H password salt algorithm =
     (case algorithm of
        HashPlain \<Rightarrow> Ok password
      | HashSHA256 \<Rightarrow> Ok (h_sha256hex H (salt @ password))
      | HashBcrypt \<Rightarrow> (case h_bcrypt H password of None \<Rightarrow> Err ''bcrypt'' | Some h \<Rightarrow> Ok h)
      | HashOther a \<Rightarrow> Err (''unsupported hash algorithm: '' @ a))"

definition verifyPassword :: "hashes \<Rightarrow> string \<Rightarrow> string \<Rightarrow> string \<Rightarrow> HashAlgorithm \<Rightarrow> bool" where
  "verifyPassword H password hash salt algorithm =
     (case algorithm of
        HashPlain \<Rightarrow> password = hash
      | HashSHA256 \<Rightarrow> (case hashPassword H password salt HashSHA256 of Ok expectedHash \<Rightarrow> expectedHash = hash | _ \<Rightarrow> False)
      | HashBcrypt \<Rightarrow> h_bcrypt_compare H hash password
      | HashOther _ \<Rightarrow> False)"

section \<open>The in-memory authenticator\<close>

record User =
  u_Username :: string
  u_PasswordHash :: string
  u_Algorithm :: HashAlgorithm
  u_Salt :: string
  u_Enabled :: bool

record MemoryAuthenticator =
  ma_users :: "(string, User) gomap"
  ma_enabled :: bool

definition NewMemoryAuthenticator :: MemoryAuthenticator where
  "NewMemoryAuthenticator = \<lparr>ma_users = [], ma_enabled = True\<rparr>"

definition SetEnabled :: "MemoryAuthenticator \<Rightarrow> bool \<Rightarrow> MemoryAuthenticator" where
  "SetEnabled ma enabled = ma\<lparr>ma_enabled := enabled\<rparr>"

definition AddUser :: "hashes \<Rightarrow> MemoryAuthenticator \<Rightarrow> string \<Rightarrow> string \<Rightarrow> HashAlgorithm \<Rightarrow> (string, MemoryAuthenticator) go" where
  "AddUser H ma username password algorithm =
     (if username = [] then Err ''username cannot be empty''
      else (let salt = (if algorithm = HashSHA256 then username else [])
            in case hashPassword H password salt algorithm of
                 Ok passwordHash \<Rightarrow>
                   Ok (ma\<lparr>ma_users := gm_set (ma_users ma) username
                         \<lparr>u_Username = username, u_PasswordHash = passwordHash, u_Algorithm = algorithm,
                          u_Salt = salt, u_Enabled = True\<rparr>\<rparr>)
               | Err e \<Rightarrow> Err (''failed to hash password: '' @ e)
               | Panic \<Rightarrow> Panic
               | Blocked \<Rightarrow> Blocked))"

definition RemoveUser :: "MemoryAuthenticator \<Rightarrow> string \<Rightarrow> (string, MemoryAuthenticator) go" where
  "RemoveUser ma username =
     (case gm_get (ma_users ma) username of
        None \<Rightarrow> Err (''user not found: '' @ username)
      | Some _ \<Rightarrow> Ok (ma\<lparr>ma_users := gm_del (ma_users ma) username\<rparr>))"

definition UpdateUser :: "hashes \<Rightarrow> MemoryAuthenticator \<Rightarrow> string \<Rightarrow> string \<Rightarrow> HashAlgorithm \<Rightarrow> (string, MemoryAuthenticator) go" where
  "UpdateUser H ma username password algorithm =
     (case gm_get (ma_users ma) username of
        None \<Rightarrow> Err (''user not found: '' @ username)
      | Some user \<Rightarrow>
          (let salt = (if algorithm = HashSHA256 then username else [])
           in case hashPassword H password salt algorithm of
                Ok passwordHash \<Rightarrow>
                  Ok (ma\<lparr>ma_users := gm_set (ma_users ma) username
                        (user\<lparr>u_PasswordHash := passwordHash, u_Algorithm := algorithm, u_Salt := salt\<rparr>)\<rparr>)
              | Err e \<Rightarrow> Err (''failed to hash password: '' @ e)
              | Panic \<Rightarrow> Panic
              | Blocked \<Rightarrow> Blocked))"

definition GetUser :: "MemoryAuthenticator \<Rightarrow> string \<Rightarrow> (string, User) go" where
  "GetUser ma username =
     (case gm_get (ma_users ma) username of
        None \<Rightarrow> Err (''user not found: '' @ username)
      | Some user \<Rightarrow> Ok \<lparr>u_Username = u_Username user, u_PasswordHash = [], u_Algorithm = u_Algorithm user,
                          u_Salt = [], u_Enabled = u_Enabled user\<rparr>)"

definition ListUsers :: "MemoryAuthenticator \<Rightarrow> string list" where
  "ListUsers ma = map fst (ma_users ma)"

definition SetUserEnabled :: "MemoryAuthenticator \<Rightarrow> string \<Rightarrow> bool \<Rightarrow> (string, MemoryAuthenticator) go" where
  "SetUserEnabled ma username enabled =
     (case gm_get (ma_users ma) username of
        None \<Rightarrow> Err (''user not found: '' @ username)
      | Some user \<Rightarrow> Ok (ma\<lparr>ma_users := gm_set (ma_users ma) username (user\<lparr>u_Enabled := enabled\<rparr>)\<rparr>))"

definition Authenticate :: "hashes \<Rightarrow> MemoryAuthenticator \<Rightarrow> string \<Rightarrow> string \<Rightarrow> AuthResult" where
  "Authenticate H ma username password =
     (if \<not> ma_enabled ma then AuthIgnore
      else if username = [] \<and> password \<noteq> [] then AuthFailure
      else if username = [] then AuthIgnore
      else (case gm_get (ma_users ma) username of
              None \<Rightarrow> AuthFailure
            | Some user \<Rightarrow>
                if \<not> u_Enabled user then AuthFailure
                else if verifyPassword H password (u_PasswordHash user) (u_Salt user) (u_Algorithm user) then AuthSuccess
                else AuthFailure))"

definition ma_Clear :: "MemoryAuthenticator \<Rightarrow> MemoryAuthenticator" where
  "ma_Clear ma = ma\<lparr>ma_users := []\<rparr>"

definition ma_Count :: "MemoryAuthenticator \<Rightarrow> nat" where
  "ma_Count ma = length (ma_users ma)"

text \<open>A \<open>MemoryAuthenticator\<close> as an \<open>Authenticator\<close> of the chain.\<close>

definition memory_authenticator :: "hashes \<Rightarrow> MemoryAuthenticator \<Rightarrow> Authenticator" where
  "memory_authenticator H ma = \<lparr>au_Name = ''memory'', au_Enabled = ma_enabled ma, au_Authenticate = Authenticate H ma\<rparr>"

section \<open>The interface\<close>

text \<open>
  What the chain relies on: an authenticator that is switched off has no opinion, and none lets in
  a client that gives no user name.
\<close>

locale authenticator =
  fixes authenticate :: "'s \<Rightarrow> string \<Rightarrow> string \<Rightarrow> AuthResult"
    and enabled :: "'s \<Rightarrow> bool"
    and name :: string
  assumes disabled_ignores: "\<not> enabled s \<Longrightarrow> authenticate s u p = AuthIgnore"
    and no_name_no_success: "authenticate s [] p \<noteq> AuthSuccess"
begin

definition as_authenticator :: "'s \<Rightarrow> Authenticator" where
  "as_authenticator s = \<lparr>au_Name = name, au_Enabled = enabled s, au_Authenticate = authenticate s\<rparr>"

lemma single_success:
  "chain_loop [as_authenticator s] u p = AuthSuccess \<longleftrightarrow>
     (enabled s \<and> authenticate s u p = AuthSuccess)
     \<or> (u = [] \<and> p = [] \<and> \<not> (enabled s \<and> authenticate s u p = AuthFailure))"
  using no_name_no_success by (auto simp: as_authenticator_def split: AuthResult.splits)

text \<open>Leaving a switched-off authenticator out of the chain changes nothing.\<close>

lemma disabled_skipped: "\<not> enabled s \<Longrightarrow> chain_loop (pre @ as_authenticator s # post) u p = chain_loop (pre @ post) u p"
  by (induction pre) (auto simp: as_authenticator_def split: AuthResult.splits)

end

interpretation memory: authenticator "Authenticate H" ma_enabled "''memory''" for H
  by unfold_locales (auto simp: Authenticate_def)

lemma memory_as_authenticator: "memory_authenticator H ma = memory.as_authenticator H ma"
  by (simp add: memory_authenticator_def memory.as_authenticator_def)

section \<open>Properties\<close>

text \<open>The authenticators that decide: those that are on and neither pass nor fail to answer.\<close>

definition decisive :: "string \<Rightarrow> string \<Rightarrow> Authenticator \<Rightarrow> bool" where
  "decisive u p a = (au_Enabled a \<and> au_Authenticate a u p \<in> {AuthSuccess, AuthFailure})"

lemma chain_loop_find:
  "chain_loop as u p =
     (case find (decisive u p) as of
        Some a \<Rightarrow> au_Authenticate a u p
      | None \<Rightarrow> if u = [] \<and> p = [] then AuthSuccess else AuthFailure)"
  by (induction as) (auto simp: decisive_def split: AuthResult.splits)

lemma hash_verifies:
  assumes "bcrypt_ok H" and "hashPassword H password salt algorithm = Ok h"
  shows "verifyPassword H password h salt algorithm"
  using assms
  by (auto simp: hashPassword_def verifyPassword_def bcrypt_ok_def split: HashAlgorithm.splits option.splits)


text \<open>
  The user table and the chain together: after \<open>AddUser\<close> the user's password is accepted (and,
  stored as plain text, no other), no other user is affected, and disabling or removing the user
  shuts every password out.
\<close>

lemma AddUser_then_Authenticate:
  assumes "bcrypt_ok H" and "AddUser H ma u p alg = Ok ma'" and "ma_enabled ma"
    and "auth = (\<lambda>ma. AuthChain_Authenticate (AddAuthenticator NewAuthChain (memory_authenticator H ma)))"
  shows "auth ma' u p = AuthSuccess
    \<and> (alg = HashPlain \<longrightarrow> (\<forall>q. auth ma' u q = AuthSuccess \<longleftrightarrow> q = p))
    \<and> (\<forall>v q. v \<noteq> u \<longrightarrow> auth ma' v q = auth ma v q)
    \<and> (\<exists>ma''. SetUserEnabled ma' u False = Ok ma'' \<and> (\<forall>q. auth ma'' u q = AuthFailure))
    \<and> (\<exists>ma''. RemoveUser ma' u = Ok ma'' \<and> (\<forall>q. auth ma'' u q = AuthFailure))"
proof -
  have auth: "auth m v q = chain_loop [memory_authenticator H m] v q" for m v q
    by (simp add: assms(4) AuthChain_Authenticate_def AddAuthenticator_def NewAuthChain_def)
  obtain h where u: "u \<noteq> []" and h: "hashPassword H p (if alg = HashSHA256 then u else []) alg = Ok h"
    and ma': "ma' = ma\<lparr>ma_users := gm_set (ma_users ma) u
       \<lparr>u_Username = u, u_PasswordHash = h, u_Algorithm = alg, u_Salt = (if alg = HashSHA256 then u else []), u_Enabled = True\<rparr>\<rparr>"
    using assms(2) by (auto simp: AddUser_def Let_def split: if_splits go.splits)
  note ok = hash_verifies [OF assms(1) h]
  have other: "Authenticate H ma' v q = Authenticate H ma v q" if "v \<noteq> u" for v q
    using that by (simp add: Authenticate_def ma')
  have "auth ma' u p = AuthSuccess"
    using u ok assms(3) by (simp add: auth memory_authenticator_def Authenticate_def ma')
  moreover have "auth ma' v q = auth ma v q" if "v \<noteq> u" for v q
    using other [OF that] by (simp add: auth memory_authenticator_def ma')
  moreover have "auth ma' u q = AuthSuccess \<longleftrightarrow> q = p" if "alg = HashPlain" for q
    using that u h assms(3)
    by (simp add: auth memory_authenticator_def Authenticate_def ma' hashPassword_def verifyPassword_def)
  ultimately show ?thesis
    using u assms(3)
    by (simp add: SetUserEnabled_def RemoveUser_def auth memory_authenticator_def Authenticate_def ma')
qed

lemma AddUser_then_Authenticate_witness:
  "let H = \<lparr>h_sha256hex = (\<lambda>s. rev s), h_bcrypt = (\<lambda>p. Some (''$2'' @ p)), h_bcrypt_compare = (\<lambda>h p. h = ''$2'' @ p)\<rparr>;
       ma = NewMemoryAuthenticator;
       ma' = ma\<lparr>ma_users := [(''bob'', \<lparr>u_Username = ''bob'', u_PasswordHash = ''$2pw'', u_Algorithm = HashBcrypt, u_Salt = [], u_Enabled = True\<rparr>)]\<rparr>
   in AddUser H ma ''bob'' ''pw'' HashBcrypt = Ok ma'
      \<and> AuthChain_Authenticate (AddAuthenticator NewAuthChain (memory_authenticator H ma')) ''bob'' ''pw'' = AuthSuccess"
proof -
  let ?H = "\<lparr>h_sha256hex = (\<lambda>s. rev s), h_bcrypt = (\<lambda>p. Some (''$2'' @ p)), h_bcrypt_compare = (\<lambda>h p. h = ''$2'' @ p)\<rparr>"
  let ?ma' = "NewMemoryAuthenticator\<lparr>ma_users := [(''bob'', \<lparr>u_Username = ''bob'', u_PasswordHash = ''$2pw'', u_Algorithm = HashBcrypt, u_Salt = [], u_Enabled = True\<rparr>)]\<rparr>"
  have "bcrypt_ok ?H" by (simp add: bcrypt_ok_def)
  moreover have add: "AddUser ?H NewMemoryAuthenticator ''bob'' ''pw'' HashBcrypt = Ok ?ma'"
    by (simp add: AddUser_def hashPassword_def NewMemoryAuthenticator_def)
  moreover have "ma_enabled NewMemoryAuthenticator" by (simp add: NewMemoryAuthenticator_def)
  ultimately show ?thesis using AddUser_then_Authenticate [OF _ _ _ refl, of ?H] by (simp add: Let_def)
qed

end
