(* ===== verification/Blacklist.thy ===== *)
theory Blacklist
  imports Topic_Match
begin

text \<open>
  The blacklist (\<open>pkg/blacklist\<close>): the manager of \<open>manager.go\<close>, with its table of entries, the
  indexes by type and value, the lists of pattern entries and the statistics, and the middleware of
  \<open>middleware.go\<close> the broker calls.

  The table and the indexes share the entry objects by pointer, so that an update through one is
  seen through the others: an index holds the identifier of its entry, and the entry is read from
  the table. Regular expressions and the parsing of addresses and address ranges are library
  functions, the argument \<open>lib\<close>. Blocks are recorded by goroutines that run later: a check returns the
  block, and \<open>record_block\<close> is that goroutine's step.
\<close>

section \<open>State\<close>

abbreviation (input) ClientIDBlacklist :: string where "ClientIDBlacklist \<equiv> ''clientid''"
abbreviation (input) UsernameBlacklist :: string where "UsernameBlacklist \<equiv> ''username''"
abbreviation (input) IPAddressBlacklist :: string where "IPAddressBlacklist \<equiv> ''ipaddress''"
abbreviation (input) TopicBlacklist :: string where "TopicBlacklist \<equiv> ''topic''"
abbreviation (input) ActionDeny :: string where "ActionDeny \<equiv> ''deny''"
abbreviation (input) ActionDisconnect :: string where "ActionDisconnect \<equiv> ''disconnect''"
abbreviation (input) ActionLog :: string where "ActionLog \<equiv> ''log''"

record library =
  re_compile :: "string \<Rightarrow> (string \<Rightarrow> bool) option"
  cidr_ok :: "string \<Rightarrow> bool"
  ip_ok :: "string \<Rightarrow> bool"
  cidr_contains :: "string \<Rightarrow> string \<Rightarrow> bool"

record BlacklistEntry =
  be_ID :: string
  be_Type :: string
  be_Value :: string
  be_Pattern :: string
  be_Action :: string
  be_Reason :: string
  be_Description :: string
  be_CreatedAt :: time
  be_UpdatedAt :: time
  be_ExpiresAt :: "time option"
  be_Enabled :: bool
  be_CreatedBy :: string
  be_compiledPattern :: "(string \<Rightarrow> bool) option"

record ClientInfo =
  ci_ClientID :: string
  ci_Username :: string
  ci_IPAddress :: string
  ci_Protocol :: string
  ci_ConnectedAt :: time

record BlacklistBlock =
  bb_Timestamp :: time
  bb_Type :: string
  bb_Value :: string
  bb_Action :: string
  bb_EntryID :: string
  bb_ClientInfo :: ClientInfo
  bb_Reason :: string

record BlacklistStats =
  bs_TotalEntries :: int
  bs_EntriesByType :: "(string, int) gomap"
  bs_EntriesByAction :: "(string, int) gomap"
  bs_TotalBlocks :: int
  bs_BlocksByType :: "(string, int) gomap"
  bs_RecentBlocks :: "BlacklistBlock list"
  bs_LastUpdated :: time

record BlacklistManager =
  bm_entries :: "(string, BlacklistEntry) gomap"
  bm_clientIDEntries :: "(string, string) gomap"
  bm_usernameEntries :: "(string, string) gomap"
  bm_ipAddressEntries :: "(string, string) gomap"
  bm_topicEntries :: "(string, string) gomap"
  bm_patternEntries :: "(string, string list) gomap"
  bm_stats :: BlacklistStats

datatype blacklist_error =
  ErrEntryNotFound | ErrEntryAlreadyExists | ErrInvalidPattern | ErrInvalidType | ErrInvalidAction | ErrText string

definition NewBlacklistManager :: "time \<Rightarrow> BlacklistManager" where
  "NewBlacklistManager now =
     \<lparr>bm_entries = [], bm_clientIDEntries = [], bm_usernameEntries = [], bm_ipAddressEntries = [], bm_topicEntries = [],
      bm_patternEntries = [],
      bm_stats = \<lparr>bs_TotalEntries = 0, bs_EntriesByType = [], bs_EntriesByAction = [], bs_TotalBlocks = 0,
                  bs_BlocksByType = [], bs_RecentBlocks = [], bs_LastUpdated = now\<rparr>\<rparr>"

section \<open>Indexes and statistics\<close>

definition validateEntry :: "BlacklistEntry \<Rightarrow> blacklist_error option" where
  "validateEntry e =
     (if be_ID e = [] then Some (ErrText ''entry ID is required'')
      else if be_Type e = [] then Some ErrInvalidType
      else if be_Type e \<noteq> ClientIDBlacklist \<and> be_Type e \<noteq> UsernameBlacklist \<and> be_Type e \<noteq> IPAddressBlacklist
              \<and> be_Type e \<noteq> TopicBlacklist then Some ErrInvalidType
      else if be_Action e = [] then Some ErrInvalidAction
      else if be_Action e \<noteq> ActionDeny \<and> be_Action e \<noteq> ActionDisconnect \<and> be_Action e \<noteq> ActionLog
      then Some ErrInvalidAction
      else if be_Value e = [] \<and> be_Pattern e = [] then Some (ErrText ''either value or pattern is required'')
      else None)"

definition index_of :: "BlacklistManager \<Rightarrow> string \<Rightarrow> (string, string) gomap" where
  "index_of bm t =
     (if t = ClientIDBlacklist then bm_clientIDEntries bm
      else if t = UsernameBlacklist then bm_usernameEntries bm
      else if t = IPAddressBlacklist then bm_ipAddressEntries bm
      else if t = TopicBlacklist then bm_topicEntries bm
      else [])"

definition set_index :: "BlacklistManager \<Rightarrow> string \<Rightarrow> (string, string) gomap \<Rightarrow> BlacklistManager" where
  "set_index bm t m =
     (if t = ClientIDBlacklist then bm\<lparr>bm_clientIDEntries := m\<rparr>
      else if t = UsernameBlacklist then bm\<lparr>bm_usernameEntries := m\<rparr>
      else if t = IPAddressBlacklist then bm\<lparr>bm_ipAddressEntries := m\<rparr>
      else if t = TopicBlacklist then bm\<lparr>bm_topicEntries := m\<rparr>
      else bm)"

definition addToTypeIndex :: "BlacklistManager \<Rightarrow> BlacklistEntry \<Rightarrow> BlacklistManager" where
  "addToTypeIndex bm e =
     (if be_Pattern e \<noteq> []
      then bm\<lparr>bm_patternEntries := gm_set (bm_patternEntries bm) (be_Type e)
                (gm_get0 [] (bm_patternEntries bm) (be_Type e) @ [be_ID e])\<rparr>
      else set_index bm (be_Type e) (gm_set (index_of bm (be_Type e)) (be_Value e) (be_ID e)))"

definition removeFromTypeIndex :: "BlacklistManager \<Rightarrow> BlacklistEntry \<Rightarrow> BlacklistManager" where
  "removeFromTypeIndex bm e =
     (if be_Pattern e \<noteq> []
      then (let patterns = gm_get0 [] (bm_patternEntries bm) (be_Type e)
            in if be_ID e \<in> set patterns
               then bm\<lparr>bm_patternEntries := gm_set (bm_patternEntries bm) (be_Type e) (remove1 (be_ID e) patterns)\<rparr>
               else bm)
      else set_index bm (be_Type e) (gm_del (index_of bm (be_Type e)) (be_Value e)))"

definition bump :: "int \<Rightarrow> (string, int) gomap \<Rightarrow> string \<Rightarrow> (string, int) gomap" where
  "bump d m k = gm_set m k (gm_get0 0 m k + d)"

definition updateStatsOnAdd :: "time \<Rightarrow> BlacklistEntry \<Rightarrow> BlacklistStats \<Rightarrow> BlacklistStats" where
  "updateStatsOnAdd now e st =
     st\<lparr>bs_TotalEntries := bs_TotalEntries st + 1,
        bs_EntriesByType := bump 1 (bs_EntriesByType st) (be_Type e),
        bs_EntriesByAction := bump 1 (bs_EntriesByAction st) (be_Action e),
        bs_LastUpdated := now\<rparr>"

definition updateStatsOnRemove :: "time \<Rightarrow> BlacklistEntry \<Rightarrow> BlacklistStats \<Rightarrow> BlacklistStats" where
  "updateStatsOnRemove now e st =
     st\<lparr>bs_TotalEntries := bs_TotalEntries st - 1,
        bs_EntriesByType := bump (- 1) (bs_EntriesByType st) (be_Type e),
        bs_EntriesByAction := bump (- 1) (bs_EntriesByAction st) (be_Action e),
        bs_LastUpdated := now\<rparr>"

section \<open>Operations of the manager\<close>

definition AddEntry :: "library \<Rightarrow> time \<Rightarrow> BlacklistManager \<Rightarrow> BlacklistEntry \<Rightarrow> (blacklist_error, BlacklistManager) go" where
  "AddEntry lib now bm entry =
     (case validateEntry entry of
        Some e \<Rightarrow> Err e
      | None \<Rightarrow>
          if gm_get (bm_entries bm) (be_ID entry) \<noteq> None then Err ErrEntryAlreadyExists
          else if be_Pattern entry \<noteq> [] \<and> re_compile lib (be_Pattern entry) = None then Err ErrInvalidPattern
          else (let e1 = (if be_Pattern entry \<noteq> [] then entry\<lparr>be_compiledPattern := re_compile lib (be_Pattern entry)\<rparr> else entry);
                    e2 = e1\<lparr>be_CreatedAt := now, be_UpdatedAt := now\<rparr>;
                    bm1 = bm\<lparr>bm_entries := gm_set (bm_entries bm) (be_ID e2) e2\<rparr>;
                    bm2 = addToTypeIndex bm1 e2
                in Ok (bm2\<lparr>bm_stats := updateStatsOnAdd now e2 (bm_stats bm2)\<rparr>)))"

text \<open>
  \<open>UpdateEntry\<close>. A pattern that does not compile is stored in the entry before the error is
  returned, after the entry has left the indexes; the state of that path is part of the result.
\<close>

definition apply_updates :: "time \<Rightarrow> BlacklistEntry \<Rightarrow> BlacklistEntry \<Rightarrow> BlacklistEntry" where
  "apply_updates now updates e =
     e\<lparr>be_Action := (if be_Action updates \<noteq> [] then be_Action updates else be_Action e),
       be_Reason := (if be_Reason updates \<noteq> [] then be_Reason updates else be_Reason e),
       be_Description := (if be_Description updates \<noteq> [] then be_Description updates else be_Description e),
       be_Enabled := be_Enabled updates,
       be_UpdatedAt := now,
       be_ExpiresAt := (if be_ExpiresAt updates \<noteq> None then be_ExpiresAt updates else be_ExpiresAt e)\<rparr>"

definition UpdateEntry ::
  "library \<Rightarrow> time \<Rightarrow> BlacklistManager \<Rightarrow> string \<Rightarrow> BlacklistEntry \<Rightarrow> BlacklistManager \<times> blacklist_error option" where
  "UpdateEntry lib now bm eid updates =
     (case gm_get (bm_entries bm) eid of
        None \<Rightarrow> (bm, Some ErrEntryNotFound)
      | Some entry \<Rightarrow>
          (let bm1 = removeFromTypeIndex bm entry;
               e1 = (if be_Value updates \<noteq> [] then entry\<lparr>be_Value := be_Value updates\<rparr> else entry);
               e2 = (if be_Pattern updates \<noteq> [] then e1\<lparr>be_Pattern := be_Pattern updates\<rparr> else e1)
           in if be_Pattern updates \<noteq> [] \<and> re_compile lib (be_Pattern e2) = None
              then (bm1\<lparr>bm_entries := gm_set (bm_entries bm1) eid e2\<rparr>, Some ErrInvalidPattern)
              else (let e3 = (if be_Pattern updates \<noteq> [] then e2\<lparr>be_compiledPattern := re_compile lib (be_Pattern e2)\<rparr> else e2);
                        e4 = apply_updates now updates e3;
                        bm2 = addToTypeIndex (bm1\<lparr>bm_entries := gm_set (bm_entries bm1) eid e4\<rparr>) e4
                    in (bm2\<lparr>bm_stats := (bm_stats bm2)\<lparr>bs_LastUpdated := now\<rparr>\<rparr>, None))))"

definition remove_object :: "time \<Rightarrow> BlacklistManager \<Rightarrow> string \<Rightarrow> BlacklistEntry \<Rightarrow> BlacklistManager" where
  "remove_object now bm eid entry =
     (let bm1 = removeFromTypeIndex (bm\<lparr>bm_entries := gm_del (bm_entries bm) eid\<rparr>) entry
      in bm1\<lparr>bm_stats := updateStatsOnRemove now entry (bm_stats bm1)\<rparr>)"

definition RemoveEntry :: "time \<Rightarrow> BlacklistManager \<Rightarrow> string \<Rightarrow> (blacklist_error, BlacklistManager) go" where
  "RemoveEntry now bm eid =
     (case gm_get (bm_entries bm) eid of
        None \<Rightarrow> Err ErrEntryNotFound
      | Some entry \<Rightarrow> Ok (remove_object now bm eid entry))"

definition GetEntry :: "BlacklistManager \<Rightarrow> string \<Rightarrow> (blacklist_error, BlacklistEntry) go" where
  "GetEntry bm eid = (case gm_get (bm_entries bm) eid of None \<Rightarrow> Err ErrEntryNotFound | Some e \<Rightarrow> Ok e)"

definition past :: "time \<Rightarrow> BlacklistEntry \<Rightarrow> bool" where
  "past now e = (case be_ExpiresAt e of None \<Rightarrow> False | Some t \<Rightarrow> now > t)"

definition ListEntries :: "time \<Rightarrow> BlacklistManager \<Rightarrow> string \<Rightarrow> bool option \<Rightarrow> BlacklistEntry list" where
  "ListEntries now bm entryType enabled =
     filter (\<lambda>e. \<not> (entryType \<noteq> [] \<and> be_Type e \<noteq> entryType)
                 \<and> \<not> (enabled \<noteq> None \<and> Some (be_Enabled e) \<noteq> enabled) \<and> \<not> past now e)
       (map snd (bm_entries bm))"

fun cleanup_entries :: "time \<Rightarrow> (string \<times> BlacklistEntry) list \<Rightarrow> BlacklistManager \<Rightarrow> nat \<Rightarrow> BlacklistManager \<times> nat" where
  "cleanup_entries now [] bm n = (bm, n)"
| "cleanup_entries now ((eid, e) # rest) bm n =
     (if past now e then cleanup_entries now rest (remove_object now bm eid e) (Suc n)
      else cleanup_entries now rest bm n)"

definition CleanupExpiredEntries :: "time \<Rightarrow> BlacklistManager \<Rightarrow> BlacklistManager \<times> nat" where
  "CleanupExpiredEntries now bm = cleanup_entries now (bm_entries bm) bm 0"

section \<open>Matching\<close>

function matchTopicLevels :: "string list \<Rightarrow> string list \<Rightarrow> nat \<Rightarrow> nat \<Rightarrow> bool" where
  "matchTopicLevels topicLevels filterLevels topicIndex filterIndex =
     (if filterIndex \<ge> length filterLevels then topicIndex \<ge> length topicLevels
      else if topicIndex \<ge> length topicLevels
      then filterIndex = length filterLevels - 1 \<and> filterLevels ! filterIndex = ''#''
      else if filterLevels ! filterIndex = ''#'' then True
      else if filterLevels ! filterIndex = ''+''
      then matchTopicLevels topicLevels filterLevels (topicIndex + 1) (filterIndex + 1)
      else if filterLevels ! filterIndex = topicLevels ! topicIndex
      then matchTopicLevels topicLevels filterLevels (topicIndex + 1) (filterIndex + 1)
      else False)"
  by pat_completeness auto
termination
  by (relation "measure (\<lambda>(_, fs, _, j). length fs - j)") auto

declare matchTopicLevels.simps [simp del]

definition matchMQTTTopicFilter :: "string \<Rightarrow> string \<Rightarrow> bool" where
  "matchMQTTTopicFilter topic flt =
     (let topicLevels = go_split (CHR ''/'') topic; filterLevels = go_split (CHR ''/'') flt
      in matchTopicLevels topicLevels filterLevels 0 0)"

definition matchIPPattern :: "library \<Rightarrow> string \<Rightarrow> BlacklistEntry \<Rightarrow> bool" where
  "matchIPPattern lib ipAddress e =
     (if str_contains (be_Value e) ''/'' \<and> cidr_ok lib (be_Value e) \<and> ip_ok lib ipAddress
         \<and> cidr_contains lib (be_Value e) ipAddress then True
      else case be_compiledPattern e of Some re \<Rightarrow> re ipAddress | None \<Rightarrow> False)"

definition matchTopicPattern :: "string \<Rightarrow> BlacklistEntry \<Rightarrow> bool" where
  "matchTopicPattern topic e =
     (if matchMQTTTopicFilter topic (be_Value e) then True
      else case be_compiledPattern e of Some re \<Rightarrow> re topic | None \<Rightarrow> False)"

definition regex_match :: "string \<Rightarrow> BlacklistEntry \<Rightarrow> bool" where
  "regex_match s e = (case be_compiledPattern e of Some re \<Rightarrow> re s | None \<Rightarrow> False)"

definition active :: "time \<Rightarrow> BlacklistEntry \<Rightarrow> bool" where
  "active now e = (be_Enabled e \<and> (case be_ExpiresAt e of None \<Rightarrow> True | Some t \<Rightarrow> now < t))"

text \<open>The shape the four checks share: the index first, then the pattern entries in order.\<close>

definition check_type :: "time \<Rightarrow> BlacklistManager \<Rightarrow> string \<Rightarrow> (BlacklistEntry \<Rightarrow> bool) \<Rightarrow> string \<Rightarrow> BlacklistEntry option" where
  "check_type now bm t matches value =
     (case (case gm_get (index_of bm t) value of None \<Rightarrow> None | Some eid \<Rightarrow> gm_get (bm_entries bm) eid) of
        Some e \<Rightarrow> if active now e then Some e
                 else find (\<lambda>e. active now e \<and> matches e)
                        (List.map_filter (gm_get (bm_entries bm)) (gm_get0 [] (bm_patternEntries bm) t))
      | None \<Rightarrow> find (\<lambda>e. active now e \<and> matches e)
                  (List.map_filter (gm_get (bm_entries bm)) (gm_get0 [] (bm_patternEntries bm) t)))"

definition checkClientID :: "time \<Rightarrow> BlacklistManager \<Rightarrow> string \<Rightarrow> BlacklistEntry option" where
  "checkClientID now bm clientID = check_type now bm ClientIDBlacklist (regex_match clientID) clientID"

definition checkUsername :: "time \<Rightarrow> BlacklistManager \<Rightarrow> string \<Rightarrow> BlacklistEntry option" where
  "checkUsername now bm username = check_type now bm UsernameBlacklist (regex_match username) username"

definition checkIPAddress :: "library \<Rightarrow> time \<Rightarrow> BlacklistManager \<Rightarrow> string \<Rightarrow> BlacklistEntry option" where
  "checkIPAddress lib now bm ipAddress = check_type now bm IPAddressBlacklist (matchIPPattern lib ipAddress) ipAddress"

definition checkTopic :: "time \<Rightarrow> BlacklistManager \<Rightarrow> string \<Rightarrow> BlacklistEntry option" where
  "checkTopic now bm topic = check_type now bm TopicBlacklist (matchTopicPattern topic) topic"

definition recordBlock :: "time \<Rightarrow> BlacklistEntry \<Rightarrow> string \<Rightarrow> string \<Rightarrow> ClientInfo \<Rightarrow> BlacklistBlock" where
  "recordBlock now e blockType value clientInfo =
     \<lparr>bb_Timestamp = now, bb_Type = blockType, bb_Value = value, bb_Action = be_Action e, bb_EntryID = be_ID e,
      bb_ClientInfo = clientInfo, bb_Reason = be_Reason e\<rparr>"

definition record_block :: "time \<Rightarrow> BlacklistBlock \<Rightarrow> BlacklistManager \<Rightarrow> BlacklistManager" where
  "record_block now block bm =
     (let st = bm_stats bm; recent = bs_RecentBlocks st @ [block]
      in bm\<lparr>bm_stats := st\<lparr>bs_TotalBlocks := bs_TotalBlocks st + 1,
                           bs_BlocksByType := bump 1 (bs_BlocksByType st) (bb_Type block),
                           bs_RecentBlocks := (if length recent > 100 then drop 1 recent else recent),
                           bs_LastUpdated := now\<rparr>\<rparr>)"

definition CheckClientConnection ::
  "library \<Rightarrow> time \<Rightarrow> BlacklistManager \<Rightarrow> ClientInfo \<Rightarrow> bool \<times> BlacklistEntry option \<times> BlacklistBlock option" where
  "CheckClientConnection lib now bm ci =
     (case checkClientID now bm (ci_ClientID ci) of
        Some e \<Rightarrow> (False, Some e, Some (recordBlock now e ClientIDBlacklist (ci_ClientID ci) ci))
      | None \<Rightarrow>
     (case checkUsername now bm (ci_Username ci) of
        Some e \<Rightarrow> (False, Some e, Some (recordBlock now e UsernameBlacklist (ci_Username ci) ci))
      | None \<Rightarrow>
     (case checkIPAddress lib now bm (ci_IPAddress ci) of
        Some e \<Rightarrow> (False, Some e, Some (recordBlock now e IPAddressBlacklist (ci_IPAddress ci) ci))
      | None \<Rightarrow> (True, None, None))))"

definition CheckTopicAccess ::
  "time \<Rightarrow> BlacklistManager \<Rightarrow> string \<Rightarrow> ClientInfo \<Rightarrow> bool \<times> BlacklistEntry option \<times> BlacklistBlock option" where
  "CheckTopicAccess now bm topic ci =
     (case checkTopic now bm topic of
        Some e \<Rightarrow> (False, Some e, Some (recordBlock now e TopicBlacklist topic ci))
      | None \<Rightarrow> (True, None, None))"

section \<open>The middleware\<close>

record MiddlewareConfig =
  mc_EnableClientIDCheck :: bool
  mc_EnableUsernameCheck :: bool
  mc_EnableIPAddressCheck :: bool
  mc_EnableTopicCheck :: bool
  mc_LogBlocks :: bool
  mc_BlockTimeout :: duration
  mc_CleanupInterval :: duration
  mc_MaxRecentBlocks :: int
  mc_DefaultAction :: string
  mc_UnknownClientAction :: string

record BlacklistMiddleware =
  mw_manager :: "BlacklistManager option"
  mw_config :: MiddlewareConfig

definition DefaultMiddlewareConfig :: MiddlewareConfig where
  "DefaultMiddlewareConfig =
     \<lparr>mc_EnableClientIDCheck = True, mc_EnableUsernameCheck = True, mc_EnableIPAddressCheck = True,
      mc_EnableTopicCheck = True, mc_LogBlocks = True, mc_BlockTimeout = hour * 24, mc_CleanupInterval = hour,
      mc_MaxRecentBlocks = 1000, mc_DefaultAction = ActionDeny, mc_UnknownClientAction = ActionLog\<rparr>"

definition NewBlacklistMiddleware :: "BlacklistManager option \<Rightarrow> MiddlewareConfig option \<Rightarrow> BlacklistMiddleware" where
  "NewBlacklistMiddleware manager config =
     \<lparr>mw_manager = manager, mw_config = (case config of None \<Rightarrow> DefaultMiddlewareConfig | Some c \<Rightarrow> c)\<rparr>"

text \<open>Both checks return whether access is allowed, the reason if not, and the block to record.\<close>

definition mw_CheckClientConnection ::
  "library \<Rightarrow> time \<Rightarrow> BlacklistMiddleware \<Rightarrow> string \<Rightarrow> string \<Rightarrow> string \<Rightarrow> string \<Rightarrow> bool \<times> string \<times> BlacklistBlock option" where
  "mw_CheckClientConnection lib now mw clientID username ipAddress protocol =
     (case mw_manager mw of
        None \<Rightarrow> (True, [], None)
      | Some bm \<Rightarrow>
          if mc_EnableClientIDCheck (mw_config mw) \<or> mc_EnableUsernameCheck (mw_config mw) \<or> mc_EnableIPAddressCheck (mw_config mw)
          then (case CheckClientConnection lib now bm
                       \<lparr>ci_ClientID = clientID, ci_Username = username, ci_IPAddress = ipAddress, ci_Protocol = protocol,
                        ci_ConnectedAt = now\<rparr> of
                  (False, Some e, b) \<Rightarrow> (False, ''Blocked by '' @ be_Type e @ '' blacklist: '' @ be_Reason e, b)
                | (_, _, b) \<Rightarrow> (True, [], b))
          else (True, [], None))"

definition mw_CheckTopicAccess ::
  "time \<Rightarrow> BlacklistMiddleware \<Rightarrow> string \<Rightarrow> string \<Rightarrow> string \<Rightarrow> string \<Rightarrow> bool \<times> string \<times> BlacklistBlock option" where
  "mw_CheckTopicAccess now mw clientID username ipAddress topic =
     (case mw_manager mw of
        None \<Rightarrow> (True, [], None)
      | Some bm \<Rightarrow>
          if \<not> mc_EnableTopicCheck (mw_config mw) then (True, [], None)
          else (case CheckTopicAccess now bm topic
                       \<lparr>ci_ClientID = clientID, ci_Username = username, ci_IPAddress = ipAddress, ci_Protocol = [],
                        ci_ConnectedAt = 0\<rparr> of
                  (False, Some e, b) \<Rightarrow> (False, ''Topic access blocked by blacklist: '' @ be_Reason e, b)
                | (_, _, b) \<Rightarrow> (True, [], b)))"

definition CheckPublishAccess ::
  "time \<Rightarrow> BlacklistMiddleware \<Rightarrow> string \<Rightarrow> string \<Rightarrow> string \<Rightarrow> string \<Rightarrow> bool \<times> string \<times> BlacklistBlock option" where
  "CheckPublishAccess now mw clientID username ipAddress topic = mw_CheckTopicAccess now mw clientID username ipAddress topic"

definition CheckSubscribeAccess ::
  "time \<Rightarrow> BlacklistMiddleware \<Rightarrow> string \<Rightarrow> string \<Rightarrow> string \<Rightarrow> string \<Rightarrow> bool \<times> string \<times> BlacklistBlock option" where
  "CheckSubscribeAccess now mw clientID username ipAddress topic = mw_CheckTopicAccess now mw clientID username ipAddress topic"

definition AddTemporaryBlock ::
  "library \<Rightarrow> (duration \<Rightarrow> string) \<Rightarrow> time \<Rightarrow> BlacklistMiddleware \<Rightarrow> string \<Rightarrow> string \<Rightarrow> string \<Rightarrow> duration
    \<Rightarrow> (blacklist_error, BlacklistMiddleware) go" where
  "AddTemporaryBlock lib show_duration now mw blockType value reason d =
     (case mw_manager mw of
        None \<Rightarrow> Err (ErrText ''blacklist manager not available'')
      | Some bm \<Rightarrow>
          go_bind (AddEntry lib now bm
            \<lparr>be_ID = ''temp_'' @ blockType @ ''_'' @ show_int now, be_Type = blockType, be_Value = value, be_Pattern = [],
             be_Action = mc_DefaultAction (mw_config mw), be_Reason = reason,
             be_Description = ''Temporary block for '' @ show_duration d, be_CreatedAt = 0, be_UpdatedAt = 0,
             be_ExpiresAt = Some (now + d), be_Enabled = True, be_CreatedBy = ''middleware'', be_compiledPattern = None\<rparr>)
            (\<lambda>bm'. Ok (mw\<lparr>mw_manager := Some bm'\<rparr>)))"

definition IsEnabled :: "BlacklistMiddleware \<Rightarrow> bool" where
  "IsEnabled mw = (mw_manager mw \<noteq> None \<and> (mc_EnableClientIDCheck (mw_config mw) \<or> mc_EnableUsernameCheck (mw_config mw)
     \<or> mc_EnableIPAddressCheck (mw_config mw) \<or> mc_EnableTopicCheck (mw_config mw)))"

definition UpdateConfig :: "BlacklistMiddleware \<Rightarrow> MiddlewareConfig option \<Rightarrow> BlacklistMiddleware" where
  "UpdateConfig mw config = (case config of None \<Rightarrow> mw | Some c \<Rightarrow> mw\<lparr>mw_config := c\<rparr>)"

definition ValidateEntry :: "library \<Rightarrow> BlacklistEntry \<Rightarrow> string option" where
  "ValidateEntry lib e =
     (if be_Type e = IPAddressBlacklist \<and> be_Value e \<noteq> [] \<and> \<not> ip_ok lib (be_Value e) \<and> \<not> cidr_ok lib (be_Value e)
      then Some (''invalid IP address or CIDR: '' @ be_Value e)
      else if be_Type e = TopicBlacklist \<and> be_Value e = [] \<and> be_Pattern e = [] then Some ''topic cannot be empty''
      else None)"

text \<open>\<open>ImportBlacklist\<close>: the manager after the import and the identifiers of the entries that failed.\<close>

fun import_loop :: "library \<Rightarrow> time \<Rightarrow> bool \<Rightarrow> BlacklistEntry list \<Rightarrow> BlacklistManager \<Rightarrow> string list \<Rightarrow> BlacklistManager \<times> string list" where
  "import_loop lib now overwrite [] bm errs = (bm, errs)"
| "import_loop lib now overwrite (e # rest) bm errs =
     (if ValidateEntry lib e \<noteq> None then import_loop lib now overwrite rest bm (errs @ [be_ID e])
      else if gm_get (bm_entries bm) (be_ID e) \<noteq> None
      then (if \<not> overwrite then import_loop lib now overwrite rest bm (errs @ [be_ID e])
            else (case UpdateEntry lib now bm (be_ID e) e of
                    (bm', None) \<Rightarrow> import_loop lib now overwrite rest bm' errs
                  | (bm', Some _) \<Rightarrow> import_loop lib now overwrite rest bm' (errs @ [be_ID e])))
      else (case AddEntry lib now bm e of
              Ok bm' \<Rightarrow> import_loop lib now overwrite rest bm' errs
            | _ \<Rightarrow> import_loop lib now overwrite rest bm (errs @ [be_ID e])))"

definition ImportBlacklist :: "library \<Rightarrow> time \<Rightarrow> BlacklistMiddleware \<Rightarrow> BlacklistEntry list \<Rightarrow> bool
    \<Rightarrow> (BlacklistMiddleware \<times> string list) option" where
  "ImportBlacklist lib now mw entries overwrite =
     (case mw_manager mw of
        None \<Rightarrow> None
      | Some bm \<Rightarrow> (case import_loop lib now overwrite entries bm [] of
                      (bm', errs) \<Rightarrow> Some (mw\<lparr>mw_manager := Some bm'\<rparr>, errs)))"

definition ExportBlacklist :: "time \<Rightarrow> BlacklistMiddleware \<Rightarrow> BlacklistEntry list" where
  "ExportBlacklist now mw = (case mw_manager mw of None \<Rightarrow> [] | Some bm \<Rightarrow> ListEntries now bm [] None)"

section \<open>Topic matching\<close>

text \<open>The recursion, on the levels that are left.\<close>

fun match_rest :: "string list \<Rightarrow> string list \<Rightarrow> bool" where
  "match_rest ts [] = (ts = [])"
| "match_rest [] (f # fs) = (f = ''#'' \<and> fs = [])"
| "match_rest (t # ts) (f # fs) = (f = ''#'' \<or> ((f = ''+'' \<or> f = t) \<and> match_rest ts fs))"

lemma matchTopicLevels_rest: "matchTopicLevels ts fs i j = match_rest (drop i ts) (drop j fs)"
proof (induction ts fs i j rule: matchTopicLevels.induct)
  case (1 ts fs i j)
  show ?case
  proof (cases "j < length fs")
    case False
    then show ?thesis by (simp add: matchTopicLevels.simps [of ts fs i j])
  next
    case jl: True
    then have fs: "drop j fs = fs ! j # drop (Suc j) fs" by (simp add: Cons_nth_drop_Suc)
    show ?thesis
    proof (cases "i < length ts")
      case False
      then show ?thesis using jl fs by (simp add: matchTopicLevels.simps [of ts fs i j]) linarith
    next
      case il: True
      then have ts: "drop i ts = ts ! i # drop (Suc i) ts" by (simp add: Cons_nth_drop_Suc)
      show ?thesis using 1 il jl by (subst matchTopicLevels.simps) (auto simp: fs ts not_le)
    qed
  qed
qed

lemma match_rest_valid: "valid_levels fs \<Longrightarrow> match_rest ts fs = mqtt_match ts fs"
proof (induction ts fs rule: match_rest.induct)
  case (3 t ts f fs)
  show ?case
  proof (cases "f = ''#''")
    case True
    with 3(2) show ?thesis by simp
  next
    case False
    with 3 show ?thesis by simp
  qed
qed simp_all

interpretation blacklist_matcher: topic_matcher matchMQTTTopicFilter
  by unfold_locales (simp add: matchMQTTTopicFilter_def matchTopicLevels_rest match_rest_valid valid_filter_def Let_def)

section \<open>The invariant: the indexes hold exactly the entries\<close>

definition blacklist_type :: "string \<Rightarrow> bool" where
  "blacklist_type t = (t = ClientIDBlacklist \<or> t = UsernameBlacklist \<or> t = IPAddressBlacklist \<or> t = TopicBlacklist)"

definition value_entry :: "BlacklistManager \<Rightarrow> string \<Rightarrow> string \<Rightarrow> string \<Rightarrow> bool" where
  "value_entry bm t v eid \<longleftrightarrow>
     (\<exists>e. gm_get (bm_entries bm) eid = Some e \<and> be_Type e = t \<and> be_Pattern e = [] \<and> be_Value e = v)"

definition pattern_entry :: "BlacklistManager \<Rightarrow> string \<Rightarrow> string \<Rightarrow> bool" where
  "pattern_entry bm t eid \<longleftrightarrow> (\<exists>e. gm_get (bm_entries bm) eid = Some e \<and> be_Type e = t \<and> be_Pattern e \<noteq> [])"

definition bl_inv :: "BlacklistManager \<Rightarrow> bool" where
  "bl_inv bm \<longleftrightarrow>
     (\<forall>eid e. gm_get (bm_entries bm) eid = Some e \<longrightarrow> be_ID e = eid \<and> blacklist_type (be_Type e))
     \<and> (\<forall>t v eid. gm_get (index_of bm t) v = Some eid \<longleftrightarrow> value_entry bm t v eid)
     \<and> (\<forall>t. distinct (gm_get0 [] (bm_patternEntries bm) t))
     \<and> (\<forall>t eid. eid \<in> set (gm_get0 [] (bm_patternEntries bm) t) \<longleftrightarrow> pattern_entry bm t eid)"

lemma index_of_set_index:
  "blacklist_type t \<Longrightarrow> index_of (set_index bm t m) t' = (if t' = t then m else index_of bm t')"
  by (auto simp: blacklist_type_def index_of_def set_index_def)

lemma set_index_fields [simp]:
  "bm_entries (set_index bm t m) = bm_entries bm" "bm_patternEntries (set_index bm t m) = bm_patternEntries bm"
  "bm_stats (set_index bm t m) = bm_stats bm"
  by (simp_all add: set_index_def)

lemma index_of_fields [simp]:
  "index_of (bm\<lparr>bm_entries := es\<rparr>) t = index_of bm t" "index_of (bm\<lparr>bm_stats := st\<rparr>) t = index_of bm t"
  "index_of (bm\<lparr>bm_patternEntries := ps\<rparr>) t = index_of bm t"
  by (simp_all add: index_of_def)

lemma bl_inv_new: "bl_inv (NewBlacklistManager now)"
  by (simp add: bl_inv_def NewBlacklistManager_def index_of_def value_entry_def pattern_entry_def)

lemma bl_inv_stats [simp]: "bl_inv (bm\<lparr>bm_stats := st\<rparr>) = bl_inv bm"
  by (simp add: bl_inv_def value_entry_def pattern_entry_def)

text \<open>Adding and removing the entry object with its index entries.\<close>

lemma bl_inv_add:
  assumes "bl_inv bm" and "gm_get (bm_entries bm) (be_ID e) = None" and "blacklist_type (be_Type e)"
    and "be_Pattern e = [] \<Longrightarrow> \<nexists>eid. value_entry bm (be_Type e) (be_Value e) eid"
  shows "bl_inv (addToTypeIndex (bm\<lparr>bm_entries := gm_set (bm_entries bm) (be_ID e) e\<rparr>) e)"
proof -
  let ?bm = "addToTypeIndex (bm\<lparr>bm_entries := gm_set (bm_entries bm) (be_ID e) e\<rparr>) e"
  have es: "bm_entries ?bm = gm_set (bm_entries bm) (be_ID e) e" by (simp add: addToTypeIndex_def)
  have ve: "value_entry ?bm t v eid \<longleftrightarrow>
      (if eid = be_ID e then be_Type e = t \<and> be_Pattern e = [] \<and> be_Value e = v else value_entry bm t v eid)" for t v eid
    by (auto simp: value_entry_def es)
  have pe: "pattern_entry ?bm t eid \<longleftrightarrow>
      (if eid = be_ID e then be_Type e = t \<and> be_Pattern e \<noteq> [] else pattern_entry bm t eid)" for t eid
    by (auto simp: pattern_entry_def es)
  have new: "\<not> value_entry bm t v (be_ID e)" "\<not> pattern_entry bm t (be_ID e)" for t v
    using assms(2) by (auto simp: value_entry_def pattern_entry_def)
  show ?thesis
  proof (cases "be_Pattern e = []")
    case True
    then have "index_of ?bm t = (if t = be_Type e then gm_set (index_of bm t) (be_Value e) (be_ID e) else index_of bm t)"
        and "bm_patternEntries ?bm = bm_patternEntries bm" for t
      by (simp_all add: addToTypeIndex_def index_of_set_index [OF assms(3)])
    with assms True ve pe new es show ?thesis unfolding bl_inv_def by auto
  next
    case False
    then have "index_of ?bm t = index_of bm t"
        and "gm_get0 [] (bm_patternEntries ?bm) t = (if t = be_Type e then gm_get0 [] (bm_patternEntries bm) t @ [be_ID e]
          else gm_get0 [] (bm_patternEntries bm) t)" for t
      by (simp_all add: addToTypeIndex_def gm_get0_set)
    with assms(1,3) False ve pe new es show ?thesis unfolding bl_inv_def by auto
  qed
qed

lemma bl_inv_remove:
  assumes "bl_inv bm" and "gm_get (bm_entries bm) eid = Some e"
  shows "bl_inv (removeFromTypeIndex (bm\<lparr>bm_entries := gm_del (bm_entries bm) eid\<rparr>) e)"
proof -
  let ?bm = "removeFromTypeIndex (bm\<lparr>bm_entries := gm_del (bm_entries bm) eid\<rparr>) e"
  have e: "be_ID e = eid" "blacklist_type (be_Type e)" using assms by (auto simp: bl_inv_def)
  have es: "bm_entries ?bm = gm_del (bm_entries bm) eid" by (simp add: removeFromTypeIndex_def Let_def)
  have ve: "value_entry ?bm t v i \<longleftrightarrow> i \<noteq> eid \<and> value_entry bm t v i" for t v i
    by (auto simp: value_entry_def es)
  have pe: "pattern_entry ?bm t i \<longleftrightarrow> i \<noteq> eid \<and> pattern_entry bm t i" for t i
    by (auto simp: pattern_entry_def es)
  have ids: "\<forall>i x. gm_get (bm_entries ?bm) i = Some x \<longrightarrow> be_ID x = i \<and> blacklist_type (be_Type x)"
    using assms(1) by (simp add: es bl_inv_def)
  have ix: "gm_get (index_of bm t) v = Some i \<longleftrightarrow> value_entry bm t v i" for t v i using assms(1) by (simp add: bl_inv_def)
  have pt: "i \<in> set (gm_get0 [] (bm_patternEntries bm) t) \<longleftrightarrow> pattern_entry bm t i"
    and pd: "distinct (gm_get0 [] (bm_patternEntries bm) t)" for t i using assms(1) by (simp_all add: bl_inv_def)
  show ?thesis
  proof (cases "be_Pattern e = []")
    case True
    then have "value_entry bm (be_Type e) (be_Value e) eid" using assms(2) by (simp add: value_entry_def)
    then have own: "gm_get (index_of bm (be_Type e)) (be_Value e) = Some eid" by (simp add: ix)
    have ix': "index_of ?bm t = (if t = be_Type e then gm_del (index_of bm t) (be_Value e) else index_of bm t)" for t
      using True by (simp add: removeFromTypeIndex_def index_of_set_index [OF e(2)])
    have pp: "bm_patternEntries ?bm = bm_patternEntries bm" using True by (simp add: removeFromTypeIndex_def)
    have "gm_get (index_of ?bm t) v = Some i \<longleftrightarrow> value_entry ?bm t v i" for t v i
    proof (cases "t = be_Type e \<and> v = be_Value e")
      case True
      then have "value_entry bm t v i \<longleftrightarrow> i = eid" using own by (auto simp: ix [symmetric])
      with True show ?thesis by (simp add: ix' ve)
    next
      case False
      then have "\<not> value_entry bm t v eid" using assms(2) by (auto simp: value_entry_def)
      with False show ?thesis by (auto simp: ix' ix ve)
    qed
    moreover have "\<not> pattern_entry bm t eid" for t using assms(2) True by (simp add: pattern_entry_def)
    then have "i \<in> set (gm_get0 [] (bm_patternEntries ?bm) t) \<longleftrightarrow> pattern_entry ?bm t i" for t i
      by (auto simp: pp pt pe)
    ultimately show ?thesis using ids pd by (simp add: bl_inv_def pp)
  next
    case False
    then have own: "pattern_entry bm (be_Type e) eid" using assms(2) by (simp add: pattern_entry_def)
    have ix': "index_of ?bm t = index_of bm t" for t
      using False own pt e by (simp add: removeFromTypeIndex_def Let_def)
    have pp: "gm_get0 [] (bm_patternEntries ?bm) t =
        (if t = be_Type e then remove1 eid (gm_get0 [] (bm_patternEntries bm) t) else gm_get0 [] (bm_patternEntries bm) t)" for t
      using False own pt e by (simp add: removeFromTypeIndex_def Let_def gm_get0_set)
    have "\<not> value_entry bm t v eid" for t v using assms(2) False by (simp add: value_entry_def)
    then have "gm_get (index_of ?bm t) v = Some i \<longleftrightarrow> value_entry ?bm t v i" for t v i by (auto simp: ix' ix ve)
    moreover have "i \<in> set (gm_get0 [] (bm_patternEntries ?bm) t) \<longleftrightarrow> pattern_entry ?bm t i" for t i
      using assms(2) pd by (auto simp: pp pt pe) (auto simp: pattern_entry_def)
    ultimately show ?thesis using ids pd by (simp add: bl_inv_def pp)
  qed
qed

section \<open>What the checks find\<close>

definition blocks :: "time \<Rightarrow> BlacklistManager \<Rightarrow> string \<Rightarrow> (BlacklistEntry \<Rightarrow> bool) \<Rightarrow> string \<Rightarrow> bool" where
  "blocks now bm t matches v \<longleftrightarrow>
     (\<exists>eid e. gm_get (bm_entries bm) eid = Some e \<and> be_Type e = t \<and> active now e
        \<and> (if be_Pattern e = [] then be_Value e = v else matches e))"

lemma set_map_filter_iff: "y \<in> set (List.map_filter f xs) \<longleftrightarrow> (\<exists>x. x \<in> set xs \<and> f x = Some y)"
  by (induction xs) (auto simp: List.map_filter_simps split: option.splits)

lemma check_type_exact:
  assumes "bl_inv bm"
  shows "check_type now bm t m v \<noteq> None \<longleftrightarrow> blocks now bm t m v"
proof -
  let ?ps = "List.map_filter (gm_get (bm_entries bm)) (gm_get0 [] (bm_patternEntries bm) t)"
  have pats: "find (\<lambda>e. active now e \<and> m e) ?ps \<noteq> None \<longleftrightarrow>
      (\<exists>eid e. gm_get (bm_entries bm) eid = Some e \<and> be_Type e = t \<and> be_Pattern e \<noteq> [] \<and> active now e \<and> m e)"
  proof -
    have "e \<in> set ?ps \<longleftrightarrow> (\<exists>eid. pattern_entry bm t eid \<and> gm_get (bm_entries bm) eid = Some e)" for e
      using assms unfolding bl_inv_def set_map_filter_iff by blast
    then have "e \<in> set ?ps \<longleftrightarrow> (\<exists>eid. gm_get (bm_entries bm) eid = Some e \<and> be_Type e = t \<and> be_Pattern e \<noteq> [])" for e
      by (auto simp: pattern_entry_def)
    then show ?thesis by (auto simp: find_None_iff)
  qed
  have ix: "gm_get (index_of bm t) v = Some eid \<longleftrightarrow> value_entry bm t v eid" for eid
    using assms by (simp add: bl_inv_def)
  show ?thesis
  proof (cases "gm_get (index_of bm t) v")
    case None
    then have "\<nexists>eid. value_entry bm t v eid" using ix by simp
    then have "blocks now bm t m v \<longleftrightarrow>
        (\<exists>eid e. gm_get (bm_entries bm) eid = Some e \<and> be_Type e = t \<and> be_Pattern e \<noteq> [] \<and> active now e \<and> m e)"
      by (auto simp: blocks_def value_entry_def)
    with None pats show ?thesis by (simp add: check_type_def)
  next
    case (Some eid)
    then obtain e where e: "gm_get (bm_entries bm) eid = Some e" "be_Type e = t" "be_Pattern e = []" "be_Value e = v"
      using ix by (auto simp: value_entry_def)
    have uniq: "eid' = eid" if "value_entry bm t v eid'" for eid' using that Some ix [of eid'] by simp
    have "blocks now bm t m v \<longleftrightarrow> active now e \<or>
        (\<exists>eid e. gm_get (bm_entries bm) eid = Some e \<and> be_Type e = t \<and> be_Pattern e \<noteq> [] \<and> active now e \<and> m e)"
    proof
      assume "blocks now bm t m v"
      then obtain i x where x: "gm_get (bm_entries bm) i = Some x" "be_Type x = t" "active now x"
        "if be_Pattern x = [] then be_Value x = v else m x" by (auto simp: blocks_def)
      then show "active now e \<or>
        (\<exists>eid e. gm_get (bm_entries bm) eid = Some e \<and> be_Type e = t \<and> be_Pattern e \<noteq> [] \<and> active now e \<and> m e)"
        using uniq [of i] e by (cases "be_Pattern x = []") (auto simp: value_entry_def)
    next
      assume "active now e \<or>
        (\<exists>eid e. gm_get (bm_entries bm) eid = Some e \<and> be_Type e = t \<and> be_Pattern e \<noteq> [] \<and> active now e \<and> m e)"
      then show "blocks now bm t m v" using e unfolding blocks_def by metis
    qed
    with Some e pats show ?thesis by (simp add: check_type_def)
  qed
qed

lemma AddEntry_cases:
  assumes "AddEntry lib now bm e = Ok bm'"
  obtains e' where "be_ID e' = be_ID e" "be_Type e' = be_Type e" "be_Value e' = be_Value e" "be_Pattern e' = be_Pattern e"
    "be_Enabled e' = be_Enabled e" "be_ExpiresAt e' = be_ExpiresAt e" "blacklist_type (be_Type e)"
    "gm_get (bm_entries bm) (be_ID e) = None"
    "\<exists>st. bm' = (addToTypeIndex (bm\<lparr>bm_entries := gm_set (bm_entries bm) (be_ID e') e'\<rparr>) e')\<lparr>bm_stats := st\<rparr>"
proof -
  let ?e1 = "if be_Pattern e \<noteq> [] then e\<lparr>be_compiledPattern := re_compile lib (be_Pattern e)\<rparr> else e"
  let ?e = "?e1\<lparr>be_CreatedAt := now, be_UpdatedAt := now\<rparr>"
  have v: "validateEntry e = None" and g: "gm_get (bm_entries bm) (be_ID e) = None"
    and bm': "bm' = (let bm2 = addToTypeIndex (bm\<lparr>bm_entries := gm_set (bm_entries bm) (be_ID ?e) ?e\<rparr>) ?e
      in bm2\<lparr>bm_stats := updateStatsOnAdd now ?e (bm_stats bm2)\<rparr>)"
    using assms by (auto simp: AddEntry_def Let_def split: option.splits if_splits)
  have "blacklist_type (be_Type e)" using v by (auto simp: validateEntry_def blacklist_type_def split: if_splits)
  with g bm' show ?thesis by (intro that [of ?e]) (auto simp: Let_def)
qed

lemma AddEntry_inv:
  assumes "bl_inv bm" and "AddEntry lib now bm e = Ok bm'"
    and "be_Pattern e = [] \<Longrightarrow> \<nexists>eid. value_entry bm (be_Type e) (be_Value e) eid"
  shows "bl_inv bm'"
proof -
  obtain e' where e': "be_ID e' = be_ID e" "be_Type e' = be_Type e" "be_Value e' = be_Value e" "be_Pattern e' = be_Pattern e"
    "blacklist_type (be_Type e)" "gm_get (bm_entries bm) (be_ID e) = None"
    "\<exists>st. bm' = (addToTypeIndex (bm\<lparr>bm_entries := gm_set (bm_entries bm) (be_ID e') e'\<rparr>) e')\<lparr>bm_stats := st\<rparr>"
    using AddEntry_cases [OF assms(2)] by metis
  with bl_inv_add [OF assms(1), of e'] assms(3) show ?thesis by auto
qed

lemma RemoveEntry_inv: "bl_inv bm \<Longrightarrow> RemoveEntry now bm eid = Ok bm' \<Longrightarrow> bl_inv bm'"
  using bl_inv_remove by (auto simp: RemoveEntry_def remove_object_def Let_def split: option.splits)

lemma cleanup_entries_inv:
  "bl_inv bm \<Longrightarrow> distinct (map fst es) \<Longrightarrow> \<forall>(i, e) \<in> set es. gm_get (bm_entries bm) i = Some e \<Longrightarrow>
     bl_inv (fst (cleanup_entries now es bm n))"
proof (induction es arbitrary: bm n)
  case (Cons p es)
  obtain i e where p: "p = (i, e)" by (cases p)
  let ?bm = "remove_object now bm i e"
  have get: "gm_get (bm_entries bm) i = Some e" using Cons.prems p by simp
  have "bl_inv ?bm" using bl_inv_remove [OF Cons.prems(1) get] by (simp add: remove_object_def Let_def)
  moreover have "bm_entries ?bm = gm_del (bm_entries bm) i"
    by (simp add: remove_object_def removeFromTypeIndex_def Let_def)
  then have "\<forall>(j, x) \<in> set es. gm_get (bm_entries ?bm) j = Some x" using Cons.prems p by force
  ultimately show ?case using Cons p by simp
qed simp

section \<open>Properties\<close>

text \<open>
  (C16) Checks are exact: in a blacklist without two entries for the same type and value, a client
  is refused exactly when some enabled, unexpired entry names or matches its client identifier, its
  user name or its address. Adding an entry for a new value and removing entries keep this so.
\<close>

theorem blacklist_exact:
  assumes "bl_inv bm"
  shows "(\<not> fst (CheckClientConnection lib now bm ci) \<longleftrightarrow>
      blocks now bm ClientIDBlacklist (regex_match (ci_ClientID ci)) (ci_ClientID ci)
      \<or> blocks now bm UsernameBlacklist (regex_match (ci_Username ci)) (ci_Username ci)
      \<or> blocks now bm IPAddressBlacklist (matchIPPattern lib (ci_IPAddress ci)) (ci_IPAddress ci))
    \<and> (\<not> fst (CheckTopicAccess now bm topic ci) \<longleftrightarrow> blocks now bm TopicBlacklist (matchTopicPattern topic) topic)
    \<and> (\<forall>e bm'. AddEntry lib now bm e = Ok bm' \<longrightarrow>
         be_Pattern e \<noteq> [] \<or> (\<nexists>eid. value_entry bm (be_Type e) (be_Value e) eid) \<longrightarrow> bl_inv bm')
    \<and> (\<forall>eid bm'. RemoveEntry now bm eid = Ok bm' \<longrightarrow> bl_inv bm')"
proof (intro conjI allI impI)
  note exact = check_type_exact [OF assms, symmetric]
  show "\<not> fst (CheckClientConnection lib now bm ci) \<longleftrightarrow>
      blocks now bm ClientIDBlacklist (regex_match (ci_ClientID ci)) (ci_ClientID ci)
      \<or> blocks now bm UsernameBlacklist (regex_match (ci_Username ci)) (ci_Username ci)
      \<or> blocks now bm IPAddressBlacklist (matchIPPattern lib (ci_IPAddress ci)) (ci_IPAddress ci)"
    unfolding CheckClientConnection_def exact
    by (simp add: checkClientID_def checkUsername_def checkIPAddress_def split: option.splits)
  show "\<not> fst (CheckTopicAccess now bm topic ci) \<longleftrightarrow> blocks now bm TopicBlacklist (matchTopicPattern topic) topic"
    unfolding CheckTopicAccess_def exact by (simp add: checkTopic_def split: option.splits)
  fix e bm' eid
  show "AddEntry lib now bm e = Ok bm' \<Longrightarrow> be_Pattern e \<noteq> [] \<or> (\<nexists>eid. value_entry bm (be_Type e) (be_Value e) eid)
      \<Longrightarrow> bl_inv bm'"
    using AddEntry_inv [OF assms] by blast
  show "RemoveEntry now bm eid = Ok bm' \<Longrightarrow> bl_inv bm'" by (rule RemoveEntry_inv [OF assms])
qed

definition value_block :: "string \<Rightarrow> string \<Rightarrow> string \<Rightarrow> BlacklistEntry" where
  "value_block eid t v =
     \<lparr>be_ID = eid, be_Type = t, be_Value = v, be_Pattern = [], be_Action = ''deny'', be_Reason = [], be_Description = [],
      be_CreatedAt = 0, be_UpdatedAt = 0, be_ExpiresAt = None, be_Enabled = True, be_CreatedBy = [],
      be_compiledPattern = None\<rparr>"

definition no_library :: library where
  "no_library = \<lparr>re_compile = (\<lambda>_. None), cidr_ok = (\<lambda>_. False), ip_ok = (\<lambda>_. False), cidr_contains = (\<lambda>_ _. False)\<rparr>"

theorem blacklist_exact_witness:
  "\<exists>bm. AddEntry no_library 2 (NewBlacklistManager 1) (value_block ''x'' ''topic'' ''t'') = Ok bm \<and> bl_inv bm
    \<and> (\<not> fst (CheckTopicAccess 5 (NewBlacklistManager 1) ''t''
         \<lparr>ci_ClientID = ''c'', ci_Username = [], ci_IPAddress = [], ci_Protocol = [], ci_ConnectedAt = 0\<rparr>)
       \<longleftrightarrow> blocks 5 (NewBlacklistManager 1) TopicBlacklist (matchTopicPattern ''t'') ''t'')"
proof -
  let ?bm = "NewBlacklistManager 1" and ?e = "value_block ''x'' ''topic'' ''t''"
  have "\<exists>bm. AddEntry no_library 2 ?bm ?e = Ok bm"
    by (simp add: AddEntry_def validateEntry_def value_block_def NewBlacklistManager_def Let_def)
  then obtain bm where add: "AddEntry no_library 2 ?bm ?e = Ok bm" by blast
  have free: "\<nexists>eid. value_entry ?bm (be_Type ?e) (be_Value ?e) eid"
    by (simp add: value_entry_def NewBlacklistManager_def)
  from blacklist_exact [OF bl_inv_new [of 1], of no_library 2] add free have "bl_inv bm" by blast
  with add blacklist_exact [OF bl_inv_new [of 1], of no_library 5] show ?thesis by blast
qed

text \<open>
  Two entries with the same type and value share one index slot: after removing the first, the
  second is still listed and enabled, but the client it names is let in.
\<close>

lemma blacklist_collision:
  assumes "blacklist_type t" and "v \<noteq> []" and "a \<noteq> []" and "b \<noteq> []" and "a \<noteq> b" and "t = ClientIDBlacklist"
  shows "\<exists>bm1 bm2 bm3. AddEntry no_library 1 (NewBlacklistManager 0) (value_block a t v) = Ok bm1
    \<and> AddEntry no_library 2 bm1 (value_block b t v) = Ok bm2
    \<and> RemoveEntry 3 bm2 a = Ok bm3
    \<and> (\<exists>e. GetEntry bm3 b = Ok e \<and> be_Value e = v \<and> be_Enabled e)
    \<and> fst (CheckClientConnection no_library 4 bm3
        \<lparr>ci_ClientID = v, ci_Username = [], ci_IPAddress = [], ci_Protocol = [], ci_ConnectedAt = 4\<rparr>)"
  using assms
  by (simp add: AddEntry_def validateEntry_def value_block_def NewBlacklistManager_def addToTypeIndex_def index_of_def
      set_index_def RemoveEntry_def remove_object_def removeFromTypeIndex_def GetEntry_def CheckClientConnection_def
      checkClientID_def checkUsername_def checkIPAddress_def check_type_def List.map_filter_simps Let_def)

lemma blacklist_collision_witness:
  "\<exists>bm1 bm2 bm3. AddEntry no_library 1 (NewBlacklistManager 0) (value_block ''x'' ''clientid'' ''bad'') = Ok bm1
    \<and> AddEntry no_library 2 bm1 (value_block ''y'' ''clientid'' ''bad'') = Ok bm2
    \<and> RemoveEntry 3 bm2 ''x'' = Ok bm3
    \<and> (\<exists>e. GetEntry bm3 ''y'' = Ok e \<and> be_Value e = ''bad'' \<and> be_Enabled e)
    \<and> fst (CheckClientConnection no_library 4 bm3
        \<lparr>ci_ClientID = ''bad'', ci_Username = [], ci_IPAddress = [], ci_Protocol = [], ci_ConnectedAt = 4\<rparr>)"
  by (rule blacklist_collision) (simp_all add: blacklist_type_def)

end
