(* ===== verification/Cluster.thy ===== *)
theory Cluster
  imports Prelude
begin

text \<open>
  Clustering, \<open>pkg/cluster\<close>: the manager with its peers and its table of remote routes, the
  handlers of the gRPC server, and the part of \<open>routePublish\<close> in the broker that forwards a
  message to the nodes the table names.

  A call that goes out in a goroutine of its own is a value of type \<open>rpc\<close> together with the
  address of the peer it goes to; what the manager returns is the list of calls it starts. Dialling
  and the remote call of \<open>Join\<close> are arguments. The last section puts nodes together: in a step
  of the cluster a node adds a peer, announces subscriptions or publishes, or one of the calls on
  its way arrives or fails, in any order.
\<close>

section \<open>State\<close>

text \<open>A connected client is the address it is connected to.\<close>

record Client =
  cl_NodeID :: string
  cl_address :: string

record Manager =
  NodeID :: string
  NodeAddress :: string
  peers :: "(string, Client) gomap"
  remoteRoutes :: "(string, string list) gomap"

record Route =
  rt_Topic :: string
  rt_NodeIds :: "string list"

record JoinRequest =
  jr_NodeId :: string
  jr_Address :: string
  jr_Version :: string
  jr_Timestamp :: time

record JoinResponse =
  js_Success :: bool
  js_ClusterId :: string
  js_Message :: string
  js_ClusterNodes :: "string list"

record BatchUpdateRoutesRequest =
  bu_Routes :: "Route list"
  bu_OpType :: string
  bu_FromNode :: string

record BatchUpdateRoutesResponse =
  br_Success :: bool
  br_UpdatedCount :: "32 word"

record PublishForward =
  pf_Topic :: string
  pf_Payload :: "byte list"
  pf_FromNode :: string

datatype rpc = RBatchUpdateRoutes BatchUpdateRoutesRequest | RForwardPublish PublishForward

section \<open>The manager\<close>

definition NewManager :: "string \<Rightarrow> string \<Rightarrow> Manager" where
  "NewManager nodeID nodeAddress =
     \<lparr>NodeID = nodeID, NodeAddress = nodeAddress, peers = [], remoteRoutes = []\<rparr>"

definition NewClient :: "string \<Rightarrow> string \<Rightarrow> Client" where
  "NewClient nodeID address = \<lparr>cl_NodeID = nodeID, cl_address = address\<rparr>"

text \<open>
  \<open>connect address\<close> tells whether dialling succeeds, \<open>join address req\<close> is the answer of the
  node there, \<open>None\<close> for an error. The peer table is read before and written after the calls.
\<close>

definition AddPeer ::
  "(string \<Rightarrow> bool) \<Rightarrow> (string \<Rightarrow> JoinRequest \<Rightarrow> JoinResponse option) \<Rightarrow> time \<Rightarrow> Manager \<Rightarrow> string \<Rightarrow> string \<Rightarrow> Manager" where
  "AddPeer connect join now m peerID address =
     (case gm_get (peers m) peerID of
        Some _ \<Rightarrow> m
      | None \<Rightarrow>
          if \<not> connect address then m
          else (case join address \<lparr>jr_NodeId = NodeID m, jr_Address = NodeAddress m,
                                   jr_Version = ''0.1.0-poc'', jr_Timestamp = now\<rparr> of
                  None \<Rightarrow> m
                | Some resp \<Rightarrow>
                    if js_Success resp
                    then m\<lparr>peers := gm_set (peers m) peerID (NewClient (NodeID m) address)\<rparr>
                    else m))"

definition BroadcastRouteUpdate :: "Manager \<Rightarrow> Route list \<Rightarrow> (string \<times> rpc) list" where
  "BroadcastRouteUpdate m routes =
     (let req = \<lparr>bu_Routes = routes, bu_OpType = ''add'', bu_FromNode = NodeID m\<rparr>
      in map (\<lambda>(peerID, peer). (cl_address peer, RBatchUpdateRoutes req)) (peers m))"

definition AddRemoteRoute :: "Manager \<Rightarrow> string \<Rightarrow> string \<Rightarrow> Manager" where
  "AddRemoteRoute m topic nodeID =
     (if nodeID \<in> set (gm_get0 [] (remoteRoutes m) topic) then m
      else m\<lparr>remoteRoutes := gm_set (remoteRoutes m) topic (gm_get0 [] (remoteRoutes m) topic @ [nodeID])\<rparr>)"

definition GetRemoteSubscribers :: "Manager \<Rightarrow> string \<Rightarrow> string list" where
  "GetRemoteSubscribers m topic = gm_get0 [] (remoteRoutes m) topic"

definition ForwardPublish :: "Manager \<Rightarrow> string \<Rightarrow> byte list \<Rightarrow> string \<Rightarrow> (string \<times> rpc) list" where
  "ForwardPublish m topic payload nodeID =
     (case gm_get (peers m) nodeID of
        None \<Rightarrow> []
      | Some peer \<Rightarrow>
          [(cl_address peer, RForwardPublish \<lparr>pf_Topic = topic, pf_Payload = payload, pf_FromNode = NodeID m\<rparr>)])"

section \<open>The server\<close>

text \<open>\<open>Join\<close> answers at once and starts \<open>AddPeer\<close> for the joining node in a goroutine.\<close>

definition Join :: "string \<Rightarrow> JoinRequest \<Rightarrow> JoinResponse \<times> (string \<times> string)" where
  "Join serverNodeID req =
     (\<lparr>js_Success = True, js_ClusterId = ''cluster-1'', js_Message = ''Welcome to the cluster!'',
       js_ClusterNodes = [serverNodeID]\<rparr>,
      (jr_NodeId req, jr_Address req))"

definition BatchUpdateRoutes :: "Manager \<Rightarrow> BatchUpdateRoutesRequest \<Rightarrow> Manager \<times> BatchUpdateRoutesResponse" where
  "BatchUpdateRoutes m req =
     (foldl (\<lambda>m route. foldl (\<lambda>m nodeID. AddRemoteRoute m (rt_Topic route) nodeID) m (rt_NodeIds route)) m (bu_Routes req),
      \<lparr>br_Success = True, br_UpdatedCount = of_nat (length (bu_Routes req))\<rparr>)"

text \<open>\<open>LocalPublishFunc\<close> may be \<open>nil\<close>.\<close>

definition server_ForwardPublish :: "(string \<Rightarrow> byte list \<Rightarrow> 'w \<Rightarrow> 'w) option \<Rightarrow> PublishForward \<Rightarrow> 'w \<Rightarrow> 'w \<times> bool" where
  "server_ForwardPublish localPublish req w =
     (case localPublish of None \<Rightarrow> (w, True) | Some f \<Rightarrow> (f (pf_Topic req) (pf_Payload req) w, True))"

text \<open>
  What the broker's \<open>routePublish\<close> functions do with the manager: the message goes to every node
  of the table but the broker itself.
\<close>

definition forward_to_nodes :: "string \<Rightarrow> Manager \<Rightarrow> string \<Rightarrow> byte list \<Rightarrow> (string \<times> rpc) list" where
  "forward_to_nodes nodeID m topic payload =
     concat (map (\<lambda>n. if n = nodeID then [] else ForwardPublish m topic payload n) (GetRemoteSubscribers m topic))"

section \<open>The route table\<close>

definition routes_to :: "Manager \<Rightarrow> string \<Rightarrow> string \<Rightarrow> bool" where
  "routes_to m topic nodeID = (nodeID \<in> set (GetRemoteSubscribers m topic))"

definition manager_inv :: "Manager \<Rightarrow> bool" where
  "manager_inv m = (gm_wf (peers m) \<and> (\<forall>topic. distinct (GetRemoteSubscribers m topic)))"

lemma AddRemoteRoute_frame [simp]:
  "NodeID (AddRemoteRoute m t n) = NodeID m" "NodeAddress (AddRemoteRoute m t n) = NodeAddress m"
  "peers (AddRemoteRoute m t n) = peers m"
  by (simp_all add: AddRemoteRoute_def)

lemma GetRemoteSubscribers_AddRemoteRoute:
  "GetRemoteSubscribers (AddRemoteRoute m t n) t' =
     (if t' = t \<and> \<not> routes_to m t n then GetRemoteSubscribers m t @ [n] else GetRemoteSubscribers m t')"
  by (auto simp: AddRemoteRoute_def GetRemoteSubscribers_def routes_to_def gm_get0_def)

lemma routes_to_AddRemoteRoute [simp]:
  "routes_to (AddRemoteRoute m t n) t' n' \<longleftrightarrow> routes_to m t' n' \<or> t' = t \<and> n' = n"
  using GetRemoteSubscribers_AddRemoteRoute [of m t n t'] by (auto simp: routes_to_def)

lemma manager_inv_AddRemoteRoute: "manager_inv m \<Longrightarrow> manager_inv (AddRemoteRoute m t n)"
  by (auto simp: manager_inv_def GetRemoteSubscribers_AddRemoteRoute routes_to_def)

text \<open>The route updates of a request in the order the handler applies them.\<close>

definition route_pairs :: "Route list \<Rightarrow> (string \<times> string) list" where
  "route_pairs routes = concat (map (\<lambda>r. map (Pair (rt_Topic r)) (rt_NodeIds r)) routes)"

definition add_routes :: "Manager \<Rightarrow> (string \<times> string) list \<Rightarrow> Manager" where
  "add_routes m ps = foldl (\<lambda>m (t, n). AddRemoteRoute m t n) m ps"

lemma add_routes_simps [simp]:
  "add_routes m [] = m"
  "add_routes m (p # ps) = add_routes (AddRemoteRoute m (fst p) (snd p)) ps"
  by (simp_all add: add_routes_def case_prod_beta)

lemma add_routes_append: "add_routes m (ps @ qs) = add_routes (add_routes m ps) qs"
  by (simp add: add_routes_def)

lemma BatchUpdateRoutes_add_routes: "fst (BatchUpdateRoutes m req) = add_routes m (route_pairs (bu_Routes req))"
proof -
  have inner: "foldl (\<lambda>m nodeID. AddRemoteRoute m t nodeID) m ns = add_routes m (map (Pair t) ns)" for m t ns
    by (induction ns arbitrary: m) simp_all
  have "foldl (\<lambda>m route. foldl (\<lambda>m nodeID. AddRemoteRoute m (rt_Topic route) nodeID) m (rt_NodeIds route)) m rs
      = add_routes m (route_pairs rs)" for rs
    by (induction rs arbitrary: m) (simp_all add: inner route_pairs_def add_routes_append)
  then show ?thesis by (simp add: BatchUpdateRoutes_def)
qed

lemma add_routes_frame [simp]:
  "NodeID (add_routes m ps) = NodeID m" "NodeAddress (add_routes m ps) = NodeAddress m" "peers (add_routes m ps) = peers m"
  by (induction ps arbitrary: m) simp_all

lemma routes_to_add_routes [simp]: "routes_to (add_routes m ps) t n \<longleftrightarrow> routes_to m t n \<or> (t, n) \<in> set ps"
  by (induction ps arbitrary: m) (simp_all add: prod_eq_iff disj_assoc)

lemma manager_inv_add_routes: "manager_inv m \<Longrightarrow> manager_inv (add_routes m ps)"
  by (induction ps arbitrary: m) (simp_all add: manager_inv_AddRemoteRoute)

lemma AddPeer_frame [simp]:
  "NodeID (AddPeer c j now m p a) = NodeID m" "NodeAddress (AddPeer c j now m p a) = NodeAddress m"
  "remoteRoutes (AddPeer c j now m p a) = remoteRoutes m"
  by (auto simp: AddPeer_def split: option.splits)

lemma routes_to_AddPeer [simp]: "routes_to (AddPeer c j now m p a) t n = routes_to m t n"
  by (simp add: routes_to_def GetRemoteSubscribers_def)

lemma manager_inv_AddPeer: "manager_inv m \<Longrightarrow> manager_inv (AddPeer c j now m p a)"
  unfolding manager_inv_def GetRemoteSubscribers_def AddPeer_frame
  by (auto simp: AddPeer_def split: option.splits)

text \<open>A peer stays connected to the address it was first added with.\<close>

lemma AddPeer_keeps: "gm_get (peers m) q = Some cl \<Longrightarrow> gm_get (peers (AddPeer c j now m p a)) q = Some cl"
  by (auto simp: AddPeer_def split: option.splits)

lemma manager_inv_New: "manager_inv (NewManager n a)"
  by (simp add: manager_inv_def NewManager_def GetRemoteSubscribers_def)

section \<open>Forwarding\<close>

text \<open>The calls of a forwarded message, one for each node of the table that is a peer, in order.\<close>

lemma forward_to_nodes_map:
  "forward_to_nodes self m t p =
     map (\<lambda>n. (cl_address (the (gm_get (peers m) n)), RForwardPublish \<lparr>pf_Topic = t, pf_Payload = p, pf_FromNode = NodeID m\<rparr>))
       (filter (\<lambda>n. n \<noteq> self \<and> gm_get (peers m) n \<noteq> None) (GetRemoteSubscribers m t))"
proof -
  have "concat (map (\<lambda>n. if n = self then [] else ForwardPublish m t p n) ns) =
     map (\<lambda>n. (cl_address (the (gm_get (peers m) n)), RForwardPublish \<lparr>pf_Topic = t, pf_Payload = p, pf_FromNode = NodeID m\<rparr>))
       (filter (\<lambda>n. n \<noteq> self \<and> gm_get (peers m) n \<noteq> None) ns)" for ns
    by (induction ns) (auto simp: ForwardPublish_def split: option.splits)
  then show ?thesis by (simp add: forward_to_nodes_def)
qed

lemma forward_to_nodes_call:
  assumes "(a, r) \<in> set (forward_to_nodes self m t p)"
  obtains n cl where "routes_to m t n" and "n \<noteq> self" and "gm_get (peers m) n = Some cl" and "a = cl_address cl"
    and "r = RForwardPublish \<lparr>pf_Topic = t, pf_Payload = p, pf_FromNode = NodeID m\<rparr>"
  using assms by (force simp: forward_to_nodes_map routes_to_def)

section \<open>The cluster\<close>

text \<open>
  The nodes by address, the remote calls that are on their way, the \<open>AddPeer\<close> calls that the
  \<open>Join\<close> handlers started, what was handed to the local subscribers of each node, and the
  history: which node announced which topic filter and what was published where.
\<close>

record net =
  n_nodes :: "(string, Manager) gomap"
  n_calls :: "(string \<times> rpc) list"
  n_joins :: "(string \<times> string \<times> string) list"
  n_delivered :: "(string \<times> string \<times> byte list) list"
  n_announced :: "(string \<times> string) list"
  n_published :: "(string \<times> string \<times> byte list) list"

definition init_net :: "(string, Manager) gomap \<Rightarrow> net" where
  "init_net nodes = \<lparr>n_nodes = nodes, n_calls = [], n_joins = [], n_delivered = [], n_announced = [], n_published = []\<rparr>"

text \<open>
  The node at \<open>a\<close> runs \<open>AddPeer\<close> for the node it finds at \<open>b\<close>; the handler of \<open>Join\<close> there
  starts an \<open>AddPeer\<close> of its own.
\<close>

definition net_add_peer :: "time \<Rightarrow> string \<Rightarrow> string \<Rightarrow> string \<Rightarrow> net \<Rightarrow> net" where
  "net_add_peer now a peerID b s =
     (case (gm_get (n_nodes s) a, gm_get (n_nodes s) b) of
        (Some m, Some other) \<Rightarrow>
          s\<lparr>n_nodes := gm_set (n_nodes s) a
               (AddPeer (\<lambda>_. True) (\<lambda>_ req. Some (fst (Join (NodeID other) req))) now m peerID b),
             n_joins := (if gm_get (peers m) peerID = None then n_joins s @ [(b, NodeID m, NodeAddress m)] else n_joins s)\<rparr>
      | _ \<Rightarrow> s)"

definition net_arrive :: "string \<Rightarrow> rpc \<Rightarrow> net \<Rightarrow> net" where
  "net_arrive b call s =
     (case gm_get (n_nodes s) b of
        None \<Rightarrow> s
      | Some m \<Rightarrow>
          (case call of
             RBatchUpdateRoutes req \<Rightarrow> s\<lparr>n_nodes := gm_set (n_nodes s) b (fst (BatchUpdateRoutes m req))\<rparr>
           | RForwardPublish req \<Rightarrow>
               s\<lparr>n_delivered := fst (server_ForwardPublish (Some (\<lambda>t p w. w @ [(b, t, p)])) req (n_delivered s))\<rparr>))"

definition announcement :: "Manager \<Rightarrow> string list \<Rightarrow> (string \<times> rpc) list" where
  "announcement m filters =
     BroadcastRouteUpdate m (map (\<lambda>f. \<lparr>rt_Topic = f, rt_NodeIds = [NodeID m]\<rparr>) filters)"

inductive net_step :: "net \<Rightarrow> net \<Rightarrow> bool" where
  add_peer: "net_step s (net_add_peer now a peerID b s)"
| join: "(a, peerID, b) \<in> set (n_joins s) \<Longrightarrow>
    net_step s (net_add_peer now a peerID b (s\<lparr>n_joins := remove1 (a, peerID, b) (n_joins s)\<rparr>))"
| announce: "gm_get (n_nodes s) a = Some m \<Longrightarrow>
    net_step s (s\<lparr>n_calls := n_calls s @ announcement m filters,
      n_announced := n_announced s @ map (\<lambda>f. (f, NodeID m)) filters\<rparr>)"
| publish: "gm_get (n_nodes s) a = Some m \<Longrightarrow>
    net_step s (s\<lparr>n_calls := n_calls s @ forward_to_nodes (NodeID m) m topic payload,
      n_published := n_published s @ [(NodeID m, topic, payload)]\<rparr>)"
| arrive: "(b, call) \<in> set (n_calls s) \<Longrightarrow>
    net_step s (net_arrive b call (s\<lparr>n_calls := remove1 (b, call) (n_calls s)\<rparr>))"
| fail: "(b, call) \<in> set (n_calls s) \<Longrightarrow> net_step s (s\<lparr>n_calls := remove1 (b, call) (n_calls s)\<rparr>)"

abbreviation net_steps :: "net \<Rightarrow> net \<Rightarrow> bool" where
  "net_steps \<equiv> net_step\<^sup>*\<^sup>*"

definition call_ok :: "net \<Rightarrow> rpc \<Rightarrow> bool" where
  "call_ok s call =
     (case call of
        RBatchUpdateRoutes req \<Rightarrow> set (route_pairs (bu_Routes req)) \<subseteq> set (n_announced s)
      | RForwardPublish req \<Rightarrow>
          (pf_FromNode req, pf_Topic req, pf_Payload req) \<in> set (n_published s)
          \<and> (\<exists>n. n \<noteq> pf_FromNode req \<and> (pf_Topic req, n) \<in> set (n_announced s)))"

definition node_ok :: "net \<Rightarrow> Manager \<Rightarrow> bool" where
  "node_ok s m = (manager_inv m \<and> (\<forall>t n. routes_to m t n \<longrightarrow> (t, n) \<in> set (n_announced s)))"

definition delivery_ok :: "net \<Rightarrow> string \<times> string \<times> byte list \<Rightarrow> bool" where
  "delivery_ok s d =
     (case d of (_, t, p) \<Rightarrow>
        \<exists>self n. (self, t, p) \<in> set (n_published s) \<and> n \<noteq> self \<and> (t, n) \<in> set (n_announced s))"

definition net_inv :: "net \<Rightarrow> bool" where
  "net_inv s =
     ((\<forall>a m. gm_get (n_nodes s) a = Some m \<longrightarrow> node_ok s m)
      \<and> (\<forall>(b, call) \<in> set (n_calls s). call_ok s call)
      \<and> (\<forall>d \<in> set (n_delivered s). delivery_ok s d))"

section \<open>Every reachable cluster is sound\<close>

lemma ok_mono:
  assumes "set (n_announced s) \<subseteq> set (n_announced s')" and "set (n_published s) \<subseteq> set (n_published s')"
  shows "node_ok s m \<Longrightarrow> node_ok s' m" and "call_ok s c \<Longrightarrow> call_ok s' c" and "delivery_ok s d \<Longrightarrow> delivery_ok s' d"
proof -
  show "node_ok s m \<Longrightarrow> node_ok s' m" using assms by (auto simp: node_ok_def)
  show "call_ok s c \<Longrightarrow> call_ok s' c" using assms by (cases c) (auto simp: call_ok_def)
  show "delivery_ok s d \<Longrightarrow> delivery_ok s' d" using assms by (cases d) (auto simp: delivery_ok_def; blast)
qed

lemma ok_history:
  assumes "n_announced s' = n_announced s" and "n_published s' = n_published s"
  shows "node_ok s' = node_ok s" and "call_ok s' = call_ok s" and "delivery_ok s' = delivery_ok s"
  using assms by (auto simp: node_ok_def call_ok_def delivery_ok_def fun_eq_iff split: rpc.splits)

lemma net_inv_calls: "net_inv s \<Longrightarrow> set cs \<subseteq> set (n_calls s) \<Longrightarrow> net_inv (s\<lparr>n_calls := cs\<rparr>)"
  by (auto simp: net_inv_def ok_history [of "s\<lparr>n_calls := cs\<rparr>" s])

lemma net_inv_add_peer: "net_inv s \<Longrightarrow> net_inv (net_add_peer now a peerID b s)"
proof -
  assume inv: "net_inv s"
  let ?s = "net_add_peer now a peerID b s"
  have hist: "n_announced ?s = n_announced s" "n_published ?s = n_published s" "n_calls ?s = n_calls s"
    "n_delivered ?s = n_delivered s"
    by (auto simp: net_add_peer_def split: option.splits)
  have "node_ok s m" if "gm_get (n_nodes ?s) x = Some m" for x m
    using that inv
    by (auto simp: net_inv_def net_add_peer_def node_ok_def manager_inv_AddPeer split: option.splits if_splits)
  then show ?thesis using inv by (simp add: net_inv_def hist ok_history [OF hist(1,2)])
qed

lemma net_inv_joins: "net_inv s \<Longrightarrow> net_inv (s\<lparr>n_joins := js\<rparr>)"
  by (simp add: net_inv_def ok_history [of "s\<lparr>n_joins := js\<rparr>" s])

lemma net_inv_arrive:
  assumes inv: "net_inv s" and call: "call_ok s call"
  shows "net_inv (net_arrive b call s)"
proof (cases "gm_get (n_nodes s) b")
  case None
  then show ?thesis using inv by (simp add: net_arrive_def)
next
  case (Some m)
  have m: "node_ok s m" using inv Some by (simp add: net_inv_def)
  show ?thesis
  proof (cases call)
    case (RBatchUpdateRoutes req)
    have new: "node_ok s (add_routes m (route_pairs (bu_Routes req)))"
      using m call RBatchUpdateRoutes by (auto simp: node_ok_def call_ok_def manager_inv_add_routes)
    let ?s = "s\<lparr>n_nodes := gm_set (n_nodes s) b (add_routes m (route_pairs (bu_Routes req)))\<rparr>"
    have "net_arrive b call s = ?s"
      using Some RBatchUpdateRoutes by (simp add: net_arrive_def BatchUpdateRoutes_add_routes)
    moreover have "net_inv ?s" using inv new by (simp add: net_inv_def ok_history [of ?s s])
    ultimately show ?thesis by simp
  next
    case (RForwardPublish req)
    have "delivery_ok s (b, pf_Topic req, pf_Payload req)"
      using call RForwardPublish by (auto simp: call_ok_def delivery_ok_def)
    moreover have "net_arrive b call s = s\<lparr>n_delivered := n_delivered s @ [(b, pf_Topic req, pf_Payload req)]\<rparr>" (is "_ = ?s")
      using Some RForwardPublish by (simp add: net_arrive_def server_ForwardPublish_def)
    ultimately show ?thesis using inv by (auto simp: net_inv_def ok_history [of ?s s])
  qed
qed

lemma announcement_ok:
  "(b, c) \<in> set (announcement m fs) \<Longrightarrow> set (map (\<lambda>f. (f, NodeID m)) fs) \<subseteq> set (n_announced s) \<Longrightarrow> call_ok s c"
  by (auto simp: announcement_def BroadcastRouteUpdate_def call_ok_def route_pairs_def Let_def image_subset_iff)

text \<open>A step that starts calls and adds to the history.\<close>

lemma net_inv_extend:
  assumes inv: "net_inv s" and same: "n_nodes s' = n_nodes s" "n_delivered s' = n_delivered s"
    and hist: "set (n_announced s) \<subseteq> set (n_announced s')" "set (n_published s) \<subseteq> set (n_published s')"
    and calls: "n_calls s' = n_calls s @ cs" and ok: "\<And>b c. (b, c) \<in> set cs \<Longrightarrow> call_ok s' c"
  shows "net_inv s'"
proof -
  have "node_ok s' m" if "gm_get (n_nodes s) a = Some m" for a m
    using inv that by (auto simp: net_inv_def intro: ok_mono(1) [OF hist])
  moreover have "call_ok s' c" if "(b, c) \<in> set (n_calls s)" for b c
    using inv that by (auto simp: net_inv_def intro: ok_mono(2) [OF hist])
  moreover have "delivery_ok s' d" if "d \<in> set (n_delivered s)" for d
    using inv that by (auto simp: net_inv_def intro: ok_mono(3) [OF hist])
  ultimately show ?thesis using ok by (auto simp: net_inv_def same calls)
qed

lemma net_inv_step: "net_step s s' \<Longrightarrow> net_inv s \<Longrightarrow> net_inv s'"
proof (induction rule: net_step.induct)
  case (add_peer s now a peerID b)
  then show ?case by (rule net_inv_add_peer)
next
  case (join a peerID b s now)
  then show ?case by (simp add: net_inv_add_peer net_inv_joins)
next
  case (announce s a m fs)
  let ?s = "s\<lparr>n_calls := n_calls s @ announcement m fs, n_announced := n_announced s @ map (\<lambda>f. (f, NodeID m)) fs\<rparr>"
  have "call_ok ?s c" if "(b, c) \<in> set (announcement m fs)" for b c
    by (rule announcement_ok [OF that]) auto
  then show ?case by (intro net_inv_extend [OF announce.prems, where cs = "announcement m fs"]) auto
next
  case (publish s a m t p)
  let ?s = "s\<lparr>n_calls := n_calls s @ forward_to_nodes (NodeID m) m t p, n_published := n_published s @ [(NodeID m, t, p)]\<rparr>"
  have "node_ok s m" using publish by (simp add: net_inv_def)
  then have "call_ok ?s c" if "(b, c) \<in> set (forward_to_nodes (NodeID m) m t p)" for b c
    using that by (auto elim!: forward_to_nodes_call simp: call_ok_def node_ok_def; blast)
  then show ?case
    by (intro net_inv_extend [OF publish.prems, where cs = "forward_to_nodes (NodeID m) m t p"]) auto
next
  case (arrive b call s)
  let ?s = "s\<lparr>n_calls := remove1 (b, call) (n_calls s)\<rparr>"
  have "call_ok s call" using arrive by (auto simp: net_inv_def)
  then have "call_ok ?s call" by (simp add: ok_history(2) [of ?s s])
  moreover have "net_inv ?s" by (rule net_inv_calls [OF arrive.prems]) (rule set_remove1_subset)
  ultimately show ?case by (simp add: net_inv_arrive)
next
  case (fail b call s)
  show ?case by (rule net_inv_calls [OF fail.prems]) (rule set_remove1_subset)
qed

lemma net_inv_steps: "net_steps s s' \<Longrightarrow> net_inv s \<Longrightarrow> net_inv s'"
  by (induction rule: rtranclp_induct) (auto intro: net_inv_step)

definition fresh_nodes :: "(string, Manager) gomap \<Rightarrow> bool" where
  "fresh_nodes nodes = list_all (\<lambda>(a, m). m = NewManager (NodeID m) a) nodes"

lemma net_inv_init: "fresh_nodes nodes \<Longrightarrow> net_inv (init_net nodes)"
proof -
  assume f: "fresh_nodes nodes"
  have "node_ok (init_net nodes) m" if "gm_get nodes a = Some m" for a m
  proof -
    have "m = NewManager (NodeID m) a" using f gm_get_in [OF that] by (auto simp: fresh_nodes_def list_all_iff)
    then have "GetRemoteSubscribers m t = []" for t by (metis GetRemoteSubscribers_def NewManager_def gm_get0_simps(1) Manager.select_convs(4))
    moreover have "peers m = []" using \<open>m = _\<close> by (metis NewManager_def Manager.select_convs(3))
    ultimately show ?thesis by (simp add: node_ok_def manager_inv_def routes_to_def)
  qed
  then show ?thesis by (simp add: net_inv_def init_net_def)
qed


definition two_nodes :: "(string, Manager) gomap" where
  "two_nodes = [(''h1'', NewManager ''n1'' ''h1''), (''h2'', NewManager ''n2'' ''h2'')]"


section \<open>Routes stay\<close>

text \<open>What a node knows it keeps: peers with their addresses and routes.\<close>

definition knows_more :: "Manager \<Rightarrow> Manager \<Rightarrow> bool" where
  "knows_more m m' =
     (NodeID m' = NodeID m \<and> (\<forall>n cl. gm_get (peers m) n = Some cl \<longrightarrow> gm_get (peers m') n = Some cl)
      \<and> (\<forall>t n. routes_to m t n \<longrightarrow> routes_to m' t n))"

lemma knows_more_refl: "knows_more m m"
  by (simp add: knows_more_def)

lemma knows_more_trans: "knows_more m m' \<Longrightarrow> knows_more m' m'' \<Longrightarrow> knows_more m m''"
  by (auto simp: knows_more_def)

lemma knows_more_AddPeer: "knows_more m (AddPeer c j now m p a)"
  by (simp add: knows_more_def AddPeer_keeps)

lemma knows_more_add_routes: "knows_more m (add_routes m ps)"
  by (simp add: knows_more_def)

lemmas knows_more_rules = knows_more_refl knows_more_AddPeer knows_more_add_routes

lemma net_step_knows:
  assumes "net_step s s'" and "gm_get (n_nodes s) b = Some m"
  shows "\<exists>m'. gm_get (n_nodes s') b = Some m' \<and> knows_more m m'"
  using assms
proof (induction rule: net_step.induct)
  case (add_peer s now a peerID b)
  then show ?case by (auto simp: net_add_peer_def knows_more_rules split: option.splits)
next
  case (join a peerID b s now)
  then show ?case by (auto simp: net_add_peer_def knows_more_rules split: option.splits)
next
  case (arrive c call s)
  then show ?case
    by (cases call)
      (auto simp: net_arrive_def BatchUpdateRoutes_add_routes server_ForwardPublish_def knows_more_rules split: option.splits)
qed (auto simp: knows_more_refl)

lemma net_steps_knows:
  assumes "net_steps s s'" and "gm_get (n_nodes s) b = Some m"
  shows "\<exists>m'. gm_get (n_nodes s') b = Some m' \<and> knows_more m m'"
  using assms by (induction rule: rtranclp_induct) (auto intro: knows_more_refl dest!: net_step_knows intro: knows_more_trans)

lemma count_list_distinct: "distinct xs \<Longrightarrow> x \<in> set xs \<Longrightarrow> count_list xs x = 1"
  by (induction xs) (auto simp: count_list_0_iff)


text \<open>Two nodes that have joined each other, with an announcement of the first on its way.\<close>

definition joined_net :: net where
  "joined_net =
     (let s1 = net_add_peer 7 ''h1'' ''n2'' ''h2'' (init_net two_nodes);
          s2 = net_add_peer 9 ''h2'' ''n1'' ''h1'' (s1\<lparr>n_joins := remove1 (''h2'', ''n1'', ''h1'') (n_joins s1)\<rparr>);
          m = the (gm_get (n_nodes s2) ''h1'')
      in s2\<lparr>n_calls := n_calls s2 @ announcement m [''t''],
             n_announced := n_announced s2 @ map (\<lambda>f. (f, NodeID m)) [''t'']\<rparr>)"

definition announce_req :: BatchUpdateRoutesRequest where
  "announce_req = \<lparr>bu_Routes = [\<lparr>rt_Topic = ''t'', rt_NodeIds = [''n1'']\<rparr>], bu_OpType = ''add'', bu_FromNode = ''n1''\<rparr>"

definition joined_node :: Manager where
  "joined_node = (NewManager ''n2'' ''h2'')\<lparr>peers := [(''n1'', NewClient ''n2'' ''h1'')]\<rparr>"

lemmas net_eval = net_add_peer_def init_net_def two_nodes_def NewManager_def NewClient_def AddPeer_def Join_def
  announcement_def BroadcastRouteUpdate_def Let_def announce_req_def joined_node_def

lemma joined_net_reachable: "net_steps (init_net two_nodes) joined_net"
proof -
  let ?s1 = "net_add_peer 7 ''h1'' ''n2'' ''h2'' (init_net two_nodes)"
  let ?s2 = "net_add_peer 9 ''h2'' ''n1'' ''h1'' (?s1\<lparr>n_joins := remove1 (''h2'', ''n1'', ''h1'') (n_joins ?s1)\<rparr>)"
  have "net_step (init_net two_nodes) ?s1" by (rule net_step.add_peer)
  moreover have "net_step ?s1 ?s2" by (rule net_step.join) (simp add: net_eval)
  moreover have "gm_get (n_nodes ?s2) ''h1'' = Some (the (gm_get (n_nodes ?s2) ''h1''))" by (simp add: net_eval)
  then have "net_step ?s2 joined_net" unfolding joined_net_def Let_def by (rule net_step.announce)
  ultimately show ?thesis by (meson rtranclp.rtrancl_refl rtranclp.rtrancl_into_rtrancl)
qed


text \<open>
  The table is looked up by the topic itself: a route announced for a wildcard filter is not found
  for the topics the filter matches.
\<close>

lemma wildcard_routes_not_found:
  "\<forall>r \<in> set (bu_Routes req). rt_Topic r \<noteq> topic
    \<Longrightarrow> GetRemoteSubscribers (fst (BatchUpdateRoutes m req)) topic = GetRemoteSubscribers m topic"
proof -
  assume "\<forall>r \<in> set (bu_Routes req). rt_Topic r \<noteq> topic"
  then have "topic \<notin> fst ` set (route_pairs (bu_Routes req))" by (auto simp: route_pairs_def)
  moreover have "topic \<notin> fst ` set ps \<Longrightarrow> GetRemoteSubscribers (add_routes m ps) topic = GetRemoteSubscribers m topic" for ps
    by (induction ps arbitrary: m) (auto simp: GetRemoteSubscribers_AddRemoteRoute)
  ultimately show ?thesis by (simp add: BatchUpdateRoutes_add_routes)
qed

end
