(* ===== verification/Broker.thy ===== *)
theory Broker
  imports Topic_Store Kv_Store Actor_Runtime Session_Actor Retainer Persistent_Session Auth Blacklist Cluster
begin

text \<open>
  The broker, \<open>pkg/broker/broker.go\<close>: its state, the routing of messages to local and remote
  subscribers, session takeover, suppression of duplicates, inbound topic aliases and the publisher
  of will messages. The connection handler is in the theory \<open>Connection\<close>.

  The state is a pair: the record \<open>Broker\<close> with everything but the persistent sessions, and the
  session manager, because the manager calls the broker back (will messages) with its own state
  changed and a lock held. A mailbox pointer is a number and the mailboxes are in \<open>b_mailboxes\<close>;
  \<open>Send\<close> to a full one blocks the sender (\<open>Blocked\<close>). A goroutine that is started is added to
  \<open>b_tasks\<close> and runs later. The rule engine and the integration engine are arguments (\<open>hooks\<close>), as
  they call back into the routing; a call of \<open>time.Now()\<close> is an argument, one reading per call of
  a modelled function.
\<close>

section \<open>State\<close>

type_synonym mailboxes = "(mailbox, session_msg Mailbox) gomap"

text \<open>Inbound topic aliases of one client.\<close>

record ClientTopicAliasManager =
  ta_clientToServerAliases :: "(uint16, string) gomap"
  ta_topicAliasMaximum :: uint16

text \<open>The arguments of \<open>processPublishPostAck\<close>.\<close>

record PostAck =
  pa_clientID :: string
  pa_topic :: string
  pa_payload :: "byte list"
  pa_qos :: byte
  pa_retain :: bool
  pa_userProperties :: "(string, byte list) gomap"
  pa_responseTopic :: string
  pa_correlationData :: "byte list"

datatype task =
    TPostAck PostAck
  | TSendRetained mailbox "(string \<times> byte) list"
  | TDeliverOffline string
  | TConnectors string "byte list" byte
  | TCall "string \<times> rpc"
  | TSession mailbox Session
  | TRecordBlock BlacklistBlock

text \<open>
  What a delivery callback of the offline message manager works on: the session registry and the
  mailboxes, or the fact that it waits.
\<close>

type_synonym delivery = "(string, mailbox MemStore \<times> mailboxes) go"

record Broker =
  b_nodeID :: string
  b_sessions :: "mailbox MemStore"
  b_topics :: Store
  b_cluster :: "Manager option"
  b_authChain :: AuthChain
  b_retainer :: Retainer
  b_offlineMessageMgr :: "delivery OfflineMessageManager"
  b_topicAliasManagers :: "(string, ClientTopicAliasManager) gomap"
  b_processedQoS1 :: "(string, (uint16, time) gomap) gomap"
  b_blacklistMiddleware :: BlacklistMiddleware
  b_mailboxes :: mailboxes
  b_tasks :: "task list"

type_synonym 'd broker = "Broker \<times> 'd SessionManager"

definition New_broker :: "time \<Rightarrow> string \<Rightarrow> Manager option \<Rightarrow> 'd broker" where
  "New_broker now nodeID clusterMgr =
     (\<lparr>b_nodeID = nodeID, b_sessions = NewMemStore, b_topics = NewStore, b_cluster = clusterMgr,
       b_authChain = NewAuthChain,
       b_retainer = NewRetainer (NewMemoryBackend DefaultConfig) (Some RetainerDefaultConfig),
       b_offlineMessageMgr = \<lparr>om_deliveryCallbacks = []\<rparr>, b_topicAliasManagers = [], b_processedQoS1 = [],
       b_blacklistMiddleware = NewBlacklistMiddleware (Some (NewBlacklistManager now)) (Some DefaultMiddlewareConfig),
       b_mailboxes = [], b_tasks = []\<rparr>,
      NewSessionManager NewMemStore (Some PersistDefaultConfig))"

text \<open>The rule engine and the integration engine: what running them does to the broker.\<close>

type_synonym engine = "string \<Rightarrow> byte list \<Rightarrow> byte \<Rightarrow> (string, string) gomap \<Rightarrow> Broker \<Rightarrow> (string, Broker) go"

record hooks =
  hk_rules :: engine
  hk_integration :: engine

definition quiet :: "engine \<Rightarrow> bool" where
  "quiet e \<longleftrightarrow> (\<forall>t p q h b. e t p q h b = Ok b)"

definition spawn :: "task \<Rightarrow> Broker \<Rightarrow> Broker" where
  "spawn t b = b\<lparr>b_tasks := b_tasks b @ [t]\<rparr>"

text \<open>A failed call whose error is logged.\<close>

definition logged :: "('e, 'a) go \<Rightarrow> 'a \<Rightarrow> ('e, 'a) go" where
  "logged r x = (case r of Err _ \<Rightarrow> Ok x | _ \<Rightarrow> r)"

section \<open>Inbound topic aliases\<close>

definition newClientTopicAliasManager :: "uint16 \<Rightarrow> ClientTopicAliasManager" where
  "newClientTopicAliasManager maxAliases = \<lparr>ta_clientToServerAliases = [], ta_topicAliasMaximum = maxAliases\<rparr>"

datatype alias_error = ExceedsMaximum uint16 uint16 | NoMapping uint16

definition resolveTopicAlias ::
  "ClientTopicAliasManager \<Rightarrow> string \<Rightarrow> uint16 \<Rightarrow> (alias_error, string \<times> ClientTopicAliasManager) go" where
  "resolveTopicAlias tam topicName a =
     (if a = 0 then Ok (topicName, tam)
      else if a > ta_topicAliasMaximum tam then Err (ExceedsMaximum a (ta_topicAliasMaximum tam))
      else if topicName \<noteq> []
      then Ok (topicName, tam\<lparr>ta_clientToServerAliases := gm_set (ta_clientToServerAliases tam) a topicName\<rparr>)
      else case gm_get (ta_clientToServerAliases tam) a of
             Some resolvedTopic \<Rightarrow> Ok (resolvedTopic, tam)
           | None \<Rightarrow> Err (NoMapping a))"

section \<open>Sending to mailboxes\<close>

definition send_to :: "mailboxes \<Rightarrow> mailbox \<Rightarrow> session_msg \<Rightarrow> ('e, mailboxes) go" where
  "send_to boxes mb msg =
     (case gm_get boxes mb of
        None \<Rightarrow> Panic
      | Some box \<Rightarrow> (case Send box msg of Ok box' \<Rightarrow> Ok (gm_set boxes mb box') | _ \<Rightarrow> Blocked))"

fun send_all :: "mailboxes \<Rightarrow> (mailbox \<times> session_msg) list \<Rightarrow> ('e, mailboxes) go" where
  "send_all boxes [] = Ok boxes"
| "send_all boxes ((mb, msg) # rest) = go_bind (send_to boxes mb msg) (\<lambda>boxes'. send_all boxes' rest)"

definition deliver :: "Broker \<Rightarrow> (mailbox \<times> session_msg) list \<Rightarrow> (string, Broker) go" where
  "deliver b msgs = go_bind (send_all (b_mailboxes b) msgs) (\<lambda>boxes. Ok (b\<lparr>b_mailboxes := boxes\<rparr>))"

section \<open>Routing\<close>

definition effective_qos :: "byte \<Rightarrow> byte \<Rightarrow> byte" where
  "effective_qos publishQoS subQoS = (if subQoS < publishQoS then subQoS else publishQoS)"

definition plain_publish :: "string \<Rightarrow> byte list \<Rightarrow> byte \<Rightarrow> Publish" where
  "plain_publish topic payload qos =
     \<lparr>pm_Topic = topic, pm_Payload = payload, pm_QoS = qos, pm_Retain = False, pm_UserProperties = [],
      pm_TopicAlias = 0, pm_ResponseTopic = [], pm_CorrelationData = []\<rparr>"

definition get_subscribers :: "Broker \<Rightarrow> string \<Rightarrow> (string, Subscription list \<times> Broker) go" where
  "get_subscribers b topicName =
     (case GetSubscribers (b_topics b) topicName of
        Ok (subs, store) \<Rightarrow> Ok (subs, b\<lparr>b_topics := store\<rparr>)
      | Err _ \<Rightarrow> Panic | Panic \<Rightarrow> Panic | Blocked \<Rightarrow> Blocked)"

text \<open>\<open>string(v[0])\<close> of a byte is the UTF-8 encoding of the character with that number.\<close>

definition rune_string :: "byte \<Rightarrow> string" where
  "rune_string v =
     (if v < 128 then [char_of (unat v)]
      else [char_of (192 + unat v div 64), char_of (128 + unat v mod 64)])"

definition rule_headers :: "(string, byte list) gomap \<Rightarrow> (string, string) gomap" where
  "rule_headers userProperties =
     foldl (\<lambda>headers (k, v). case v of [] \<Rightarrow> headers | c # _ \<Rightarrow> gm_set headers k (rune_string c)) [] userProperties"

text \<open>One entry per mailbox, with the highest of its effective QoS values.\<close>

fun uniqueSubs :: "byte \<Rightarrow> Subscription list \<Rightarrow> (mailbox, byte) gomap \<Rightarrow> (mailbox, byte) gomap" where
  "uniqueSubs publishQoS [] m = m"
| "uniqueSubs publishQoS (sub # subs) m =
     (let effectiveQoS = effective_qos publishQoS (sub_QoS sub)
      in case gm_get m (sub_Mailbox sub) of
           None \<Rightarrow> uniqueSubs publishQoS subs (gm_set m (sub_Mailbox sub) effectiveQoS)
         | Some current \<Rightarrow>
             uniqueSubs publishQoS subs (if effectiveQoS > current then gm_set m (sub_Mailbox sub) effectiveQoS else m))"

definition RouteToLocalSubscribersWithRequestResponse ::
  "hooks \<Rightarrow> string \<Rightarrow> byte list \<Rightarrow> byte \<Rightarrow> (string, byte list) gomap \<Rightarrow> string \<Rightarrow> byte list \<Rightarrow> Broker \<Rightarrow> (string, Broker) go" where
  "RouteToLocalSubscribersWithRequestResponse hk topicName payload publishQoS userProperties responseTopic correlationData b =
     (let headers = rule_headers userProperties
      in go_bind (hk_rules hk topicName payload publishQoS headers b) (\<lambda>b1.
         go_bind (hk_integration hk topicName payload publishQoS headers b1) (\<lambda>b2.
         go_bind (get_subscribers b2 topicName) (\<lambda>(subscribers, b3).
           deliver b3 (map (\<lambda>(mb, qos). (mb, MPublish
               ((plain_publish topicName payload qos)\<lparr>pm_UserProperties := userProperties,
                  pm_ResponseTopic := responseTopic, pm_CorrelationData := correlationData\<rparr>)))
             (uniqueSubs publishQoS subscribers []))))))"

definition RouteToLocalSubscribersWithUserProperties ::
  "string \<Rightarrow> byte list \<Rightarrow> byte \<Rightarrow> (string, byte list) gomap \<Rightarrow> Broker \<Rightarrow> (string, Broker) go" where
  "RouteToLocalSubscribersWithUserProperties topicName payload publishQoS userProperties b =
     go_bind (get_subscribers b topicName) (\<lambda>(subscribers, b1).
       deliver b1 (map (\<lambda>sub. (sub_Mailbox sub, MPublish
           ((plain_publish topicName payload (effective_qos publishQoS (sub_QoS sub)))\<lparr>pm_UserProperties := userProperties\<rparr>)))
         subscribers))"

definition RouteToLocalSubscribersWithQoS :: "hooks \<Rightarrow> string \<Rightarrow> byte list \<Rightarrow> byte \<Rightarrow> Broker \<Rightarrow> (string, Broker) go" where
  "RouteToLocalSubscribersWithQoS hk topicName payload publishQoS b =
     go_bind (hk_rules hk topicName payload publishQoS [] b) (\<lambda>b1.
     go_bind (get_subscribers b1 topicName) (\<lambda>(subscribers, b2).
       deliver b2 (map (\<lambda>sub. (sub_Mailbox sub, MPublish
           (plain_publish topicName payload (effective_qos publishQoS (sub_QoS sub))))) subscribers)))"

definition RouteToLocalSubscribers :: "hooks \<Rightarrow> string \<Rightarrow> byte list \<Rightarrow> Broker \<Rightarrow> (string, Broker) go" where
  "RouteToLocalSubscribers hk topicName payload b = RouteToLocalSubscribersWithQoS hk topicName payload 0 b"

definition route_remote :: "string \<Rightarrow> byte list \<Rightarrow> Broker \<Rightarrow> Broker" where
  "route_remote topicName payload b =
     (case b_cluster b of
        None \<Rightarrow> b
      | Some m \<Rightarrow> b\<lparr>b_tasks := b_tasks b @ map TCall (forward_to_nodes (b_nodeID b) m topicName payload)\<rparr>)"

definition routePublishWithRequestResponse ::
  "hooks \<Rightarrow> string \<Rightarrow> byte list \<Rightarrow> byte \<Rightarrow> (string, byte list) gomap \<Rightarrow> string \<Rightarrow> byte list \<Rightarrow> Broker \<Rightarrow> (string, Broker) go" where
  "routePublishWithRequestResponse hk topicName payload publishQoS userProperties responseTopic correlationData b =
     go_bind (RouteToLocalSubscribersWithRequestResponse hk topicName payload publishQoS userProperties responseTopic correlationData b)
       (\<lambda>b1. Ok (route_remote topicName payload b1))"

definition routePublishWithUserProperties ::
  "string \<Rightarrow> byte list \<Rightarrow> byte \<Rightarrow> (string, byte list) gomap \<Rightarrow> Broker \<Rightarrow> (string, Broker) go" where
  "routePublishWithUserProperties topicName payload publishQoS userProperties b =
     go_bind (RouteToLocalSubscribersWithUserProperties topicName payload publishQoS userProperties b)
       (\<lambda>b1. Ok (route_remote topicName payload b1))"

definition routePublish :: "hooks \<Rightarrow> string \<Rightarrow> byte list \<Rightarrow> byte \<Rightarrow> Broker \<Rightarrow> (string, Broker) go" where
  "routePublish hk topicName payload publishQoS b =
     go_bind (RouteToLocalSubscribersWithQoS hk topicName payload publishQoS b)
       (\<lambda>b1. Ok (route_remote topicName payload b1))"

section \<open>Sessions\<close>

text \<open>A mailbox that was not there before.\<close>

definition fresh_mailbox :: "mailboxes \<Rightarrow> mailbox" where
  "fresh_mailbox boxes = fresh_key boxes"

text \<open>
  \<open>registerSession\<close>. A client that is registered already is taken over: its session actor is told
  to stop and its subscriptions go. Then the new actor and its mailbox of 100 messages start.
\<close>

definition take_over :: "string \<Rightarrow> Broker \<Rightarrow> (string, Broker) go" where
  "take_over clientID b =
     (case Get (b_sessions b) clientID of
        Ok oldMailbox \<Rightarrow>
          go_bind (send_to (b_mailboxes b) oldMailbox MStop) (\<lambda>boxes.
            Ok (b\<lparr>b_mailboxes := boxes,
                  b_topics := fst (RemoveAllSubscriptions (b_topics b) (Some oldMailbox)),
                  b_sessions := Delete (b_sessions b) clientID\<rparr>))
      | _ \<Rightarrow> Ok b)"

definition registerSession :: "string \<Rightarrow> byte \<Rightarrow> Broker \<Rightarrow> (string, mailbox \<times> Broker) go" where
  "registerSession clientID protocolVersion b =
     go_bind (take_over clientID b) (\<lambda>b1.
       let mb = fresh_mailbox (b_mailboxes b1)
       in Ok (mb, spawn (TSession mb (SetProtocolVersion (New clientID) protocolVersion))
                (b1\<lparr>b_mailboxes := gm_set (b_mailboxes b1) mb (NewMailbox 100),
                    b_sessions := Set (b_sessions b1) clientID mb\<rparr>)))"

definition unregisterSession :: "string \<Rightarrow> Broker \<Rightarrow> Broker" where
  "unregisterSession clientID b =
     (let topics = (case Get (b_sessions b) clientID of
                      Ok mb \<Rightarrow> fst (RemoveAllSubscriptions (b_topics b) (Some mb))
                    | _ \<Rightarrow> b_topics b)
      in b\<lparr>b_topics := topics, b_sessions := Delete (b_sessions b) clientID,
           b_processedQoS1 := gm_del (b_processedQoS1 b) clientID\<rparr>)"

section \<open>Duplicates\<close>

abbreviation qosDuplicateWindow :: duration where
  "qosDuplicateWindow \<equiv> 30 * second"

definition markAndCheckDuplicate :: "time \<Rightarrow> string \<Rightarrow> uint16 \<Rightarrow> Broker \<Rightarrow> bool \<times> Broker" where
  "markAndCheckDuplicate now clientID packetID b =
     (if packetID = 0 then (False, b)
      else
        let clientMap = gm_get0 [] (b_processedQoS1 b) clientID;
            marked = gm_set clientMap packetID now;
            put = (\<lambda>m. b\<lparr>b_processedQoS1 := gm_set (b_processedQoS1 b) clientID m\<rparr>)
        in case gm_get clientMap packetID of
             Some ts \<Rightarrow>
               if now - ts < qosDuplicateWindow then (True, put marked)
               else (False, put (filter (\<lambda>(_, ts). \<not> now - ts \<ge> qosDuplicateWindow) marked))
           | None \<Rightarrow> (False, put (filter (\<lambda>(_, ts). \<not> now - ts \<ge> qosDuplicateWindow) marked)))"

section \<open>Retained and offline messages\<close>

definition retained_for :: "time \<Rightarrow> Broker \<Rightarrow> string \<times> byte \<Rightarrow> Publish list" where
  "retained_for now b flt =
     map (\<lambda>rm. (plain_publish (rm_Topic rm) (rm_Payload rm) (effective_qos (rm_QoS rm) (snd flt)))\<lparr>pm_Retain := True\<rparr>)
       (Retainer_GetRetainedMessages now (b_retainer b) (fst flt))"

definition sendRetainedMessages :: "time \<Rightarrow> mailbox option \<Rightarrow> (string \<times> byte) list \<Rightarrow> Broker \<Rightarrow> (string, Broker) go" where
  "sendRetainedMessages now sessionMailbox filters b =
     (case sessionMailbox of
        None \<Rightarrow> Ok b
      | Some mb \<Rightarrow> deliver b (map (\<lambda>m. (mb, MPublish m)) (concat (map (retained_for now b) filters))))"

definition deliverOfflineMessage :: "delivery callback" where
  "deliverOfflineMessage clientID topic payload qos retain w =
     (case w of
        Ok (sessions, boxes) \<Rightarrow>
          (case Get sessions clientID of
             Ok mb \<Rightarrow>
               (case send_to boxes mb (MPublish ((plain_publish topic payload qos)\<lparr>pm_Retain := retain\<rparr>)) of
                  Ok boxes' \<Rightarrow> (Ok (sessions, boxes'), None)
                | r \<Rightarrow> (go_bind r (\<lambda>_. Panic), None))
           | _ \<Rightarrow> (w, Some (no_session clientID)))
      | _ \<Rightarrow> (w, None))"

text \<open>What the handlers read of their surroundings.\<close>

record 'd env =
  ev_enc :: "'d json_enc"
  ev_dec :: "'d json_dec"
  ev_lib :: library
  ev_hooks :: hooks
  ev_now :: time
  ev_unixNano :: int
  ev_newID :: string

definition deliver_offline :: "'d env \<Rightarrow> string \<Rightarrow> 'd broker \<Rightarrow> (string, 'd broker) go" where
  "deliver_offline ev clientID st =
     (case DeliverOfflineMessages (ev_enc ev) (ev_now ev) (b_offlineMessageMgr (fst st)) clientID
             (Ok (b_sessions (fst st), b_mailboxes (fst st)), snd st) of
        ((w, sm), _) \<Rightarrow> go_bind w (\<lambda>(_, boxes). Ok ((fst st)\<lparr>b_mailboxes := boxes\<rparr>, sm)))"

section \<open>Publishing\<close>

definition store_retained :: "'d env \<Rightarrow> string \<Rightarrow> byte list \<Rightarrow> byte \<Rightarrow> string \<Rightarrow> Broker \<Rightarrow> (string, Broker) go" where
  "store_retained ev topic payload qos clientID b =
     logged (go_bind (StoreRetained (ev_now ev) (ev_newID ev) (b_retainer b) topic payload qos clientID)
               (\<lambda>r. Ok (b\<lparr>b_retainer := r\<rparr>))) b"

definition queue_offline ::
  "'d env \<Rightarrow> string list \<Rightarrow> string \<Rightarrow> byte list \<Rightarrow> byte \<Rightarrow> bool \<Rightarrow> 'd SessionManager \<Rightarrow> (string, 'd SessionManager) go" where
  "queue_offline ev held topic payload qos retain sm =
     logged (QueueMessageForOfflineClients (ev_enc ev) (ev_now ev) BasicTopicMatcher_Matches held topic payload qos retain sm) sm"

definition processPublishPostAck :: "'d env \<Rightarrow> PostAck \<Rightarrow> 'd broker \<Rightarrow> (string, 'd broker) go" where
  "processPublishPostAck ev pa st =
     go_bind (if pa_retain pa
              then store_retained ev (pa_topic pa) (pa_payload pa) (pa_qos pa) (pa_clientID pa) (fst st)
              else Ok (fst st)) (\<lambda>b1.
     go_bind (routePublishWithRequestResponse (ev_hooks ev) (pa_topic pa) (pa_payload pa) (pa_qos pa)
                (pa_userProperties pa) (pa_responseTopic pa) (pa_correlationData pa) b1) (\<lambda>b2.
     go_bind (queue_offline ev [] (pa_topic pa) (pa_payload pa) (pa_qos pa) (pa_retain pa) (snd st)) (\<lambda>sm.
       Ok (spawn (TConnectors (pa_topic pa) (pa_payload pa) (pa_qos pa)) b2, sm))))"

text \<open>The publisher of will messages, called by the session manager with its locks held.\<close>

definition broker_PublishWillMessage :: "'d env \<Rightarrow> (Broker, 'd) publisher" where
  "broker_PublishWillMessage ev held willMsg clientID st =
     go_bind (if wm_Retain willMsg
              then store_retained ev (wm_Topic willMsg) (wm_Payload willMsg) (wm_QoS willMsg) clientID (fst st)
              else Ok (fst st)) (\<lambda>b1.
     go_bind (routePublish (ev_hooks ev) (wm_Topic willMsg) (wm_Payload willMsg) (wm_QoS willMsg) b1) (\<lambda>b2.
     go_bind (queue_offline ev held (wm_Topic willMsg) (wm_Payload willMsg) (wm_QoS willMsg) (wm_Retain willMsg) (snd st)) (\<lambda>sm.
       Ok (b2, sm))))"

text \<open>A goroutine runs; those that only leave the node change nothing here.\<close>

definition run_task :: "'d env \<Rightarrow> task \<Rightarrow> 'd broker \<Rightarrow> (string, 'd broker) go" where
  "run_task ev t st =
     (case t of
        TPostAck pa \<Rightarrow> processPublishPostAck ev pa st
      | TSendRetained mb filters \<Rightarrow>
          go_bind (sendRetainedMessages (ev_now ev) (Some mb) filters (fst st)) (\<lambda>b. Ok (b, snd st))
      | TDeliverOffline clientID \<Rightarrow> deliver_offline ev clientID st
      | TRecordBlock block \<Rightarrow>
          (let mw = b_blacklistMiddleware (fst st)
           in Ok ((fst st)\<lparr>b_blacklistMiddleware :=
                     mw\<lparr>mw_manager := map_option (record_block (ev_now ev) block) (mw_manager mw)\<rparr>\<rparr>, snd st))
      | _ \<Rightarrow> Ok st)"

definition broker_Close :: "'d env \<Rightarrow> 'd broker \<Rightarrow> 'd broker" where
  "broker_Close ev st = (fst st, sm_Close (ev_enc ev) (snd st))"

definition SetupDefaultAuth :: "hashes \<Rightarrow> Broker \<Rightarrow> Broker" where
  "SetupDefaultAuth H b =
     (let add = (\<lambda>ma (u, p, a). case AddUser H ma u p a of Ok ma' \<Rightarrow> ma' | _ \<Rightarrow> ma);
          memAuth = foldl add NewMemoryAuthenticator
            [(''admin'', ''admin123'', HashBcrypt), (''user1'', ''password123'', HashSHA256), (''test'', ''test'', HashPlain)]
      in b\<lparr>b_authChain := AddAuthenticator (b_authChain b) (memory_authenticator H memAuth)\<rparr>)"

section \<open>Delivery\<close>

definition has_room :: "mailboxes \<Rightarrow> mailbox \<Rightarrow> bool" where
  "has_room boxes mb = (case gm_get boxes mb of None \<Rightarrow> False | Some box \<Rightarrow> length (mb_messages box) < mb_size box)"

definition push :: "session_msg \<Rightarrow> session_msg Mailbox \<Rightarrow> session_msg Mailbox" where
  "push msg box = box\<lparr>mb_messages := mb_messages box @ [msg]\<rparr>"

lemma send_to_room: "has_room boxes mb \<Longrightarrow> \<exists>box. gm_get boxes mb = Some box \<and> send_to boxes mb msg = Ok (gm_set boxes mb (push msg box))"
  by (auto simp: has_room_def send_to_def Send_def push_def split: option.splits)

lemma send_all_room:
  assumes "distinct (map fst msgs)" and "\<forall>mb \<in> fst ` set msgs. has_room boxes mb"
  shows "\<exists>boxes'. send_all boxes msgs = (Ok boxes' :: ('e, mailboxes) go)
    \<and> (\<forall>mb. gm_get boxes' mb = (case map_of msgs mb of None \<Rightarrow> gm_get boxes mb
                                 | Some msg \<Rightarrow> map_option (push msg) (gm_get boxes mb)))"
  using assms
proof (induction msgs arbitrary: boxes)
  case (Cons p msgs)
  obtain mb msg where p: "p = (mb, msg)" by (cases p)
  obtain box where box: "gm_get boxes mb = Some box"
      "send_to boxes mb msg = (Ok (gm_set boxes mb (push msg box)) :: ('e, mailboxes) go)"
    using send_to_room [of boxes mb msg] Cons.prems(2) p by auto
  have "\<forall>mb' \<in> fst ` set msgs. has_room (gm_set boxes mb (push msg box)) mb'"
    using Cons.prems p by (auto simp: has_room_def)
  then have "\<exists>boxes'. send_all (gm_set boxes mb (push msg box)) msgs = (Ok boxes' :: ('e, mailboxes) go)
      \<and> (\<forall>mb'. gm_get boxes' mb' = (case map_of msgs mb' of None \<Rightarrow> gm_get (gm_set boxes mb (push msg box)) mb'
                | Some m \<Rightarrow> map_option (push m) (gm_get (gm_set boxes mb (push msg box)) mb')))"
    using Cons.prems(1) by (intro Cons.IH) auto
  then obtain boxes' where "send_all (gm_set boxes mb (push msg box)) msgs = (Ok boxes' :: ('e, mailboxes) go)"
      and get: "\<And>mb'. gm_get boxes' mb' = (case map_of msgs mb' of None \<Rightarrow> gm_get (gm_set boxes mb (push msg box)) mb'
                | Some m \<Rightarrow> map_option (push m) (gm_get (gm_set boxes mb (push msg box)) mb'))" by blast
  moreover have "map_of msgs mb = None" using Cons.prems(1) p by (simp add: map_of_eq_None_iff)
  ultimately show ?case using box p by (intro exI [of _ boxes']) (auto split: option.splits)
qed simp

section \<open>One copy per mailbox\<close>

lemma effective_qos_min: "effective_qos q s = min q s"
  by (auto simp: effective_qos_def min_def)

definition qos_of :: "Subscription list \<Rightarrow> mailbox \<Rightarrow> byte list" where
  "qos_of subs mb = map sub_QoS (filter (\<lambda>s. sub_Mailbox s = mb) subs)"

definition raise_qos :: "byte option \<Rightarrow> byte \<Rightarrow> byte option" where
  "raise_qos c e = Some (case c of None \<Rightarrow> e | Some c \<Rightarrow> max c e)"

lemma gm_get_uniqueSubs_fold:
  "gm_get (uniqueSubs q subs m) mb = foldl raise_qos (gm_get m mb) (map (effective_qos q) (qos_of subs mb))"
proof (induction subs arbitrary: m)
  case (Cons sub subs)
  have "uniqueSubs q (sub # subs) m =
      uniqueSubs q subs (case gm_get m (sub_Mailbox sub) of
          None \<Rightarrow> gm_set m (sub_Mailbox sub) (effective_qos q (sub_QoS sub))
        | Some c \<Rightarrow> if effective_qos q (sub_QoS sub) > c then gm_set m (sub_Mailbox sub) (effective_qos q (sub_QoS sub)) else m)"
    by (simp add: Let_def split: option.splits)
  then show ?case
    by (auto simp: Cons.IH qos_of_def raise_qos_def max_def split: option.splits)
qed (simp add: qos_of_def)

lemma raise_qos_simps [simp]: "raise_qos None e = Some e" "raise_qos (Some c) e = Some (max c e)"
  by (simp_all add: raise_qos_def)

lemma foldl_raise_qos: "foldl raise_qos (Some c) es = Some (Max (insert c (set es)))"
proof (induction es arbitrary: c)
  case (Cons e es)
  show ?case unfolding foldl_Cons raise_qos_simps Cons.IH by (cases "es = []") (simp_all add: max.assoc)
qed simp

text \<open>Every subscribed mailbox is listed once with the best QoS its subscriptions allow.\<close>

lemma gm_get_uniqueSubs:
  "gm_get (uniqueSubs q subs []) mb =
     (if mb \<in> sub_Mailbox ` set subs then Some (min q (Max (set (qos_of subs mb)))) else None)"
proof (cases "qos_of subs mb")
  case Nil
  then show ?thesis by (auto simp: gm_get_uniqueSubs_fold qos_of_def filter_empty_conv)
next
  case (Cons v vs)
  then have in_subs: "mb \<in> sub_Mailbox ` set subs"
    by (auto simp: qos_of_def filter_eq_Cons_iff Cons_eq_map_conv)
  have "gm_get (uniqueSubs q subs []) mb = Some (Max (min q ` set (qos_of subs mb)))"
    by (simp add: gm_get_uniqueSubs_fold Cons foldl_raise_qos effective_qos_min [abs_def])
  also have "Max (min q ` set (qos_of subs mb)) = min q (Max (set (qos_of subs mb)))"
    by (rule mono_Max_commute [symmetric]) (auto simp: mono_def Cons min.coboundedI2)
  finally show ?thesis using in_subs by simp
qed

lemma gm_wf_uniqueSubs: "gm_wf m \<Longrightarrow> gm_wf (uniqueSubs q subs m)"
  by (induction q subs m rule: uniqueSubs.induct) (auto simp: Let_def split: option.splits)

lemma map_of_map_pair: "map_of (map (\<lambda>(k, v). (k, f v)) m) k = map_option f (map_of m k)"
  by (induction m) auto

text \<open>
  (C5) A publish reaches every subscriber exactly once: if no rule or integration interferes and
  the mailboxes of the subscribers that \<open>GetSubscribers\<close> returns have room, then routing returns
  and each such mailbox has got one more message, the published one, with the smaller of the QoS
  of the publish and the best QoS of that mailbox's matching subscriptions, however many of its
  filters match; all other mailboxes are unchanged.
\<close>

theorem publish_reaches_each_once:
  fixes b :: Broker
  assumes "quiet (hk_rules hk)" and "quiet (hk_integration hk)"
    and subs: "GetSubscribers (b_topics b) topic = Ok (subs, store)"
    and room: "\<And>sub. sub \<in> set subs \<Longrightarrow> has_room (b_mailboxes b) (sub_Mailbox sub)"
  shows "\<exists>b'. RouteToLocalSubscribersWithRequestResponse hk topic payload q props resp corr b = Ok b'
    \<and> b' = b\<lparr>b_topics := store, b_mailboxes := b_mailboxes b'\<rparr>
    \<and> (\<forall>mb. gm_get (b_mailboxes b') mb =
        (if mb \<in> sub_Mailbox ` set subs
         then map_option (push (MPublish
                \<lparr>pm_Topic = topic, pm_Payload = payload, pm_QoS = min q (Max (set (qos_of subs mb))), pm_Retain = False,
                 pm_UserProperties = props, pm_TopicAlias = 0, pm_ResponseTopic = resp, pm_CorrelationData = corr\<rparr>))
                (gm_get (b_mailboxes b) mb)
         else gm_get (b_mailboxes b) mb))"
proof -
  let ?msg = "\<lambda>qos. MPublish ((plain_publish topic payload qos)\<lparr>pm_UserProperties := props,
                  pm_ResponseTopic := resp, pm_CorrelationData := corr\<rparr>)"
  let ?msgs = "map (\<lambda>(mb, qos). (mb, ?msg qos)) (uniqueSubs q subs [])"
  have fst: "map fst ?msgs = map fst (uniqueSubs q subs [])" by (simp add: comp_def case_prod_beta)
  have dist: "distinct (map fst ?msgs)" unfolding fst using gm_wf_uniqueSubs [of "[]" q subs] by simp
  have get: "map_of ?msgs mb = (if mb \<in> sub_Mailbox ` set subs then Some (?msg (min q (Max (set (qos_of subs mb))))) else None)" for mb
    by (simp add: map_of_map_pair [where f = ?msg] gm_get_uniqueSubs)
  have "\<forall>mb \<in> fst ` set ?msgs. has_room (b_mailboxes b) mb"
  proof
    fix mb assume "mb \<in> fst ` set ?msgs"
    then have "map_of ?msgs mb \<noteq> None" by (simp add: map_of_eq_None_iff)
    then have "mb \<in> sub_Mailbox ` set subs" by (auto simp: get split: if_splits)
    then show "has_room (b_mailboxes b) mb" using room by auto
  qed
  from send_all_room [OF dist this] obtain boxes where boxes: "send_all (b_mailboxes b) ?msgs = (Ok boxes :: (string, mailboxes) go)"
    and after: "\<And>mb. gm_get boxes mb = (case map_of ?msgs mb of None \<Rightarrow> gm_get (b_mailboxes b) mb
        | Some msg \<Rightarrow> map_option (push msg) (gm_get (b_mailboxes b) mb))" by blast
  have "RouteToLocalSubscribersWithRequestResponse hk topic payload q props resp corr b
      = Ok (b\<lparr>b_topics := store, b_mailboxes := boxes\<rparr>)"
    using assms(1,2) boxes
    by (simp add: RouteToLocalSubscribersWithRequestResponse_def quiet_def get_subscribers_def subs deliver_def Let_def)
  moreover have "gm_get boxes mb = (if mb \<in> sub_Mailbox ` set subs
      then map_option (push (?msg (min q (Max (set (qos_of subs mb)))))) (gm_get (b_mailboxes b) mb)
      else gm_get (b_mailboxes b) mb)" for mb unfolding after get by simp
  ultimately show ?thesis
    by (intro exI [of _ "b\<lparr>b_topics := store, b_mailboxes := boxes\<rparr>"]) (simp add: plain_publish_def)
qed

text \<open>A broker with one client whose two subscriptions both match the topic \<open>a/b\<close>.\<close>

definition idle_hooks :: hooks where
  "idle_hooks = \<lparr>hk_rules = (\<lambda>_ _ _ _. Ok), hk_integration = (\<lambda>_ _ _ _. Ok)\<rparr>"

definition sample_broker :: Broker where
  "sample_broker =
     (fst (New_broker 0 ''n1'' None :: PersistentSession broker))
       \<lparr>b_topics := \<lparr>subscriptions = [(''a/+'', [\<lparr>sub_Mailbox = 7, sub_QoS = 1\<rparr>]), (''a/b'', [\<lparr>sub_Mailbox = 7, sub_QoS = 0\<rparr>])],
                     sharedSubscriptions = []\<rparr>,
        b_sessions := \<lparr>ms_data = [(''c'', 7)]\<rparr>, b_mailboxes := [(7, NewMailbox 100)]\<rparr>"

lemma sample_subscribers:
  "GetSubscribers (b_topics sample_broker) ''a/b'' =
     Ok ([\<lparr>sub_Mailbox = 7, sub_QoS = 1\<rparr>, \<lparr>sub_Mailbox = 7, sub_QoS = 0\<rparr>], b_topics sample_broker)"
  by (simp add: sample_broker_def GetSubscribers_def regular_subscribers_def matchesTopicFilter_iff)

theorem publish_reaches_each_once_witness:
  "\<exists>b'. RouteToLocalSubscribersWithRequestResponse idle_hooks ''a/b'' [5] 2 [] [] [] sample_broker = Ok b'
    \<and> gm_get (b_mailboxes b') 7 = Some (push (MPublish (plain_publish ''a/b'' [5] 1)) (NewMailbox 100))"
proof -
  have "\<exists>b'. RouteToLocalSubscribersWithRequestResponse idle_hooks ''a/b'' [5] 2 [] [] [] sample_broker = Ok b'
    \<and> b' = sample_broker\<lparr>b_topics := b_topics sample_broker, b_mailboxes := b_mailboxes b'\<rparr>
    \<and> (\<forall>mb. gm_get (b_mailboxes b') mb =
        (if mb \<in> sub_Mailbox ` set [\<lparr>sub_Mailbox = 7, sub_QoS = 1\<rparr>, \<lparr>sub_Mailbox = 7, sub_QoS = 0\<rparr>]
         then map_option (push (MPublish
                \<lparr>pm_Topic = ''a/b'', pm_Payload = [5],
                 pm_QoS = min 2 (Max (set (qos_of [\<lparr>sub_Mailbox = 7, sub_QoS = 1\<rparr>, \<lparr>sub_Mailbox = 7, sub_QoS = 0\<rparr>] mb))), pm_Retain = False,
                 pm_UserProperties = [], pm_TopicAlias = 0, pm_ResponseTopic = [], pm_CorrelationData = []\<rparr>))
                (gm_get (b_mailboxes sample_broker) mb)
         else gm_get (b_mailboxes sample_broker) mb))"
    by (rule publish_reaches_each_once [OF _ _ sample_subscribers])
      (auto simp: idle_hooks_def quiet_def has_room_def sample_broker_def NewMailbox_def)
  then obtain b' where "RouteToLocalSubscribersWithRequestResponse idle_hooks ''a/b'' [5] 2 [] [] [] sample_broker = Ok b'"
    and "gm_get (b_mailboxes b') 7 = map_option (push (MPublish (plain_publish ''a/b'' [5] (min 2 (max 1 0))))) (gm_get (b_mailboxes sample_broker) 7)"
    by (auto simp: qos_of_def plain_publish_def)
  then show ?thesis by (auto simp: sample_broker_def)
qed

section \<open>Will messages and the lock of the session\<close>

lemma send_all_not_Err: "send_all boxes msgs \<noteq> Err e"
proof (induction boxes msgs rule: send_all.induct)
  case (2 boxes mb msg rest)
  then show ?case by (auto simp: send_to_def Send_def split: option.splits)
qed simp

lemma routePublish_not_Err: "quiet (hk_rules hk) \<Longrightarrow> routePublish hk t p q b \<noteq> Err e"
  by (auto simp: send_all_not_Err routePublish_def RouteToLocalSubscribersWithQoS_def quiet_def get_subscribers_def deliver_def
      split: go.splits elim!: go_bind.elims)

lemma store_retained_not_Err: "store_retained ev t p q cid b \<noteq> Err e"
  by (auto simp: store_retained_def logged_def split: go.splits)

lemma go_bind_stuck: "(\<And>e. m \<noteq> Err e) \<Longrightarrow> (\<And>a. f a \<in> {Blocked, Panic}) \<Longrightarrow> go_bind m f \<in> {Blocked, Panic}"
  by (cases m) auto

lemma logged_stuck: "r \<in> {Blocked, Panic} \<Longrightarrow> logged r x \<in> {Blocked, Panic}"
  by (auto simp: logged_def)

text \<open>
  (C18) A client that disconnects without DISCONNECT and has an immediate will message makes the
  broker wait for itself: \<open>DisconnectSession\<close> holds the lock of the session while the will is
  published, publishing it queues it for offline clients, and that pass takes the lock of every
  active session, this one included. The call never returns (no result and no error), whatever the
  rest of the state is.
\<close>

theorem will_self_deadlock:
  assumes "gm_get (sm_activeSessions sm) cid = Some s" and "ps_WillMessage s = Some wm" and "wm_DelayInterval wm \<le> 0"
    and "0 < pc_MaxOfflineMessages (sm_config sm)" and "quiet (hk_rules (ev_hooks ev))"
  shows "DisconnectSession (ev_enc ev) (Some (broker_PublishWillMessage ev)) now cid False (b, sm) \<in> {Blocked, Panic}"
proof -
  let ?s = "s\<lparr>ps_Connected := False, ps_LastActivity := now\<rparr>"
  let ?sm = "put_session sm cid ?s"
  have "(cid, ?s) \<in> set (sm_activeSessions ?sm)" by (rule gm_get_in) (simp add: put_session_def)
  moreover have "0 < pc_MaxOfflineMessages (sm_config ?sm)" using assms(4) by (simp add: put_session_def)
  ultimately have "queue_pass (ev_enc ev) (ev_now ev) BasicTopicMatcher_Matches [cid] (wm_Topic wm) (wm_Payload wm) (wm_QoS wm)
      (wm_Retain wm) (sm_activeSessions ?sm) ?sm \<in> {Blocked, Panic}" by (intro queue_pass_held [of cid ?s]) simp_all
  then have "queue_offline ev [cid] (wm_Topic wm) (wm_Payload wm) (wm_QoS wm) (wm_Retain wm) ?sm \<in> {Blocked, Panic}"
    unfolding queue_offline_def QueueMessageForOfflineClients_def by (rule logged_stuck)
  then have "broker_PublishWillMessage ev [cid] wm cid (b, ?sm) \<in> {Blocked, Panic}"
    unfolding broker_PublishWillMessage_def fst_conv snd_conv
    by - (rule go_bind_stuck, simp add: store_retained_not_Err,
        rule go_bind_stuck, simp add: routePublish_not_Err assms(5), auto)
  then show ?thesis
    using assms(1-3)
    by (auto simp: DisconnectSession_def disconnect_will_def PublishWillMessage_def publishImmediately_def Let_def)
qed

definition sample_env :: "PersistentSession env" where
  "sample_env = \<lparr>ev_enc = Some, ev_dec = Some, ev_lib = no_library, ev_hooks = idle_hooks, ev_now = 9, ev_unixNano = 1700000000000000000, ev_newID = ''m''\<rparr>"

definition will_of_c :: WillMessage where
  "will_of_c = \<lparr>wm_Topic = ''w'', wm_Payload = [], wm_QoS = 0, wm_Retain = False, wm_DelayInterval = 0\<rparr>"

definition will_manager :: "PersistentSession SessionManager" where
  "will_manager = (NewSessionManager NewMemStore None)
     \<lparr>sm_activeSessions := [(''c'', sample_session\<lparr>ps_WillMessage := Some will_of_c\<rparr>)]\<rparr>"

theorem will_self_deadlock_witness:
  "DisconnectSession (ev_enc sample_env) (Some (broker_PublishWillMessage sample_env)) 9 ''c'' False (sample_broker, will_manager)
     \<in> {Blocked, Panic}"
  by (rule will_self_deadlock [where s = "sample_session\<lparr>ps_WillMessage := Some will_of_c\<rparr>" and wm = will_of_c])
    (simp_all add: will_manager_def will_of_c_def sample_env_def idle_hooks_def quiet_def NewSessionManager_def PersistDefaultConfig_def)

section \<open>Duplicates are suppressed for thirty seconds\<close>

text \<open>Calls of \<open>markAndCheckDuplicate\<close> in order: the time, the client and the packet identifier.\<close>

type_synonym mark = "time \<times> string \<times> uint16"

definition run_marks :: "mark list \<Rightarrow> Broker \<Rightarrow> Broker" where
  "run_marks h b = foldl (\<lambda>b (now, cid, pid). snd (markAndCheckDuplicate now cid pid b)) b h"

definition last_mark :: "mark list \<Rightarrow> string \<Rightarrow> uint16 \<Rightarrow> time option" where
  "last_mark h cid pid = map_option fst (find (\<lambda>(_, cid', pid'). cid' = cid \<and> pid' = pid) (rev h))"

lemma last_mark_snoc: "last_mark (h @ [(now, c, p)]) cid pid = (if cid = c \<and> pid = p then Some now else last_mark h cid pid)"
  by (auto simp: last_mark_def)

definition marked :: "Broker \<Rightarrow> string \<Rightarrow> uint16 \<Rightarrow> time option" where
  "marked b cid pid = gm_get (gm_get0 [] (b_processedQoS1 b) cid) pid"

definition marks_ok :: "mark list \<Rightarrow> Broker \<Rightarrow> bool" where
  "marks_ok h b =
     ((\<forall>cid. gm_wf (gm_get0 [] (b_processedQoS1 b) cid) \<and> marked b cid 0 = None)
      \<and> (\<forall>cid pid t. marked b cid pid = Some t \<longrightarrow> last_mark h cid pid = Some t)
      \<and> (\<forall>cid pid t now. pid \<noteq> 0 \<longrightarrow> last_mark h cid pid = Some t \<longrightarrow> (\<forall>m \<in> set h. fst m \<le> now) \<longrightarrow>
            now - t < qosDuplicateWindow \<longrightarrow> marked b cid pid = Some t))"

lemma gm_get_filter_snd: "gm_wf m \<Longrightarrow> gm_get (filter (\<lambda>(k, v). P v) m) k =
    (case gm_get m k of None \<Rightarrow> None | Some v \<Rightarrow> if P v then Some v else None)"
  by (induction m) (auto split: option.splits simp: map_of_eq_None_iff image_iff)

lemma gm_wf_filter: "gm_wf m \<Longrightarrow> gm_wf (filter P m)"
  by (induction m) auto

lemma marked_after:
  assumes "pid \<noteq> 0" and wf: "gm_wf (gm_get0 [] (b_processedQoS1 b) cid)"
  shows "fst (markAndCheckDuplicate now cid pid b) \<longleftrightarrow> (\<exists>t. marked b cid pid = Some t \<and> now - t < qosDuplicateWindow)"
    and "marked (snd (markAndCheckDuplicate now cid pid b)) cid' pid' =
      (if cid' = cid \<and> pid' = pid then Some now
       else if cid' = cid \<and> \<not> fst (markAndCheckDuplicate now cid pid b)
       then (case marked b cid' pid' of None \<Rightarrow> None | Some t \<Rightarrow> if now - t < qosDuplicateWindow then Some t else None)
       else marked b cid' pid')"
  using assms by (auto simp: markAndCheckDuplicate_def marked_def Let_def gm_get0_def gm_get_filter_snd split: option.splits)

lemma mark_zero [simp]: "markAndCheckDuplicate now cid 0 b = (False, b)"
  by (simp add: markAndCheckDuplicate_def)

lemma mark_wf:
  assumes "\<forall>cid. gm_wf (gm_get0 [] (b_processedQoS1 b) cid)"
  shows "gm_wf (gm_get0 [] (b_processedQoS1 (snd (markAndCheckDuplicate now cid pid b))) cid')"
  using assms by (auto simp: markAndCheckDuplicate_def gm_get0_def Let_def gm_wf_filter split: option.splits)

lemma marks_ok_marked: "marks_ok h b \<Longrightarrow> marked b cid pid = Some t \<Longrightarrow> last_mark h cid pid = Some t \<and> pid \<noteq> 0"
  unfolding marks_ok_def by (metis option.distinct(1))

lemma marks_ok_recent:
  "marks_ok h b \<Longrightarrow> pid \<noteq> 0 \<Longrightarrow> last_mark h cid pid = Some t \<Longrightarrow> \<forall>m \<in> set h. fst m \<le> now
    \<Longrightarrow> now - t < qosDuplicateWindow \<Longrightarrow> marked b cid pid = Some t"
  unfolding marks_ok_def by blast

lemma marks_ok_wf: "marks_ok h b \<Longrightarrow> gm_wf (gm_get0 [] (b_processedQoS1 b) cid)"
  unfolding marks_ok_def by blast

lemma marks_okI:
  assumes "\<And>cid. gm_wf (gm_get0 [] (b_processedQoS1 b) cid)"
    and "\<And>cid pid t. marked b cid pid = Some t \<Longrightarrow> last_mark h cid pid = Some t \<and> pid \<noteq> 0"
    and "\<And>cid pid t now. pid \<noteq> 0 \<Longrightarrow> last_mark h cid pid = Some t \<Longrightarrow> \<forall>m \<in> set h. fst m \<le> now
        \<Longrightarrow> now - t < qosDuplicateWindow \<Longrightarrow> marked b cid pid = Some t"
  shows "marks_ok h b"
proof -
  have "marked b cid 0 = None" for cid using assms(2) [of cid 0] by (cases "marked b cid 0") auto
  then show ?thesis unfolding marks_ok_def using assms by blast
qed

lemma marks_ok_step:
  assumes ok: "marks_ok h b" and late: "\<forall>m \<in> set h. fst m \<le> now"
  shows "marks_ok (h @ [(now, c, p)]) (snd (markAndCheckDuplicate now c p b))"
proof (rule marks_okI)
  let ?b = "snd (markAndCheckDuplicate now c p b)"
  have wf: "gm_wf (gm_get0 [] (b_processedQoS1 b) cid)" for cid by (rule marks_ok_wf [OF ok])
  then show "gm_wf (gm_get0 [] (b_processedQoS1 ?b) cid)" for cid by (intro mark_wf) blast
  have other: "marked ?b cid pid = Some t \<Longrightarrow> \<not> (cid = c \<and> pid = p) \<Longrightarrow> marked b cid pid = Some t" for cid pid t
    by (cases "p = 0") (auto simp: marked_after(2) [OF _ wf] split: if_splits option.splits)
  show "last_mark (h @ [(now, c, p)]) cid pid = Some t \<and> pid \<noteq> 0" if "marked ?b cid pid = Some t" for cid pid t
  proof (cases "cid = c \<and> pid = p")
    case True
    have "p \<noteq> 0"
    proof
      assume "p = 0"
      with that True marks_ok_marked [OF ok, of c 0 t] show False by simp
    qed
    with that True show ?thesis by (simp add: marked_after(2) [OF _ wf] last_mark_snoc)
  next
    case False
    then show ?thesis using marks_ok_marked [OF ok other [OF that False]] by (auto simp: last_mark_snoc)
  qed
  show "marked ?b cid pid = Some t"
    if pid: "pid \<noteq> 0" and t: "last_mark (h @ [(now, c, p)]) cid pid = Some t"
      and le: "\<forall>m \<in> set (h @ [(now, c, p)]). fst m \<le> now'" and near: "now' - t < qosDuplicateWindow" for cid pid t now'
  proof (cases "cid = c \<and> pid = p")
    case True
    with pid t show ?thesis by (simp add: marked_after(2) [OF _ wf] last_mark_snoc)
  next
    case False
    then have "marked b cid pid = Some t"
      using t le by (intro marks_ok_recent [OF ok pid _ _ near]) (auto simp: last_mark_snoc)
    moreover have "now - t < qosDuplicateWindow" using le near by simp
    ultimately show ?thesis using False by (cases "p = 0") (auto simp: marked_after(2) [OF _ wf])
  qed
qed

lemma marks_ok_run: "sorted (map fst h) \<Longrightarrow> b_processedQoS1 b = [] \<Longrightarrow> marks_ok h (run_marks h b)"
proof (induction h rule: rev_induct)
  case Nil
  then show ?case by (simp add: marks_ok_def run_marks_def marked_def last_mark_def)
next
  case (snoc m h)
  obtain now c p where m: "m = (now, c, p)" by (cases m) auto
  have "marks_ok h (run_marks h b)" using snoc by (auto simp: sorted_append)
  moreover have "\<forall>m \<in> set h. fst m \<le> now" using snoc.prems(1) by (auto simp: sorted_append m)
  ultimately show ?case using marks_ok_step by (simp add: m run_marks_def)
qed



section \<open>Session takeover\<close>

lemma fresh_mailbox_new: "gm_get boxes mb = Some box \<Longrightarrow> mb \<noteq> fresh_mailbox boxes"
  unfolding fresh_mailbox_def by (rule fresh_key_new)

section \<open>Mailboxes of the subscription table\<close>

definition subs_known :: "(mailbox \<Rightarrow> bool) \<Rightarrow> Subscription list \<Rightarrow> bool" where
  "subs_known P subs = list_all (\<lambda>sub. P (sub_Mailbox sub)) subs"

text \<open>Every mailbox in the table satisfies \<open>P\<close>; the property used is that the mailbox exists.\<close>

definition known :: "(mailbox \<Rightarrow> bool) \<Rightarrow> Store \<Rightarrow> bool" where
  "known P s =
     (list_all (\<lambda>(f, l). subs_known P l) (subscriptions s)
      \<and> list_all (\<lambda>(k, sh). subs_known P (sh_Mailboxes sh)) (sharedSubscriptions s))"

lemma list_all_gm_set: "list_all Q m \<Longrightarrow> Q (k, v) \<Longrightarrow> list_all Q (gm_set m k v)"
  by (induction m) auto

lemma list_all_gm_del: "list_all Q m \<Longrightarrow> list_all Q (gm_del m k)"
  by (auto simp: list_all_iff set_gm_del)

lemma list_all_gm_get: "list_all (\<lambda>(k, v). Q v) m \<Longrightarrow> gm_get m k = Some v \<Longrightarrow> Q v"
  by (auto simp: list_all_iff dest!: gm_get_in)

lemma list_all_gm_filter_map:
  "list_all (\<lambda>(k, v). Q v) m \<Longrightarrow> (\<And>k v w. Q v \<Longrightarrow> f k v = Some w \<Longrightarrow> Q w) \<Longrightarrow> list_all (\<lambda>(k, v). Q v) (gm_filter_map f m)"
proof (induction m)
  case (Cons p m)
  then show ?case by (cases p) (simp split: option.split, blast)
qed simp

lemma subs_known_rules [simp]:
  "subs_known P []" "subs_known P (xs @ ys) \<longleftrightarrow> subs_known P xs \<and> subs_known P ys"
  "subs_known P (x # xs) \<longleftrightarrow> P (sub_Mailbox x) \<and> subs_known P xs"
  by (auto simp: subs_known_def)

lemma subs_known_add: "subs_known P subs \<Longrightarrow> P mb \<Longrightarrow> subs_known P (addOrUpdateSubscription subs mb q)"
  by (induction subs) auto

lemma subs_known_drop: "subs_known P subs \<Longrightarrow> subs_known P (drop_mailbox mb subs)"
  by (auto simp: subs_known_def drop_mailbox_def list_all_iff)

lemma known_NewStore [simp]: "known P NewStore"
  by (simp add: known_def NewStore_def)

lemma known_mono: "known P s \<Longrightarrow> (\<And>mb. P mb \<Longrightarrow> Q mb) \<Longrightarrow> known Q s"
  by (auto simp: known_def subs_known_def list_all_iff)

lemma known_regular: "known P s \<Longrightarrow> gm_get (subscriptions s) f = Some l \<Longrightarrow> subs_known P l"
  unfolding known_def by (blast intro: list_all_gm_get [where Q = "subs_known P"])

lemma known_shared: "known P s \<Longrightarrow> gm_get (sharedSubscriptions s) k = Some sh \<Longrightarrow> subs_known P (sh_Mailboxes sh)"
  unfolding known_def by (blast intro: list_all_gm_get [where Q = "\<lambda>sh. subs_known P (sh_Mailboxes sh)"])

lemma known_regular0: "known P s \<Longrightarrow> subs_known P (gm_get0 [] (subscriptions s) f)"
  by (auto simp: gm_get0_def known_regular split: option.splits)

lemma known_updates:
  "known P s \<Longrightarrow> subs_known P l \<Longrightarrow> known P (s\<lparr>subscriptions := gm_set (subscriptions s) f l\<rparr>)"
  "known P s \<Longrightarrow> known P (s\<lparr>subscriptions := gm_del (subscriptions s) f\<rparr>)"
  "known P s \<Longrightarrow> subs_known P (sh_Mailboxes sh) \<Longrightarrow> known P (s\<lparr>sharedSubscriptions := gm_set (sharedSubscriptions s) k sh\<rparr>)"
  "known P s \<Longrightarrow> known P (s\<lparr>sharedSubscriptions := gm_del (sharedSubscriptions s) k\<rparr>)"
  by (auto simp: known_def list_all_gm_set list_all_gm_del)

lemma known_Subscribe: "known P s \<Longrightarrow> P mb \<Longrightarrow> known P (Subscribe s f mb q)"
  by (auto simp: Subscribe_def subscribeShared_def Let_def known_regular0 subs_known_add known_shared
      intro!: known_updates split: option.splits)

lemma known_shrink: "subs_known P (sh_Mailboxes sh) \<Longrightarrow> shrink_shared mb sh = Some sh' \<Longrightarrow> subs_known P (sh_Mailboxes sh')"
  by (auto simp: shrink_shared_def Let_def subs_known_drop split: if_splits)

lemma known_unsubscribe_regular: "known P s \<Longrightarrow> known P (unsubscribe_regular s f mb)"
  by (auto simp: unsubscribe_regular_def Let_def known_regular subs_known_drop intro!: known_updates split: option.splits)

lemma known_Unsubscribe: "known P s \<Longrightarrow> known P (Unsubscribe s f mb)"
  by (auto simp: Unsubscribe_def unsubscribeShared_def known_unsubscribe_regular Let_def
      intro!: known_updates intro: known_shrink known_shared split: option.splits)

lemma known_RemoveAll: "known P s \<Longrightarrow> known P (fst (RemoveAllSubscriptions s mbo))"
  by (cases mbo)
    (auto simp: known_def RemoveAllSubscriptions_def remove_from_list_def remove_from_shared_def Let_def subs_known_drop known_shrink
      intro!: list_all_gm_filter_map [where Q = "subs_known P"] list_all_gm_filter_map [where Q = "\<lambda>sh. subs_known P (sh_Mailboxes sh)"]
      split: if_splits)

lemma known_GetSubscribers:
  assumes inv: "store_inv s" and known: "known P s"
  shows "subs_known P (regular_subscribers s topic @ shared_choice s topic)" and "known P (after_publish s topic)"
proof -
  have "P (sub_Mailbox (chosen sh))" if "(k, sh) \<in> set (sharedSubscriptions s)" for k sh
  proof -
    have "gm_get (sharedSubscriptions s) k = Some sh" using that inv by (simp add: store_inv_def gm_get_iff)
    then have "sh_NextIndex sh < length (sh_Mailboxes sh)" using store_invD(4) [OF inv] by (simp add: shared_ok_def)
    then show ?thesis using known that by (auto simp: known_def subs_known_def list_all_iff chosen_def)
  qed
  then show "subs_known P (regular_subscribers s topic @ shared_choice s topic)"
    using known by (auto simp: known_def subs_known_def list_all_iff regular_subscribers_def shared_choice_def)
  show "known P (after_publish s topic)"
    using known by (auto simp: known_def after_publish_def list_all_iff)
qed

lemma known_subscribed: "known P s \<Longrightarrow> subscribed s f mb \<noteq> None \<Longrightarrow> P mb"
proof -
  have find: "lookup_sub mb subs \<noteq> None \<Longrightarrow> subs_known P subs \<Longrightarrow> P mb" for subs
    by (induction subs) (auto split: if_splits)
  assume known: "known P s" and "subscribed s f mb \<noteq> None"
  moreover have "subs_known P (subscribers_of s f)"
    using known by (auto simp: subscribers_of_def known_regular0 known_shared split: option.splits)
  ultimately show "P mb" using find by (simp add: subscribed_def)
qed

section \<open>The invariant of the broker\<close>

abbreviation box_exists :: "Broker \<Rightarrow> mailbox \<Rightarrow> bool" where
  "box_exists b mb \<equiv> gm_get (b_mailboxes b) mb \<noteq> None"

definition tasks_ok :: "Broker \<Rightarrow> bool" where
  "tasks_ok b = (\<forall>mb fs. TSendRetained mb fs \<in> set (b_tasks b) \<longrightarrow> box_exists b mb)"

definition broker_inv :: "Broker \<Rightarrow> bool" where
  "broker_inv b =
     (store_inv (b_topics b) \<and> mem_inv (b_sessions b) \<and> known (box_exists b) (b_topics b)
      \<and> (\<forall>cid mb. Get (b_sessions b) cid = Ok mb \<longrightarrow> box_exists b mb)
      \<and> (\<forall>cid cb. gm_get (om_deliveryCallbacks (b_offlineMessageMgr b)) cid = Some cb \<longrightarrow> cb = deliverOfflineMessage)
      \<and> tasks_ok b)"

lemma broker_invD:
  assumes "broker_inv b"
  shows "store_inv (b_topics b)" and "mem_inv (b_sessions b)" and "known (box_exists b) (b_topics b)"
    and "Get (b_sessions b) cid = Ok mb \<Longrightarrow> box_exists b mb"
    and "gm_get (om_deliveryCallbacks (b_offlineMessageMgr b)) cid = Some cb \<Longrightarrow> cb = deliverOfflineMessage"
    and "tasks_ok b"
  using assms unfolding broker_inv_def by blast+

lemma broker_inv_New: "broker_inv (fst (New_broker now n cl))"
  by (simp add: broker_inv_def New_broker_def store_inv_NewStore mem.inv_empty mem.get_empty tasks_ok_def)

text \<open>Mailboxes are never taken away.\<close>

definition grows :: "Broker \<Rightarrow> Broker \<Rightarrow> bool" where
  "grows b b' \<longleftrightarrow> (\<forall>mb. box_exists b mb \<longrightarrow> box_exists b' mb)"

lemma grows_refl [simp]: "grows b b"
  by (simp add: grows_def)

lemma grows_trans: "grows b b' \<Longrightarrow> grows b' b'' \<Longrightarrow> grows b b''"
  by (simp add: grows_def)

end
