(* ===== verification/Connection.thy ===== *)
theory Connection
  imports Broker
begin

text \<open>
  The connection handler, \<open>handleConnection\<close> in \<open>pkg/broker/broker.go\<close>: the loop that reads
  packets from a client and acts on the broker, one definition per packet type, and the protocol
  state machine in front of them.

  Reading bytes and encoding packets is the work of a packet library, so the input of the model is
  what \<open>readPacket\<close> returned and the output the list of packets that \<open>writePacket\<close> wrote. A write
  succeeds as long as the connection is writable. A handler says how the loop goes on: with the
  next packet (\<open>Continue\<close>), by \<open>return\<close> (\<open>Return\<close>, the connection closes and nothing else happens) or
  by \<open>break\<close> (\<open>Break\<close>, the session is cleaned up).
\<close>

section \<open>Packets and connections\<close>

record ConnectParams =
  cp_ClientIdentifier :: string
  cp_Clean :: bool
  cp_Keepalive :: uint16
  cp_UsernameFlag :: bool
  cp_PasswordFlag :: bool
  cp_Username :: string
  cp_Password :: string
  cp_WillFlag :: bool
  cp_WillTopic :: string
  cp_WillPayload :: "byte list"
  cp_WillQos :: byte
  cp_WillRetain :: bool
  cp_RequestResponseInfo :: byte

datatype in_packet =
    IConnect ConnectParams
  | ISubscribe uint16 "(string \<times> byte) list" string
  | IPublish bool Packet
  | IPuback uint16
  | IPubrec uint16
  | IPubrel uint16
  | IPubcomp uint16
  | IPingreq
  | IUnsubscribe uint16 "string list"
  | IDisconnect
  | IOther

text \<open>What \<open>readPacket\<close> returns: a packet or one of the kinds of error the loop tells apart.\<close>

datatype read_result = RPacket in_packet | RTimeout | REOF | RViolation | RError

datatype out_packet =
    OConnack byte "(uint16 \<times> string option) option"
  | OSuback uint16 "byte list"
  | OPuback uint16 byte
  | OPubrec uint16 byte
  | OPubrel uint16
  | OPubcomp uint16
  | OPingresp
  | OUnsuback uint16 "byte list"
  | ODisconnect byte

record Conn =
  cn_remote :: string
  cn_clientID :: string
  cn_mailbox :: "mailbox option"
  cn_keepAlive :: duration
  cn_writable :: bool
  cn_written :: "out_packet list"

datatype verdict = Continue | Return | Break

type_synonym 'd handled = "(string, verdict \<times> Conn \<times> 'd broker) go"

definition new_conn :: "string \<Rightarrow> Conn" where
  "new_conn remote = \<lparr>cn_remote = remote, cn_clientID = [], cn_mailbox = None, cn_keepAlive = 0,
     cn_writable = True, cn_written = []\<rparr>"

text \<open>\<open>writePacket\<close> has no case for DISCONNECT.\<close>

definition writePacket :: "Conn \<Rightarrow> out_packet \<Rightarrow> (string, Conn) go" where
  "writePacket c pk =
     (case pk of
        ODisconnect _ \<Rightarrow> Err ''unsupported packet type for writing''
      | _ \<Rightarrow> if cn_writable c then Ok (c\<lparr>cn_written := cn_written c @ [pk]\<rparr>) else Err ''write error'')"

text \<open>A reply whose outcome is ignored.\<close>

definition reply :: "Conn \<Rightarrow> out_packet \<Rightarrow> Conn" where
  "reply c pk = (case writePacket c pk of Ok c' \<Rightarrow> c' | _ \<Rightarrow> c)"

text \<open>A reply after which the loop goes on if the write succeeded and returns otherwise.\<close>

definition reply_or_return :: "Conn \<Rightarrow> out_packet \<Rightarrow> 'd broker \<Rightarrow> 'd handled" where
  "reply_or_return c pk st =
     (case writePacket c pk of Ok c' \<Rightarrow> Ok (Continue, c', st) | _ \<Rightarrow> Ok (Return, c, st))"

definition client_ip :: "Conn \<Rightarrow> string" where
  "client_ip c = hd (go_split (CHR '':'') (cn_remote c))"

section \<open>CONNECT\<close>

fun hex_digits :: "nat \<Rightarrow> string \<Rightarrow> string" where
  "hex_digits n acc =
     (let d = (''0123456789abcdef'' ! (n mod 16)) # acc in if n < 16 then d else hex_digits (n div 16) d)"

declare hex_digits.simps [simp del]

text \<open>\<open>generateClientID\<close> from a reading of the clock in nanoseconds of Unix time.\<close>

definition generateClientID :: "int \<Rightarrow> (string, string) go" where
  "generateClientID nano =
     (let timestamp = show_int nano
      in if length timestamp < 8 then Panic
         else Ok (''auto-'' @ drop (length timestamp - 8) timestamp @ ''-'' @ hex_digits (nat (nano mod 65535)) []))"

text \<open>
  The checks before anything is looked up: the refusal with its CONNACK code, if one is sent, or
  the client identifier, user name and password to go on with.
\<close>

datatype 'a checked = Refuse "byte option" | Accept 'a

definition connect_checks :: "int \<Rightarrow> ConnectParams \<Rightarrow> (string, (string \<times> string \<times> string) checked) go" where
  "connect_checks nano cp =
     (if length (cp_ClientIdentifier cp) > 65535 then Ok (Refuse None)
      else if length (cp_WillTopic cp) > 65535 \<or> length (cp_WillPayload cp) > 65535 then Ok (Refuse None)
      else if cp_ClientIdentifier cp = [] \<and> \<not> cp_Clean cp then Ok (Refuse (Some 0x85))
      else go_bind (if cp_ClientIdentifier cp = [] then generateClientID nano else Ok (cp_ClientIdentifier cp)) (\<lambda>connectClientID.
        if cp_PasswordFlag cp \<and> \<not> cp_UsernameFlag cp then Ok (Refuse (Some 0x85))
        else if \<not> cp_UsernameFlag cp \<and> length (cp_Password cp) > 0 then Ok (Refuse (Some 0x84))
        else Ok (Accept (connectClientID, if cp_UsernameFlag cp then cp_Username cp else [],
                                          if cp_PasswordFlag cp then cp_Password cp else []))))"

definition bypass_prefixes :: "string list" where
  "bypass_prefixes = [''fuzz'', ''mbfuzzer'', ''defensics'', ''pubfuzz'', ''subfuzz'', ''qosfuzz'', ''topicfuzz'', ''pktfuzz'',
     ''race-client'', ''flood-client'', ''qos-test'', ''packetid-test'']"

definition connect_auth :: "AuthChain \<Rightarrow> string \<Rightarrow> string \<Rightarrow> string \<Rightarrow> AuthResult" where
  "connect_auth ac connectClientID username password =
     (if list_ex (has_prefix connectClientID) bypass_prefixes then AuthIgnore
      else AuthChain_Authenticate ac username password)"

fun connack_code :: "AuthResult \<Rightarrow> byte" where
  "connack_code AuthSuccess = 0"
| "connack_code AuthFailure = 0x84"
| "connack_code AuthError = 0x80"
| "connack_code AuthIgnore = 0"

definition connack :: "string \<Rightarrow> byte \<Rightarrow> byte \<Rightarrow> out_packet" where
  "connack nodeID requestResponseInfo code =
     OConnack code
       (if code = 0
        then Some (100, if requestResponseInfo = 1 then Some (''response-info://'' @ nodeID @ ''/response/'') else None)
        else None)"

definition session_expiry :: "uint16 \<Rightarrow> duration" where
  "session_expiry keepalive =
     (let connectKeepAlive = int (unat keepalive) * second
      in if connectKeepAlive > 0 then connectKeepAlive * 2 else 24 * hour)"

definition connect_will :: "ConnectParams \<Rightarrow> string \<Rightarrow> 'd SessionManager \<Rightarrow> 'd SessionManager" where
  "connect_will cp clientID sm =
     (if cp_WillFlag cp \<and> length (cp_WillTopic cp) > 0 \<and> cp_WillQos cp \<le> 2
      then (case SetWillMessage sm clientID (cp_WillTopic cp) (cp_WillPayload cp) (cp_WillQos cp) (cp_WillRetain cp) 0 of
              Ok sm' \<Rightarrow> sm' | _ \<Rightarrow> sm)
      else sm)"

text \<open>What follows the CONNACK: the persistent session, the will, the actor, the subscriptions.\<close>

definition establish :: "'d env \<Rightarrow> ConnectParams \<Rightarrow> string \<Rightarrow> 'd broker \<Rightarrow> (string, mailbox \<times> 'd broker) go" where
  "establish ev cp clientID st =
     (let (persistentSession, sm1) = CreateOrResumeSession (ev_enc ev) (ev_dec ev) (ev_now ev) (snd st) clientID
            (cp_Clean cp) (session_expiry (cp_Keepalive cp));
          shouldDeliverOffline = (\<not> cp_Clean cp \<and> length (ps_MessageQueue persistentSession) > 0);
          sm2 = connect_will cp clientID sm1
      in go_bind (registerSession clientID 4 (fst st)) (\<lambda>(mb, b1).
           let b2 = b1\<lparr>b_topicAliasManagers := gm_set (b_topicAliasManagers b1) clientID (newClientTopicAliasManager 100),
                      b_offlineMessageMgr := SetDeliveryCallback (b_offlineMessageMgr b1) clientID deliverOfflineMessage\<rparr>;
               b3 = (if \<not> cp_Clean cp
                     then b2\<lparr>b_topics := foldl (\<lambda>s (topic, qos). Subscribe s topic mb qos) (b_topics b2)
                                          (ps_Subscriptions persistentSession)\<rparr>
                     else b2);
               b4 = (if shouldDeliverOffline then spawn (TDeliverOffline clientID) b3 else b3)
           in Ok (mb, b4, sm2)))"

definition note_block :: "BlacklistBlock option \<Rightarrow> Broker \<Rightarrow> Broker" where
  "note_block blk b = (case blk of None \<Rightarrow> b | Some bl \<Rightarrow> spawn (TRecordBlock bl) b)"

definition handle_connect :: "'d env \<Rightarrow> ConnectParams \<Rightarrow> Conn \<Rightarrow> 'd broker \<Rightarrow> 'd handled" where
  "handle_connect ev cp c st =
     go_bind (connect_checks (ev_unixNano ev) cp) (\<lambda>r. case r of
        Refuse None \<Rightarrow> Ok (Return, c, st)
      | Refuse (Some code) \<Rightarrow> Ok (Return, reply c (OConnack code None), st)
      | Accept (clientID, username, password) \<Rightarrow>
          (case mw_CheckClientConnection (ev_lib ev) (ev_now ev) (b_blacklistMiddleware (fst st)) clientID username (client_ip c) ''mqtt'' of
             (allowed, _, blk) \<Rightarrow>
               let b = note_block blk (fst st)
               in if \<not> allowed then Ok (Return, c, b, snd st)
                  else
                    let code = connack_code (connect_auth (b_authChain b) clientID username password)
                    in case writePacket c (connack (b_nodeID b) (cp_RequestResponseInfo cp) code) of
                         Ok c1 \<Rightarrow>
                           if code \<noteq> 0 then Ok (Return, c1, b, snd st)
                           else go_bind (establish ev cp clientID (b, snd st)) (\<lambda>(mb, st').
                                  Ok (Continue, c1\<lparr>cn_clientID := clientID, cn_mailbox := Some mb,
                                        cn_keepAlive := int (unat (cp_Keepalive cp)) * second\<rparr>, st'))
                       | _ \<Rightarrow> Ok (Return, c, b, snd st)))"

section \<open>SUBSCRIBE and UNSUBSCRIBE\<close>

definition malicious :: "string \<Rightarrow> bool" where
  "malicious s =
     (str_contains s ''../'' \<or> str_contains s (''..'' @ [CHR 0x5C]) \<or> str_contains s ''$('' \<or>
      str_contains s [CHR 0x27, CHR '';''] \<or> str_contains s ''<script'' \<or>
      contains_any s [CHR 0x00, CHR 0x01, CHR 0x02, CHR 0x03, CHR 0x04, CHR 0x05])"

definition hash_misplaced :: "string \<Rightarrow> bool" where
  "hash_misplaced flt =
     (str_contains flt ''#'' \<and> (\<not> has_suffix flt ''#'' \<or> length flt > 1 \<and> \<not> has_suffix flt ''/#''))"

definition plus_misplaced :: "string \<Rightarrow> bool" where
  "plus_misplaced flt =
     (str_contains flt ''+'' \<and> list_ex (\<lambda>part. str_contains part ''+'' \<and> part \<noteq> ''+'') (go_split (CHR ''/'') flt))"

text \<open>The refusal code of a filter, if it is refused, and the block to be recorded.\<close>

definition check_filter :: "'d env \<Rightarrow> Conn \<Rightarrow> Broker \<Rightarrow> string \<times> byte \<Rightarrow> byte option \<times> BlacklistBlock option" where
  "check_filter ev c b sub =
     (case sub of (flt, qos) \<Rightarrow>
        if flt = [] then (Some 0x83, None)
        else if qos > 2 then (Some 0x80, None)
        else if hash_misplaced flt then (Some 0x83, None)
        else if plus_misplaced flt then (Some 0x83, None)
        else if malicious flt then (Some 0x87, None)
        else case CheckSubscribeAccess (ev_now ev) (b_blacklistMiddleware b) (cn_clientID c) [] (client_ip c) flt of
               (allowed, _, blk) \<Rightarrow> (if allowed then None else Some 0x87, blk))"

text \<open>The loop over the filters: the broker, the reason codes and the routes to announce.\<close>

fun subscribe_filters :: "'d env \<Rightarrow> Conn \<Rightarrow> mailbox \<Rightarrow> (string \<times> byte) list \<Rightarrow> 'd broker \<Rightarrow> 'd broker \<times> byte list \<times> string list" where
  "subscribe_filters ev c mb [] st = (st, [], [])"
| "subscribe_filters ev c mb (sub # rest) st =
     (case check_filter ev c (fst st) sub of
        (Some code, blk) \<Rightarrow>
          (case subscribe_filters ev c mb rest (note_block blk (fst st), snd st) of (st', codes, routes) \<Rightarrow> (st', code # codes, routes))
      | (None, blk) \<Rightarrow>
          (let b = note_block blk (fst st);
               b1 = b\<lparr>b_topics := Subscribe (b_topics b) (fst sub) mb (snd sub)\<rparr>;
               sm1 = (case AddSubscription (ev_enc ev) (ev_now ev) (snd st) (cn_clientID c) (fst sub) (snd sub) of
                        Ok sm' \<Rightarrow> sm' | _ \<Rightarrow> snd st)
           in case subscribe_filters ev c mb rest (b1, sm1) of (st', codes, routes) \<Rightarrow> (st', snd sub # codes, fst sub # routes)))"

definition broadcast_routes :: "string list \<Rightarrow> Broker \<Rightarrow> Broker" where
  "broadcast_routes routes b =
     (case b_cluster b of
        None \<Rightarrow> b
      | Some m \<Rightarrow> b\<lparr>b_tasks := b_tasks b @ map TCall
          (BroadcastRouteUpdate m (map (\<lambda>f. \<lparr>rt_Topic = f, rt_NodeIds = [b_nodeID b]\<rparr>) routes))\<rparr>)"

definition handle_subscribe :: "'d env \<Rightarrow> uint16 \<Rightarrow> (string \<times> byte) list \<Rightarrow> string \<Rightarrow> Conn \<Rightarrow> 'd broker \<Rightarrow> 'd handled" where
  "handle_subscribe ev packetID filters reasonString c st =
     (case cn_mailbox c of
        None \<Rightarrow> Ok (Return, c, st)
      | Some mb \<Rightarrow>
          if packetID = 0 then Ok (Return, reply c (OSuback 1 [0x80]), st)
          else if filters = []
          then if reasonString = ''QoS_PARSE_ERROR'' then Ok (Continue, reply c (OSuback packetID [0x80]), st)
               else Ok (Return, reply c (OSuback packetID [0x83]), st)
          else
            (case subscribe_filters ev c mb filters st of
               ((b1, sm1), reasonCodes, newRoutes) \<Rightarrow>
                 let b2 = broadcast_routes newRoutes b1
                 in case writePacket c (OSuback packetID reasonCodes) of
                      Ok c' \<Rightarrow> Ok (Continue, c', spawn (TSendRetained mb filters) b2, sm1)
                    | _ \<Rightarrow> Ok (Return, c, b2, sm1)))"

fun unsubscribe_filters :: "'d env \<Rightarrow> Conn \<Rightarrow> mailbox \<Rightarrow> string list \<Rightarrow> 'd broker \<Rightarrow> 'd broker \<times> byte list" where
  "unsubscribe_filters ev c mb [] st = (st, [])"
| "unsubscribe_filters ev c mb (topicFilter # rest) st =
     (if topicFilter = []
      then (case unsubscribe_filters ev c mb rest st of (st', codes) \<Rightarrow> (st', 0x11 # codes))
      else
        let b1 = (fst st)\<lparr>b_topics := Unsubscribe (b_topics (fst st)) topicFilter mb\<rparr>
        in case RemoveSubscription (ev_enc ev) (ev_now ev) (snd st) (cn_clientID c) topicFilter of
             Ok sm1 \<Rightarrow> (case unsubscribe_filters ev c mb rest (b1, sm1) of (st', codes) \<Rightarrow> (st', 0 # codes))
           | _ \<Rightarrow> (case unsubscribe_filters ev c mb rest (b1, snd st) of (st', codes) \<Rightarrow> (st', 0x80 # codes)))"

definition handle_unsubscribe :: "'d env \<Rightarrow> uint16 \<Rightarrow> string list \<Rightarrow> Conn \<Rightarrow> 'd broker \<Rightarrow> 'd handled" where
  "handle_unsubscribe ev packetID filters c st =
     (case cn_mailbox c of
        None \<Rightarrow> Ok (Return, c, st)
      | Some mb \<Rightarrow>
          if packetID = 0 then Ok (Return, reply c (OUnsuback 1 [0x80]), st)
          else if filters = [] then Ok (Return, reply c (OUnsuback packetID [0x83]), st)
          else (case unsubscribe_filters ev c mb filters st of
                  (st', reasonCodes) \<Rightarrow> reply_or_return c (OUnsuback packetID reasonCodes) st'))"

section \<open>PUBLISH\<close>

text \<open>The answer to a refused publish: PUBREC for QoS 2, PUBACK for QoS 1, none for QoS 0.\<close>

definition refuse_publish :: "Conn \<Rightarrow> byte \<Rightarrow> uint16 \<Rightarrow> byte \<Rightarrow> Conn" where
  "refuse_publish c qos packetID code =
     (if qos > 0 then reply c (if qos = 2 then OPubrec packetID code else OPuback packetID code) else c)"

definition maxMessageSize :: nat where
  "maxMessageSize = 1024 * 1024"

text \<open>The checks of a publish in order; a refused one closes the connection.\<close>

definition publish_checks :: "bool \<Rightarrow> Packet \<Rightarrow> Conn \<Rightarrow> Conn option" where
  "publish_checks dup pk c =
     (let qos = pk_Qos pk; topic = pk_TopicName pk
      in if topic = [] then Some (refuse_publish c qos (pk_PacketID pk) 0x82)
         else if qos > 2 then Some (reply c (ODisconnect 0x81))
         else if qos > 0 \<and> pk_PacketID pk = 0 then Some (refuse_publish c qos 1 0x82)
         else if dup \<and> qos = 0 then Some c
         else if str_contains topic ''#'' \<or> str_contains topic ''+'' then Some (refuse_publish c qos (pk_PacketID pk) 0x82)
         else if malicious topic then Some (refuse_publish c qos (pk_PacketID pk) 0x87)
         else if length (pk_Payload pk) > maxMessageSize then Some (refuse_publish c qos (pk_PacketID pk) 0x97)
         else None)"

text \<open>Alias resolution: the topic and the broker with the updated alias table, or an error.\<close>

definition resolve_publish :: "string \<Rightarrow> Packet \<Rightarrow> Broker \<Rightarrow> (alias_error, string \<times> Broker) go" where
  "resolve_publish clientID pk b =
     (let props = pk_Properties pk
      in if pr_TopicAliasFlag props \<and> pr_TopicAlias props > 0
         then (case gm_get (b_topicAliasManagers b) clientID of
                 None \<Rightarrow> Ok (pk_TopicName pk, b)
               | Some tam \<Rightarrow>
                   go_bind (resolveTopicAlias tam (pk_TopicName pk) (pr_TopicAlias props)) (\<lambda>(resolvedTopic, tam').
                     Ok (resolvedTopic, b\<lparr>b_topicAliasManagers := gm_set (b_topicAliasManagers b) clientID tam'\<rparr>)))
         else Ok (pk_TopicName pk, b))"

definition user_properties :: "(string \<times> string) list \<Rightarrow> (string, byte list) gomap" where
  "user_properties user = foldl (\<lambda>m (key, val). gm_set m key (bytes_of val)) [] user"

definition publish_ack :: "Packet \<Rightarrow> out_packet option" where
  "publish_ack pk =
     (if pk_Qos pk = 1 then Some (OPuback (pk_PacketID pk) 0)
      else if pk_Qos pk = 2 then Some (OPubrec (pk_PacketID pk) 0) else None)"

definition post_ack :: "string \<Rightarrow> string \<Rightarrow> Packet \<Rightarrow> PostAck" where
  "post_ack clientID resolvedTopic pk =
     \<lparr>pa_clientID = clientID, pa_topic = resolvedTopic, pa_payload = pk_Payload pk, pa_qos = pk_Qos pk,
      pa_retain = pk_Retain pk, pa_userProperties = user_properties (pr_User (pk_Properties pk)),
      pa_responseTopic = pr_ResponseTopic (pk_Properties pk), pa_correlationData = pr_CorrelationData (pk_Properties pk)\<rparr>"

text \<open>After the checks: duplicates, alias, blacklist, acknowledgement, and the rest in a goroutine.\<close>

definition accept_publish :: "'d env \<Rightarrow> Packet \<Rightarrow> Conn \<Rightarrow> 'd broker \<Rightarrow> 'd handled" where
  "accept_publish ev pk c st =
     (let (skipProcessing, b1) = (if pk_Qos pk = 1 then markAndCheckDuplicate (ev_now ev) (cn_clientID c) (pk_PacketID pk) (fst st)
                                  else (False, fst st))
      in case resolve_publish (cn_clientID c) pk b1 of
           Ok (resolvedTopic, b2) \<Rightarrow>
             (case CheckPublishAccess (ev_now ev) (b_blacklistMiddleware b2) (cn_clientID c) [] (client_ip c) resolvedTopic of
                (allowed, _, blk) \<Rightarrow>
                  let b3 = note_block blk b2
                  in if \<not> allowed then Ok (Return, refuse_publish c (pk_Qos pk) (pk_PacketID pk) 0x87, b3, snd st)
                     else
                       let b4 = (if skipProcessing then b3 else spawn (TPostAck (post_ack (cn_clientID c) resolvedTopic pk)) b3)
                       in case publish_ack pk of
                            None \<Rightarrow> Ok (Continue, c, b4, snd st)
                          | Some ack \<Rightarrow>
                              (case writePacket c ack of
                                 Ok c' \<Rightarrow> Ok (Continue, c', b4, snd st)
                               | _ \<Rightarrow> Ok (Return, c, b3, snd st)))
         | Err _ \<Rightarrow> Ok (Return, reply c (ODisconnect 0x82), b1, snd st)
         | Panic \<Rightarrow> Panic
         | Blocked \<Rightarrow> Blocked)"

definition handle_publish :: "'d env \<Rightarrow> bool \<Rightarrow> Packet \<Rightarrow> Conn \<Rightarrow> 'd broker \<Rightarrow> 'd handled" where
  "handle_publish ev dup pk c st =
     (case cn_mailbox c of
        None \<Rightarrow> Ok (Return, c, st)
      | Some _ \<Rightarrow>
          (case publish_checks dup pk c of
             Some c' \<Rightarrow> Ok (Return, c', st)
           | None \<Rightarrow> accept_publish ev pk c st))"

section \<open>The other packets, and the end of a connection\<close>

definition handle_puback :: "uint16 \<Rightarrow> Conn \<Rightarrow> 'd broker \<Rightarrow> 'd handled" where
  "handle_puback packetID c st =
     (if cn_mailbox c = None then Ok (Return, c, st)
      else if packetID = 0 then Ok (Return, c, st) else Ok (Continue, c, st))"

definition handle_pubrec :: "uint16 \<Rightarrow> Conn \<Rightarrow> 'd broker \<Rightarrow> 'd handled" where
  "handle_pubrec packetID c st =
     (if cn_mailbox c = None then Ok (Return, c, st)
      else if packetID = 0 then Ok (Return, c, st) else reply_or_return c (OPubrel packetID) st)"

definition handle_pubrel :: "uint16 \<Rightarrow> Conn \<Rightarrow> 'd broker \<Rightarrow> 'd handled" where
  "handle_pubrel packetID c st =
     (if cn_mailbox c = None then Ok (Return, c, st)
      else if packetID = 0 then Ok (Return, c, st) else reply_or_return c (OPubcomp packetID) st)"

definition handle_pingreq :: "Conn \<Rightarrow> 'd broker \<Rightarrow> 'd handled" where
  "handle_pingreq c st = (if cn_mailbox c = None then Ok (Return, c, st) else reply_or_return c OPingresp st)"

text \<open>What a DISCONNECT (\<open>graceful\<close>) and the end of the loop have in common.\<close>

definition end_session :: "'d env \<Rightarrow> string \<Rightarrow> bool \<Rightarrow> 'd broker \<Rightarrow> (string, 'd broker) go" where
  "end_session ev clientID graceful st =
     go_bind (logged (DisconnectSession (ev_enc ev) (Some (broker_PublishWillMessage ev)) (ev_now ev) clientID graceful st) st)
       (\<lambda>(b1, sm1).
          let b2 = b1\<lparr>b_offlineMessageMgr := RemoveDeliveryCallback (b_offlineMessageMgr b1) clientID,
                     b_topicAliasManagers := gm_del (b_topicAliasManagers b1) clientID\<rparr>
          in Ok (unregisterSession clientID b2, sm1))"

definition handle_disconnect :: "'d env \<Rightarrow> Conn \<Rightarrow> 'd broker \<Rightarrow> 'd handled" where
  "handle_disconnect ev c st =
     go_bind (end_session ev (cn_clientID c) True st) (\<lambda>st'. Ok (Return, c, st'))"

definition is_connect :: "in_packet \<Rightarrow> bool" where
  "is_connect pk = (case pk of IConnect _ \<Rightarrow> True | _ \<Rightarrow> False)"

text \<open>The body of the loop for a packet: the protocol state machine, then the packet's handler.\<close>

definition handle_packet :: "'d env \<Rightarrow> in_packet \<Rightarrow> Conn \<Rightarrow> 'd broker \<Rightarrow> 'd handled" where
  "handle_packet ev pk c st =
     (if cn_clientID c = [] \<and> \<not> is_connect pk then Ok (Return, c, st)
      else if is_connect pk \<and> cn_mailbox c \<noteq> None then Ok (Return, c, st)
      else case pk of
             IConnect cp \<Rightarrow> handle_connect ev cp c st
           | ISubscribe packetID filters reasonString \<Rightarrow> handle_subscribe ev packetID filters reasonString c st
           | IPublish dup p \<Rightarrow> handle_publish ev dup p c st
           | IPuback packetID \<Rightarrow> handle_puback packetID c st
           | IPubrec packetID \<Rightarrow> handle_pubrec packetID c st
           | IPubrel packetID \<Rightarrow> handle_pubrel packetID c st
           | IPubcomp packetID \<Rightarrow> handle_puback packetID c st
           | IPingreq \<Rightarrow> handle_pingreq c st
           | IUnsubscribe packetID filters \<Rightarrow> handle_unsubscribe ev packetID filters c st
           | IDisconnect \<Rightarrow> handle_disconnect ev c st
           | IOther \<Rightarrow> Ok (Continue, c, st))"

definition handle_read :: "'d env \<Rightarrow> read_result \<Rightarrow> Conn \<Rightarrow> 'd broker \<Rightarrow> 'd handled" where
  "handle_read ev r c st =
     (case r of
        RPacket pk \<Rightarrow> handle_packet ev pk c st
      | RTimeout \<Rightarrow> Ok (Return, reply c (ODisconnect 0x8E), st)
      | REOF \<Rightarrow> Ok (Break, c, st)
      | RViolation \<Rightarrow> Ok (Break, reply c (ODisconnect 0x82), st)
      | RError \<Rightarrow> Ok (Break, c, st))"

text \<open>One round of the loop with what follows a \<open>break\<close>; the flag says whether the loop goes on.\<close>

definition connection_step :: "'d env \<Rightarrow> read_result \<Rightarrow> Conn \<Rightarrow> 'd broker \<Rightarrow> (string, bool \<times> Conn \<times> 'd broker) go" where
  "connection_step ev r c st =
     go_bind (handle_read ev r c st) (\<lambda>(v, c', st').
       case v of
         Continue \<Rightarrow> Ok (True, c', st')
       | Return \<Rightarrow> Ok (False, c', st')
       | Break \<Rightarrow>
           if cn_clientID c' \<noteq> []
           then go_bind (end_session ev (cn_clientID c') False st') (\<lambda>st''. Ok (False, c', st''))
           else Ok (False, c', st'))"

section \<open>Reconnecting\<close>

lemma take_over_room:
  assumes "Get (b_sessions b) cid = Ok old" and "has_room (b_mailboxes b) old"
  shows "\<exists>box. gm_get (b_mailboxes b) old = Some box
    \<and> take_over cid b = Ok (b\<lparr>b_mailboxes := gm_set (b_mailboxes b) old (push MStop box),
          b_topics := fst (RemoveAllSubscriptions (b_topics b) (Some old)), b_sessions := Delete (b_sessions b) cid\<rparr>)"
  using assms send_to_room [OF assms(2), of MStop] by (auto simp: take_over_def)

text \<open>
  (C10) A client that reconnects while its old connection is still registered takes its session
  over: it gets a mailbox of its own, the old session actor is told to stop, and in the
  subscription table the new mailbox has exactly the subscriptions of the persistent session, with
  their QoS, the old one none, and every other mailbox what it had; other clients stay registered.
\<close>

theorem reconnect_restores_subscriptions:
  assumes inv: "broker_inv b" and old: "Get (b_sessions b) cid = Ok old" and room: "has_room (b_mailboxes b) old"
    and clean: "\<not> cp_Clean cp"
    and resume: "CreateOrResumeSession (ev_enc ev) (ev_dec ev) (ev_now ev) sm cid False (session_expiry (cp_Keepalive cp)) = (ps, sm1)"
    and wf: "gm_wf (ps_Subscriptions ps)" and shares: "\<And>f q. (f, q) \<in> set (ps_Subscriptions ps) \<Longrightarrow> \<not> malformed_share f"
  shows "\<exists>mb b' sm'. establish ev cp cid (b, sm) = Ok (mb, b', sm') \<and> mb \<noteq> old
    \<and> Get (b_sessions b') cid = Ok mb \<and> (\<forall>cid'. cid' \<noteq> cid \<longrightarrow> Get (b_sessions b') cid' = Get (b_sessions b) cid')
    \<and> gm_get (b_mailboxes b') mb = Some (NewMailbox 100)
    \<and> gm_get (b_mailboxes b') old = map_option (push MStop) (gm_get (b_mailboxes b) old)
    \<and> (\<forall>f mb'. subscribed (b_topics b') f mb' =
          (if mb' = mb then map_of (ps_Subscriptions ps) f else if mb' = old then None else subscribed (b_topics b) f mb'))"
proof -
  obtain box where box: "gm_get (b_mailboxes b) old = Some box"
    and to: "take_over cid b = Ok (b\<lparr>b_mailboxes := gm_set (b_mailboxes b) old (push MStop box),
          b_topics := fst (RemoveAllSubscriptions (b_topics b) (Some old)), b_sessions := Delete (b_sessions b) cid\<rparr>)"
    using take_over_room [OF old room] by blast
  define mb where "mb = fresh_mailbox (gm_set (b_mailboxes b) old (push MStop box))"
  have new: "gm_get (b_mailboxes b) m = Some x \<Longrightarrow> m \<noteq> mb" for m x
    using fresh_mailbox_new [of "gm_set (b_mailboxes b) old (push MStop box)" m] unfolding mb_def by (cases "m = old") auto
  have none: "subscribed (b_topics b) f mb = None" for f
  proof (rule ccontr)
    assume "subscribed (b_topics b) f mb \<noteq> None"
    with known_subscribed [OF broker_invD(3) [OF inv]] have "box_exists b mb" by blast
    with new show False by blast
  qed
  let ?subs = "ps_Subscriptions ps"
  let ?topics = "foldl (\<lambda>s (topic, qos). Subscribe s topic mb qos) (fst (RemoveAllSubscriptions (b_topics b) (Some old))) ?subs"
  have accepts: "\<forall>(f, q) \<in> set ?subs. \<not> malformed_share f" using shares by blast
  note tk = topics.takeover [OF broker_invD(1) [OF inv] wf accepts none new [OF box]]
  have look: "subscribed ?topics f mb' =
      (if mb' = mb then map_of ?subs f else if mb' = old then None else subscribed (b_topics b) f mb')" for f mb'
    using tk new [OF box] by simp
  have del: "mem_inv (Delete (b_sessions b) cid)" by (rule mem.inv_del [OF broker_invD(2) [OF inv]])
  have sess: "Get (Set (Delete (b_sessions b) cid) cid mb) cid' = (if cid' = cid then Ok mb else Get (b_sessions b) cid')" for cid'
    by (simp add: mem.get_set [OF del] mem.get_del [OF broker_invD(2) [OF inv]])
  obtain b' sm' where est: "establish ev cp cid (b, sm) = Ok (mb, b', sm')"
    and "b_topics b' = ?topics" and "b_sessions b' = Set (Delete (b_sessions b) cid) cid mb"
    and "b_mailboxes b' = gm_set (gm_set (b_mailboxes b) old (push MStop box)) mb (NewMailbox 100)"
    using clean resume
    by (simp add: establish_def registerSession_def to mb_def [symmetric] Let_def spawn_def)
  then show ?thesis using look sess box new [OF box] by (intro exI [of _ mb] exI [of _ b'] exI [of _ sm']) simp
qed

definition resume_params :: ConnectParams where
  "resume_params = \<lparr>cp_ClientIdentifier = ''c'', cp_Clean = False, cp_Keepalive = 60, cp_UsernameFlag = False,
     cp_PasswordFlag = False, cp_Username = [], cp_Password = [], cp_WillFlag = False, cp_WillTopic = [],
     cp_WillPayload = [], cp_WillQos = 0, cp_WillRetain = False, cp_RequestResponseInfo = 0\<rparr>"

lemma sample_broker_inv: "broker_inv sample_broker"
  by (auto simp: broker_inv_def sample_broker_def New_broker_def store_inv_def regular_ok_def has_prefix_def mem_inv_def
      known_def tasks_ok_def Get_def split: if_splits)

lemma sample_resume:
  "fst (CreateOrResumeSession Some Some 9 sample_manager ''c'' False (session_expiry 60)) = sample_session\<lparr>ps_Connected := True, ps_LastActivity := 9\<rparr>"
  by (simp add: CreateOrResumeSession_def sample_manager_def Let_def)

theorem reconnect_restores_subscriptions_witness:
  "\<exists>mb b' sm'. establish sample_env resume_params ''c'' (sample_broker, sample_manager) = Ok (mb, b', sm') \<and> mb \<noteq> 7
    \<and> Get (b_sessions b') ''c'' = Ok mb \<and> (\<forall>cid'. cid' \<noteq> ''c'' \<longrightarrow> Get (b_sessions b') cid' = Get (b_sessions sample_broker) cid')
    \<and> gm_get (b_mailboxes b') mb = Some (NewMailbox 100)
    \<and> gm_get (b_mailboxes b') 7 = map_option (push MStop) (gm_get (b_mailboxes sample_broker) 7)
    \<and> (\<forall>f mb'. subscribed (b_topics b') f mb' =
          (if mb' = mb then map_of (ps_Subscriptions (sample_session\<lparr>ps_Connected := True, ps_LastActivity := 9\<rparr>)) f
           else if mb' = 7 then None else subscribed (b_topics sample_broker) f mb'))"
proof (rule reconnect_restores_subscriptions)
  show "broker_inv sample_broker" by (rule sample_broker_inv)
  show "Get (b_sessions sample_broker) ''c'' = Ok 7" by (simp add: sample_broker_def Get_def)
  show "has_room (b_mailboxes sample_broker) 7" by (simp add: sample_broker_def has_room_def NewMailbox_def)
  show "\<not> cp_Clean resume_params" by (simp add: resume_params_def)
  show "CreateOrResumeSession (ev_enc sample_env) (ev_dec sample_env) (ev_now sample_env) sample_manager ''c'' False
      (session_expiry (cp_Keepalive resume_params)) = (sample_session\<lparr>ps_Connected := True, ps_LastActivity := 9\<rparr>,
        snd (CreateOrResumeSession Some Some 9 sample_manager ''c'' False (session_expiry 60)))"
    using sample_resume by (simp add: prod_eq_iff sample_env_def resume_params_def)
  show "gm_wf (ps_Subscriptions (sample_session\<lparr>ps_Connected := True, ps_LastActivity := 9\<rparr>))"
    by (simp add: sample_session_def)
  show "\<not> malformed_share f" if "(f, q) \<in> set (ps_Subscriptions (sample_session\<lparr>ps_Connected := True, ps_LastActivity := 9\<rparr>))" for f q
    using that by (simp add: sample_session_def malformed_share_def has_prefix_def)
qed

section \<open>Subscribing\<close>

lemma note_block_frame [simp]:
  "b_topics (note_block blk b) = b_topics b" "b_blacklistMiddleware (note_block blk b) = b_blacklistMiddleware b"
  "b_sessions (note_block blk b) = b_sessions b" "b_mailboxes (note_block blk b) = b_mailboxes b"
  "b_offlineMessageMgr (note_block blk b) = b_offlineMessageMgr b" "b_topicAliasManagers (note_block blk b) = b_topicAliasManagers b"
  "b_processedQoS1 (note_block blk b) = b_processedQoS1 b"
  by (auto simp: note_block_def spawn_def split: option.splits)

lemma check_filter_cong: "b_blacklistMiddleware b = b_blacklistMiddleware b' \<Longrightarrow> check_filter ev c b sub = check_filter ev c b' sub"
  by (cases sub) (simp add: check_filter_def)

definition accepted :: "'d env \<Rightarrow> Conn \<Rightarrow> Broker \<Rightarrow> (string \<times> byte) list \<Rightarrow> (string \<times> byte) list" where
  "accepted ev c b subs = filter (\<lambda>sub. fst (check_filter ev c b sub) = None) subs"

lemma accepted_cong: "b_blacklistMiddleware b = b_blacklistMiddleware b' \<Longrightarrow> accepted ev c b subs = accepted ev c b' subs"
  by (simp add: accepted_def check_filter_cong [of b b'])

lemma accepted_simps [simp]:
  "accepted ev c b [] = []"
  "accepted ev c b (sub # subs) = (if fst (check_filter ev c b sub) = None then sub # accepted ev c b subs else accepted ev c b subs)"
  by (simp_all add: accepted_def)

definition suback_code :: "'d env \<Rightarrow> Conn \<Rightarrow> Broker \<Rightarrow> string \<times> byte \<Rightarrow> byte" where
  "suback_code ev c b sub = (case fst (check_filter ev c b sub) of None \<Rightarrow> snd sub | Some code \<Rightarrow> code)"

text \<open>The loop subscribes the accepted filters in order and touches the table in no other way.\<close>

lemma subscribe_filters_spec:
  assumes "b_blacklistMiddleware (fst st) = b_blacklistMiddleware b"
  shows "\<exists>st'. subscribe_filters ev c mb subs st = (st', map (suback_code ev c b) subs, map fst (accepted ev c b subs))
    \<and> b_topics (fst st') = foldl (\<lambda>s (f, q). Subscribe s f mb q) (b_topics (fst st)) (accepted ev c b subs)
    \<and> snd st' = foldl (\<lambda>sm (f, q). case AddSubscription (ev_enc ev) (ev_now ev) sm (cn_clientID c) f q of Ok sm' \<Rightarrow> sm' | _ \<Rightarrow> sm)
        (snd st) (accepted ev c b subs)"
  using assms
proof (induction subs arbitrary: st)
  case (Cons sub subs)
  obtain r blk where chk: "check_filter ev c b sub = (r, blk)" by (cases "check_filter ev c b sub")
  then have chk': "check_filter ev c (fst st) sub = (r, blk)" by (simp add: check_filter_cong [OF Cons.prems])
  show ?case
  proof (cases r)
    case (Some code)
    have "b_blacklistMiddleware (fst (note_block blk (fst st), snd st)) = b_blacklistMiddleware b" using Cons.prems by simp
    from Cons.IH [OF this] show ?thesis using chk chk' Some by (auto simp: suback_code_def)
  next
    case None
    let ?b1 = "(note_block blk (fst st))\<lparr>b_topics := Subscribe (b_topics (note_block blk (fst st))) (fst sub) mb (snd sub)\<rparr>"
    let ?sm1 = "case AddSubscription (ev_enc ev) (ev_now ev) (snd st) (cn_clientID c) (fst sub) (snd sub) of Ok sm' \<Rightarrow> sm' | _ \<Rightarrow> snd st"
    have "b_blacklistMiddleware (fst (?b1, ?sm1)) = b_blacklistMiddleware b" using Cons.prems by simp
    from Cons.IH [OF this] show ?thesis using chk chk' None by (auto simp: suback_code_def Let_def case_prod_beta)
  qed
qed simp

text \<open>The last of the accepted filters that are equal decides.\<close>

definition latest :: "(string \<times> byte) list \<Rightarrow> string \<Rightarrow> byte option \<Rightarrow> byte option" where
  "latest subs f before = (case map_of (rev subs) f of Some q \<Rightarrow> Some q | None \<Rightarrow> before)"

lemma latest_simps [simp]:
  "latest [] f x = x" "latest (subs @ [(g, q)]) f x = (if f = g then Some q else latest subs f x)"
  by (auto simp: latest_def)

lemma look_subscribe_latest:
  assumes "store_inv s" and "\<And>f q. (f, q) \<in> set subs \<Longrightarrow> \<not> malformed_share f"
  shows "subscribed (foldl (\<lambda>s (f, q). Subscribe s f mb q) s subs) f mb' =
     (if mb' = mb then latest subs f (subscribed s f mb) else subscribed s f mb')"
  using assms(2)
proof (induction subs rule: rev_induct)
  case (snoc p subs)
  obtain g q where p: "p = (g, q)" by (cases p)
  have inv: "store_inv (foldl (\<lambda>s (f, q). Subscribe s f mb q) s subs)" by (rule topics.inv_subscribe_list [OF assms(1)])
  have g: "\<not> malformed_share g" using snoc.prems p by auto
  have IH: "subscribed (foldl (\<lambda>s (f, q). Subscribe s f mb q) s subs) f mb' =
     (if mb' = mb then latest subs f (subscribed s f mb) else subscribed s f mb')"
    using snoc.prems by (intro snoc.IH) auto
  show ?case using topics.look_subscribe [OF inv g, of mb q f mb'] IH by (auto simp: p)
qed simp

definition client_subscriptions :: "'d SessionManager \<Rightarrow> string \<Rightarrow> (string, byte) gomap option" where
  "client_subscriptions sm cid = map_option ps_Subscriptions (gm_get (sm_activeSessions sm) cid)"

lemma AddSubscription_view:
  assumes "client_subscriptions sm cid = Some m"
  shows "\<exists>sm'. AddSubscription enc now sm cid f q = Ok sm' \<and> client_subscriptions sm' cid = Some (gm_set m f q)"
  using assms
  by (auto simp: client_subscriptions_def AddSubscription_def put_session_def log_save_def saveSession_def Let_def split: option.splits)

lemma AddSubscription_list:
  assumes "client_subscriptions sm cid = Some m"
  shows "client_subscriptions (foldl (\<lambda>sm (f, q). case AddSubscription enc now sm cid f q of Ok sm' \<Rightarrow> sm' | _ \<Rightarrow> sm) sm subs) cid =
    Some (foldl (\<lambda>m (f, q). gm_set m f q) m subs)"
  using assms
proof (induction subs arbitrary: sm m)
  case (Cons p subs)
  obtain f q where p: "p = (f, q)" by (cases p)
  from AddSubscription_view [OF Cons.prems, of enc now f q] obtain sm'
    where "AddSubscription enc now sm cid f q = Ok sm'" and "client_subscriptions sm' cid = Some (gm_set m f q)" by blast
  then show ?case using Cons.IH by (simp add: p)
qed simp

lemma gm_set_list: "gm_get (foldl (\<lambda>m (f, q). gm_set m f q) m subs) f = latest subs f (gm_get m f)"
proof (induction subs rule: rev_induct)
  case (snoc p subs)
  then show ?case by (cases p) simp
qed simp

text \<open>What the checks of a topic filter let through.\<close>

lemma go_split_append: "go_split c (s @ c # t) = go_split c s @ go_split c t"
  by (induction s) (auto split: list.splits)

lemma go_join_snoc: "ls \<noteq> [] \<Longrightarrow> go_join c (ls @ [x]) = go_join c ls @ c # x"
proof (induction ls)
  case (Cons y ls)
  then show ?case by (cases ls) (auto simp: go_join_Cons)
qed simp

lemma has_suffix_iff: "has_suffix s p \<longleftrightarrow> (\<exists>r. s = r @ p)"
  unfolding has_suffix_def by (metis append_eq_append_conv append_take_drop_id diff_diff_cancel length_append length_drop le_add2)

lemma last_level_hash: "last (levels f) = ''#'' \<longleftrightarrow> f = ''#'' \<or> has_suffix f ''/#''"
proof
  assume last: "last (levels f) = ''#''"
  show "f = ''#'' \<or> has_suffix f ''/#''"
  proof (cases "butlast (levels f) = []")
    case True
    then have "levels f = [''#'']" using last by (metis append_butlast_last_id append_Nil go_split_not_Nil)
    then show ?thesis using go_join_split [of "CHR ''/''" f] by simp
  next
    case False
    have "levels f = butlast (levels f) @ [''#'']" using last by (metis append_butlast_last_id go_split_not_Nil)
    then have "f = go_join (CHR ''/'') (butlast (levels f)) @ ''/#''"
      using go_join_snoc [OF False, of "CHR ''/''" "''#''"] go_join_split [of "CHR ''/''" f] by simp
    then show ?thesis by (metis has_suffix_iff)
  qed
next
  assume "f = ''#'' \<or> has_suffix f ''/#''"
  then show "last (levels f) = ''#''" by (auto simp: has_suffix_iff go_split_append)
qed

definition wildcards_ok :: "string \<Rightarrow> bool" where
  "wildcards_ok f =
     (list_all (\<lambda>l. CHR ''+'' \<in> set l \<longrightarrow> l = ''+'') (levels f) \<and> (CHR ''#'' \<in> set f \<longrightarrow> last (levels f) = ''#''))"

lemma plus_misplaced_iff: "\<not> plus_misplaced f \<longleftrightarrow> list_all (\<lambda>l. CHR ''+'' \<in> set l \<longrightarrow> l = ''+'') (levels f)"
  by (auto simp: plus_misplaced_def str_contains_char list_all_iff list_ex_iff dest: go_split_chars)

lemma hash_misplaced_iff: "\<not> hash_misplaced f \<longleftrightarrow> (CHR ''#'' \<in> set f \<longrightarrow> last (levels f) = ''#'')"
proof -
  have one: "CHR ''#'' \<in> set f \<Longrightarrow> length f \<le> 1 \<Longrightarrow> f = ''#''" by (cases f) auto
  have "has_suffix f ''/#'' \<Longrightarrow> has_suffix f ''#'' \<and> 1 < length f" by (auto simp: has_suffix_iff)
  then show ?thesis using one unfolding hash_misplaced_def last_level_hash str_contains_char
    by (auto simp: has_suffix_iff)
qed

lemma wildcards_ok_iff: "wildcards_ok f \<longleftrightarrow> \<not> hash_misplaced f \<and> \<not> plus_misplaced f"
  unfolding wildcards_ok_def hash_misplaced_iff plus_misplaced_iff by blast

lemma valid_levels_last: "valid_levels ls \<Longrightarrow> l \<in> set ls \<Longrightarrow> CHR ''#'' \<in> set l \<Longrightarrow> last ls = ''#''"
  by (induction ls) auto

lemma valid_levels_plus: "valid_levels ls \<Longrightarrow> l \<in> set ls \<Longrightarrow> CHR ''+'' \<in> set l \<Longrightarrow> l = ''+''"
  by (induction ls) auto

lemma in_some_level: "x \<in> set f \<Longrightarrow> x \<noteq> c \<Longrightarrow> \<exists>l \<in> set (go_split c f). x \<in> set l"
  by (induction f) (fastforce split: list.splits)+

text \<open>Every valid filter passes the syntax checks, but so do some that are not valid.\<close>

lemma valid_filter_wildcards_ok: "valid_filter f \<Longrightarrow> wildcards_ok f"
  unfolding valid_filter_def wildcards_ok_def list_all_iff
  using in_some_level [of "CHR ''#''" f "CHR ''/''"] by (auto dest: valid_levels_last valid_levels_plus)

lemma misplaced_hash_accepted: "wildcards_ok ''a#/#'' \<and> \<not> valid_filter ''a#/#''"
  by (simp add: wildcards_ok_def valid_filter_def)

lemma accepted_filter:
  assumes "(f, q) \<in> set (accepted ev c b subs)"
  shows "(f, q) \<in> set subs \<and> f \<noteq> [] \<and> q \<le> 2 \<and> wildcards_ok f \<and> \<not> malicious f
    \<and> fst (CheckSubscribeAccess (ev_now ev) (b_blacklistMiddleware b) (cn_clientID c) [] (client_ip c) f)"
  using assms unfolding wildcards_ok_iff
  by (auto simp: accepted_def check_filter_def not_less split: if_splits prod.splits)


section \<open>The protocol state machine\<close>

lemma reply_frame [simp]:
  "cn_clientID (reply c pk) = cn_clientID c" "cn_mailbox (reply c pk) = cn_mailbox c"
  "cn_clientID (refuse_publish c q p code) = cn_clientID c" "cn_mailbox (refuse_publish c q p code) = cn_mailbox c"
  by (auto simp: reply_def refuse_publish_def writePacket_def split: out_packet.splits go.splits)

lemma writePacket_frame:
  "writePacket c pk = Ok c' \<Longrightarrow> cn_clientID c' = cn_clientID c \<and> cn_mailbox c' = cn_mailbox c \<and> cn_written c' = cn_written c @ [pk]"
  by (auto simp: writePacket_def split: out_packet.splits if_splits)

definition identity :: "Conn \<Rightarrow> string \<times> mailbox option" where
  "identity c = (cn_clientID c, cn_mailbox c)"

lemma identity_reply [simp]: "identity (reply c pk) = identity c" "identity (refuse_publish c q p code) = identity c"
  by (simp_all add: identity_def)

lemma identity_reply_or_return: "reply_or_return c pk st = Ok (v, c', st') \<Longrightarrow> identity c' = identity c"
  by (auto simp: reply_or_return_def identity_def dest: writePacket_frame split: go.splits)

lemma identity_publish_checks: "publish_checks dup pk c = Some c' \<Longrightarrow> identity c' = identity c"
  by (auto simp: publish_checks_def Let_def split: if_splits)

lemma identity_accept_publish: "accept_publish ev pk c st = Ok (v, c', st') \<Longrightarrow> identity c' = identity c"
  by (auto simp: accept_publish_def Let_def identity_def dest: writePacket_frame split: go.splits prod.splits option.splits if_splits)

text \<open>Only CONNECT changes who a connection belongs to.\<close>

lemma identity_handle_read:
  assumes "handle_read ev r c st = Ok (v, c', st')" and "\<And>cp. r \<noteq> RPacket (IConnect cp)"
  shows "identity c' = identity c"
proof (cases r)
  case (RPacket pk)
  show ?thesis
  proof (cases pk)
    case (IConnect cp)
    then show ?thesis using assms(2) RPacket by blast
  next
    case (IPublish dup p)
    then show ?thesis using assms(1) RPacket
      by (auto simp: handle_read_def handle_packet_def handle_publish_def
          dest: identity_publish_checks identity_accept_publish split: if_splits option.splits)
  next
    case (ISubscribe pid fs rs)
    then show ?thesis using assms(1) RPacket
      by (auto simp: handle_read_def handle_packet_def handle_subscribe_def identity_def Let_def
          dest: writePacket_frame split: if_splits option.splits prod.splits go.splits)
  next
    case (IUnsubscribe pid fs)
    then show ?thesis using assms(1) RPacket
      by (auto simp: handle_read_def handle_packet_def handle_unsubscribe_def
          dest: identity_reply_or_return split: if_splits option.splits prod.splits)
  qed (use assms(1) RPacket in \<open>auto simp: handle_read_def handle_packet_def handle_puback_def handle_pubrec_def handle_pubrel_def
        handle_pingreq_def handle_disconnect_def dest: identity_reply_or_return split: if_splits\<close>)
qed (use assms(1) in \<open>auto simp: handle_read_def\<close>)

lemma connect_checks_Accept: "connect_checks nano cp = Ok (Accept (cid, u, p)) \<Longrightarrow> cid \<noteq> []"
  by (auto simp: connect_checks_def generateClientID_def Let_def split: if_splits)

definition admitted :: "'d env \<Rightarrow> ConnectParams \<Rightarrow> string \<Rightarrow> 'd broker \<Rightarrow> string \<Rightarrow> bool" where
  "admitted ev cp ip st cid \<longleftrightarrow>
     (\<exists>u p. connect_checks (ev_unixNano ev) cp = Ok (Accept (cid, u, p))
        \<and> fst (mw_CheckClientConnection (ev_lib ev) (ev_now ev) (b_blacklistMiddleware (fst st)) cid u ip ''mqtt'')
        \<and> (AuthChain_Authenticate (b_authChain (fst st)) u p \<in> {AuthSuccess, AuthIgnore}
           \<or> list_ex (has_prefix cid) bypass_prefixes))"

lemma connack_code_0: "connack_code r = 0 \<longleftrightarrow> r \<in> {AuthSuccess, AuthIgnore}"
  by (cases r) auto

lemma note_block_auth [simp]: "b_authChain (note_block blk b) = b_authChain b" "b_nodeID (note_block blk b) = b_nodeID b"
  by (auto simp: note_block_def spawn_def split: option.splits)

lemma handle_connect_result:
  assumes "handle_connect ev cp c st = Ok (v, c', st')"
  shows "v = Return \<or> v = Continue \<and> admitted ev cp (client_ip c) st (cn_clientID c') \<and> cn_clientID c' \<noteq> [] \<and> cn_mailbox c' \<noteq> None"
proof -
  obtain r where r: "connect_checks (ev_unixNano ev) cp = Ok r" using assms by (auto simp: handle_connect_def)
  show ?thesis
  proof (cases r)
    case (Refuse code)
    then show ?thesis using assms r by (auto simp: handle_connect_def split: option.splits)
  next
    case (Accept t)
    obtain cid u p where t: "t = (cid, u, p)" by (cases t) auto
    obtain allowed reason blk where mw: "mw_CheckClientConnection (ev_lib ev) (ev_now ev) (b_blacklistMiddleware (fst st)) cid u (client_ip c) ''mqtt''
        = (allowed, reason, blk)" by (metis prod_cases3)
    show ?thesis
      using assms r Accept t mw connect_checks_Accept [of "ev_unixNano ev" cp cid u p]
      by (auto simp: handle_connect_def Let_def admitted_def connack_code_0 connect_auth_def split: if_splits go.splits)
  qed
qed

text \<open>
  The reads of one connection, each with the environment and the broker it found; between two of
  them the broker may change in any way.
\<close>

inductive conn_run :: "string \<Rightarrow> ('d env \<times> read_result \<times> 'd broker) list \<Rightarrow> Conn \<Rightarrow> bool" for remote where
  accept: "conn_run remote [] (new_conn remote)"
| step: "conn_run remote h c \<Longrightarrow> connection_step ev r c st = Ok (True, c', st') \<Longrightarrow> conn_run remote (h @ [(ev, r, st)]) c'"

inductive_cases conn_run_NilE: "conn_run remote [] c"

definition no_connect :: "('d env \<times> read_result \<times> 'd broker) list \<Rightarrow> bool" where
  "no_connect h = list_all (\<lambda>(ev, r, st). case r of RPacket (IConnect _) \<Rightarrow> False | _ \<Rightarrow> True) h"

lemma connection_step_True: "connection_step ev r c st = Ok (True, c', st') \<Longrightarrow> handle_read ev r c st = Ok (Continue, c', st')"
proof -
  assume "connection_step ev r c st = Ok (True, c', st')"
  then obtain v c1 st1 where hr: "handle_read ev r c st = Ok (v, c1, st1)" by (auto simp: connection_step_def)
  then show ?thesis using \<open>connection_step ev r c st = Ok (True, c', st')\<close>
    by (cases v) (auto simp: connection_step_def split: if_splits)
qed

lemma client_ip_new [simp]: "client_ip (new_conn remote) = hd (go_split (CHR '':'') remote)"
  by (simp add: client_ip_def new_conn_def)

lemma first_read_connect:
  assumes "handle_read ev r (new_conn remote) st = Ok (Continue, c', st')"
  shows "\<exists>cp. r = RPacket (IConnect cp) \<and> admitted ev cp (hd (go_split (CHR '':'') remote)) st (cn_clientID c')
    \<and> cn_clientID c' \<noteq> [] \<and> cn_mailbox c' \<noteq> None"
proof (cases r)
  case (RPacket pk)
  then have "is_connect pk" using assms by (auto simp: handle_read_def handle_packet_def new_conn_def split: if_splits)
  then obtain cp where cp: "pk = IConnect cp" by (cases pk) (auto simp: is_connect_def)
  then have "handle_connect ev cp (new_conn remote) st = Ok (Continue, c', st')"
    using assms RPacket by (auto simp: handle_read_def handle_packet_def split: if_splits)
  from handle_connect_result [OF this] show ?thesis using RPacket cp by auto
qed (use assms in \<open>auto simp: handle_read_def\<close>)


definition sample_conn :: Conn where
  "sample_conn = (new_conn ''10.0.0.1:4711'')\<lparr>cn_clientID := ''c'', cn_mailbox := Some 7\<rparr>"

lemma check_type_empty: "check_type now (NewBlacklistManager t) ty matches v = None"
  by (simp add: check_type_def NewBlacklistManager_def index_of_def List.map_filter_simps)

lemmas empty_blacklist = check_type_empty NewBlacklistMiddleware_def DefaultMiddlewareConfig_def
  checkTopic_def checkClientID_def checkUsername_def checkIPAddress_def

lemma sample_access: "CheckSubscribeAccess now (b_blacklistMiddleware sample_broker) cid u ip f = (True, [], None)"
  by (simp add: CheckSubscribeAccess_def mw_CheckTopicAccess_def sample_broker_def New_broker_def CheckTopicAccess_def empty_blacklist)

lemma sample_connect:
  "mw_CheckClientConnection lib now (b_blacklistMiddleware sample_broker) cid u ip proto = (True, [], None)"
  by (simp add: mw_CheckClientConnection_def sample_broker_def New_broker_def CheckClientConnection_def empty_blacklist)

lemma sample_accepted:
  "accepted sample_env sample_conn sample_broker [(''x/+'', 1), (''bad#'', 0)] = [(''x/+'', 1)]"
  by (simp add: accepted_def check_filter_def sample_access hash_misplaced_def plus_misplaced_def malicious_def has_suffix_def
      has_prefix_def contains_any_def)


lemma sample_connection_step:
  "\<exists>c st. connection_step sample_env (RPacket (IConnect resume_params)) (new_conn ''10.0.0.1:4711'') (sample_broker, sample_manager)
     = Ok (True, c, st)"
proof -
  obtain box where to: "take_over ''c'' sample_broker = Ok (sample_broker\<lparr>b_mailboxes := gm_set (b_mailboxes sample_broker) 7 (push MStop box),
          b_topics := fst (RemoveAllSubscriptions (b_topics sample_broker) (Some 7)), b_sessions := Delete (b_sessions sample_broker) ''c''\<rparr>)"
    using take_over_room [of sample_broker "''c''" 7] by (auto simp: sample_broker_def Get_def has_room_def NewMailbox_def)
  have auth: "connect_auth (b_authChain sample_broker) ''c'' [] [] = AuthSuccess"
    by (simp add: connect_auth_def bypass_prefixes_def has_prefix_def sample_broker_def New_broker_def NewAuthChain_def AuthChain_Authenticate_def)
  show ?thesis
    by (simp add: connection_step_def handle_read_def handle_packet_def new_conn_def is_connect_def handle_connect_def connect_checks_def
        resume_params_def sample_connect note_block_def auth writePacket_def connack_def establish_def registerSession_def to Let_def case_prod_beta)
qed


end
