(* ===== verification/Rule_Sql.thy ===== *)
theory Rule_Sql
  imports Prelude
begin

text \<open>
  The condition language of the rule engine, \<open>pkg/rules/sql.go\<close>: the parser of WHERE clauses and the
  evaluation of conditions on a message.

  Strings are byte strings. \<open>TrimSpace\<close> is modelled for every byte string, with the white space of
  Unicode; so is the regular expression of \<open>parseComparison\<close>, by the search it stands for. What the
  library computes on floating-point numbers, JSON texts, patterns of LIKE and upper case of letters
  outside ASCII is the argument \<open>lib\<close>; a \<open>float64\<close> is of its type \<open>'f\<close>. No letter outside ASCII
  has one of the letters of OR, AND, NOT as its upper case, so that only \<open>Parse\<close> depends on the latter.
\<close>

section \<open>Strings\<close>

text \<open>The encodings of the characters that \<open>TrimSpace\<close> removes.\<close>

definition spaces :: "string list" where
  "spaces =
     [[CHR 0x09], [CHR 0x0A], [CHR 0x0B], [CHR 0x0C], [CHR 0x0D], '' '',
      [CHR 0xC2, CHR 0x85], [CHR 0xC2, CHR 0xA0], [CHR 0xE1, CHR 0x9A, CHR 0x80]]
     @ map (\<lambda>c. [CHR 0xE2, CHR 0x80, c])
         [CHR 0x80, CHR 0x81, CHR 0x82, CHR 0x83, CHR 0x84, CHR 0x85, CHR 0x86, CHR 0x87, CHR 0x88,
          CHR 0x89, CHR 0x8A, CHR 0xA8, CHR 0xA9, CHR 0xAF]
     @ [[CHR 0xE2, CHR 0x81, CHR 0x9F], [CHR 0xE3, CHR 0x80, CHR 0x80]]"

definition space_width :: "string list \<Rightarrow> string \<Rightarrow> nat" where
  "space_width sp s = (case find (has_prefix s) sp of None \<Rightarrow> 0 | Some p \<Rightarrow> length p)"

lemma space_width_le: "space_width sp s \<le> length s"
  by (auto simp: space_width_def has_prefix_iff find_Some_iff split: option.splits)

lemma space_width_progress: "0 < space_width sp s \<Longrightarrow> length s - space_width sp s < length s"
  using space_width_le [of sp s] by linarith

function trim_left :: "string list \<Rightarrow> string \<Rightarrow> string" where
  "trim_left sp s = (if space_width sp s = 0 then s else trim_left sp (drop (space_width sp s) s))"
  by pat_completeness auto
termination
  by (relation "measure (length \<circ> snd)") (simp_all add: space_width_progress)

declare trim_left.simps [simp del]

definition TrimSpace :: "string \<Rightarrow> string" where
  "TrimSpace s = rev (trim_left (map rev spaces) (rev (trim_left spaces s)))"

definition upper_char :: "char \<Rightarrow> char" where
  "upper_char c = (if 97 \<le> (of_char c :: nat) \<and> (of_char c :: nat) \<le> 122 then char_of (of_char c - 32 :: nat) else c)"

definition ascii :: "char \<Rightarrow> bool" where
  "ascii c \<longleftrightarrow> (of_char c :: nat) < 128"

definition ToUpper :: "(string \<Rightarrow> string) \<Rightarrow> string \<Rightarrow> string" where
  "ToUpper up s = (if list_all ascii s then map upper_char s else up s)"

text \<open>\<open>string(b)\<close> of a byte: the UTF-8 encoding of the character with that number.\<close>

definition string_of_byte :: "char \<Rightarrow> string" where
  "string_of_byte c =
     (if ascii c then [c]
      else [char_of (192 + of_char c div 64 :: nat), char_of (128 + of_char c mod 64 :: nat)])"

definition isAlphaNumeric :: "char \<Rightarrow> bool" where
  "isAlphaNumeric c \<longleftrightarrow>
     (let n = of_char c :: nat in 97 \<le> n \<and> n \<le> 122 \<or> 65 \<le> n \<and> n \<le> 90 \<or> 48 \<le> n \<and> n \<le> 57 \<or> n = 95)"

fun str_index :: "string \<Rightarrow> string \<Rightarrow> nat option" where
  "str_index [] p = (if p = [] then Some 0 else None)"
| "str_index (c # s) p = (if has_prefix (c # s) p then Some 0 else map_option Suc (str_index s p))"

fun str_less :: "string \<Rightarrow> string \<Rightarrow> bool" where
  "str_less _ [] = False"
| "str_less [] (_ # _) = True"
| "str_less (c # s) (d # t) = ((of_char c :: nat) < of_char d \<or> c = d \<and> str_less s t)"

text \<open>\<open>strings.ReplaceAll\<close> for a pattern that is not empty.\<close>

function ReplaceAll :: "string \<Rightarrow> string \<Rightarrow> string \<Rightarrow> string" where
  "ReplaceAll [] p r = []"
| "ReplaceAll (c # s) p r =
     (if p \<noteq> [] \<and> has_prefix (c # s) p then r @ ReplaceAll (drop (length p) (c # s)) p r
      else c # ReplaceAll s p r)"
  by pat_completeness auto
termination
  by (relation "measure (\<lambda>(s, p, r). length s)") auto

section \<open>Conditions\<close>

text \<open>
  A value of type \<open>interface{}\<close>. Values of other types (objects and arrays) are only ever formatted, so
  \<open>VOther\<close> has their text.
\<close>

datatype 'f govalue =
    VNil
  | VString string
  | VInt int
  | VFloat 'f
  | VBool bool
  | VField string
  | VOther string

datatype 'f SQLCondition =
    TrueCondition
  | AndCondition "'f SQLCondition list"
  | OrCondition "'f SQLCondition list"
  | NotCondition "'f SQLCondition"
  | ComparisonCondition string string "'f govalue"

datatype sql_error =
    InvalidComparison string
  | UnknownField string
  | UnsupportedOperator string
  | LibraryError string

record 'f RuleContext =
  rc_Topic :: string
  rc_QoS :: int
  rc_Payload :: "byte list"
  rc_Headers :: "(string, string) gomap"
  rc_ClientID :: string
  rc_Username :: string
  rc_Timestamp :: time
  rc_Metadata :: "(string, 'f govalue) gomap"

text \<open>
  What the code uses of the library: \<open>strings.ToUpper\<close> on texts outside ASCII, \<open>strconv.ParseFloat\<close>,
  formatting, comparison and conversion of floating-point numbers, the members of a JSON object
  (\<open>None\<close> within when the text is JSON but no object), matching a regular expression (an error when
  it does not compile).
\<close>

record 'f sqllib =
  lib_ToUpper :: "string \<Rightarrow> string"
  lib_ParseFloat :: "string \<Rightarrow> 'f option"
  lib_show_float :: "'f \<Rightarrow> string"
  lib_float_less :: "'f \<Rightarrow> 'f \<Rightarrow> bool"
  lib_float_of_int :: "int \<Rightarrow> 'f"
  lib_Unmarshal :: "byte list \<Rightarrow> (sql_error, (string, 'f govalue) gomap option) go"
  lib_MatchString :: "string \<Rightarrow> string \<Rightarrow> (sql_error, bool) go"

section \<open>Splitting by an operator\<close>

definition level_after :: "int \<Rightarrow> char \<Rightarrow> int" where
  "level_after parenLevel c = (if c = CHR ''('' then parenLevel + 1 else if c = CHR '')'' then parenLevel - 1 else parenLevel)"

text \<open>Does the operator stand at the head of \<open>s\<close>, as a word of its own after \<open>prev\<close>?\<close>

definition at_word :: "string \<Rightarrow> char option \<Rightarrow> string \<Rightarrow> bool" where
  "at_word op prev s \<longleftrightarrow>
     map upper_char (take (length op) s) = op
     \<and> (case prev of None \<Rightarrow> True | Some c \<Rightarrow> \<not> isAlphaNumeric c)
     \<and> (case drop (length op) s of [] \<Rightarrow> True | c # _ \<Rightarrow> \<not> isAlphaNumeric c)"

text \<open>
  The loop of \<open>splitByOperator\<close>: \<open>prev\<close> is \<open>expr[i-1]\<close> and the last argument the rest of the
  expression from \<open>i\<close>. The operator is not empty, so its length less one is skipped after \<open>c\<close>.
\<close>

function split_loop :: "string \<Rightarrow> char option \<Rightarrow> int \<Rightarrow> string \<Rightarrow> string list \<Rightarrow> string \<Rightarrow> string list \<times> string" where
  "split_loop op prev parenLevel current parts [] = (parts, current)"
| "split_loop op prev parenLevel current parts (c # rest) =
     (let lvl = level_after parenLevel c
      in if lvl = 0 \<and> at_word op prev (c # rest)
         then split_loop op (Some (last (take (length op) (c # rest)))) lvl [] (parts @ [TrimSpace current])
                (drop (length op - 1) rest)
         else split_loop op (Some c) lvl (current @ string_of_byte c) parts rest)"
  by pat_completeness auto
termination
  by (relation "measure (\<lambda>(_, _, _, _, _, s). length s)") auto

definition splitByOperator :: "string \<Rightarrow> string \<Rightarrow> string list" where
  "splitByOperator expr op =
     (let (parts, current) = split_loop op None 0 [] [] expr;
          parts' = (if current \<noteq> [] then parts @ [TrimSpace current] else parts)
      in if length parts' \<le> 1 then [expr] else parts')"

section \<open>Parsing\<close>

text \<open>\<open>strconv.ParseInt(s, 10, 64)\<close>.\<close>

definition is_digit :: "char \<Rightarrow> bool" where
  "is_digit c \<longleftrightarrow> (let n = of_char c :: nat in 48 \<le> n \<and> n \<le> 57)"

definition digits_value :: "string \<Rightarrow> int" where
  "digits_value s = foldl (\<lambda>n c. 10 * n + (of_char c - 48)) 0 s"

definition ParseInt :: "string \<Rightarrow> int option" where
  "ParseInt s =
     (let (neg, ds) = (case s of [] \<Rightarrow> (False, [])
                       | c # r \<Rightarrow> if c = CHR ''-'' then (True, r) else if c = CHR ''+'' then (False, r) else (False, s));
          n = (if neg then - digits_value ds else digits_value ds)
      in if ds \<noteq> [] \<and> list_all is_digit ds \<and> - (2 ^ 63) \<le> n \<and> n < 2 ^ 63 then Some n else None)"

definition quoted :: "char \<Rightarrow> string \<Rightarrow> bool" where
  "quoted q s \<longleftrightarrow> has_prefix s [q] \<and> has_suffix s [q]"

text \<open>The slice \<open>value[1 : len(value)-1]\<close> panics when the two quotes are the same character.\<close>

definition parseValue :: "'f sqllib \<Rightarrow> string \<Rightarrow> (sql_error, 'f govalue) go" where
  "parseValue lib v =
     (let value = TrimSpace v
      in if quoted (CHR 0x27) value \<or> quoted (CHR 0x22) value
         then (if length value < 2 then Panic else Ok (VString (butlast (tl value))))
         else case ParseInt value of
                Some n \<Rightarrow> Ok (VInt n)
              | None \<Rightarrow>
                  (case lib_ParseFloat lib value of
                     Some f \<Rightarrow> Ok (VFloat f)
                   | None \<Rightarrow>
                       if value = ''true'' \<or> value = ''TRUE'' then Ok (VBool True)
                       else if value = ''false'' \<or> value = ''FALSE'' then Ok (VBool False)
                       else Ok (VField value)))"

definition operators :: "string list" where
  "operators = [''='', ''!='', ''<>'', ''<='', ''>='', ''<'', ''>'', ''LIKE'', ''NOT LIKE'', ''IN'', ''NOT IN'', ''IS NULL'', ''IS NOT NULL'']"

definition re_space :: "char \<Rightarrow> bool" where
  "re_space c \<longleftrightarrow> (of_char c :: nat) \<in> set [9, 10, 12, 13, 32]"

text \<open>
  The match of the regular expression: the shortest first group, not empty and in one line, after
  which white space, an operator (the first that fits in the order of the alternatives), white space
  and a rest within one line follow.
\<close>

definition match_operator :: "string \<Rightarrow> (string \<times> string) option" where
  "match_operator s =
     (let t = dropWhile re_space s
      in case find (\<lambda>op. has_prefix t op \<and> CHR 0x0A \<notin> set (dropWhile re_space (drop (length op) t))) operators of
           None \<Rightarrow> None
         | Some op \<Rightarrow> Some (op, dropWhile re_space (drop (length op) t)))"

fun match_comparison :: "string \<Rightarrow> string \<Rightarrow> (string \<times> string \<times> string) option" where
  "match_comparison pre [] = None"
| "match_comparison pre (c # s) =
     (if c = CHR 0x0A then None
      else case match_operator s of
             Some (op, rest) \<Rightarrow> Some (pre @ [c], op, rest)
           | None \<Rightarrow> match_comparison (pre @ [c]) s)"

definition parseComparison :: "'f sqllib \<Rightarrow> string \<Rightarrow> (sql_error, 'f SQLCondition) go" where
  "parseComparison lib e =
     (let expr = TrimSpace e
      in case match_comparison [] expr of
           None \<Rightarrow> Err (InvalidComparison expr)
         | Some (m1, operator, m3) \<Rightarrow>
             (let field = TrimSpace m1; value = TrimSpace m3
              in if operator = ''IS NULL'' then Ok (ComparisonCondition field ''IS NULL'' VNil)
                 else if operator = ''IS NOT NULL'' then Ok (ComparisonCondition field ''IS NOT NULL'' VNil)
                 else go_bind (parseValue lib value) (\<lambda>parsedValue.
                   Ok (ComparisonCondition field operator parsedValue))))"

text \<open>The loop that parses the parts one by one and stops at the first error.\<close>

fun go_map :: "('a \<Rightarrow> ('e, 'b) go) \<Rightarrow> 'a list \<Rightarrow> ('e, 'b list) go" where
  "go_map f [] = Ok []"
| "go_map f (x # xs) = go_bind (f x) (\<lambda>y. go_bind (go_map f xs) (\<lambda>ys. Ok (y # ys)))"

lemma go_bind_cong [fundef_cong]:
  "m = m' \<Longrightarrow> (\<And>a. m' = Ok a \<Longrightarrow> f a = f' a) \<Longrightarrow> go_bind m f = go_bind m' f'"
  by (cases m') auto

lemma go_map_cong [fundef_cong]: "xs = ys \<Longrightarrow> (\<And>x. x \<in> set ys \<Longrightarrow> f x = g x) \<Longrightarrow> go_map f xs = go_map g ys"
  by (induction ys arbitrary: xs) auto

lemma go_map_Ok: "(\<And>x. x \<in> set xs \<Longrightarrow> f x = Ok (g x)) \<Longrightarrow> go_map f xs = Ok (map g xs)"
  by (induction xs) auto

text \<open>
  The recursion of \<open>parseExpression\<close> ends although splitting can make a part longer than the expression
  (a byte outside ASCII becomes two): every call has fewer ASCII characters.
\<close>

definition ascii_count :: "string \<Rightarrow> nat" where
  "ascii_count s = length (filter ascii s)"

lemma ascii_count_simps [simp]:
  "ascii_count [] = 0" "ascii_count (c # s) = (if ascii c then Suc (ascii_count s) else ascii_count s)"
  "ascii_count (s @ t) = ascii_count s + ascii_count t" "ascii_count (rev s) = ascii_count s"
  by (simp_all add: ascii_count_def rev_filter [symmetric])

lemma ascii_count_drop: "ascii_count (drop n s) \<le> ascii_count s"
  using ascii_count_simps(3) [of "take n s" "drop n s"] by simp

lemma ascii_count_trim_left: "ascii_count (trim_left sp s) \<le> ascii_count s"
  by (induction sp s rule: trim_left.induct)
    (subst trim_left.simps, auto intro: order_trans [OF _ ascii_count_drop])

lemma ascii_count_TrimSpace: "ascii_count (TrimSpace s) \<le> ascii_count s"
  using ascii_count_trim_left [of "map rev spaces" "rev (trim_left spaces s)"] ascii_count_trim_left [of spaces s]
  by (simp add: TrimSpace_def)

lemma ascii_count_string_of_byte: "ascii_count (string_of_byte c) = ascii_count [c]"
proof (cases "ascii c")
  case False
  then have "128 \<le> (of_char c :: nat)" by (simp add: ascii_def)
  then have "(of_char c :: nat) div 64 \<in> {2, 3}" using nat_of_char_less_256 [of c] by (simp del: nat_of_char_less_256) linarith
  then have "\<not> ascii (char_of (192 + of_char c div 64 :: nat))" by (auto simp: ascii_def of_char_of)
  moreover have "\<not> ascii (char_of (128 + of_char c mod 64 :: nat))"
  proof -
    have "(of_char c :: nat) mod 64 < 64" by simp
    then show ?thesis by (simp add: ascii_def of_char_of)
  qed
  ultimately show ?thesis using False by (simp add: string_of_byte_def)
qed (simp add: string_of_byte_def)

lemma ascii_upper_char: "ascii (upper_char c) = ascii c"
  by (auto simp: upper_char_def ascii_def of_char_of)

lemma at_word_count:
  assumes "at_word op prev s" and "list_all ascii op"
  shows "ascii_count s = length op + ascii_count (drop (length op) s)"
proof -
  have eq: "map upper_char (take (length op) s) = op" using assms(1) by (simp add: at_word_def)
  then have len: "length (take (length op) s) = length op" by (metis length_map)
  have "list_all ascii (map upper_char (take (length op) s))" using eq assms(2) by simp
  then have "list_all ascii (take (length op) s)" by (simp add: list_all_iff ascii_upper_char)
  then have "ascii_count (take (length op) s) = length op" using len by (simp add: ascii_count_def list_all_iff)
  then show ?thesis using ascii_count_simps(3) [of "take (length op) s" "drop (length op) s"] by simp
qed

lemma split_loop_count:
  assumes "split_loop op prev lvl cur parts s = (parts', cur')" and "list_all ascii op" and "op \<noteq> []"
  shows "sum_list (map ascii_count parts') + ascii_count cur' + length op * length parts'
    \<le> sum_list (map ascii_count parts) + ascii_count cur + ascii_count s + length op * length parts"
  using assms
proof (induction op prev lvl cur parts s rule: split_loop.induct)
  case (2 op prev lvl cur parts c rest)
  let ?l = "level_after lvl c"
  show ?case
  proof (cases "?l = 0 \<and> at_word op prev (c # rest)")
    case True
    obtain k where k: "length op = Suc k" using "2.prems"(3) by (cases op) auto
    then have "ascii_count (c # rest) = length op + ascii_count (drop k rest)"
      using at_word_count [OF conjunct2 [OF True] "2.prems"(2)] by simp
    moreover have "ascii_count (TrimSpace cur) \<le> ascii_count cur" by (rule ascii_count_TrimSpace)
    ultimately show ?thesis using "2.IH"(1) [OF refl True] "2.prems" True k by (simp add: Let_def)
  next
    case False
    then show ?thesis using "2.IH"(2) [OF refl False] "2.prems"
      by (simp add: Let_def ascii_count_string_of_byte del: ascii_count_simps(2)) (simp split: if_splits)
  qed
qed simp

lemma splitByOperator_smaller:
  assumes "1 < length (splitByOperator expr op)" and "list_all ascii op" and "op \<noteq> []"
    and "part \<in> set (splitByOperator expr op)"
  shows "ascii_count part + length op \<le> ascii_count expr"
proof -
  obtain parts cur where pc: "split_loop op None 0 [] [] expr = (parts, cur)" by force
  let ?ps = "if cur \<noteq> [] then parts @ [TrimSpace cur] else parts"
  have s: "splitByOperator expr op = ?ps" and l: "1 < length ?ps"
    using assms(1) pc by (auto simp: splitByOperator_def Let_def not_le split: if_split_asm)
  have "1 \<le> length parts" using l by (cases parts) (auto split: if_splits)
  have "sum_list (map ascii_count parts) + ascii_count cur + length op * length parts \<le> ascii_count expr"
    using split_loop_count [OF pc assms(2,3)] by simp
  moreover have "sum_list (map ascii_count ?ps) \<le> sum_list (map ascii_count parts) + ascii_count cur"
    using ascii_count_TrimSpace [of cur] by simp
  moreover have "ascii_count part \<le> sum_list (map ascii_count ?ps)"
    using assms(4) s by (intro member_le_sum_list) auto
  moreover have "length op \<le> length op * length parts" using mult_le_mono2 [OF \<open>1 \<le> length parts\<close>, of "length op"] by simp
  ultimately show ?thesis by linarith
qed

lemma has_suffix_single: "has_suffix s [c] \<longleftrightarrow> s \<noteq> [] \<and> last s = c"
  by (cases s rule: rev_cases) (auto simp: has_suffix_def)

lemma ascii_count_parens:
  assumes "has_prefix s ''(''" and "has_suffix s '')''"
  shows "ascii_count (butlast (tl s)) < ascii_count s"
proof -
  obtain r where r: "s = CHR ''('' # r" using assms(1) by (auto simp: has_prefix_iff)
  then have "r \<noteq> []" "last r = CHR '')''" using assms(2) by (auto simp: has_suffix_single split: if_splits)
  then have "ascii_count (butlast r) + ascii_count [last r] = ascii_count r"
    by (metis append_butlast_last_id ascii_count_simps(3))
  then show ?thesis using r by (simp add: ascii_def)
qed

lemma ascii_count_not:
  assumes "map upper_char (take 4 s) = ''NOT ''"
  shows "ascii_count (drop 4 s) < ascii_count s"
proof -
  have "length (take 4 s) = 4" using arg_cong [OF assms, of length] by simp
  moreover have "list_all ascii (map upper_char (take 4 s))" unfolding assms by (simp add: ascii_def)
  ultimately have "ascii_count (take 4 s) = 4" by (simp add: ascii_count_def list_all_iff ascii_upper_char)
  then show ?thesis using ascii_count_simps(3) [of "take 4 s" "drop 4 s"] by simp
qed

function parseExpression :: "'f sqllib \<Rightarrow> string \<Rightarrow> (sql_error, 'f SQLCondition) go" where
  "parseExpression lib e =
     (let expr = TrimSpace e; orParts = splitByOperator expr ''OR''; andParts = splitByOperator expr ''AND''
      in if 1 < length orParts
         then go_bind (go_map (parseExpression lib) orParts) (\<lambda>conditions. Ok (OrCondition conditions))
         else if 1 < length andParts
         then go_bind (go_map (parseExpression lib) andParts) (\<lambda>conditions. Ok (AndCondition conditions))
         else if has_prefix expr ''('' \<and> has_suffix expr '')'' then parseExpression lib (butlast (tl expr))
         else if map upper_char (take 4 expr) = ''NOT ''
         then go_bind (parseExpression lib (drop 4 expr)) (\<lambda>inner. Ok (NotCondition inner))
         else parseComparison lib expr)"
  by pat_completeness auto
termination
proof (relation "measure (\<lambda>(lib, e). ascii_count e)", goal_cases)
  case (2 lib e expr orParts andParts part)
  then show ?case
    using splitByOperator_smaller [of expr "''OR''" part] ascii_count_TrimSpace [of e] by (simp add: ascii_def)
next
  case (3 lib e expr orParts andParts part)
  then show ?case
    using splitByOperator_smaller [of expr "''AND''" part] ascii_count_TrimSpace [of e] by (simp add: ascii_def)
next
  case (4 lib e expr orParts andParts)
  then show ?case using ascii_count_parens [of expr] ascii_count_TrimSpace [of e] by simp
next
  case (5 lib e expr orParts andParts)
  then show ?case using ascii_count_not [of expr] ascii_count_TrimSpace [of e] by simp
qed simp

declare parseExpression.simps [simp del]

definition Parse :: "'f sqllib \<Rightarrow> string \<Rightarrow> (sql_error, 'f SQLCondition) go" where
  "Parse lib s =
     (let sql = TrimSpace s; up = ToUpper (lib_ToUpper lib) sql
      in if has_prefix up ''SELECT''
         then (case str_index up ''WHERE'' of
                 None \<Rightarrow> Ok TrueCondition
               | Some whereIndex \<Rightarrow>
                   if length sql < whereIndex + 5 then Panic
                   else let w = TrimSpace (drop (whereIndex + 5) sql)
                        in if w = [] then Ok TrueCondition else parseExpression lib w)
         else if sql = [] then Ok TrueCondition else parseExpression lib sql)"

definition Validate :: "'f sqllib \<Rightarrow> string \<Rightarrow> (sql_error, unit) go" where
  "Validate lib sql = go_bind (Parse lib sql) (\<lambda>_. Ok ())"

section \<open>Evaluation\<close>

text \<open>\<open>fmt.Sprintf\<close> with the verb \<open>%v\<close>.\<close>

fun show_value :: "'f sqllib \<Rightarrow> 'f govalue \<Rightarrow> string" where
  "show_value lib VNil = ''<nil>''"
| "show_value lib (VString s) = s"
| "show_value lib (VInt n) = show_int n"
| "show_value lib (VFloat f) = lib_show_float lib f"
| "show_value lib (VBool b) = (if b then ''true'' else ''false'')"
| "show_value lib (VField f) = f"
| "show_value lib (VOther t) = t"

fun toFloat64 :: "'f sqllib \<Rightarrow> 'f govalue \<Rightarrow> 'f option" where
  "toFloat64 lib (VFloat f) = Some f"
| "toFloat64 lib (VInt n) = Some (lib_float_of_int lib n)"
| "toFloat64 lib (VString s) = lib_ParseFloat lib s"
| "toFloat64 lib _ = None"

definition getJSONField :: "'f sqllib \<Rightarrow> byte list \<Rightarrow> string \<Rightarrow> (sql_error, 'f govalue) go" where
  "getJSONField lib payload path =
     go_bind (lib_Unmarshal lib payload) (\<lambda>data.
       case data of None \<Rightarrow> Ok VNil | Some dataMap \<Rightarrow> Ok (gm_get0 VNil dataMap path))"

definition getFieldValue :: "'f sqllib \<Rightarrow> 'f RuleContext \<Rightarrow> string \<Rightarrow> (sql_error, 'f govalue) go" where
  "getFieldValue lib ctx field =
     (if field = ''topic'' then Ok (VString (rc_Topic ctx))
      else if field = ''qos'' then Ok (VInt (rc_QoS ctx))
      else if field = ''payload'' then Ok (VString (string_of (rc_Payload ctx)))
      else if field = ''clientid'' then Ok (VString (rc_ClientID ctx))
      else if field = ''username'' then Ok (VString (rc_Username ctx))
      else if field = ''timestamp'' then Ok (VInt (rc_Timestamp ctx div second))
      else if has_prefix field ''payload.'' then getJSONField lib (rc_Payload ctx) (drop 8 field)
      else if has_prefix field ''headers.''
      then Ok (case gm_get (rc_Headers ctx) (drop 8 field) of None \<Rightarrow> VNil | Some v \<Rightarrow> VString v)
      else if has_prefix field ''metadata.'' then Ok (gm_get0 VNil (rc_Metadata ctx) (drop 9 field))
      else Err (UnknownField field))"

definition sql_equals :: "'f sqllib \<Rightarrow> 'f govalue \<Rightarrow> 'f govalue \<Rightarrow> bool" where
  "sql_equals lib a b =
     (if a = VNil \<and> b = VNil then True else if a = VNil \<or> b = VNil then False
      else show_value lib a = show_value lib b)"

definition lessThan :: "'f sqllib \<Rightarrow> 'f govalue \<Rightarrow> 'f govalue \<Rightarrow> bool" where
  "lessThan lib a b =
     (case (toFloat64 lib a, toFloat64 lib b) of
        (Some x, Some y) \<Rightarrow> lib_float_less lib x y
      | _ \<Rightarrow> str_less (show_value lib a) (show_value lib b))"

definition greaterThan :: "'f sqllib \<Rightarrow> 'f govalue \<Rightarrow> 'f govalue \<Rightarrow> bool" where
  "greaterThan lib a b =
     (case (toFloat64 lib a, toFloat64 lib b) of
        (Some x, Some y) \<Rightarrow> lib_float_less lib y x
      | _ \<Rightarrow> str_less (show_value lib b) (show_value lib a))"

definition like_pattern :: "string \<Rightarrow> string" where
  "like_pattern s = ''^'' @ ReplaceAll (ReplaceAll s ''%'' ''.*'') ''_'' ''.'' @ ''$''"

definition like :: "'f sqllib \<Rightarrow> 'f govalue \<Rightarrow> 'f govalue \<Rightarrow> (sql_error, bool) go" where
  "like lib a b = lib_MatchString lib (like_pattern (show_value lib b)) (show_value lib a)"

definition compareValues :: "'f sqllib \<Rightarrow> string \<Rightarrow> 'f govalue \<Rightarrow> 'f govalue \<Rightarrow> (sql_error, bool) go" where
  "compareValues lib op a b =
     (if op = ''='' then Ok (sql_equals lib a b)
      else if op = ''!='' \<or> op = ''<>'' then Ok (\<not> sql_equals lib a b)
      else if op = ''<'' then Ok (lessThan lib a b)
      else if op = ''<='' then Ok (lessThan lib a b \<or> sql_equals lib a b)
      else if op = ''>'' then Ok (greaterThan lib a b)
      else if op = ''>='' then Ok (greaterThan lib a b \<or> sql_equals lib a b)
      else if op = ''LIKE'' then like lib a b
      else if op = ''NOT LIKE'' then go_bind (like lib a b) (\<lambda>r. Ok (\<not> r))
      else if op = ''IS NULL'' then Ok (a = VNil)
      else if op = ''IS NOT NULL'' then Ok (a \<noteq> VNil)
      else Err (UnsupportedOperator op))"

fun and_loop :: "('a \<Rightarrow> ('e, bool) go) \<Rightarrow> 'a list \<Rightarrow> ('e, bool) go" where
  "and_loop f [] = Ok True"
| "and_loop f (c # cs) = go_bind (f c) (\<lambda>result. if \<not> result then Ok False else and_loop f cs)"

fun or_loop :: "('a \<Rightarrow> ('e, bool) go) \<Rightarrow> 'a list \<Rightarrow> ('e, bool) go" where
  "or_loop f [] = Ok False"
| "or_loop f (c # cs) = go_bind (f c) (\<lambda>result. if result then Ok True else or_loop f cs)"

lemma loop_cong [fundef_cong]:
  "xs = ys \<Longrightarrow> (\<And>x. x \<in> set ys \<Longrightarrow> f x = g x) \<Longrightarrow> and_loop f xs = and_loop g ys"
  "xs = ys \<Longrightarrow> (\<And>x. x \<in> set ys \<Longrightarrow> f x = g x) \<Longrightarrow> or_loop f xs = or_loop g ys"
  by (induction ys arbitrary: xs) (auto intro!: go_bind_cong)

fun Evaluate :: "'f sqllib \<Rightarrow> 'f RuleContext \<Rightarrow> 'f SQLCondition \<Rightarrow> (sql_error, bool) go" where
  "Evaluate lib ctx TrueCondition = Ok True"
| "Evaluate lib ctx (AndCondition cs) = and_loop (Evaluate lib ctx) cs"
| "Evaluate lib ctx (OrCondition cs) = or_loop (Evaluate lib ctx) cs"
| "Evaluate lib ctx (NotCondition c) = go_bind (Evaluate lib ctx c) (\<lambda>result. Ok (\<not> result))"
| "Evaluate lib ctx (ComparisonCondition field op v) =
     go_bind (getFieldValue lib ctx field) (\<lambda>fieldValue.
     go_bind (case v of VField f \<Rightarrow> getFieldValue lib ctx f | _ \<Rightarrow> Ok v) (\<lambda>compareValue.
       compareValues lib op fieldValue compareValue))"

definition str_join :: "string \<Rightarrow> string list \<Rightarrow> string" where
  "str_join sep parts = (case parts of [] \<Rightarrow> [] | p # ps \<Rightarrow> p @ concat (map (\<lambda>q. sep @ q) ps))"

fun SQL_String :: "'f sqllib \<Rightarrow> 'f SQLCondition \<Rightarrow> string" where
  "SQL_String lib TrueCondition = ''TRUE''"
| "SQL_String lib (AndCondition cs) = ''('' @ str_join '' AND '' (map (SQL_String lib) cs) @ '')''"
| "SQL_String lib (OrCondition cs) = ''('' @ str_join '' OR '' (map (SQL_String lib) cs) @ '')''"
| "SQL_String lib (NotCondition c) = ''NOT '' @ SQL_String lib c"
| "SQL_String lib (ComparisonCondition field op v) =
     field @ '' '' @ op @ '' ''
     @ (case v of VString s \<Rightarrow> [CHR 0x27] @ s @ [CHR 0x27] | _ \<Rightarrow> show_value lib v)"

lemmas sql_defs = Parse_def parseComparison_def parseValue_def splitByOperator_def TrimSpace_def
  spaces_def ToUpper_def string_of_byte_def isAlphaNumeric_def at_word_def level_after_def
  match_operator_def operators_def re_space_def quoted_def has_suffix_single has_prefix_iff

section \<open>White space\<close>

text \<open>Texts whose ends are visible ASCII characters; \<open>TrimSpace\<close> leaves them.\<close>

definition visible :: "char \<Rightarrow> bool" where
  "visible c \<longleftrightarrow> 33 \<le> (of_char c :: nat) \<and> (of_char c :: nat) < 128"

definition solid :: "string \<Rightarrow> bool" where
  "solid t \<longleftrightarrow> t \<noteq> [] \<and> visible (hd t) \<and> visible (last t)"

lemma spaces_ends:
  "p \<in> set spaces \<Longrightarrow> p \<noteq> [] \<and> \<not> visible (hd p)"
  "p \<in> set (map rev spaces) \<Longrightarrow> p \<noteq> [] \<and> \<not> visible (hd p)"
  by (auto simp: spaces_def visible_def)

lemma space_width_visible:
  assumes "\<And>p. p \<in> set sp \<Longrightarrow> p \<noteq> [] \<and> \<not> visible (hd p)" and "visible c"
  shows "space_width sp (c # s) = 0"
proof -
  have "find (has_prefix (c # s)) sp = None"
    using assms by (fastforce simp: find_None_iff has_prefix_iff Cons_eq_append_conv)
  then show ?thesis by (simp add: space_width_def)
qed

lemma blank_space:
  assumes "sp = spaces \<or> sp = map rev spaces"
  shows "space_width sp (CHR '' '' # s) = 1"
proof -
  have mem: "'' '' \<in> set sp" using assms by (auto simp: spaces_def)
  have one: "length p = 1" if "p \<in> set sp" "hd p = CHR '' ''" for p
    using assms that by (auto simp: spaces_def)
  obtain p where p: "find (has_prefix (CHR '' '' # s)) sp = Some p"
    using mem by (cases "find (has_prefix (CHR '' '' # s)) sp") (auto simp: find_None_iff has_prefix_iff)
  then have "p \<in> set sp" "has_prefix (CHR '' '' # s) p" by (auto simp: find_Some_iff)
  moreover have "p \<noteq> []" using \<open>p \<in> set sp\<close> assms spaces_ends by metis
  ultimately have "length p = 1" by (intro one) (auto simp: has_prefix_iff Cons_eq_append_conv)
  then show ?thesis using p by (simp add: space_width_def)
qed

lemma trim_left_visible:
  assumes "sp = spaces \<or> sp = map rev spaces" and "visible c"
  shows "trim_left sp (c # s) = c # s" and "trim_left sp (CHR '' '' # c # s) = c # s"
proof -
  have z: "space_width sp (c # s) = 0"
    using assms spaces_ends by - (rule space_width_visible, auto simp del: set_map)
  then show e: "trim_left sp (c # s) = c # s" by (simp add: trim_left.simps)
  show "trim_left sp (CHR '' '' # c # s) = c # s"
    using e blank_space [OF assms(1)] by (subst trim_left.simps) simp
qed

lemma TrimSpace_solid:
  assumes "solid t" and "pre = [] \<or> pre = '' ''" and "post = [] \<or> post = '' ''"
  shows "TrimSpace (pre @ t @ post) = t"
proof -
  obtain c s where t: "t = c # s" and c: "visible c" using assms(1) by (cases t) (auto simp: solid_def)
  have "trim_left spaces (pre @ t @ post) = t @ post"
    using assms(2) t c trim_left_visible [of spaces c] by auto
  moreover obtain d r where "rev t = d # r" and "visible d"
    using assms(1) by (cases t rule: rev_cases) (auto simp: solid_def)
  ultimately show ?thesis
    using assms(3) trim_left_visible [of "map rev spaces" d] by (auto simp: TrimSpace_def rev_swap)
qed

lemmas TrimSpace_solid' = TrimSpace_solid [of _ "[]" "[]", simplified]

lemma solid_append: "s \<noteq> [] \<Longrightarrow> t \<noteq> [] \<Longrightarrow> visible (hd s) \<Longrightarrow> visible (last t) \<Longrightarrow> solid (s @ u @ t)"
  by (simp add: solid_def)

section \<open>Splitting printed conditions\<close>

text \<open>
  A text is sealed for an operator from a level on if the loop of \<open>splitByOperator\<close> runs through it
  without a split at every such level of parentheses, wherever it stands between word boundaries.
\<close>

definition boundary :: "char option \<Rightarrow> bool" where
  "boundary prev \<longleftrightarrow> (case prev of None \<Rightarrow> True | Some c \<Rightarrow> \<not> isAlphaNumeric c)"

definition ends_word :: "string \<Rightarrow> bool" where
  "ends_word rest \<longleftrightarrow> (case rest of [] \<Rightarrow> True | c # _ \<Rightarrow> c = CHR '' '' \<or> c = CHR '')'')"

definition sealed :: "int \<Rightarrow> string \<Rightarrow> string \<Rightarrow> bool" where
  "sealed n op t \<longleftrightarrow> t \<noteq> [] \<and>
     (\<forall>prev lvl cur parts rest. n \<le> lvl \<longrightarrow> boundary prev \<longrightarrow> ends_word rest \<longrightarrow>
        split_loop op prev lvl cur parts (t @ rest) = split_loop op (Some (last t)) lvl (cur @ t) parts rest)"

lemma sealedD:
  "sealed n op t \<Longrightarrow> n \<le> lvl \<Longrightarrow> boundary prev \<Longrightarrow> ends_word rest \<Longrightarrow>
     split_loop op prev lvl cur parts (t @ rest) = split_loop op (Some (last t)) lvl (cur @ t) parts rest"
  by (simp add: sealed_def)

lemma sealed_mono: "sealed n op t \<Longrightarrow> n \<le> m \<Longrightarrow> sealed m op t"
  by (auto simp: sealed_def)

definition keyword :: "string \<Rightarrow> bool" where
  "keyword op \<longleftrightarrow> op = ''OR'' \<or> op = ''AND''"

lemma at_word_append:
  assumes "keyword op" and "ends_word rest" and "s \<noteq> []"
  shows "at_word op prev (s @ rest) = at_word op prev s"
proof (cases "length op \<le> length s")
  case True
  have "(case drop (length op) s @ rest of [] \<Rightarrow> True | c # _ \<Rightarrow> \<not> isAlphaNumeric c)
    = (case drop (length op) s of [] \<Rightarrow> True | c # _ \<Rightarrow> \<not> isAlphaNumeric c)"
    using assms(2) by (cases "drop (length op) s"; cases rest) (auto simp: ends_word_def isAlphaNumeric_def)
  then show ?thesis using True by (simp add: at_word_def)
next
  case False
  have n: "\<not> at_word op prev s"
  proof
    assume "at_word op prev s"
    then have "length (map upper_char (take (length op) s)) = length op" by (simp add: at_word_def)
    then show False using False by simp
  qed
  show ?thesis
  proof (cases rest)
    case (Cons c r)
    then have "upper_char c \<notin> set op"
      using assms(1,2) by (auto simp: keyword_def ends_word_def upper_char_def)
    moreover have "upper_char c \<in> set (map upper_char (take (length op) (s @ rest)))"
      using False Cons by (simp add: take_Cons')
    ultimately show ?thesis using n by (metis at_word_def)
  qed (simp add: n)
qed

fun no_word :: "string \<Rightarrow> char option \<Rightarrow> string \<Rightarrow> bool" where
  "no_word op prev [] = True"
| "no_word op prev (c # s) = (\<not> at_word op prev (c # s) \<and> no_word op (Some c) s)"

definition plain :: "string \<Rightarrow> bool" where
  "plain t \<longleftrightarrow> list_all (\<lambda>c. ascii c \<and> c \<noteq> CHR ''('' \<and> c \<noteq> CHR '')'') t"

lemma split_step:
  assumes "ascii c" and "level_after lvl c \<noteq> 0 \<or> \<not> at_word op prev (c # s)"
  shows "split_loop op prev lvl cur parts (c # s) = split_loop op (Some c) (level_after lvl c) (cur @ [c]) parts s"
  using assms by (auto simp: Let_def string_of_byte_def)

lemma not_at_word: "keyword op \<Longrightarrow> c \<in> {CHR '' '', CHR ''('', CHR '')''} \<Longrightarrow> \<not> at_word op prev (c # s)"
  by (auto simp: at_word_def keyword_def upper_char_def)

lemma split_plain:
  assumes "keyword op" and "plain t" and "lvl \<noteq> 0 \<or> no_word op prev t" and "ends_word rest" and "t \<noteq> []"
  shows "split_loop op prev lvl cur parts (t @ rest) = split_loop op (Some (last t)) lvl (cur @ t) parts rest"
  using assms(2,3,5)
proof (induction t arbitrary: prev cur)
  case (Cons c t)
  have c: "ascii c" "level_after lvl c = lvl" using Cons.prems(1) by (auto simp: plain_def level_after_def)
  have "lvl \<noteq> 0 \<or> \<not> at_word op prev (c # t @ rest)"
    using Cons.prems(2) at_word_append [OF assms(1,4), of "c # t"] by auto
  then have "split_loop op prev lvl cur parts ((c # t) @ rest) = split_loop op (Some c) lvl (cur @ [c]) parts (t @ rest)"
    using split_step [of c lvl op prev "t @ rest"] c by simp
  then show ?case using Cons.IH [of "Some c" "cur @ [c]"] Cons.prems by (cases "t = []") (auto simp: plain_def)
qed simp

lemma no_word_prev: "no_word op None t \<Longrightarrow> no_word op prev t"
  by (cases t) (auto simp: at_word_def split: option.splits)

lemma sealed_plain:
  assumes "keyword op" and "plain t" and "t \<noteq> []" and "0 < n \<or> no_word op None t" and "0 \<le> n"
  shows "sealed n op t"
  unfolding sealed_def using assms no_word_prev by (intro conjI allI impI split_plain) auto

lemma sealed_append:
  assumes "keyword op" and "0 \<le> n" and "sealed n op s" and "sealed n op t"
  shows "sealed n op (s @ '' '' @ t)"
proof -
  have "split_loop op prev lvl cur parts ((s @ '' '' @ t) @ rest)
      = split_loop op (Some (last (s @ '' '' @ t))) lvl (cur @ s @ '' '' @ t) parts rest"
    if "n \<le> lvl" "boundary prev" "ends_word rest" for prev lvl cur parts rest
  proof -
    have "split_loop op prev lvl cur parts (s @ CHR '' '' # t @ rest)
        = split_loop op (Some (last s)) lvl (cur @ s) parts (CHR '' '' # t @ rest)"
      using sealedD [OF assms(3) that(1,2), of "CHR '' '' # t @ rest"] by (simp add: ends_word_def)
    also have "\<dots> = split_loop op (Some CHR '' '') lvl (cur @ s @ '' '') parts (t @ rest)"
      using assms(1) by (subst split_step) (simp_all add: ascii_def not_at_word level_after_def)
    also have "\<dots> = split_loop op (Some (last t)) lvl (cur @ s @ '' '' @ t) parts rest"
      using sealedD [OF assms(4) that(1) _ that(3)] by (simp add: boundary_def isAlphaNumeric_def)
    finally show ?thesis using assms(4) by (simp add: sealed_def)
  qed
  then show ?thesis using assms(3) by (simp add: sealed_def)
qed

lemma sealed_parens:
  assumes "keyword op" and "0 \<le> n" and "sealed (n + 1) op t"
  shows "sealed n op (''('' @ t @ '')'')"
proof -
  have "split_loop op prev lvl cur parts (CHR ''('' # t @ CHR '')'' # rest)
      = split_loop op (Some CHR '')'') lvl (cur @ ''('' @ t @ '')'') parts rest"
    if "n \<le> lvl" "boundary prev" "ends_word rest" for prev lvl cur parts rest
  proof -
    have "split_loop op prev lvl cur parts (CHR ''('' # t @ CHR '')'' # rest)
        = split_loop op (Some CHR ''('') (lvl + 1) (cur @ ''('') parts (t @ CHR '')'' # rest)"
      using assms(1) by (subst split_step) (simp_all add: ascii_def not_at_word level_after_def)
    also have "\<dots> = split_loop op (Some (last t)) (lvl + 1) (cur @ ''('' @ t) parts (CHR '')'' # rest)"
      using sealedD [OF assms(3), of "lvl + 1" "Some CHR ''(''" "CHR '')'' # rest"] that(1)
      by (simp add: boundary_def isAlphaNumeric_def ends_word_def del: split_loop.simps)
    also have "\<dots> = split_loop op (Some CHR '')'') lvl (cur @ ''('' @ t @ '')'') parts rest"
      using assms(1) by (subst split_step) (simp_all add: ascii_def not_at_word level_after_def)
    finally show ?thesis .
  qed
  then show ?thesis by (simp add: sealed_def)
qed

lemma str_join_simps [simp]:
  "str_join sep [t] = t" "str_join sep (t # u # ts) = t @ sep @ str_join sep (u # ts)"
  by (simp_all add: str_join_def)

lemma sealed_join:
  assumes "keyword op" and "0 \<le> n" and "\<forall>t \<in> set ts. sealed n op t" and "sealed n op sep" and "ts \<noteq> []"
  shows "sealed n op (str_join ('' '' @ sep @ '' '') ts)"
  using assms(3,5)
proof (induction ts rule: induct_list012)
  case (3 t u ts)
  then show ?case using sealed_append [OF assms(1,2) _ sealed_append [OF assms(1,2,4)]] by simp
qed auto

lemma splitByOperator_sealed: "sealed 0 op t \<Longrightarrow> splitByOperator t op = [t]"
  using sealedD [of 0 op t 0 None "[]" "[]" "[]"]
  by (simp add: splitByOperator_def boundary_def ends_word_def)

lemma split_at_operator:
  assumes "keyword op" and "rest = [] \<or> \<not> isAlphaNumeric (hd rest)" and "boundary prev"
  shows "split_loop op prev 0 cur parts (op @ rest)
    = split_loop op (Some (last op)) 0 [] (parts @ [TrimSpace cur]) rest"
proof -
  have u: "map upper_char op = op" using assms(1) by (auto simp: keyword_def upper_char_def)
  have "op \<noteq> []" and l: "level_after 0 (hd op) = 0" using assms(1) by (auto simp: keyword_def level_after_def)
  then obtain c r where op: "op = c # r" by (cases op) auto
  have "at_word op prev (op @ rest)"
    using assms(2,3) u by (cases rest) (auto simp: at_word_def boundary_def)
  then show ?thesis using l by (simp add: op Let_def)
qed

lemma split_join:
  assumes "keyword op" and "\<forall>t \<in> set (t # ts). sealed 0 op t \<and> solid t" and "boundary prev" and "pre = [] \<or> pre = '' ''"
  shows "\<exists>pre'. (pre' = [] \<or> pre' = '' '')
    \<and> split_loop op prev 0 pre parts (str_join ('' '' @ op @ '' '') (t # ts)) = (parts @ butlast (t # ts), pre' @ last (t # ts))"
  using assms(2-4)
proof (induction ts arbitrary: t prev pre parts)
  case Nil
  then have "split_loop op prev 0 pre parts (t @ []) = (parts, pre @ t)"
    by (subst sealedD [where n = 0]) (auto simp: ends_word_def)
  then show ?case using Nil.prems(3) by auto
next
  case (Cons u ts)
  let ?join = "str_join ('' '' @ op @ '' '') (u # ts)"
  have t: "sealed 0 op t" "solid t" using Cons.prems(1) by auto
  have "split_loop op prev 0 pre parts (t @ CHR '' '' # op @ CHR '' '' # ?join)
      = split_loop op (Some (last t)) 0 (pre @ t) parts (CHR '' '' # op @ CHR '' '' # ?join)"
    using t(1) Cons.prems(2) by (subst sealedD [where n = 0]) (auto simp: ends_word_def)
  also have "\<dots> = split_loop op (Some CHR '' '') 0 (pre @ t @ '' '') parts (op @ CHR '' '' # ?join)"
    using assms(1) by (subst split_step) (simp_all add: ascii_def not_at_word level_after_def)
  also have "\<dots> = split_loop op (Some (last op)) 0 [] (parts @ [t]) (CHR '' '' # ?join)"
    using TrimSpace_solid [OF t(2) Cons.prems(3), of "'' ''"]
    by (subst split_at_operator [OF assms(1)]) (auto simp: boundary_def isAlphaNumeric_def)
  also have "\<dots> = split_loop op (Some CHR '' '') 0 '' '' (parts @ [t]) ?join"
    using assms(1) by (subst split_step) (simp_all add: ascii_def not_at_word level_after_def)
  finally show ?case
    using Cons.IH [of u "Some CHR '' ''" "'' ''" "parts @ [t]"] Cons.prems(1)
    by (auto simp: boundary_def isAlphaNumeric_def)
qed

lemma splitByOperator_join:
  assumes "keyword op" and "\<forall>t \<in> set ts. sealed 0 op t \<and> solid t" and "2 \<le> length ts"
  shows "splitByOperator (str_join ('' '' @ op @ '' '') ts) op = ts"
proof -
  obtain t u us where ts: "ts = t # u # us" using assms(3) by (cases ts; cases "tl ts") auto
  obtain pre where pre: "pre = [] \<or> pre = '' ''"
    and s: "split_loop op None 0 [] [] (str_join ('' '' @ op @ '' '') ts) = (butlast ts, pre @ last ts)"
    using split_join [OF assms(1), of t "u # us" None "[]" "[]"] assms(2) ts by (auto simp: boundary_def)
  have "solid (last ts)" using assms(2) ts by simp
  then have "TrimSpace (pre @ last ts) = last ts" and "last ts \<noteq> []"
    using TrimSpace_solid [of _ pre "[]"] pre by (auto simp: solid_def)
  then show ?thesis unfolding splitByOperator_def s using ts by simp
qed

lemma solid_join:
  assumes "\<forall>t \<in> set ts. solid t" and "ts \<noteq> []"
  shows "solid (str_join sep ts)"
  using assms
proof (induction ts rule: induct_list012)
  case (3 t u ts)
  then show ?case by (simp add: solid_def)
qed auto

section \<open>Printed comparisons\<close>

definition field_char :: "char \<Rightarrow> bool" where
  "field_char c \<longleftrightarrow> (let n = of_char c :: nat in 97 \<le> n \<and> n \<le> 122 \<or> 48 \<le> n \<and> n \<le> 57 \<or> n = 95 \<or> n = 46)"

definition simple_field :: "string \<Rightarrow> bool" where
  "simple_field f \<longleftrightarrow> f \<noteq> [] \<and> list_all field_char f"

lemma field_charD: "field_char c \<Longrightarrow> visible c \<and> \<not> re_space c \<and> c \<noteq> CHR 0x0A"
  by (auto simp: field_char_def visible_def re_space_def Let_def)

lemma operators_head: "op \<in> set operators \<Longrightarrow> op \<noteq> [] \<and> \<not> field_char (hd op)"
  by (auto simp: operators_def field_char_def)

lemma match_operator_field:
  assumes "field_char c"
  shows "match_operator (c # s) = None"
proof -
  have "find (\<lambda>op. has_prefix (c # s) op \<and> P op) operators = None" for P
    using assms operators_head by (fastforce simp: find_None_iff has_prefix_iff Cons_eq_append_conv)
  then show ?thesis using field_charD [OF assms] by (simp add: match_operator_def)
qed

lemma operators_nonspace: "op \<in> set operators \<Longrightarrow> op \<noteq> [] \<and> \<not> re_space (hd op)"
  by (auto simp: operators_def re_space_def)

lemma find_operator:
  assumes "op \<in> set operators" and "Q op"
  shows "find (\<lambda>p. has_prefix (op @ CHR '' '' # v) p \<and> Q p) operators = Some op"
  using assms unfolding operators_def list.set by (elim insertE emptyE; simp add: has_prefix_def)

lemma match_operator_op:
  assumes "op \<in> set operators" and "solid v" and "CHR 0x0A \<notin> set v"
  shows "match_operator ('' '' @ op @ '' '' @ v) = Some (op, v)"
proof -
  obtain c r where v: "v = c # r" "\<not> re_space c" using assms(2) by (cases v) (auto simp: solid_def visible_def re_space_def)
  have b: "re_space CHR '' ''" by (simp add: re_space_def)
  have d: "dropWhile re_space (CHR '' '' # v) = v" using v b by simp
  have t: "dropWhile re_space ('' '' @ op @ '' '' @ v) = op @ CHR '' '' # v"
    using b operators_nonspace [OF assms(1)] by - (cases op, auto)
  have "find (\<lambda>p. has_prefix (op @ CHR '' '' # v) p \<and> CHR 0x0A \<notin> set (dropWhile re_space (drop (length p) (op @ CHR '' '' # v)))) operators
      = Some op"
    using assms(1,3) d by (intro find_operator) auto
  then show ?thesis unfolding match_operator_def t Let_def using d by simp
qed

lemma match_comparison_field:
  assumes "simple_field f" and "op \<in> set operators" and "solid v" and "CHR 0x0A \<notin> set v"
  shows "match_comparison pre (f @ '' '' @ op @ '' '' @ v) = Some (pre @ f, op, v)"
  using assms(1)
proof (induction f arbitrary: pre rule: induct_list012)
  case (2 c)
  then show ?case using match_operator_op [OF assms(2-4)] field_charD [of c] by (simp add: simple_field_def)
next
  case (3 c d f)
  then show ?case using match_operator_field [of d] field_charD [of c] by (simp add: simple_field_def)
qed (simp add: simple_field_def)

lemma simple_field_solid: "simple_field f \<Longrightarrow> solid f"
  unfolding simple_field_def solid_def list_all_iff by (meson field_charD hd_in_set last_in_set)

lemma digit_facts: "n < 10 \<Longrightarrow> is_digit (digit n) \<and> (of_char (digit n) :: int) = 48 + int n"
proof -
  assume "n < 10"
  then have "(of_char (digit n) :: nat) = 48 + n" by (simp add: digit_def)
  then show ?thesis using \<open>n < 10\<close> of_nat_of_char [of "digit n", where 'a = int]
    by (simp add: is_digit_def)
qed

lemma show_nat_digits: "list_all is_digit (show_nat n) \<and> digits_value (show_nat n) = int n"
proof (induction n rule: show_nat.induct)
  case (1 n)
  show ?case
  proof (cases "n < 10")
    case True
    then show ?thesis using digit_facts [of n] by (subst (1 2) show_nat.simps) (simp add: digits_value_def)
  next
    case False
    then have "digits_value (show_nat (n div 10)) = int (n div 10)" "list_all is_digit (show_nat (n div 10))"
      using 1 by auto
    then show ?thesis using False digit_facts [of "n mod 10"]
      by (subst (1 2) show_nat.simps) (simp add: digits_value_def zmod_int zdiv_int)
  qed
qed

lemma is_digitD: "is_digit c \<Longrightarrow> visible c \<and> ascii c \<and> c \<noteq> CHR ''-'' \<and> c \<noteq> CHR ''+'' \<and> c \<noteq> CHR 0x27 \<and> c \<noteq> CHR 0x22 \<and> c \<noteq> CHR 0x0A"
  by (auto simp: is_digit_def visible_def ascii_def Let_def)

lemma show_nat_ends: "is_digit (hd (show_nat n)) \<and> is_digit (last (show_nat n))"
  using show_nat_digits [of n] show_nat_nonempty(1) [of n] by (simp add: list_all_iff)

lemma ParseInt_show_int:
  assumes "- (2 ^ 63) \<le> n" and "n < 2 ^ 63"
  shows "ParseInt (show_int n) = Some n"
proof -
  obtain c r where cr: "show_nat (nat n) = c # r" using show_nat_nonempty(1) by (cases "show_nat (nat n)") auto
  then have "c \<noteq> CHR ''-''" "c \<noteq> CHR ''+''" using show_nat_ends [of "nat n"] is_digitD [of c] by auto
  then show ?thesis
    using assms cr show_nat_digits [of "nat n"] show_nat_digits [of "nat (- n)"] show_nat_nonempty
    by (cases "n < 0") (auto simp: ParseInt_def show_int_def)
qed

lemma solid_show_int: "solid (show_int n)"
  using show_nat_ends [of "nat n"] show_nat_ends [of "nat (- n)"] is_digitD
  by (simp add: solid_def show_int_def show_nat_nonempty) (simp add: visible_def)

text \<open>Values that a printed comparison can have: texts and numbers, or nothing for the two tests for null.\<close>

fun literal :: "string \<Rightarrow> 'f govalue \<Rightarrow> bool" where
  "literal op (VString s) = (op \<noteq> ''IS NULL'' \<and> op \<noteq> ''IS NOT NULL'')"
| "literal op (VInt n) = (op \<noteq> ''IS NULL'' \<and> op \<noteq> ''IS NOT NULL'' \<and> - (2 ^ 63) \<le> n \<and> n < 2 ^ 63)"
| "literal op VNil = (op = ''IS NULL'' \<or> op = ''IS NOT NULL'')"
| "literal op _ = False"

abbreviation print_value :: "'f sqllib \<Rightarrow> 'f govalue \<Rightarrow> string" where
  "print_value lib v \<equiv> (case v of VString s \<Rightarrow> [CHR 0x27] @ s @ [CHR 0x27] | _ \<Rightarrow> show_value lib v)"

lemma literal_solid: "literal op v \<Longrightarrow> solid (print_value lib v)"
  by (cases v) (auto simp: solid_show_int, auto simp: solid_def visible_def)

lemma parseValue_print:
  assumes "literal op v" and "op \<noteq> ''IS NULL''" and "op \<noteq> ''IS NOT NULL''"
  shows "parseValue lib (print_value lib v) = Ok v"
proof (cases v)
  case (VInt n)
  have "\<not> quoted q (show_int n)" if "q = CHR 0x27 \<or> q = CHR 0x22" for q
    using that solid_show_int [of n] show_nat_ends [of "nat n"] show_nat_ends [of "nat (- n)"] is_digitD
    by (auto simp: quoted_def has_suffix_single show_int_def show_nat_nonempty)
  then show ?thesis using VInt assms(1) ParseInt_show_int [of n]
    by (simp add: parseValue_def TrimSpace_solid' solid_show_int)
qed (use assms literal_solid [OF assms(1), of lib] in
    \<open>auto simp: parseValue_def TrimSpace_solid' quoted_def has_prefix_iff has_suffix_single\<close>)

lemma parseComparison_print:
  assumes "simple_field f" and "op \<in> set operators" and "literal op v" and "CHR 0x0A \<notin> set (print_value lib v)"
  shows "parseComparison lib (SQL_String lib (ComparisonCondition f op v)) = Ok (ComparisonCondition f op v)"
proof -
  let ?v = "print_value lib v"
  have s: "solid ?v" "solid f" using literal_solid assms simple_field_solid by blast+
  then have "solid (f @ '' '' @ op @ '' '' @ ?v)" by (simp add: solid_def)
  then have "TrimSpace (SQL_String lib (ComparisonCondition f op v)) = f @ '' '' @ op @ '' '' @ ?v"
    using TrimSpace_solid' by simp
  moreover have "v = VNil" if "op = ''IS NULL'' \<or> op = ''IS NOT NULL''" using that assms(3) by (cases v) auto
  ultimately show ?thesis
    using match_comparison_field [OF assms(1,2) s(1) assms(4), of "[]"] parseValue_print [OF assms(3)] s
    by (auto simp: parseComparison_def TrimSpace_solid')
qed

section \<open>Round trip\<close>

text \<open>
  Conditions whose text is unambiguous: comparisons of a field with a literal whose text has no
  parentheses and neither of the words OR and AND, and does not begin like a negation or a SELECT
  statement, under conjunctions and disjunctions of at least two members and negations.
\<close>

definition clear_text :: "string \<Rightarrow> bool" where
  "clear_text t \<longleftrightarrow> plain t \<and> CHR 0x0A \<notin> set t \<and> no_word ''OR'' None t \<and> no_word ''AND'' None t
     \<and> map upper_char (take 4 t) \<noteq> ''NOT '' \<and> map upper_char (take 6 t) \<noteq> ''SELECT''"

fun printable :: "'f sqllib \<Rightarrow> 'f SQLCondition \<Rightarrow> bool" where
  "printable lib TrueCondition = False"
| "printable lib (AndCondition cs) = (2 \<le> length cs \<and> list_all (printable lib) cs)"
| "printable lib (OrCondition cs) = (2 \<le> length cs \<and> list_all (printable lib) cs)"
| "printable lib (NotCondition c) = printable lib c"
| "printable lib (ComparisonCondition f op v) =
     (simple_field f \<and> op \<in> set operators \<and> literal op v \<and> clear_text (SQL_String lib (ComparisonCondition f op v)))"

lemma keyword_OR_AND [simp]: "keyword ''OR''" "keyword ''AND''"
  by (simp_all add: keyword_def)

lemma comparison_solid: "printable lib (ComparisonCondition f op v) \<Longrightarrow> solid (SQL_String lib (ComparisonCondition f op v))"
  using simple_field_solid [of f] literal_solid [of op v lib] by (simp add: solid_def)

lemma sealed_keyword: "keyword op \<Longrightarrow> keyword op' \<Longrightarrow> 0 < n \<or> op \<noteq> op' \<Longrightarrow> 0 \<le> n \<Longrightarrow> sealed n op op'"
  by (rule sealed_plain) (auto simp: keyword_def plain_def ascii_def at_word_def upper_char_def)

lemma sealed_NOT: "keyword op \<Longrightarrow> 0 \<le> n \<Longrightarrow> sealed n op ''NOT''"
  by (rule sealed_plain) (auto simp: keyword_def plain_def ascii_def at_word_def upper_char_def)

lemma sealed_inside:
  assumes "keyword op" and "keyword k" and "\<forall>t \<in> set ts. sealed 0 op t" and "ts \<noteq> []"
  shows "sealed 1 op (str_join ('' '' @ k @ '' '') ts)"
  using assms sealed_mono [of 0 op _ 1] by (intro sealed_join sealed_keyword) auto

text \<open>The text of a condition is solid, and neither OR nor AND splits it.\<close>

lemma printable_shape:
  assumes "printable lib c"
  shows "solid (SQL_String lib c) \<and> (\<forall>op. keyword op \<longrightarrow> sealed 0 op (SQL_String lib c))"
  using assms
proof (induction c)
  case (AndCondition cs)
  let ?j = "str_join ('' '' @ ''AND'' @ '' '') (map (SQL_String lib) cs)"
  have "sealed 1 op ?j" if "keyword op" for op
    using AndCondition that by (intro sealed_inside) (auto simp: list_all_iff)
  then show ?case using sealed_parens [of _ 0 ?j] by (simp add: solid_def visible_def)
next
  case (OrCondition cs)
  let ?j = "str_join ('' '' @ ''OR'' @ '' '') (map (SQL_String lib) cs)"
  have "sealed 1 op ?j" if "keyword op" for op
    using OrCondition that by (intro sealed_inside) (auto simp: list_all_iff)
  then show ?case using sealed_parens [of _ 0 ?j] by (simp add: solid_def visible_def)
next
  case (NotCondition c)
  then show ?case using sealed_append [OF _ _ sealed_NOT] by (auto simp: solid_def visible_def)
next
  case (ComparisonCondition f op v)
  then have "solid (SQL_String lib (ComparisonCondition f op v))" by (rule comparison_solid)
  then show ?case using ComparisonCondition
    by (intro conjI allI impI sealed_plain) (auto simp: clear_text_def keyword_def solid_def simp del: SQL_String.simps)
qed simp

lemma parse_strip:
  assumes "solid t" and "\<And>op. keyword op \<Longrightarrow> sealed 1 op t"
  shows "parseExpression lib (''('' @ t @ '')'') = parseExpression lib t"
proof -
  let ?e = "''('' @ t @ '')''"
  have "TrimSpace ?e = ?e" by (rule TrimSpace_solid') (simp add: solid_def visible_def)
  moreover have "splitByOperator ?e op = [?e]" if "keyword op" for op
    using sealed_parens [OF that, of 0 t] assms(2) [OF that] splitByOperator_sealed by simp
  ultimately show ?thesis
    by (subst parseExpression.simps) (simp add: has_suffix_single has_prefix_iff del: append.simps, simp)
qed

lemma parse_join:
  assumes "\<forall>c \<in> set cs. printable lib c \<and> parseExpression lib (SQL_String lib c) = Ok c" and "2 \<le> length cs"
  shows "parseExpression lib (str_join '' AND '' (map (SQL_String lib) cs)) = Ok (AndCondition cs)"
    and "parseExpression lib (str_join '' OR '' (map (SQL_String lib) cs)) = Ok (OrCondition cs)"
proof -
  let ?ts = "map (SQL_String lib) cs"
  have ts: "\<forall>t \<in> set ?ts. sealed 0 op t \<and> solid t" if "keyword op" for op
    using assms(1) printable_shape that by auto
  then have "\<forall>t \<in> set ?ts. solid t" using keyword_OR_AND by blast
  moreover have ne: "?ts \<noteq> []" using assms(2) by auto
  ultimately have trim: "TrimSpace (str_join sep ?ts) = str_join sep ?ts" for sep
    by (intro TrimSpace_solid' solid_join)
  have parts: "go_map (parseExpression lib) ?ts = Ok cs"
    using assms(1) by (induction cs) auto
  have "splitByOperator (str_join '' OR '' ?ts) ''OR'' = ?ts"
    using splitByOperator_join [OF _ ts, of "''OR''"] assms(2) by simp
  then show "parseExpression lib (str_join '' OR '' ?ts) = Ok (OrCondition cs)"
    using parts assms(2) trim by (subst parseExpression.simps) (simp add: Let_def)
  have "sealed 0 ''OR'' (str_join ('' '' @ ''AND'' @ '' '') ?ts)"
    using ts ne by (intro sealed_join sealed_keyword) auto
  moreover have "splitByOperator (str_join '' AND '' ?ts) ''AND'' = ?ts"
    using splitByOperator_join [OF _ ts, of "''AND''"] assms(2) by simp
  ultimately show "parseExpression lib (str_join '' AND '' ?ts) = Ok (AndCondition cs)"
    using parts assms(2) trim splitByOperator_sealed by (subst parseExpression.simps) (simp add: Let_def)
qed

lemma parse_not:
  assumes "printable lib c"
  shows "parseExpression lib (''NOT '' @ SQL_String lib c)
    = go_bind (parseExpression lib (SQL_String lib c)) (\<lambda>inner. Ok (NotCondition inner))"
proof -
  let ?e = "SQL_String lib (NotCondition c)"
  have "solid ?e" and "\<forall>op. keyword op \<longrightarrow> sealed 0 op ?e"
    using printable_shape [of lib "NotCondition c"] assms by auto
  then show ?thesis using splitByOperator_sealed TrimSpace_solid' [of ?e]
    by (subst parseExpression.simps) (simp add: has_prefix_iff upper_char_def Let_def)
qed

lemma clear_parse:
  assumes "clear_text t" and "solid t"
  shows "parseExpression lib t = parseComparison lib t" and "Parse lib t = parseComparison lib t"
proof -
  have sealed: "sealed 0 op t" if "keyword op" for op
    using assms that by (intro sealed_plain) (auto simp: clear_text_def keyword_def solid_def)
  have "CHR ''('' \<notin> set t" using assms(1) unfolding clear_text_def plain_def list_all_iff by blast
  then have "\<not> has_prefix t ''(''" by (auto simp: has_prefix_iff)
  then show e: "parseExpression lib t = parseComparison lib t"
    using sealed splitByOperator_sealed assms TrimSpace_solid' [of t]
    by (subst parseExpression.simps) (simp add: Let_def clear_text_def)
  have "list_all ascii t" using assms(1) by (simp add: clear_text_def plain_def list_all_iff)
  then have "\<not> has_prefix (ToUpper (lib_ToUpper lib) t) ''SELECT''"
    using assms(1) by (simp add: clear_text_def ToUpper_def has_prefix_def take_map numeral_eq_Suc)
  then show "Parse lib t = parseComparison lib t"
    using e assms(2) TrimSpace_solid' [of t] by (simp add: Parse_def Let_def solid_def)
qed

lemma parse_comparison:
  assumes "printable lib (ComparisonCondition f op v)"
  shows "parseExpression lib (SQL_String lib (ComparisonCondition f op v)) = Ok (ComparisonCondition f op v)"
proof -
  have c: "clear_text (SQL_String lib (ComparisonCondition f op v))" using assms by simp
  then have "CHR 0x0A \<notin> set (print_value lib v)" by (simp add: clear_text_def)
  then show ?thesis
    unfolding clear_parse(1) [OF c comparison_solid [OF assms]]
    using parseComparison_print [of f op v lib] assms by (simp del: SQL_String.simps)
qed

lemma inside_shape:
  assumes "\<forall>c \<in> set cs. printable lib c" and "keyword k" and "2 \<le> length cs"
  shows "solid (str_join ('' '' @ k @ '' '') (map (SQL_String lib) cs))"
    and "keyword op \<Longrightarrow> sealed 1 op (str_join ('' '' @ k @ '' '') (map (SQL_String lib) cs))"
proof -
  have "cs \<noteq> []" using assms(3) by auto
  then show "solid (str_join ('' '' @ k @ '' '') (map (SQL_String lib) cs))"
    using assms(1) printable_shape by (intro solid_join) auto
  assume "keyword op"
  then show "sealed 1 op (str_join ('' '' @ k @ '' '') (map (SQL_String lib) cs))"
    using assms(1,2) \<open>cs \<noteq> []\<close> printable_shape by (intro sealed_inside) auto
qed

lemma parseExpression_print: "printable lib c \<Longrightarrow> parseExpression lib (SQL_String lib c) = Ok c"
proof (induction c)
  case (AndCondition cs)
  let ?t = "str_join '' AND '' (map (SQL_String lib) cs)"
  have "solid ?t" and "\<And>op. keyword op \<Longrightarrow> sealed 1 op ?t"
    using AndCondition.prems inside_shape [of cs lib "''AND''"] by (auto simp: list_all_iff)
  then have "parseExpression lib (''('' @ ?t @ '')'') = parseExpression lib ?t" by (rule parse_strip)
  then show ?case using parse_join(1) [of cs lib] AndCondition by (simp add: list_all_iff)
next
  case (OrCondition cs)
  let ?t = "str_join '' OR '' (map (SQL_String lib) cs)"
  have "solid ?t" and "\<And>op. keyword op \<Longrightarrow> sealed 1 op ?t"
    using OrCondition.prems inside_shape [of cs lib "''OR''"] by (auto simp: list_all_iff)
  then have "parseExpression lib (''('' @ ?t @ '')'') = parseExpression lib ?t" by (rule parse_strip)
  then show ?case using parse_join(2) [of cs lib] OrCondition by (simp add: list_all_iff)
next
  case (NotCondition c)
  then show ?case using parse_not [of lib c] by simp
qed (use parse_comparison in \<open>auto simp del: SQL_String.simps(5)\<close>)

lemma printable_ascii: "printable lib c \<Longrightarrow> list_all ascii (SQL_String lib c)"
proof (induction c)
  case (AndCondition cs)
  then show ?case by (cases cs) (auto simp: list_all_iff ascii_def str_join_def)
next
  case (OrCondition cs)
  then show ?case by (cases cs) (auto simp: list_all_iff ascii_def str_join_def)
next
  case (ComparisonCondition f op v)
  then show ?case by (simp add: clear_text_def plain_def list_all_iff del: SQL_String.simps)
qed (simp_all add: ascii_def)

lemma printable_no_select: "printable lib c \<Longrightarrow> map upper_char (take 6 (SQL_String lib c)) \<noteq> ''SELECT''"
  by (cases c) (simp_all add: clear_text_def upper_char_def del: SQL_String.simps(5))

text \<open>
  (C23) Round trip of conditions: parsing the text of a condition gives the condition back, with its
  nesting and the precedence of the operators, for every condition built by AND, OR and NOT from
  comparisons whose text is unambiguous.
\<close>

theorem Parse_String:
  assumes "printable lib c"
  shows "Parse lib (SQL_String lib c) = Ok c"
proof -
  let ?t = "SQL_String lib c"
  have "solid ?t" using printable_shape [OF assms] by simp
  then have "TrimSpace ?t = ?t" and "?t \<noteq> []" using TrimSpace_solid' by (auto simp: solid_def)
  moreover have "\<not> has_prefix (ToUpper (lib_ToUpper lib) ?t) ''SELECT''"
    using printable_ascii [OF assms] printable_no_select [OF assms] by (simp add: ToUpper_def has_prefix_def take_map numeral_eq_Suc)
  ultimately show ?thesis using parseExpression_print [OF assms] by (simp add: Parse_def Let_def)
qed

definition int_lib :: "int sqllib" where
  "int_lib = \<lparr>lib_ToUpper = id, lib_ParseFloat = (\<lambda>_. None), lib_show_float = show_int, lib_float_less = (<),
     lib_float_of_int = id, lib_Unmarshal = (\<lambda>_. Err (LibraryError [])), lib_MatchString = (\<lambda>p s. Ok (s = p))\<rparr>"

definition sample_condition :: "int SQLCondition" where
  "sample_condition = OrCondition
     [AndCondition [ComparisonCondition ''topic'' ''='' (VString ''s/t''), NotCondition (ComparisonCondition ''qos'' ''>='' (VInt 1))],
      ComparisonCondition ''payload.x'' ''IS NULL'' VNil]"

theorem Parse_String_witness:
  "Parse int_lib (SQL_String int_lib sample_condition) = Ok sample_condition"
proof (rule Parse_String)
  have "show_int 1 = ''1''" by (simp add: show_int_def show_nat.simps digit_def char_of_eq_iff)
  then show "printable int_lib sample_condition"
    by (simp add: sample_condition_def simple_field_def field_char_def operators_def clear_text_def plain_def
        ascii_def at_word_def upper_char_def isAlphaNumeric_def char_of_eq_iff)
qed

section \<open>Evaluation and its reference\<close>

text \<open>The truth of a condition, from the truth of its comparisons.\<close>

fun truth :: "(string \<Rightarrow> string \<Rightarrow> 'f govalue \<Rightarrow> bool) \<Rightarrow> 'f SQLCondition \<Rightarrow> bool" where
  "truth val TrueCondition = True"
| "truth val (AndCondition cs) = list_all (truth val) cs"
| "truth val (OrCondition cs) = list_ex (truth val) cs"
| "truth val (NotCondition c) = (\<not> truth val c)"
| "truth val (ComparisonCondition f op v) = val f op v"

fun comparisons :: "'f SQLCondition \<Rightarrow> (string \<times> string \<times> 'f govalue) list" where
  "comparisons TrueCondition = []"
| "comparisons (AndCondition cs) = concat (map comparisons cs)"
| "comparisons (OrCondition cs) = concat (map comparisons cs)"
| "comparisons (NotCondition c) = comparisons c"
| "comparisons (ComparisonCondition f op v) = [(f, op, v)]"

lemma loop_Ok:
  "(\<And>c. c \<in> set cs \<Longrightarrow> f c = Ok (g c)) \<Longrightarrow> and_loop f cs = Ok (list_all g cs)"
  "(\<And>c. c \<in> set cs \<Longrightarrow> f c = Ok (g c)) \<Longrightarrow> or_loop f cs = Ok (list_ex g cs)"
  by (induction cs) auto

lemma Evaluate_truth:
  assumes "\<And>f op v. (f, op, v) \<in> set (comparisons c) \<Longrightarrow> Evaluate lib ctx (ComparisonCondition f op v) = Ok (val f op v)"
  shows "Evaluate lib ctx c = Ok (truth val c)"
  using assms
proof (induction c)
  case (AndCondition cs)
  then have "\<And>c. c \<in> set cs \<Longrightarrow> Evaluate lib ctx c = Ok (truth val c)" by fastforce
  then show ?case using loop_Ok(1) [of cs "Evaluate lib ctx"] by simp
next
  case (OrCondition cs)
  then have "\<And>c. c \<in> set cs \<Longrightarrow> Evaluate lib ctx c = Ok (truth val c)" by fastforce
  then show ?case using loop_Ok(2) [of cs "Evaluate lib ctx"] by simp
qed auto

section \<open>Texts the parser does not understand\<close>

text \<open>A lone quote as the value: the slice of the text between the quotes panics.\<close>

lemma Parse_lone_quote:
  assumes "simple_field f" and "op \<in> set operators" and "op \<noteq> ''IS NULL''" and "op \<noteq> ''IS NOT NULL''"
    and "clear_text (f @ '' '' @ op @ '' '' @ [CHR 0x27])"
  shows "Parse lib (f @ '' '' @ op @ '' '' @ [CHR 0x27]) = Panic"
proof -
  let ?t = "f @ '' '' @ op @ '' '' @ [CHR 0x27]"
  have f: "solid f" and q: "solid [CHR 0x27]" using simple_field_solid [OF assms(1)] by (auto simp: solid_def visible_def)
  then have t: "solid ?t" by (simp add: solid_def)
  have "match_comparison [] ?t = Some (f, op, [CHR 0x27])"
    using match_comparison_field [OF assms(1,2) q, of "[]"] by simp
  moreover have "parseValue lib [CHR 0x27] = Panic"
    using q by (simp add: parseValue_def TrimSpace_solid' quoted_def has_prefix_iff has_suffix_single)
  ultimately show ?thesis unfolding clear_parse(2) [OF assms(5) t]
    using t f q assms(3,4) by (simp add: parseComparison_def TrimSpace_solid' del: append.simps)
qed

text \<open>The operator words split inside a quoted text too, and the condition is refused.\<close>

lemma Parse_quoted_operator:
  "Parse lib (''topic = '' @ [CHR 0x27] @ ''this OR that'' @ [CHR 0x27]) = Err (InvalidComparison (''that'' @ [CHR 0x27]))"
proof -
  let ?a = "''topic = '' @ [CHR 0x27] @ ''this''" and ?b = "''that'' @ [CHR 0x27]"
  let ?t = "str_join ('' '' @ ''OR'' @ '' '') [?a, ?b]"
  have solid: "solid ?a" "solid ?b" "solid ?t" by (simp_all add: solid_def visible_def)
  have clear: "clear_text ?a" "clear_text ?b"
    by (simp_all add: clear_text_def plain_def ascii_def at_word_def upper_char_def isAlphaNumeric_def char_of_eq_iff)
  then have "sealed 0 ''OR'' ?a" "sealed 0 ''OR'' ?b"
    by - (rule sealed_plain; simp add: clear_text_def)+
  then have "splitByOperator ?t ''OR'' = [?a, ?b]" using solid by (intro splitByOperator_join) auto
  moreover have "parseComparison lib ?b = Err (InvalidComparison ?b)"
    using TrimSpace_solid' [OF solid(2)]
    by (simp add: parseComparison_def match_operator_def re_space_def operators_def has_prefix_def)
  moreover obtain c where "parseComparison lib ?a = Ok c"
  proof -
    have v: "solid (CHR 0x27 # ''this'')" and f: "solid ''topic''" by (simp_all add: solid_def visible_def)
    have "match_comparison [] ?a = Some (''topic'', ''='', CHR 0x27 # ''this'')"
      using match_comparison_field [OF _ _ v, of "''topic''" "''=''" "[]"]
      by (simp add: simple_field_def field_char_def operators_def)
    moreover have "ParseInt (CHR 0x27 # ''this'') = None" by (simp add: ParseInt_def is_digit_def)
    moreover from this have "\<exists>w. parseValue lib (CHR 0x27 # ''this'') = Ok w"
      using TrimSpace_solid' [OF v]
      by (cases "lib_ParseFloat lib (CHR 0x27 # ''this'')") (simp_all add: parseValue_def quoted_def has_suffix_single has_prefix_def)
    ultimately show ?thesis using that TrimSpace_solid' [OF solid(1)] TrimSpace_solid' [OF f] TrimSpace_solid' [OF v]
      by (auto simp: parseComparison_def simp del: match_comparison.simps)
  qed
  ultimately have "parseExpression lib ?t = Err (InvalidComparison ?b)"
    using clear_parse(1) [OF clear(1) solid(1), of lib] clear_parse(1) [OF clear(2) solid(2), of lib] TrimSpace_solid' [OF solid(3)]
    by (subst parseExpression.simps) (simp add: Let_def)
  moreover have "\<not> has_prefix (ToUpper (lib_ToUpper lib) ?t) ''SELECT''"
    by (simp add: ToUpper_def has_prefix_def ascii_def upper_char_def char_of_eq_iff)
  ultimately show ?thesis using TrimSpace_solid' [OF solid(3)] by (simp add: Parse_def Let_def)
qed

end
