(* ===== verification/Rule_Engine.thy ===== *)
theory Rule_Engine
  imports Rule_Sql "HOL-Library.Multiset" "HOL-Library.Signed_Division"
begin

text \<open>
  The rule engine, \<open>pkg/rules/engine.go\<close>, and its actions, \<open>pkg/rules/actions.go\<close>.

  The state is the table of rules together with the rest of the program, of type \<open>'w\<close>, which the
  actions change: they print, send requests, pass messages to connectors and publish again, and what
  these do is the argument \<open>outside\<close>. The registered action executors do not change after the engine
  is built and are an argument of their own (\<open>registry\<close>). A range over the table takes the rules in the
  order of the association list; rules of equal priority keep no particular order in the code either.
  The time of a message and the time its rules take are arguments. Of an action's result only success,
  error and output are kept, not the clock readings in it.
\<close>

section \<open>Rules\<close>

datatype RuleStatus = RuleStatusEnabled | RuleStatusDisabled | RuleStatusStopped | RuleStatusFailed

abbreviation (input) ActionTypeConsole :: string where "ActionTypeConsole \<equiv> ''console''"
abbreviation (input) ActionTypeHTTP :: string where "ActionTypeHTTP \<equiv> ''http''"
abbreviation (input) ActionTypeConnector :: string where "ActionTypeConnector \<equiv> ''connector''"
abbreviation (input) ActionTypeRepublish :: string where "ActionTypeRepublish \<equiv> ''republish''"
abbreviation (input) ActionTypeDiscard :: string where "ActionTypeDiscard \<equiv> ''discard''"

text \<open>The parameters of an action; those of \<open>headers\<close>, an object of its own, are \<open>ac_Headers\<close>.\<close>

type_synonym 'f params = "(string, 'f govalue) gomap"

record 'f Action =
  ac_Type :: string
  ac_Parameters :: "'f params"
  ac_Headers :: "'f params"

record RuleMetrics =
  rm_MatchedCount :: int
  rm_ExecutedCount :: int
  rm_FailedCount :: int
  rm_AvgLatency :: duration
  rm_LastExecution :: "time option"
  rm_LastError :: string
  rm_LastErrorTime :: "time option"

definition no_metrics :: RuleMetrics where
  "no_metrics = \<lparr>rm_MatchedCount = 0, rm_ExecutedCount = 0, rm_FailedCount = 0, rm_AvgLatency = 0,
     rm_LastExecution = None, rm_LastError = [], rm_LastErrorTime = None\<rparr>"

record 'f Rule =
  ru_ID :: string
  ru_Name :: string
  ru_Description :: string
  ru_SQL :: string
  ru_Actions :: "'f Action list"
  ru_Status :: RuleStatus
  ru_Priority :: int
  ru_CreatedAt :: time
  ru_UpdatedAt :: time
  ru_Metrics :: RuleMetrics
  ru_Metadata :: "(string, 'f govalue) gomap"

type_synonym 'f rules = "(string, 'f Rule) gomap"

datatype 'f action_output = ONone | OText string | OMap "(string, 'f govalue) gomap"

record 'f ActionResult =
  ar_Success :: bool
  ar_Error :: string
  ar_Output :: "'f action_output"

type_synonym ('f, 'w) execution =
  "'f RuleContext \<Rightarrow> 'f Action \<Rightarrow> 'f rules \<times> 'w \<Rightarrow> (string, (string + 'f ActionResult) \<times> ('f rules \<times> 'w)) go"

text \<open>An executor: an action's error or result and the state after it, unless it panics or blocks.\<close>

record ('f, 'w) executor =
  ex_Execute :: "('f, 'w) execution"
  ex_Validate :: "'f Action \<Rightarrow> (string, unit) go"

type_synonym ('f, 'w) registry = "(string, ('f, 'w) executor) gomap"

definition RegisterAction :: "('f, 'w) registry \<Rightarrow> string \<Rightarrow> ('f, 'w) executor \<Rightarrow> ('f, 'w) registry" where
  "RegisterAction reg actionType executor = gm_set reg actionType executor"

section \<open>Actions\<close>

record connector_message =
  cm_Topic :: string
  cm_Payload :: "byte list"
  cm_Headers :: "(string, string) gomap"
  cm_Timestamp :: time

record http_request =
  hr_Method :: string
  hr_URL :: string
  hr_Body :: string
  hr_Header :: "(string, string) gomap"

text \<open>
  What the actions use of the rest of the program: the console, the HTTP client (a request that cannot
  be built, a failed exchange, or status and body), the connectors by name (with the success and error
  of their send result), the broker's routing when the callback is set (which runs the rules again on
  the message), and formatting.
\<close>

record ('f, 'w) outside =
  ow_Println :: "string \<Rightarrow> 'w \<Rightarrow> 'w"
  ow_NewRequest :: "string \<Rightarrow> string \<Rightarrow> string option"
  ow_Do :: "http_request \<Rightarrow> 'w \<Rightarrow> (string + int \<times> string) \<times> 'w"
  ow_GetConnector :: "string \<Rightarrow> 'w \<Rightarrow> (string, connector_message \<Rightarrow> 'w \<Rightarrow> (string + bool \<times> string) \<times> 'w) go"
  ow_Republish :: "(string \<Rightarrow> int \<Rightarrow> byte list \<Rightarrow> 'f rules \<times> 'w \<Rightarrow> (string, 'f rules \<times> 'w) go) option"
  ow_RFC3339 :: "time \<Rightarrow> string"
  ow_int_of_float :: "'f \<Rightarrow> int"

definition string_param :: "'f params \<Rightarrow> string \<Rightarrow> string option" where
  "string_param params k = (case gm_get params k of Some (VString s) \<Rightarrow> Some s | _ \<Rightarrow> None)"

definition string_param0 :: "string \<Rightarrow> 'f params \<Rightarrow> string \<Rightarrow> string" where
  "string_param0 d params k = (case string_param params k of Some s \<Rightarrow> s | None \<Rightarrow> d)"

definition replaceVariables :: "('f, 'w) outside \<Rightarrow> string \<Rightarrow> 'f RuleContext \<Rightarrow> string" where
  "replaceVariables ow template ctx =
     (let result = ReplaceAll template ''${topic}'' (rc_Topic ctx);
          result = ReplaceAll result ''${payload}'' (string_of (rc_Payload ctx));
          result = ReplaceAll result ''${clientid}'' (rc_ClientID ctx);
          result = ReplaceAll result ''${username}'' (rc_Username ctx);
          result = ReplaceAll result ''${qos}'' (show_int (rc_QoS ctx))
      in ReplaceAll result ''${timestamp}'' (ow_RFC3339 ow (rc_Timestamp ctx)))"

definition success :: "'f action_output \<Rightarrow> 'f ActionResult" where
  "success out = \<lparr>ar_Success = True, ar_Error = [], ar_Output = out\<rparr>"

definition Console_Execute :: "'f sqllib \<Rightarrow> ('f, 'w) outside \<Rightarrow> ('f, 'w) execution" where
  "Console_Execute lib ow ctx a st =
     (let level = string_param0 ''info'' (ac_Parameters a) ''level'';
          template = string_param0 ''${topic}: ${payload}'' (ac_Parameters a) ''template'';
          logMessage = ''['' @ ToUpper (lib_ToUpper lib) level @ ''] '' @ replaceVariables ow template ctx
      in Ok (Inr (success (OText logMessage)), (fst st, ow_Println ow logMessage (snd st))))"

definition Console_Validate :: "'f Action \<Rightarrow> (string, unit) go" where
  "Console_Validate a =
     (case gm_get (ac_Parameters a) ''level'' of
        None \<Rightarrow> Ok ()
      | Some (VString levelStr) \<Rightarrow>
          if levelStr \<in> set [''debug'', ''info'', ''warn'', ''error''] then Ok () else Err ''invalid log level''
      | Some _ \<Rightarrow> Err ''level must be a string'')"

definition http_headers :: "('f, 'w) outside \<Rightarrow> 'f RuleContext \<Rightarrow> 'f params \<Rightarrow> (string, string) gomap" where
  "http_headers ow ctx headers =
     foldl (\<lambda>hs (k, v). case v of VString s \<Rightarrow> gm_set hs k (replaceVariables ow s ctx) | _ \<Rightarrow> hs)
       [(''Content-Type'', ''application/json'')] headers"

definition HTTP_Execute :: "'f sqllib \<Rightarrow> ('f, 'w) outside \<Rightarrow> ('f, 'w) execution" where
  "HTTP_Execute lib ow ctx a st =
     (case string_param (ac_Parameters a) ''url'' of
        None \<Rightarrow> Ok (Inl ''url parameter is required'', st)
      | Some url \<Rightarrow>
          (let method = (case string_param (ac_Parameters a) ''method'' of None \<Rightarrow> ''POST'' | Some m \<Rightarrow> ToUpper (lib_ToUpper lib) m);
               body = replaceVariables ow (string_param0 ''${payload}'' (ac_Parameters a) ''body'') ctx
           in case ow_NewRequest ow method url of
                Some err \<Rightarrow> Ok (Inl err, st)
              | None \<Rightarrow>
                  (case ow_Do ow \<lparr>hr_Method = method, hr_URL = url, hr_Body = body, hr_Header = http_headers ow ctx (ac_Headers a)\<rparr> (snd st) of
                     (Inl err, w) \<Rightarrow> Ok (Inl err, (fst st, w))
                   | (Inr (code, respBody), w) \<Rightarrow>
                       if code \<ge> 400 then Ok (Inl (''HTTP request failed with status '' @ show_int code), (fst st, w))
                       else Ok (Inr (success (OMap [(''status_code'', VInt code), (''response'', VString respBody)])), (fst st, w)))))"

definition HTTP_Validate :: "'f sqllib \<Rightarrow> 'f Action \<Rightarrow> (string, unit) go" where
  "HTTP_Validate lib a =
     (if string_param (ac_Parameters a) ''url'' = None then Err ''url parameter is required''
      else case gm_get (ac_Parameters a) ''method'' of
             None \<Rightarrow> Ok ()
           | Some (VString methodStr) \<Rightarrow>
               if ToUpper (lib_ToUpper lib) methodStr \<in> set [''GET'', ''POST'', ''PUT'', ''DELETE'', ''PATCH''] then Ok ()
               else Err ''invalid HTTP method''
           | Some _ \<Rightarrow> Err ''method must be a string'')"

definition Connector_Execute :: "('f, 'w) outside \<Rightarrow> ('f, 'w) execution" where
  "Connector_Execute ow ctx a st =
     (case string_param (ac_Parameters a) ''connector_id'' of
        None \<Rightarrow> Ok (Inl ''connector_id parameter is required'', st)
      | Some connectorID \<Rightarrow>
          (case ow_GetConnector ow connectorID (snd st) of
             Err e \<Rightarrow> Ok (Inl e, st) | Panic \<Rightarrow> Panic | Blocked \<Rightarrow> Blocked
           | Ok send \<Rightarrow>
               (let topic = (case string_param (ac_Parameters a) ''topic'' of None \<Rightarrow> rc_Topic ctx | Some t \<Rightarrow> replaceVariables ow t ctx);
                    payload = (case string_param (ac_Parameters a) ''payload_template'' of
                                 None \<Rightarrow> rc_Payload ctx | Some t \<Rightarrow> bytes_of (replaceVariables ow t ctx))
                in case send \<lparr>cm_Topic = topic, cm_Payload = payload, cm_Headers = rc_Headers ctx, cm_Timestamp = rc_Timestamp ctx\<rparr> (snd st) of
                     (Inl err, w) \<Rightarrow> Ok (Inl err, (fst st, w))
                   | (Inr (ok, err), w) \<Rightarrow>
                       if ok then Ok (Inr (success ONone), (fst st, w))
                       else Ok (Inl (''connector send failed: '' @ err), (fst st, w)))))"

definition Connector_Validate :: "'f Action \<Rightarrow> (string, unit) go" where
  "Connector_Validate a =
     (if string_param (ac_Parameters a) ''connector_id'' = None then Err ''connector_id parameter is required'' else Ok ())"

definition republish_qos :: "('f, 'w) outside \<Rightarrow> int \<Rightarrow> 'f params \<Rightarrow> int" where
  "republish_qos ow qos params =
     (case gm_get params ''qos'' of Some (VFloat q) \<Rightarrow> ow_int_of_float ow q | Some (VInt q) \<Rightarrow> q | _ \<Rightarrow> qos)"

definition Republish_Execute :: "('f, 'w) outside \<Rightarrow> ('f, 'w) execution" where
  "Republish_Execute ow ctx a st =
     (case string_param (ac_Parameters a) ''topic'' of
        None \<Rightarrow> Ok (Inl ''topic parameter is required'', st)
      | Some topic \<Rightarrow>
          (let targetTopic = replaceVariables ow topic ctx;
               qos = republish_qos ow (rc_QoS ctx) (ac_Parameters a);
               payload = (case string_param (ac_Parameters a) ''payload_template'' of
                            None \<Rightarrow> rc_Payload ctx | Some t \<Rightarrow> bytes_of (replaceVariables ow t ctx));
               done = success (OMap [(''target_topic'', VString targetTopic), (''qos'', VInt qos), (''payload_size'', VInt (int (length payload)))])
           in case ow_Republish ow of
                None \<Rightarrow> Ok (Inr done, st)
              | Some callback \<Rightarrow>
                  (case callback targetTopic qos payload st of
                     Ok st' \<Rightarrow> Ok (Inr done, st') | Err e \<Rightarrow> Ok (Inl e, st) | Panic \<Rightarrow> Panic | Blocked \<Rightarrow> Blocked)))"

definition Republish_Validate :: "('f, 'w) outside \<Rightarrow> 'f Action \<Rightarrow> (string, unit) go" where
  "Republish_Validate ow a =
     (if string_param (ac_Parameters a) ''topic'' = None then Err ''topic parameter is required''
      else case gm_get (ac_Parameters a) ''qos'' of
             None \<Rightarrow> Ok ()
           | Some (VInt v) \<Rightarrow> if v < 0 \<or> v > 2 then Err ''qos must be 0, 1, or 2'' else Ok ()
           | Some (VFloat f) \<Rightarrow>
               if ow_int_of_float ow f < 0 \<or> ow_int_of_float ow f > 2 then Err ''qos must be 0, 1, or 2'' else Ok ()
           | Some _ \<Rightarrow> Err ''qos must be an integer'')"

definition Discard_Execute :: "('f, 'w) execution" where
  "Discard_Execute ctx a st =
     Ok (Inr (success (OMap [(''action'', VString ''discard''),
                             (''reason'', VString (string_param0 ''Message discarded by rule'' (ac_Parameters a) ''reason''))])), st)"

definition Discard_Validate :: "'f Action \<Rightarrow> (string, unit) go" where
  "Discard_Validate a = Ok ()"

definition default_registry :: "'f sqllib \<Rightarrow> ('f, 'w) outside \<Rightarrow> ('f, 'w) registry" where
  "default_registry lib ow =
     RegisterAction (RegisterAction (RegisterAction (RegisterAction (RegisterAction []
       ActionTypeConsole \<lparr>ex_Execute = Console_Execute lib ow, ex_Validate = Console_Validate\<rparr>)
       ActionTypeHTTP \<lparr>ex_Execute = HTTP_Execute lib ow, ex_Validate = HTTP_Validate lib\<rparr>)
       ActionTypeConnector \<lparr>ex_Execute = Connector_Execute ow, ex_Validate = Connector_Validate\<rparr>)
       ActionTypeRepublish \<lparr>ex_Execute = Republish_Execute ow, ex_Validate = Republish_Validate ow\<rparr>)
       ActionTypeDiscard \<lparr>ex_Execute = Discard_Execute, ex_Validate = Discard_Validate\<rparr>"

section \<open>The table of rules\<close>

datatype rule_error =
    RuleExists string
  | RuleNotFound string
  | InvalidSQL sql_error
  | UnknownActionType string
  | InvalidAction nat string

fun validate_actions :: "('f, 'w) registry \<Rightarrow> nat \<Rightarrow> 'f Action list \<Rightarrow> (rule_error, unit) go" where
  "validate_actions reg i [] = Ok ()"
| "validate_actions reg i (a # as) =
     (case gm_get reg (ac_Type a) of
        None \<Rightarrow> Err (UnknownActionType (ac_Type a))
      | Some ex \<Rightarrow>
          (case ex_Validate ex a of
             Ok _ \<Rightarrow> validate_actions reg (Suc i) as
           | Err e \<Rightarrow> Err (InvalidAction i e) | Panic \<Rightarrow> Panic | Blocked \<Rightarrow> Blocked))"

definition validate_rule :: "'f sqllib \<Rightarrow> ('f, 'w) registry \<Rightarrow> 'f Rule \<Rightarrow> (rule_error, unit) go" where
  "validate_rule lib reg rule =
     (case Validate lib (ru_SQL rule) of
        Ok _ \<Rightarrow> validate_actions reg 0 (ru_Actions rule)
      | Err e \<Rightarrow> Err (InvalidSQL e) | Panic \<Rightarrow> Panic | Blocked \<Rightarrow> Blocked)"

definition CreateRule :: "'f sqllib \<Rightarrow> ('f, 'w) registry \<Rightarrow> time \<Rightarrow> 'f rules \<Rightarrow> 'f Rule \<Rightarrow> (rule_error, 'f rules) go" where
  "CreateRule lib reg now rs rule =
     (if gm_get rs (ru_ID rule) \<noteq> None then Err (RuleExists (ru_ID rule))
      else go_bind (validate_rule lib reg rule) (\<lambda>_.
        Ok (gm_set rs (ru_ID rule) (rule\<lparr>ru_CreatedAt := now, ru_UpdatedAt := now, ru_Metrics := no_metrics\<rparr>))))"

definition GetRule :: "'f rules \<Rightarrow> string \<Rightarrow> (rule_error, 'f Rule) go" where
  "GetRule rs rid = (case gm_get rs rid of None \<Rightarrow> Err (RuleNotFound rid) | Some rule \<Rightarrow> Ok rule)"

definition UpdateRule ::
  "'f sqllib \<Rightarrow> ('f, 'w) registry \<Rightarrow> time \<Rightarrow> 'f rules \<Rightarrow> string \<Rightarrow> 'f Rule \<Rightarrow> (rule_error, 'f rules) go" where
  "UpdateRule lib reg now rs rid rule =
     (case gm_get rs rid of
        None \<Rightarrow> Err (RuleNotFound rid)
      | Some existing \<Rightarrow>
          go_bind (validate_rule lib reg rule) (\<lambda>_.
            Ok (gm_set rs rid (rule\<lparr>ru_CreatedAt := ru_CreatedAt existing, ru_UpdatedAt := now, ru_Metrics := ru_Metrics existing\<rparr>))))"

definition DeleteRule :: "'f rules \<Rightarrow> string \<Rightarrow> (rule_error, 'f rules) go" where
  "DeleteRule rs rid = (case gm_get rs rid of None \<Rightarrow> Err (RuleNotFound rid) | Some _ \<Rightarrow> Ok (gm_del rs rid))"

definition ListRules :: "'f rules \<Rightarrow> 'f rules" where
  "ListRules rs = foldl (\<lambda>out (rid, rule). gm_set out rid rule) [] rs"

definition set_status :: "RuleStatus \<Rightarrow> time \<Rightarrow> 'f rules \<Rightarrow> string \<Rightarrow> (rule_error, 'f rules) go" where
  "set_status status now rs rid =
     (case gm_get rs rid of
        None \<Rightarrow> Err (RuleNotFound rid)
      | Some rule \<Rightarrow> Ok (gm_set rs rid (rule\<lparr>ru_Status := status, ru_UpdatedAt := now\<rparr>)))"

definition EnableRule :: "time \<Rightarrow> 'f rules \<Rightarrow> string \<Rightarrow> (rule_error, 'f rules) go" where
  "EnableRule = set_status RuleStatusEnabled"

definition DisableRule :: "time \<Rightarrow> 'f rules \<Rightarrow> string \<Rightarrow> (rule_error, 'f rules) go" where
  "DisableRule = set_status RuleStatusDisabled"

definition GetRuleMetrics :: "'f rules \<Rightarrow> string \<Rightarrow> (rule_error, RuleMetrics) go" where
  "GetRuleMetrics rs rid = (case gm_get rs rid of None \<Rightarrow> Err (RuleNotFound rid) | Some rule \<Rightarrow> Ok (ru_Metrics rule))"

definition GetAllMetrics :: "'f rules \<Rightarrow> (string, RuleMetrics) gomap" where
  "GetAllMetrics rs = foldl (\<lambda>out (rid, rule). gm_set out rid (ru_Metrics rule)) [] rs"

definition GetActionTypes :: "('f, 'w) registry \<Rightarrow> string list" where
  "GetActionTypes reg = map fst reg"

definition GetActionExecutor :: "('f, 'w) registry \<Rightarrow> string \<Rightarrow> (rule_error, ('f, 'w) executor) go" where
  "GetActionExecutor reg t = (case gm_get reg t of None \<Rightarrow> Err (UnknownActionType t) | Some ex \<Rightarrow> Ok ex)"

section \<open>Processing a message\<close>

text \<open>The rule objects are shared by pointer: the counters are updated in the table.\<close>

definition update_metrics :: "(RuleMetrics \<Rightarrow> RuleMetrics) \<Rightarrow> string \<Rightarrow> 'f rules \<Rightarrow> 'f rules" where
  "update_metrics f rid rs =
     (case gm_get rs rid of None \<Rightarrow> rs | Some rule \<Rightarrow> gm_set rs rid (rule\<lparr>ru_Metrics := f (ru_Metrics rule)\<rparr>))"

definition recordRuleMatch :: "RuleMetrics \<Rightarrow> RuleMetrics" where
  "recordRuleMatch m = m\<lparr>rm_MatchedCount := rm_MatchedCount m + 1\<rparr>"

definition recordRuleExecution :: "time \<Rightarrow> duration \<Rightarrow> RuleMetrics \<Rightarrow> RuleMetrics" where
  "recordRuleExecution now latency m =
     (let n = rm_ExecutedCount m + 1
      in m\<lparr>rm_ExecutedCount := n, rm_LastExecution := Some now,
           rm_AvgLatency := (if n = 1 then latency else (rm_AvgLatency m * (n - 1) + latency) sdiv n)\<rparr>)"

definition recordRuleError :: "time \<Rightarrow> string \<Rightarrow> RuleMetrics \<Rightarrow> RuleMetrics" where
  "recordRuleError now errorMsg m =
     m\<lparr>rm_FailedCount := rm_FailedCount m + 1, rm_LastError := errorMsg, rm_LastErrorTime := Some now\<rparr>"

text \<open>The clock: the time of the message, the time each rule took, and the texts of errors.\<close>

record rule_clock =
  ck_now :: time
  ck_latency :: "string \<Rightarrow> duration"
  ck_error :: "sql_error \<Rightarrow> string"

fun run_actions where
  "run_actions reg ck rid ctx [] st = Ok st"
| "run_actions (reg :: ('f, 'w) registry) (ck :: rule_clock) rid ctx (a # as) (st :: 'f rules \<times> 'w) =
     (case gm_get reg (ac_Type a) of
        None \<Rightarrow> run_actions reg ck rid ctx as
                  (apfst (update_metrics (recordRuleError (ck_now ck) (''unknown action type: '' @ ac_Type a)) rid) st)
      | Some ex \<Rightarrow>
          go_bind (ex_Execute ex ctx a st) (\<lambda>(r, st').
            case r of
              Inl err \<Rightarrow> run_actions reg ck rid ctx as
                (apfst (update_metrics (recordRuleError (ck_now ck) (''action execution error: '' @ err)) rid) st')
            | Inr res \<Rightarrow> run_actions reg ck rid ctx as
                (if ar_Success res then st'
                 else apfst (update_metrics (recordRuleError (ck_now ck) (ar_Error res)) rid) st')))"

definition processRule ::
  "'f sqllib \<Rightarrow> ('f, 'w) registry \<Rightarrow> rule_clock \<Rightarrow> 'f RuleContext \<Rightarrow> string \<times> 'f Rule \<Rightarrow> 'f rules \<times> 'w \<Rightarrow> (string, 'f rules \<times> 'w) go" where
  "processRule lib reg ck ctx entry st =
     (let (rid, rule) = entry;
          failed = (\<lambda>msg e. Ok (apfst (update_metrics (recordRuleError (ck_now ck) (msg @ ck_error ck e)) rid) st))
      in case Parse lib (ru_SQL rule) of
           Panic \<Rightarrow> Panic | Blocked \<Rightarrow> Blocked
         | Err e \<Rightarrow> failed ''SQL parse error: '' e
         | Ok condition \<Rightarrow>
             (case Evaluate lib ctx condition of
                Panic \<Rightarrow> Panic | Blocked \<Rightarrow> Blocked
              | Err e \<Rightarrow> failed ''SQL evaluation error: '' e
              | Ok matched \<Rightarrow>
                  if \<not> matched then Ok st
                  else go_bind (run_actions reg ck rid ctx (ru_Actions rule) (apfst (update_metrics recordRuleMatch rid) st)) (\<lambda>st'.
                    Ok (apfst (update_metrics (recordRuleExecution (ck_now ck) (ck_latency ck rid)) rid) st'))))"

text \<open>The exchange sort: one pass of the inner loop, with the value at position \<open>i\<close> in \<open>x\<close>.\<close>

fun sort_pass :: "('a \<Rightarrow> int) \<Rightarrow> 'a \<Rightarrow> 'a list \<Rightarrow> 'a \<times> 'a list" where
  "sort_pass priority x [] = (x, [])"
| "sort_pass priority x (y # ys) =
     (if priority x < priority y then (let (m, r) = sort_pass priority y ys in (m, x # r))
      else (let (m, r) = sort_pass priority x ys in (m, y # r)))"

lemma length_sort_pass [simp]: "length (snd (sort_pass f x xs)) = length xs"
  by (induction xs arbitrary: x) (simp_all add: split_beta)

function exchange_sort :: "('a \<Rightarrow> int) \<Rightarrow> 'a list \<Rightarrow> 'a list" where
  "exchange_sort priority [] = []"
| "exchange_sort priority (x # xs) =
     (let (m, r) = sort_pass priority x xs in m # exchange_sort priority r)"
  by pat_completeness auto
termination
  by (relation "measure (length \<circ> snd)") (auto dest: arg_cong [where f = "length \<circ> snd"])

fun process_all :: "('a \<Rightarrow> 's \<Rightarrow> ('e, 's) go) \<Rightarrow> 'a list \<Rightarrow> 's \<Rightarrow> ('e, 's) go" where
  "process_all f [] st = Ok st"
| "process_all f (x # xs) st = go_bind (f x st) (process_all f xs)"

definition ProcessMessage ::
  "'f sqllib \<Rightarrow> ('f, 'w) registry \<Rightarrow> rule_clock \<Rightarrow> 'f RuleContext \<Rightarrow> 'f rules \<times> 'w \<Rightarrow> (string, 'f rules \<times> 'w) go" where
  "ProcessMessage lib reg ck ctx st =
     (let enabledRules = filter (\<lambda>(rid, rule). ru_Status rule = RuleStatusEnabled) (fst st)
      in process_all (processRule lib reg ck ctx) (exchange_sort (\<lambda>(rid, rule). ru_Priority rule) enabledRules) st)"

section \<open>The order of the rules\<close>

lemma sort_pass_props:
  "mset (fst (sort_pass f x xs) # snd (sort_pass f x xs)) = mset (x # xs)
    \<and> (\<forall>y \<in> set (snd (sort_pass f x xs)). f y \<le> f (fst (sort_pass f x xs)))"
proof (induction xs arbitrary: x)
  case (Cons y ys)
  have le: "f z \<le> f (fst (sort_pass f z ys))" for z
  proof -
    have "set_mset (mset (fst (sort_pass f z ys) # snd (sort_pass f z ys))) = set_mset (mset (z # ys))"
      using Cons.IH [of z] by metis
    then have "z \<in> set (fst (sort_pass f z ys) # snd (sort_pass f z ys))" by auto
    then show ?thesis using Cons.IH [of z] by auto
  qed
  show ?case using Cons.IH [of x] Cons.IH [of y] le [of x] le [of y] by (auto simp: split_beta)
qed simp

lemma mset_exchange_sort: "mset (exchange_sort f xs) = mset xs"
proof (induction f xs rule: exchange_sort.induct)
  case (2 f x xs)
  show ?case using "2.IH" [OF refl prod.collapse] sort_pass_props [of f x xs] by (simp add: split_beta)
qed simp

lemma sorted_exchange_sort: "sorted_wrt (\<lambda>a b. f b \<le> f a) (exchange_sort f xs)"
proof (induction f xs rule: exchange_sort.induct)
  case (2 f x xs)
  let ?r = "snd (sort_pass f x xs)"
  have "set (exchange_sort f ?r) = set ?r" by (metis mset_exchange_sort set_mset_mset)
  then show ?case using "2.IH" [OF refl prod.collapse] sort_pass_props [of f x xs] by (simp add: split_beta)
qed simp

text \<open>
  (C24) A message is processed by every enabled rule exactly once and by no other, the rules of higher
  priority first; an error in one rule does not keep the others from running.
\<close>

theorem ProcessMessage_order:
  assumes "gm_wf rs"
  shows "\<exists>order. distinct order
    \<and> set order = {(rid, rule) \<in> set rs. ru_Status rule = RuleStatusEnabled}
    \<and> sorted_wrt (\<lambda>a b. ru_Priority (snd b) \<le> ru_Priority (snd a)) order
    \<and> ProcessMessage lib reg ck ctx (rs, w) = process_all (processRule lib reg ck ctx) order (rs, w)"
proof -
  let ?f = "\<lambda>(rid :: string, rule). ru_Priority rule"
  let ?en = "filter (\<lambda>(rid, rule). ru_Status rule = RuleStatusEnabled) rs"
  have "distinct ?en" using assms by (simp add: distinct_map)
  then have "distinct (exchange_sort ?f ?en)" by (metis mset_exchange_sort mset_eq_imp_distinct_iff)
  moreover have "set (exchange_sort ?f ?en) = set ?en" by (metis mset_exchange_sort set_mset_mset)
  moreover have "sorted_wrt (\<lambda>a b. ru_Priority (snd b) \<le> ru_Priority (snd a)) (exchange_sort ?f ?en)"
    using sorted_exchange_sort [of ?f ?en] by (simp add: split_beta)
  ultimately show ?thesis
    by (intro exI [of _ "exchange_sort ?f ?en"]) (auto simp: ProcessMessage_def)
qed

text \<open>An outside world that does nothing, for examples.\<close>

definition silent :: "(int, 'w) outside" where
  "silent = \<lparr>ow_Println = (\<lambda>_ w. w), ow_NewRequest = (\<lambda>_ _. None), ow_Do = (\<lambda>_ w. (Inl ''no network'', w)),
     ow_GetConnector = (\<lambda>_ _. Err ''no connector''), ow_Republish = None, ow_RFC3339 = (\<lambda>_. []), ow_int_of_float = id\<rparr>"

definition sample_rule :: "int Rule" where
  "sample_rule = \<lparr>ru_ID = ''r1'', ru_Name = ''loop'', ru_Description = [], ru_SQL = [],
     ru_Actions = [\<lparr>ac_Type = ''republish'', ac_Parameters = [(''topic'', VString ''a/b'')], ac_Headers = []\<rparr>],
     ru_Status = RuleStatusEnabled, ru_Priority = 1, ru_CreatedAt = 0, ru_UpdatedAt = 0, ru_Metrics = no_metrics, ru_Metadata = []\<rparr>"

definition sample_discard :: "int Rule" where
  "sample_discard = sample_rule\<lparr>ru_Actions := [\<lparr>ac_Type = ''discard'', ac_Parameters = [], ac_Headers = []\<rparr>]\<rparr>"

definition rule_sample_context :: "string \<Rightarrow> int RuleContext" where
  "rule_sample_context t = \<lparr>rc_Topic = t, rc_QoS = 1, rc_Payload = [], rc_Headers = [], rc_ClientID = [], rc_Username = [],
     rc_Timestamp = 0, rc_Metadata = []\<rparr>"

theorem ProcessMessage_order_witness:
  "\<exists>order. distinct order
    \<and> set order = {(rid, rule) \<in> set [(''r1'', sample_rule), (''r2'', sample_discard)]. ru_Status rule = RuleStatusEnabled}
    \<and> sorted_wrt (\<lambda>a b. ru_Priority (snd b) \<le> ru_Priority (snd a)) order
    \<and> ProcessMessage int_lib (default_registry int_lib silent) \<lparr>ck_now = 5, ck_latency = (\<lambda>_. 2), ck_error = (\<lambda>_. [])\<rparr> (rule_sample_context ''a'') ([(''r1'', sample_rule), (''r2'', sample_discard)], ())
      = process_all (processRule int_lib (default_registry int_lib silent) \<lparr>ck_now = 5, ck_latency = (\<lambda>_. 2), ck_error = (\<lambda>_. [])\<rparr> (rule_sample_context ''a'')) order ([(''r1'', sample_rule), (''r2'', sample_discard)], ())"
  by (rule ProcessMessage_order) simp

lemma Parse_Nil: "Parse lib [] = Ok TrueCondition"
proof -
  have "space_width sp [] = 0" if "sp = spaces \<or> sp = map rev spaces" for sp
    using space_width_le [of sp "[]"] by simp
  then have "TrimSpace [] = []" by (simp add: TrimSpace_def trim_left.simps)
  then show ?thesis by (simp add: Parse_def ToUpper_def has_prefix_def)
qed

section \<open>What processing does to the table\<close>

text \<open>
  Processing changes only the counters of the rules. A rule is executed at most as often as it
  matched: the gap of a rule, its matches less its executions, grows by at least \<open>d\<close>.
\<close>

definition bare :: "'f Rule \<Rightarrow> 'f Rule" where
  "bare r = r\<lparr>ru_Metrics := no_metrics\<rparr>"

definition rule_rel :: "int \<Rightarrow> 'f Rule \<Rightarrow> 'f Rule \<Rightarrow> bool" where
  "rule_rel d r r' \<longleftrightarrow> bare r' = bare r
     \<and> rm_ExecutedCount (ru_Metrics r) \<le> rm_ExecutedCount (ru_Metrics r')
     \<and> rm_FailedCount (ru_Metrics r) \<le> rm_FailedCount (ru_Metrics r')
     \<and> rm_MatchedCount (ru_Metrics r) - rm_ExecutedCount (ru_Metrics r) + d
         \<le> rm_MatchedCount (ru_Metrics r') - rm_ExecutedCount (ru_Metrics r')"

definition table_rel :: "(string \<Rightarrow> int) \<Rightarrow> 'f rules \<Rightarrow> 'f rules \<Rightarrow> bool" where
  "table_rel d rs rs' \<longleftrightarrow> (gm_wf rs \<longrightarrow> gm_wf rs')
     \<and> (\<forall>rid. rel_option (rule_rel (d rid)) (gm_get rs rid) (gm_get rs' rid))"

abbreviation no_gap :: "string \<Rightarrow> int" where "no_gap \<equiv> (\<lambda>_. 0)"
abbreviation gap_at :: "string \<Rightarrow> int \<Rightarrow> string \<Rightarrow> int" where "gap_at rid k \<equiv> (\<lambda>x. if x = rid then k else 0)"

lemma table_rel_refl [simp]: "table_rel no_gap rs rs"
  by (simp add: table_rel_def rule_rel_def option.rel_refl)

lemma rel_option_trans:
  "rel_option R a b \<Longrightarrow> rel_option S b c \<Longrightarrow> (\<And>x y z. R x y \<Longrightarrow> S y z \<Longrightarrow> T x z) \<Longrightarrow> rel_option T a c"
  by (cases a; cases b; cases c) auto

lemma rule_rel_trans: "rule_rel d r r' \<Longrightarrow> rule_rel e r' r'' \<Longrightarrow> rule_rel (d + e) r r''"
  by (auto simp: rule_rel_def)

lemma table_rel_trans: "table_rel d rs rs' \<Longrightarrow> table_rel e rs' rs'' \<Longrightarrow> table_rel (\<lambda>x. d x + e x) rs rs''"
  unfolding table_rel_def by (blast intro: rel_option_trans rule_rel_trans)

lemmas table_rel_trans0 = table_rel_trans [of no_gap _ _ no_gap, simplified]

lemma update_metrics_rel:
  assumes "\<And>m. rm_ExecutedCount m \<le> rm_ExecutedCount (f m)" and "\<And>m. rm_FailedCount m \<le> rm_FailedCount (f m)"
    and "\<And>m. rm_MatchedCount m - rm_ExecutedCount m + k \<le> rm_MatchedCount (f m) - rm_ExecutedCount (f m)"
  shows "table_rel (gap_at rid (k)) rs (update_metrics f rid rs)"
proof (cases "gm_get rs rid")
  case None
  then show ?thesis by (auto simp: update_metrics_def table_rel_def rule_rel_def intro!: option.rel_refl)
next
  case (Some r)
  then show ?thesis using assms
    by (auto simp: update_metrics_def table_rel_def rule_rel_def bare_def intro!: option.rel_refl)
qed

lemma record_rel:
  "table_rel no_gap rs (update_metrics (recordRuleError now msg) rid rs)"
  "table_rel (gap_at rid (1)) rs (update_metrics recordRuleMatch rid rs)"
  "table_rel (gap_at rid (- 1)) rs (update_metrics (recordRuleExecution now lat) rid rs)"
  using update_metrics_rel [of "recordRuleError now msg" 0 rid rs]
    update_metrics_rel [of recordRuleMatch 1 rid rs]
    update_metrics_rel [of "recordRuleExecution now lat" "- 1" rid rs]
  by (simp_all add: recordRuleError_def recordRuleMatch_def recordRuleExecution_def Let_def)

text \<open>
  The contract of action executors: whatever an action does, of the rules it changes at most the
  counters (a republished message is processed by the rules again).
\<close>

locale rule_registry =
  fixes reg :: "('f, 'w) registry"
  assumes keeps_rules: "gm_get reg t = Some ex \<Longrightarrow> ex_Execute ex ctx a st = Ok (r, st') \<Longrightarrow> table_rel no_gap (fst st) (fst st')"
begin

lemma run_actions_rel: "run_actions reg ck rid ctx as st = Ok st' \<Longrightarrow> table_rel no_gap (fst st) (fst st')"
proof (induction as arbitrary: st)
  case (Cons a as)
  show ?case
  proof (cases "gm_get reg (ac_Type a)")
    case None
    then show ?thesis using Cons.IH [OF Cons.prems [simplified None run_actions.simps option.case]]
      by (auto intro: table_rel_trans0 record_rel(1))
  next
    case (Some ex)
    then obtain r s where e: "ex_Execute ex ctx a st = Ok (r, s)" using Cons.prems by auto
    have s: "table_rel no_gap (fst st) (fst s)" by (rule keeps_rules [OF Some e])
    obtain s' where "table_rel no_gap (fst s) (fst s')" and "run_actions reg ck rid ctx as s' = Ok st'"
    proof (cases r)
      case (Inl err)
      show ?thesis
        by (rule that [of "apfst (update_metrics (recordRuleError (ck_now ck) (''action execution error: '' @ err)) rid) s"])
          (use Inl Cons.prems Some e in \<open>simp_all add: record_rel(1)\<close>)
    next
      case (Inr res)
      show ?thesis
        by (rule that [of "if ar_Success res then s else apfst (update_metrics (recordRuleError (ck_now ck) (ar_Error res)) rid) s"])
          (use Inr Cons.prems Some e in \<open>simp_all add: record_rel(1)\<close>)
    qed
    then show ?thesis using Cons.IH s by (blast intro: table_rel_trans0)
  qed
qed simp

lemma processRule_rel:
  assumes "processRule lib reg ck ctx entry st = Ok st'"
  shows "table_rel no_gap (fst st) (fst st')"
proof -
  obtain rid rule where entry: "entry = (rid, rule)" by force
  note def = assms [unfolded entry processRule_def Let_def prod.case]
  have err: "table_rel no_gap (fst st) (fst (apfst (update_metrics (recordRuleError now msg) rid) st))" for now msg
    by (simp add: record_rel(1))
  show ?thesis
  proof (cases "go_bind (Parse lib (ru_SQL rule)) (Evaluate lib ctx) = Ok True")
    case True
    then obtain s where run: "run_actions reg ck rid ctx (ru_Actions rule) (apfst (update_metrics recordRuleMatch rid) st) = Ok s"
      and st': "st' = apfst (update_metrics (recordRuleExecution (ck_now ck) (ck_latency ck rid)) rid) s"
      using def by auto
    have "table_rel (gap_at rid (1)) (fst st) (fst s)"
      using table_rel_trans [OF record_rel(2) run_actions_rel [OF run, simplified]] by simp
    then have "table_rel (\<lambda>x. (gap_at rid (1)) x + (gap_at rid (- 1)) x) (fst st) (fst st')"
      unfolding st' by (auto intro: table_rel_trans record_rel(3))
    moreover have "(\<lambda>x. (gap_at rid (1)) x + (gap_at rid (- 1)) x) = no_gap" by (simp add: fun_eq_iff)
    ultimately show ?thesis by simp
  next
    case False
    then show ?thesis using def err
      by (auto split: go.splits if_splits)
  qed
qed

lemma process_all_rel:
  "process_all (processRule lib reg ck ctx) order st = Ok st' \<Longrightarrow> table_rel no_gap (fst st) (fst st')"
  by (induction order arbitrary: st) (auto intro: table_rel_trans0 dest: processRule_rel)

lemma ProcessMessage_rel: "ProcessMessage lib reg ck ctx st = Ok st' \<Longrightarrow> table_rel no_gap (fst st) (fst st')"
  unfolding ProcessMessage_def Let_def by (rule process_all_rel)

end

lemma executors_leave_rules:
  "Console_Execute lib ow ctx a st = Ok (r, st') \<Longrightarrow> fst st' = fst st"
  "HTTP_Execute lib ow ctx a st = Ok (r, st') \<Longrightarrow> fst st' = fst st"
  "Connector_Execute ow ctx a st = Ok (r, st') \<Longrightarrow> fst st' = fst st"
  "Discard_Execute ctx a st = Ok (r, st') \<Longrightarrow> fst st' = fst st"
  by (auto simp: Console_Execute_def HTTP_Execute_def Connector_Execute_def Discard_Execute_def Let_def
      split: option.splits go.splits sum.splits prod.splits if_splits)

lemma Republish_Execute_Ok:
  assumes "Republish_Execute ow ctx a st = Ok (r, st')"
  obtains "st' = st" | callback t q p where "ow_Republish ow = Some callback" "callback t q p st = Ok st'"
  using assms by (auto simp: Republish_Execute_def Let_def split: option.splits go.splits)

lemma default_executors:
  assumes "gm_get (default_registry lib ow) t = Some ex"
  shows "ex_Execute ex \<in> {Console_Execute lib ow, HTTP_Execute lib ow, Connector_Execute ow, Republish_Execute ow, Discard_Execute}"
  using assms by (auto simp: default_registry_def RegisterAction_def split: if_splits)

lemma default_registry_keeps:
  assumes "\<And>callback t q p st st'. ow_Republish ow = Some callback \<Longrightarrow> callback t q p st = Ok st' \<Longrightarrow> table_rel no_gap (fst st) (fst st')"
  shows "rule_registry (default_registry lib ow)"
proof
  fix t ex ctx a st r st'
  assume get: "gm_get (default_registry lib ow) t = Some ex" and ex: "ex_Execute ex ctx a st = Ok (r, st')"
  show "table_rel no_gap (fst st) (fst st')"
  proof (cases "ex_Execute ex = Republish_Execute ow")
    case True
    then have "Republish_Execute ow ctx a st = Ok (r, st')" using ex by simp
    then show ?thesis using assms by - (erule Republish_Execute_Ok, simp, blast)
  next
    case False
    then have "fst st' = fst st" using default_executors [OF get] ex by (auto dest: executors_leave_rules)
    then show ?thesis by simp
  qed
qed

interpretation standalone: rule_registry "default_registry lib (ow\<lparr>ow_Republish := None\<rparr>)" for lib ow
  by (rule default_registry_keeps) simp

section \<open>The invariant of the table\<close>

text \<open>Every rule of the table was validated, and was executed at most as often as it matched.\<close>

definition metrics_ok :: "RuleMetrics \<Rightarrow> bool" where
  "metrics_ok m \<longleftrightarrow> 0 \<le> rm_ExecutedCount m \<and> rm_ExecutedCount m \<le> rm_MatchedCount m \<and> 0 \<le> rm_FailedCount m"

definition rules_ok :: "'f sqllib \<Rightarrow> ('f, 'w) registry \<Rightarrow> 'f rules \<Rightarrow> bool" where
  "rules_ok lib reg rs \<longleftrightarrow> gm_wf rs
     \<and> (\<forall>rid rule. gm_get rs rid = Some rule \<longrightarrow> validate_rule lib reg rule = Ok () \<and> metrics_ok (ru_Metrics rule))"

text \<open>The states the table and the program around it can reach, from an engine without rules.\<close>

inductive engine_reach :: "'f sqllib \<Rightarrow> ('f, 'w) registry \<Rightarrow> 'f rules \<times> 'w \<Rightarrow> bool" for lib reg where
  start: "engine_reach lib reg ([], w)"
| create: "engine_reach lib reg (rs, w) \<Longrightarrow> CreateRule lib reg now rs rule = Ok rs' \<Longrightarrow> engine_reach lib reg (rs', w')"
| update: "engine_reach lib reg (rs, w) \<Longrightarrow> UpdateRule lib reg now rs rid rule = Ok rs' \<Longrightarrow> engine_reach lib reg (rs', w')"
| delete: "engine_reach lib reg (rs, w) \<Longrightarrow> DeleteRule rs rid = Ok rs' \<Longrightarrow> engine_reach lib reg (rs', w')"
| enable: "engine_reach lib reg (rs, w) \<Longrightarrow> EnableRule now rs rid = Ok rs' \<Longrightarrow> engine_reach lib reg (rs', w')"
| disable: "engine_reach lib reg (rs, w) \<Longrightarrow> DisableRule now rs rid = Ok rs' \<Longrightarrow> engine_reach lib reg (rs', w')"
| process: "engine_reach lib reg (rs, w) \<Longrightarrow> ProcessMessage lib reg ck ctx (rs, w') = Ok st \<Longrightarrow> engine_reach lib reg st"

lemma validate_rule_cong:
  "ru_SQL r = ru_SQL r' \<Longrightarrow> ru_Actions r = ru_Actions r' \<Longrightarrow> validate_rule lib reg r = validate_rule lib reg r'"
  unfolding validate_rule_def by (rule arg_cong2 [of _ _ _ _ "\<lambda>sql as. case Validate lib sql of
    Ok _ \<Rightarrow> validate_actions reg 0 as | Err e \<Rightarrow> Err (InvalidSQL e) | Panic \<Rightarrow> Panic | Blocked \<Rightarrow> Blocked"])

lemma rules_okD:
  "rules_ok lib reg rs \<Longrightarrow> gm_get rs rid = Some rule \<Longrightarrow> validate_rule lib reg rule = Ok () \<and> metrics_ok (ru_Metrics rule)"
  by (simp add: rules_ok_def)

lemma bare_eqD: "bare r = bare r' \<Longrightarrow> ru_SQL r = ru_SQL r' \<and> ru_Actions r = ru_Actions r'"
  by (cases r; cases r') (simp add: bare_def)

lemma rules_ok_set:
  assumes "rules_ok lib reg rs" and "validate_rule lib reg rule = Ok ()" and "metrics_ok (ru_Metrics rule)"
  shows "rules_ok lib reg (gm_set rs rid rule)"
  using assms by (simp add: rules_ok_def)

lemma rules_ok_rel:
  assumes "rules_ok lib reg rs" and "table_rel no_gap rs rs'"
  shows "rules_ok lib reg rs'"
  unfolding rules_ok_def
proof (intro conjI allI impI)
  show "gm_wf rs'" using assms by (simp add: rules_ok_def table_rel_def)
  fix rid rule
  assume "gm_get rs' rid = Some rule"
  moreover have "rel_option (rule_rel 0) (gm_get rs rid) (gm_get rs' rid)" using assms(2) by (simp add: table_rel_def)
  ultimately obtain r where r: "gm_get rs rid = Some r" and rel: "rule_rel 0 r rule" by (auto simp: option_rel_Some2)
  from rel have "validate_rule lib reg rule = validate_rule lib reg r"
    by (auto simp: rule_rel_def dest!: bare_eqD intro!: validate_rule_cong)
  then show "validate_rule lib reg rule = Ok ()" using assms(1) r by (simp add: rules_ok_def)
  have "metrics_ok (ru_Metrics r)" using assms(1) r by (simp add: rules_ok_def)
  then show "metrics_ok (ru_Metrics rule)" using rel by (auto simp: rule_rel_def metrics_ok_def)
qed

lemma rules_ok_ops:
  assumes "rules_ok lib reg rs"
  shows "CreateRule lib reg now rs rule = Ok rs' \<Longrightarrow> rules_ok lib reg rs'"
    and "UpdateRule lib reg now rs rid rule = Ok rs' \<Longrightarrow> rules_ok lib reg rs'"
    and "DeleteRule rs rid = Ok rs' \<Longrightarrow> rules_ok lib reg rs'"
    and "set_status status now rs rid = Ok rs' \<Longrightarrow> rules_ok lib reg rs'"
proof -
  have v: "validate_rule lib reg (rule\<lparr>ru_CreatedAt := c, ru_UpdatedAt := u, ru_Metrics := m\<rparr>) = validate_rule lib reg rule" for c u m
    by (rule validate_rule_cong) simp_all
  show "CreateRule lib reg now rs rule = Ok rs' \<Longrightarrow> rules_ok lib reg rs'"
    using rules_ok_set [OF assms] v
    by (auto simp: CreateRule_def metrics_ok_def no_metrics_def split: if_splits)
  show "UpdateRule lib reg now rs rid rule = Ok rs' \<Longrightarrow> rules_ok lib reg rs'"
    unfolding UpdateRule_def
    by (cases "gm_get rs rid") (auto intro!: rules_ok_set [OF assms] simp: v dest: rules_okD [OF assms])
  show "DeleteRule rs rid = Ok rs' \<Longrightarrow> rules_ok lib reg rs'"
    using assms by (auto simp: DeleteRule_def rules_ok_def split: option.splits if_splits)
  have s: "validate_rule lib reg (r\<lparr>ru_Status := st, ru_UpdatedAt := u\<rparr>) = validate_rule lib reg r" for r st u
    by (rule validate_rule_cong) simp_all
  show "set_status status now rs rid = Ok rs' \<Longrightarrow> rules_ok lib reg rs'"
    unfolding set_status_def
    by (cases "gm_get rs rid") (auto intro!: rules_ok_set [OF assms] simp: s dest: rules_okD [OF assms])
qed

context rule_registry
begin

lemma reach_rules_ok: "engine_reach lib reg st \<Longrightarrow> rules_ok lib reg (fst st)"
proof (induction rule: engine_reach.induct)
  case (process rs w ck ctx w' st)
  then show ?case using ProcessMessage_rel [OF process.hyps(2)] rules_ok_rel by simp
qed (auto simp: EnableRule_def DisableRule_def dest: rules_ok_ops, simp add: rules_ok_def)

end

lemma validate_actions_Ok:
  "validate_actions reg i as = Ok () \<Longrightarrow> a \<in> set as \<Longrightarrow> \<exists>ex. gm_get reg (ac_Type a) = Some ex \<and> ex_Validate ex a = Ok ()"
  by (induction as arbitrary: i) (auto split: option.splits go.splits)

lemma validate_rule_Ok:
  assumes "validate_rule lib reg rule = Ok ()"
  shows "\<exists>c. Parse lib (ru_SQL rule) = Ok c" and "validate_actions reg 0 (ru_Actions rule) = Ok ()"
  using assms by (cases "Parse lib (ru_SQL rule)"; auto simp: validate_rule_def Validate_def)+

lemma default_types:
  "gm_get (default_registry lib ow) t = Some ex \<Longrightarrow> t \<in> {''console'', ''http'', ''connector'', ''republish'', ''discard''}"
  by (auto simp: default_registry_def RegisterAction_def split: if_splits)

lemma ReplaceAll_absent: "p \<noteq> [] \<Longrightarrow> hd p \<notin> set s \<Longrightarrow> ReplaceAll s p r = s"
  by (induction s) (auto simp: has_prefix_iff Cons_eq_append_conv)

lemma replaceVariables_constant: "CHR ''$'' \<notin> set t \<Longrightarrow> replaceVariables ow t ctx = t"
  by (simp add: replaceVariables_def ReplaceAll_absent)

text \<open>Values are substituted one after the other, so a variable inside the payload is expanded as well.\<close>

lemma replaceVariables_nested:
  assumes "rc_Payload ctx = bytes_of ''${clientid}''" and "CHR ''$'' \<notin> set (rc_ClientID ctx)"
  shows "replaceVariables ow ''${payload}'' ctx = rc_ClientID ctx"
  using assms by (simp add: replaceVariables_def ReplaceAll_absent has_prefix_def)

end
