(* ===== verification/Rule_Broker.thy ===== *)
theory Rule_Broker
  imports Broker Rule_Engine
begin

text \<open>
  The rule engine inside the broker: \<open>processMessageThroughRuleEngine\<close> and the republish callback
  of \<open>pkg/broker/broker.go\<close>. The callback routes the message to local subscribers, and that runs the
  rule engine on it again, in the same goroutine. The depth of these calls is limited by the stack of
  the goroutine only: the model counts it, and exceeding it, which is fatal in Go, is \<open>Panic\<close>.
\<close>

section \<open>The engine in the broker\<close>

record 'f rule_env =
  rv_lib :: "'f sqllib"
  rv_outside :: "('f, Broker) outside"
  rv_clock :: rule_clock

definition rule_context :: "time \<Rightarrow> string \<Rightarrow> byte list \<Rightarrow> byte \<Rightarrow> (string, string) gomap \<Rightarrow> 'f RuleContext" where
  "rule_context now topicName payload qos headers =
     \<lparr>rc_Topic = topicName, rc_QoS = uint qos, rc_Payload = payload, rc_Headers = headers, rc_ClientID = [],
      rc_Username = [], rc_Timestamp = now, rc_Metadata = []\<rparr>"

text \<open>
  The callback: \<open>RouteToLocalSubscribersWithQoS\<close>, whose first step, the rule engine, is \<open>stack\<close>. The
  hook of the routing function that is called after it has therefore nothing left to do.
\<close>

definition republishCallback ::
  "(string \<Rightarrow> byte list \<Rightarrow> byte \<Rightarrow> (string, string) gomap \<Rightarrow> 'f rules \<times> Broker \<Rightarrow> (string, 'f rules \<times> Broker) go)
    \<Rightarrow> string \<Rightarrow> int \<Rightarrow> byte list \<Rightarrow> 'f rules \<times> Broker \<Rightarrow> (string, 'f rules \<times> Broker) go" where
  "republishCallback stack topic qos payload st =
     go_bind (stack topic payload (word_of_int qos) [] st) (\<lambda>(rs, b).
     go_bind (RouteToLocalSubscribersWithQoS idle_hooks topic payload (word_of_int qos) b) (\<lambda>b'. Ok (rs, b')))"

definition broker_registry where
  "broker_registry en stack =
     default_registry (rv_lib en) ((rv_outside en)\<lparr>ow_Republish := Some (republishCallback stack)\<rparr>)"

fun processMessageThroughRuleEngine ::
  "'f rule_env \<Rightarrow> nat \<Rightarrow> string \<Rightarrow> byte list \<Rightarrow> byte \<Rightarrow> (string, string) gomap \<Rightarrow> 'f rules \<times> Broker \<Rightarrow> (string, 'f rules \<times> Broker) go" where
  "processMessageThroughRuleEngine en 0 topicName payload qos headers st = Panic"
| "processMessageThroughRuleEngine en (Suc depth) topicName payload qos headers st =
     ProcessMessage (rv_lib en) (broker_registry en (processMessageThroughRuleEngine en depth)) (rv_clock en)
       (rule_context (ck_now (rv_clock en)) topicName payload qos headers) st"

text \<open>The rule engine as the routing functions of the broker see it.\<close>

definition rule_hook :: "'f rule_env \<Rightarrow> nat \<Rightarrow> 'f rules \<Rightarrow> engine" where
  "rule_hook en depth rs topicName payload qos headers b =
     go_bind (processMessageThroughRuleEngine en depth topicName payload qos headers (rs, b)) (\<lambda>(rs', b'). Ok b')"

section \<open>The table of rules under a running broker\<close>

lemma stack_keeps_rules:
  "processMessageThroughRuleEngine en depth t p q h st = Ok st' \<Longrightarrow> table_rel no_gap (fst st) (fst st')"
proof (induction depth arbitrary: t p q h st st')
  case (Suc depth)
  have "rule_registry (broker_registry en (processMessageThroughRuleEngine en depth))"
    unfolding broker_registry_def
    by (rule default_registry_keeps) (auto simp: republishCallback_def dest!: Suc.IH)
  then show ?case using Suc.prems rule_registry.ProcessMessage_rel by fastforce
qed simp

interpretation in_broker: rule_registry "broker_registry en (processMessageThroughRuleEngine en depth)" for en depth
  unfolding broker_registry_def
  by (rule default_registry_keeps) (auto simp: republishCallback_def dest!: stack_keeps_rules)

text \<open>
  (C22) Whatever sequence of operations an administrator and the traffic perform, starting with an empty
  table, every rule in the table has a condition that parses and actions of registered types with valid
  parameters, and has been executed at most as often as it matched; this includes messages that rules
  publish again while a message is being processed.
\<close>

theorem rule_table_invariant:
  assumes "engine_reach (rv_lib en) (broker_registry en (processMessageThroughRuleEngine en depth)) (rs, b)"
    and "gm_get rs rid = Some rule"
  shows "(\<exists>c. Parse (rv_lib en) (ru_SQL rule) = Ok c)
    \<and> (\<forall>a \<in> set (ru_Actions rule). ac_Type a \<in> {''console'', ''http'', ''connector'', ''republish'', ''discard''})
    \<and> 0 \<le> rm_ExecutedCount (ru_Metrics rule)
    \<and> rm_ExecutedCount (ru_Metrics rule) \<le> rm_MatchedCount (ru_Metrics rule)"
proof -
  have "rules_ok (rv_lib en) (broker_registry en (processMessageThroughRuleEngine en depth)) rs"
    using in_broker.reach_rules_ok [OF assms(1)] by simp
  then have v: "validate_rule (rv_lib en) (broker_registry en (processMessageThroughRuleEngine en depth)) rule = Ok ()"
    and m: "metrics_ok (ru_Metrics rule)" using rules_okD assms(2) by blast+
  have "ac_Type a \<in> {''console'', ''http'', ''connector'', ''republish'', ''discard''}" if "a \<in> set (ru_Actions rule)" for a
    using validate_actions_Ok [OF validate_rule_Ok(2) [OF v] that] unfolding broker_registry_def by (blast dest: default_types)
  then show ?thesis using validate_rule_Ok(1) [OF v] m unfolding metrics_ok_def by blast
qed

definition sample_rule_env :: "int rule_env" where
  "sample_rule_env = \<lparr>rv_lib = int_lib, rv_outside = silent,
     rv_clock = \<lparr>ck_now = 5, ck_latency = (\<lambda>_. 2), ck_error = (\<lambda>_. [])\<rparr>\<rparr>"

lemma sample_rule_valid: "validate_rule int_lib (default_registry int_lib ow) sample_rule = Ok ()"
  by (simp add: validate_rule_def Validate_def Parse_Nil sample_rule_def default_registry_def RegisterAction_def
      Republish_Validate_def string_param_def)

theorem rule_table_invariant_witness:
  "\<exists>rs rule. engine_reach int_lib (broker_registry sample_rule_env (processMessageThroughRuleEngine sample_rule_env 3)) (rs, sample_broker)
    \<and> gm_get rs ''r1'' = Some rule \<and> ru_Name rule = ''loop''
    \<and> rm_ExecutedCount (ru_Metrics rule) \<le> rm_MatchedCount (ru_Metrics rule)"
proof -
  let ?reg = "broker_registry sample_rule_env (processMessageThroughRuleEngine sample_rule_env 3)"
  let ?rs = "[(''r1'', sample_rule\<lparr>ru_CreatedAt := 4, ru_UpdatedAt := 4\<rparr>)]"
  have "engine_reach int_lib ?reg ([], sample_broker)" by (rule engine_reach.start)
  moreover have "CreateRule int_lib ?reg 4 [] sample_rule = Ok ?rs"
    using sample_rule_valid by (simp add: CreateRule_def broker_registry_def sample_rule_env_def) (simp add: sample_rule_def)
  ultimately have reach: "engine_reach (rv_lib sample_rule_env) ?reg (?rs, sample_broker)"
    unfolding sample_rule_env_def rule_env.simps by (rule engine_reach.create)
  then have "rm_ExecutedCount (ru_Metrics (sample_rule\<lparr>ru_CreatedAt := 4, ru_UpdatedAt := 4\<rparr>))
    \<le> rm_MatchedCount (ru_Metrics (sample_rule\<lparr>ru_CreatedAt := 4, ru_UpdatedAt := 4\<rparr>))"
    using rule_table_invariant [OF reach, of "''r1''"] by simp
  then show ?thesis using reach
    by (intro exI [of _ ?rs] exI [of _ "sample_rule\<lparr>ru_CreatedAt := 4, ru_UpdatedAt := 4\<rparr>"])
      (simp add: sample_rule_env_def, simp add: sample_rule_def)
qed

section \<open>Rules that publish again\<close>

text \<open>
  (C26) A rule that matches a topic and publishes to the same topic again exhausts the stack: for every
  depth the stack allows, a message on that topic brings the broker down, and with it all connections.
\<close>

theorem republish_to_same_topic_overflows:
  assumes "Parse (rv_lib en) (ru_SQL rule) = Ok c"
    and "\<And>ctx. rc_Topic ctx = topic \<Longrightarrow> Evaluate (rv_lib en) ctx c = Ok True"
    and "ru_Status rule = RuleStatusEnabled" and "ru_Actions rule = a # others" and "ac_Type a = ''republish''"
    and "gm_get (ac_Parameters a) ''topic'' = Some (VString topic)" and "CHR ''$'' \<notin> set topic"
  shows "processMessageThroughRuleEngine en depth topic payload qos headers ([(rid, rule)], b) = Panic"
proof -
  have any: "processMessageThroughRuleEngine en depth topic payload qos headers ([(rid, rule\<lparr>ru_Metrics := m\<rparr>)], b) = Panic"
    for m payload qos headers b
  proof (induction depth arbitrary: m payload qos headers b)
    case (Suc depth)
    let ?ctx = "rule_context (ck_now (rv_clock en)) topic payload qos headers :: 'a RuleContext"
    let ?m = "recordRuleMatch m"
    have "Evaluate (rv_lib en) ?ctx c = Ok True" by (rule assms(2)) (simp add: rule_context_def)
    moreover have "Republish_Execute ((rv_outside en)\<lparr>ow_Republish := Some (republishCallback (processMessageThroughRuleEngine en depth))\<rparr>)
        ?ctx a ([(rid, rule\<lparr>ru_Metrics := ?m\<rparr>)], b) = Panic"
      using Suc.IH assms(6)
      by (simp add: replaceVariables_constant [OF assms(7)] Republish_Execute_def string_param_def republishCallback_def Let_def)
    then have "run_actions (broker_registry en (processMessageThroughRuleEngine en depth)) ck rid ?ctx (ru_Actions rule)
        ([(rid, rule\<lparr>ru_Metrics := ?m\<rparr>)], b) = Panic" for ck
      using assms(4,5) by (simp add: broker_registry_def default_registry_def RegisterAction_def)
    ultimately show ?case using assms(1,3)
      by (simp add: ProcessMessage_def processRule_def update_metrics_def)
  qed simp
  show ?thesis using any [where m = "ru_Metrics rule"] by simp
qed

theorem republish_to_same_topic_overflows_witness:
  "processMessageThroughRuleEngine sample_rule_env 1000 ''a/b'' [1] 0 [] ([(''r1'', sample_rule)], sample_broker) = Panic"
  by (rule republish_to_same_topic_overflows [where c = TrueCondition
        and a = "\<lparr>ac_Type = ''republish'', ac_Parameters = [(''topic'', VString ''a/b'')], ac_Headers = []\<rparr>" and others = "[]"])
    (simp_all add: sample_rule_def sample_rule_env_def Parse_Nil)

text \<open>Without republish actions the engine needs one level of the stack, whatever the limit is.\<close>

definition republishes :: "'f Rule \<Rightarrow> bool" where
  "republishes rule \<longleftrightarrow> list_ex (\<lambda>a. ac_Type a = ''republish'') (ru_Actions rule)"

lemma run_actions_cong:
  "(\<And>a. a \<in> set as \<Longrightarrow> gm_get reg (ac_Type a) = gm_get reg' (ac_Type a)) \<Longrightarrow>
    run_actions reg ck rid ctx as st = run_actions reg' ck rid ctx as st"
proof (induction as arbitrary: st)
  case (Cons a as)
  then have eq: "run_actions reg ck rid ctx as = run_actions reg' ck rid ctx as" by (intro ext) simp
  show ?case unfolding run_actions.simps eq Cons.prems [OF list.set_intros(1)] ..
qed simp

lemma registry_same:
  assumes "t \<noteq> ''republish''"
  shows "gm_get (default_registry lib (ow\<lparr>ow_Republish := x\<rparr>)) t = gm_get (default_registry lib (ow\<lparr>ow_Republish := y\<rparr>)) t"
proof -
  have rv: "replaceVariables (ow\<lparr>ow_Republish := z\<rparr>) = replaceVariables ow" for z
    by (simp add: fun_eq_iff replaceVariables_def)
  have hh: "http_headers (ow\<lparr>ow_Republish := z\<rparr>) = http_headers ow" for z
    unfolding http_headers_def fun_eq_iff rv by simp
  have sel: "ow_NewRequest (ow\<lparr>ow_Republish := z\<rparr>) = ow_NewRequest ow" "ow_Do (ow\<lparr>ow_Republish := z\<rparr>) = ow_Do ow"
    "ow_GetConnector (ow\<lparr>ow_Republish := z\<rparr>) = ow_GetConnector ow" for z
    by simp_all
  have "Console_Execute lib (ow\<lparr>ow_Republish := z\<rparr>) = Console_Execute lib ow" for z
    by (simp add: fun_eq_iff Console_Execute_def rv)
  moreover have "HTTP_Execute lib (ow\<lparr>ow_Republish := z\<rparr>) = HTTP_Execute lib ow" for z
    by (rule ext)+ (unfold HTTP_Execute_def rv hh sel, rule refl)
  moreover have "Connector_Execute (ow\<lparr>ow_Republish := z\<rparr>) = Connector_Execute ow" for z
    by (rule ext)+ (unfold Connector_Execute_def rv sel, rule refl)
  ultimately show ?thesis using assms by (simp add: default_registry_def RegisterAction_def)
qed

lemma processRule_no_republish:
  assumes "\<not> republishes rule"
  shows "processRule lib (default_registry lib (ow\<lparr>ow_Republish := x\<rparr>)) ck ctx (rid, rule) st
    = processRule lib (default_registry lib (ow\<lparr>ow_Republish := y\<rparr>)) ck ctx (rid, rule) st"
proof -
  have "run_actions (default_registry lib (ow\<lparr>ow_Republish := x\<rparr>)) ck rid ctx (ru_Actions rule) s
      = run_actions (default_registry lib (ow\<lparr>ow_Republish := y\<rparr>)) ck rid ctx (ru_Actions rule) s" for s
    using assms by (intro run_actions_cong registry_same) (auto simp: republishes_def list_ex_iff)
  then show ?thesis unfolding processRule_def Let_def prod.case by presburger
qed

lemma process_all_cong:
  "(\<And>x st. x \<in> set xs \<Longrightarrow> f x st = g x st) \<Longrightarrow> process_all f xs st = process_all g xs st"
proof (induction xs arbitrary: st)
  case (Cons x xs)
  then have "process_all f xs = process_all g xs" by (intro ext) simp
  then show ?case using Cons.prems [of x st] by simp
qed simp

lemma processing_without_republish:
  assumes "\<And>rid rule. (rid, rule) \<in> set rs \<Longrightarrow> ru_Status rule = RuleStatusEnabled \<Longrightarrow> \<not> republishes rule"
  shows "processMessageThroughRuleEngine en (Suc depth) topic payload qos headers (rs, b)
    = ProcessMessage (rv_lib en) (default_registry (rv_lib en) ((rv_outside en)\<lparr>ow_Republish := None\<rparr>)) (rv_clock en)
        (rule_context (ck_now (rv_clock en)) topic payload qos headers) (rs, b)"
  unfolding processMessageThroughRuleEngine.simps ProcessMessage_def broker_registry_def Let_def
proof (rule process_all_cong)
  fix entry st
  let ?en = "filter (\<lambda>(rid, rule). ru_Status rule = RuleStatusEnabled) (fst (rs, b))"
  assume "entry \<in> set (exchange_sort (\<lambda>(rid, rule). ru_Priority rule) ?en)"
  then have "entry \<in> set ?en" by (metis mset_exchange_sort set_mset_mset)
  then obtain rid rule where "entry = (rid, rule)" and "\<not> republishes rule" using assms by auto
  then show "processRule (rv_lib en) (default_registry (rv_lib en)
        ((rv_outside en)\<lparr>ow_Republish := Some (republishCallback (processMessageThroughRuleEngine en depth))\<rparr>)) (rv_clock en)
        (rule_context (ck_now (rv_clock en)) topic payload qos headers) entry st
      = processRule (rv_lib en) (default_registry (rv_lib en) ((rv_outside en)\<lparr>ow_Republish := None\<rparr>)) (rv_clock en)
        (rule_context (ck_now (rv_clock en)) topic payload qos headers) entry st"
    using processRule_no_republish by metis
qed



section \<open>Rules that discard\<close>

text \<open>The library functions of the condition language return: with a value or with an error.\<close>

definition returns :: "('e, 'a) go \<Rightarrow> bool" where
  "returns r \<longleftrightarrow> (case r of Panic \<Rightarrow> False | Blocked \<Rightarrow> False | _ \<Rightarrow> True)"

definition lib_total :: "'f sqllib \<Rightarrow> bool" where
  "lib_total lib \<longleftrightarrow> (\<forall>p. returns (lib_Unmarshal lib p)) \<and> (\<forall>p s. returns (lib_MatchString lib p s))"

lemma returns_simps [simp]:
  "returns (Ok x)" "returns (Err e)" "\<not> returns Panic" "\<not> returns Blocked"
  "returns (go_bind m f) \<longleftrightarrow> returns m \<and> (\<forall>a. m = Ok a \<longrightarrow> returns (f a))"
  by (simp_all add: returns_def) (cases m; simp add: returns_def)

lemma Evaluate_returns:
  assumes "lib_total lib"
  shows "returns (Evaluate lib ctx c)"
proof (induction c)
  case (AndCondition cs)
  then show ?case by (induction cs) auto
next
  case (OrCondition cs)
  then show ?case by (induction cs) auto
next
  case (ComparisonCondition f op v)
  have field: "returns (getFieldValue lib ctx g)" for g
    using assms by (auto simp: getFieldValue_def getJSONField_def lib_total_def split: option.splits)
  then have "returns (case v of VField g \<Rightarrow> getFieldValue lib ctx g | _ \<Rightarrow> Ok v)" by (cases v) simp_all
  moreover have "returns (compareValues lib op a b)" for a b
    using assms by (auto simp: compareValues_def like_def lib_total_def)
  ultimately show ?case using field by simp
qed simp_all

lemma discard_only:
  assumes "lib_total lib" and "Parse lib (ru_SQL rule) = Ok c" and "\<And>a. a \<in> set (ru_Actions rule) \<Longrightarrow> ac_Type a = ''discard''"
  shows "\<exists>rs'. processRule lib (default_registry lib ow) ck ctx (rid, rule) (rs, w) = Ok (rs', w)"
proof -
  have run: "\<exists>rs'. run_actions (default_registry lib ow) ck rid ctx as (rs, w) = Ok (rs', w)"
    if "\<forall>a \<in> set as. ac_Type a = ''discard''" for as rs
    using that
    by (induction as arbitrary: rs) (auto simp: default_registry_def RegisterAction_def Discard_Execute_def success_def)
  have "returns (Evaluate lib ctx c)" by (rule Evaluate_returns [OF assms(1)])
  then show ?thesis
    using assms(2) run [of "ru_Actions rule" "update_metrics recordRuleMatch rid rs"] assms(3)
    by (cases "Evaluate lib ctx c") (auto simp: processRule_def)
qed

lemma process_all_keeps:
  "(\<And>x rs. x \<in> set xs \<Longrightarrow> \<exists>rs'. f x (rs, w) = Ok (rs', w)) \<Longrightarrow> \<exists>rs'. process_all f xs (rs, w) = Ok (rs', w)"
proof (induction xs arbitrary: rs)
  case (Cons x xs)
  then obtain rs' where "f x (rs, w) = Ok (rs', w)" by (meson list.set_intros(1))
  then show ?case using Cons by simp
qed simp

text \<open>
  A rule with the discard action does not discard the message: the rule engine leaves the broker as
  it is and lets routing go on, so that the message is delivered to every subscriber as if there were no
  rules.
\<close>

lemma discard_rules_do_not_discard:
  assumes "lib_total (rv_lib en)"
    and "\<And>rid rule. (rid, rule) \<in> set rs \<Longrightarrow> ru_Status rule = RuleStatusEnabled \<Longrightarrow>
           (\<exists>c. Parse (rv_lib en) (ru_SQL rule) = Ok c) \<and> (\<forall>a \<in> set (ru_Actions rule). ac_Type a = ''discard'')"
  shows "RouteToLocalSubscribersWithRequestResponse \<lparr>hk_rules = rule_hook en (Suc depth) rs, hk_integration = integration\<rparr>
      topicName payload qos props responseTopic correlation b
    = RouteToLocalSubscribersWithRequestResponse \<lparr>hk_rules = rule_hook en (Suc depth) [], hk_integration = integration\<rparr>
      topicName payload qos props responseTopic correlation b"
proof -
  have "\<exists>rs'. processMessageThroughRuleEngine en (Suc depth) t p q h (rs, b) = Ok (rs', b)" for t p q h b
    unfolding processMessageThroughRuleEngine.simps ProcessMessage_def broker_registry_def Let_def
  proof (rule process_all_keeps)
    fix entry rs0
    let ?en = "filter (\<lambda>(rid, rule). ru_Status rule = RuleStatusEnabled) (fst (rs, b))"
    assume "entry \<in> set (exchange_sort (\<lambda>(rid, rule). ru_Priority rule) ?en)"
    then have "entry \<in> set ?en" by (metis mset_exchange_sort set_mset_mset)
    then obtain rid rule where e: "entry = (rid, rule)" "(rid, rule) \<in> set rs" "ru_Status rule = RuleStatusEnabled" by auto
    then obtain c where "Parse (rv_lib en) (ru_SQL rule) = Ok c" and "\<forall>a \<in> set (ru_Actions rule). ac_Type a = ''discard''"
      using assms(2) by blast
    then show "\<exists>rs'. processRule (rv_lib en) (default_registry (rv_lib en)
        ((rv_outside en)\<lparr>ow_Republish := Some (republishCallback (processMessageThroughRuleEngine en depth))\<rparr>)) (rv_clock en)
        (rule_context (ck_now (rv_clock en)) t p q h) entry (rs0, b) = Ok (rs', b)"
      unfolding e(1) using assms(1) by (intro discard_only) auto
  qed
  then have "rule_hook en (Suc depth) rs t p q h b = Ok b" for t p q h b
    unfolding rule_hook_def by (metis (no_types, lifting) go_bind.simps(1) prod.case)
  moreover have "rule_hook en (Suc depth) [] t p q h b = Ok b" for t p q h b
    by (simp add: rule_hook_def ProcessMessage_def)
  ultimately show ?thesis by (simp add: RouteToLocalSubscribersWithRequestResponse_def)
qed

lemma discard_rules_do_not_discard_witness:
  "RouteToLocalSubscribersWithRequestResponse \<lparr>hk_rules = rule_hook sample_rule_env (Suc 5) [(''r1'', sample_discard)], hk_integration = (\<lambda>_ _ _ _. Ok)\<rparr>
      ''a/b'' [5] 2 [] [] [] sample_broker
    = RouteToLocalSubscribersWithRequestResponse \<lparr>hk_rules = rule_hook sample_rule_env (Suc 5) [], hk_integration = (\<lambda>_ _ _ _. Ok)\<rparr>
      ''a/b'' [5] 2 [] [] [] sample_broker"
  by (rule discard_rules_do_not_discard)
    (auto simp: sample_rule_env_def lib_total_def int_lib_def sample_discard_def sample_rule_def Parse_Nil)

end
