(* ===== verification/System.thy ===== *)
theory System
  imports Connection Rule_Broker
begin

text \<open>
  The broker as a whole: any number of connections, the goroutines they start, the session actors and
  the timers, interleaved in any order. The theory shows that no handler and no goroutine panics and
  that the invariants of the broker and of its session manager hold in every state the system can
  reach. The proofs follow the call structure: one lemma for every function of the broker.
\<close>

section \<open>Failed calls\<close>

lemma safe_logged: "safe Q m \<Longrightarrow> Q x \<Longrightarrow> safe Q (logged m x)"
  by (cases m) (simp_all add: logged_def)

section \<open>Mailboxes\<close>

definition same_boxes :: "mailboxes \<Rightarrow> mailboxes \<Rightarrow> bool" where
  "same_boxes m m' \<longleftrightarrow> (\<forall>mb. gm_get m' mb = None \<longleftrightarrow> gm_get m mb = None)"

lemma send_to_safe: "gm_get boxes mb \<noteq> None \<Longrightarrow> safe (same_boxes boxes) (send_to boxes mb msg)"
  by (auto simp: send_to_def same_boxes_def split: go.split)

lemma send_all_safe:
  "\<forall>(mb, msg) \<in> set msgs. gm_get boxes mb \<noteq> None \<Longrightarrow> safe (same_boxes boxes) (send_all boxes msgs :: ('e, mailboxes) go)"
proof (induction msgs arbitrary: boxes)
  case (Cons p msgs)
  obtain mb msg where p: "p = (mb, msg)" by (cases p)
  show ?case unfolding p send_all.simps
  proof (rule safe_bind [OF send_to_safe])
    show "gm_get boxes mb \<noteq> None" using Cons.prems p by simp
    fix boxes' :: mailboxes
    assume same: "same_boxes boxes boxes'"
    then have "\<forall>(mb, msg) \<in> set msgs. gm_get boxes' mb \<noteq> None" using Cons.prems by (auto simp: same_boxes_def)
    then show "safe (same_boxes boxes) (send_all boxes' msgs :: ('e, mailboxes) go)"
      using same by - (rule safe_mono [OF Cons.IH], assumption, simp add: same_boxes_def)
  qed
qed (simp add: same_boxes_def)

section \<open>Changes that keep the invariant of the broker\<close>

lemma broker_inv_frame [simp]:
  "broker_inv (b\<lparr>b_retainer := r\<rparr>) = broker_inv b"
  "broker_inv (b\<lparr>b_topicAliasManagers := t\<rparr>) = broker_inv b"
  "broker_inv (b\<lparr>b_processedQoS1 := q\<rparr>) = broker_inv b"
  "broker_inv (b\<lparr>b_blacklistMiddleware := m\<rparr>) = broker_inv b"
  by (simp_all add: broker_inv_def tasks_ok_def)

lemma broker_inv_boxes: "broker_inv b \<Longrightarrow> same_boxes (b_mailboxes b) boxes \<Longrightarrow> broker_inv (b\<lparr>b_mailboxes := boxes\<rparr>)"
  by (simp add: broker_inv_def tasks_ok_def same_boxes_def)

lemma broker_inv_topics:
  "broker_inv b \<Longrightarrow> store_inv s \<Longrightarrow> known (box_exists b) s \<Longrightarrow> broker_inv (b\<lparr>b_topics := s\<rparr>)"
  by (simp add: broker_inv_def tasks_ok_def)

definition task_ok :: "Broker \<Rightarrow> task \<Rightarrow> bool" where
  "task_ok b t \<longleftrightarrow> (case t of TSendRetained mb fs \<Rightarrow> box_exists b mb | _ \<Rightarrow> True)"

lemma broker_inv_tasks: "broker_inv b \<Longrightarrow> \<forall>t \<in> set ts. task_ok b t \<Longrightarrow> broker_inv (b\<lparr>b_tasks := b_tasks b @ ts\<rparr>)"
  by (fastforce simp: broker_inv_def tasks_ok_def task_ok_def)

lemma broker_inv_spawn: "broker_inv b \<Longrightarrow> task_ok b t \<Longrightarrow> broker_inv (spawn t b)"
  using broker_inv_tasks [of b "[t]"] by (simp add: spawn_def)

lemma grows_frame [simp]:
  "grows b (b'\<lparr>b_retainer := r\<rparr>) = grows b b'" "grows b (b'\<lparr>b_topicAliasManagers := t\<rparr>) = grows b b'"
  "grows b (b'\<lparr>b_processedQoS1 := q\<rparr>) = grows b b'" "grows b (b'\<lparr>b_blacklistMiddleware := m\<rparr>) = grows b b'"
  "grows b (b'\<lparr>b_topics := s\<rparr>) = grows b b'" "grows b (b'\<lparr>b_tasks := ts\<rparr>) = grows b b'"
  "grows b (b'\<lparr>b_sessions := ss\<rparr>) = grows b b'" "grows b (b'\<lparr>b_offlineMessageMgr := om\<rparr>) = grows b b'"
  "grows b (spawn tk b') = grows b b'"
  by (simp_all add: grows_def spawn_def)

lemma grows_boxes: "same_boxes (b_mailboxes b) boxes \<Longrightarrow> grows b (b\<lparr>b_mailboxes := boxes\<rparr>)"
  by (simp add: grows_def same_boxes_def)

text \<open>What every function of the broker guarantees about its result.\<close>

definition broker_good :: "Broker \<Rightarrow> Broker \<Rightarrow> bool" where
  "broker_good b b' \<longleftrightarrow> broker_inv b' \<and> grows b b'"

lemma broker_good_refl: "broker_inv b \<Longrightarrow> broker_good b b"
  by (simp add: broker_good_def)

lemma broker_good_trans: "broker_good b b' \<Longrightarrow> broker_good b' b'' \<Longrightarrow> broker_good b b''"
  by (auto simp: broker_good_def intro: grows_trans)

lemma safe_then:
  assumes "safe (broker_good b) m" and "\<And>b'. broker_inv b' \<Longrightarrow> safe (broker_good b') (f b')"
  shows "safe (broker_good b) (go_bind m f)"
proof (rule safe_bind [OF assms(1)])
  fix b' assume g: "broker_good b b'"
  then have "safe (broker_good b') (f b')" by (intro assms(2)) (simp add: broker_good_def)
  then show "safe (broker_good b) (f b')" by (rule safe_mono) (rule broker_good_trans [OF g])
qed

lemma deliver_safe:
  assumes "broker_inv b" and "\<forall>(mb, msg) \<in> set msgs. box_exists b mb"
  shows "safe (broker_good b) (deliver b msgs)"
  unfolding deliver_def
  by (rule safe_bind [OF send_all_safe [OF assms(2)]])
    (simp add: broker_good_def broker_inv_boxes assms(1) grows_boxes)

section \<open>Routing\<close>

lemma get_subscribers_safe:
  assumes "broker_inv b"
  shows "safe (\<lambda>(subs, b'). broker_good b b' \<and> subs_known (box_exists b') subs) (get_subscribers b topic)"
  using broker_invD(1,3) [OF assms] known_GetSubscribers [of "b_topics b" "box_exists b" topic] assms
  by (simp add: get_subscribers_def GetSubscribers_eq broker_good_def broker_inv_topics store_inv_after_publish del: subs_known_rules)

lemma set_gm_set_sub: "set (gm_set m k v) \<subseteq> insert (k, v) (set m)"
  by (induction m) auto

lemma uniqueSubs_known:
  assumes "subs_known P subs" and "\<forall>(mb, q) \<in> set m. P mb"
  shows "\<forall>(mb, q) \<in> set (uniqueSubs qos subs m). P mb"
  using assms
proof (induction qos subs m rule: uniqueSubs.induct)
  case (2 qos sub subs m)
  have "\<forall>(mb, q) \<in> set (gm_set m (sub_Mailbox sub) q'). P mb" for q'
    using "2.prems" by (auto dest!: subsetD [OF set_gm_set_sub])
  then show ?case using 2 by (auto simp: Let_def split: option.splits)
qed simp

text \<open>
  The engines the routing functions call before they deliver: they neither panic nor break the broker.
  \<open>rules\<close> and \<open>integration\<close> are the two hooks of the broker.
\<close>

locale broker_hooks =
  fixes hk :: hooks
  assumes rules_safe: "broker_inv b \<Longrightarrow> safe (broker_good b) (hk_rules hk t p q h b)"
    and integration_safe: "broker_inv b \<Longrightarrow> safe (broker_good b) (hk_integration hk t p q h b)"
begin

lemma route_request_response_safe:
  assumes "broker_inv b"
  shows "safe (broker_good b) (RouteToLocalSubscribersWithRequestResponse hk t p q up rt cd b)"
proof -
  have "safe (broker_good b2) (go_bind (get_subscribers b2 t) (\<lambda>(subscribers, b3). deliver b3 (map (\<lambda>(mb, qos). (mb, f qos)) (uniqueSubs q subscribers []))))"
    if "broker_inv b2" for b2 and f :: "byte \<Rightarrow> session_msg"
  proof (rule safe_bind [OF get_subscribers_safe [OF that]], clarify)
    fix subs b3
    assume g: "broker_good b2 b3" and k: "subs_known (box_exists b3) subs"
    have "\<forall>(mb, msg) \<in> set (map (\<lambda>(mb, qos). (mb, f qos)) (uniqueSubs q subs [])). box_exists b3 mb"
      using uniqueSubs_known [OF k, of "[]" q] by auto
    then have "safe (broker_good b3) (deliver b3 (map (\<lambda>(mb, qos). (mb, f qos)) (uniqueSubs q subs [])))"
      using g by (intro deliver_safe) (simp_all add: broker_good_def)
    then show "safe (broker_good b2) (deliver b3 (map (\<lambda>(mb, qos). (mb, f qos)) (uniqueSubs q subs [])))"
      by (rule safe_mono) (rule broker_good_trans [OF g])
  qed
  then show ?thesis
    unfolding RouteToLocalSubscribersWithRequestResponse_def Let_def
    by (intro safe_then rules_safe integration_safe assms)
qed

lemma route_qos_safe:
  assumes "broker_inv b"
  shows "safe (broker_good b) (RouteToLocalSubscribersWithQoS hk t p q b)"
proof -
  have "safe (broker_good b1) (go_bind (get_subscribers b1 t) (\<lambda>(subscribers, b2). deliver b2 (map (\<lambda>sub. (sub_Mailbox sub, f sub)) subscribers)))"
    if "broker_inv b1" for b1 and f :: "Subscription \<Rightarrow> session_msg"
  proof (rule safe_bind [OF get_subscribers_safe [OF that]], clarify)
    fix subs b2
    assume g: "broker_good b1 b2" and k: "subs_known (box_exists b2) subs"
    then have "safe (broker_good b2) (deliver b2 (map (\<lambda>sub. (sub_Mailbox sub, f sub)) subs))"
      by (intro deliver_safe) (auto simp: broker_good_def subs_known_def list_all_iff)
    then show "safe (broker_good b1) (deliver b2 (map (\<lambda>sub. (sub_Mailbox sub, f sub)) subs))"
      by (rule safe_mono) (rule broker_good_trans [OF g])
  qed
  then show ?thesis
    unfolding RouteToLocalSubscribersWithQoS_def by (intro safe_then rules_safe assms)
qed

end

lemma route_remote_good: "broker_inv b \<Longrightarrow> broker_good b (route_remote t p b)"
  by (auto simp: route_remote_def broker_good_def task_ok_def intro!: broker_inv_tasks split: option.splits)

lemma store_retained_safe: "broker_inv b \<Longrightarrow> safe (broker_good b) (store_retained ev topic payload qos cid b)"
  unfolding store_retained_def
  by (intro safe_logged) (auto simp: StoreRetained_def Let_def broker_good_def)

section \<open>The session manager\<close>

definition sm_good :: "'d json_dec \<Rightarrow> 'd SessionManager \<Rightarrow> bool" where
  "sm_good dec sm \<longleftrightarrow> sm_inv dec sm \<and> 0 < pc_MaxOfflineMessages (sm_config sm)"

lemma QueueMessage_safe:
  "0 < pc_MaxOfflineMessages (sm_config sm) \<Longrightarrow>
    safe (\<lambda>sm'. sm_config sm' = sm_config sm) (QueueMessage enc now sm cid topic payload qos retain)"
  by (auto simp: QueueMessage_def Let_def split: option.splits)

lemma queue_pass_safe:
  "0 < pc_MaxOfflineMessages (sm_config sm) \<Longrightarrow>
    safe (\<lambda>sm'. sm_config sm' = sm_config sm) (queue_pass enc now matcher held topic payload qos retain ss sm)"
proof (induction ss arbitrary: sm)
  case (Cons p ss)
  obtain cid s where p: "p = (cid, s)" by (cases p)
  have "safe (\<lambda>sm'. sm_config sm' = sm_config sm) (QueueMessage enc now sm cid topic payload qos retain)"
    using Cons.prems by (rule QueueMessage_safe)
  then have "safe (\<lambda>sm'. sm_config sm' = sm_config sm)
      (queue_pass enc now matcher held topic payload qos retain ss sm')"
    if "QueueMessage enc now sm cid topic payload qos retain = Ok sm'" for sm'
    using Cons.IH [of sm'] Cons.prems that by simp
  then show ?case using Cons.IH [of sm] Cons.prems QueueMessage_safe [OF Cons.prems, of enc now cid topic payload qos retain]
    by (cases "QueueMessage enc now sm cid topic payload qos retain") (auto simp: p)
qed simp

lemma queue_offline_safe:
  assumes "json_roundtrip (ev_enc ev) dec" and "sm_good dec sm"
  shows "safe (sm_good dec) (queue_offline ev held topic payload qos retain sm)"
proof -
  let ?q = "queue_pass (ev_enc ev) (ev_now ev) BasicTopicMatcher_Matches held topic payload qos retain (sm_activeSessions sm) sm"
  have "safe (\<lambda>sm'. sm_config sm' = sm_config sm) ?q" using assms(2) by (intro queue_pass_safe) (simp add: sm_good_def)
  then have "safe (sm_good dec) ?q"
    using queue_pass_inv [OF assms(1), of sm] assms(2) by (cases ?q) (auto simp: sm_good_def)
  then show ?thesis
    unfolding queue_offline_def QueueMessageForOfflineClients_def using assms(2) by (intro safe_logged)
qed

text \<open>The state of the broker and what its functions guarantee about the next.\<close>

definition sys_ok :: "'d json_dec \<Rightarrow> 'd broker \<Rightarrow> bool" where
  "sys_ok dec st \<longleftrightarrow> broker_inv (fst st) \<and> sm_good dec (snd st)"

definition sys_good :: "'d json_dec \<Rightarrow> 'd broker \<Rightarrow> 'd broker \<Rightarrow> bool" where
  "sys_good dec st st' \<longleftrightarrow> sys_ok dec st' \<and> grows (fst st) (fst st')"

lemma sys_goodI: "broker_good b b' \<Longrightarrow> sm_good dec sm' \<Longrightarrow> sys_good dec (b, sm) (b', sm')"
  by (simp add: sys_good_def sys_ok_def broker_good_def)

lemma sys_good_trans: "sys_good dec st st' \<Longrightarrow> sys_good dec st' st'' \<Longrightarrow> sys_good dec st st''"
  by (auto simp: sys_good_def intro: grows_trans)

lemma sys_good_refl: "sys_ok dec st \<Longrightarrow> sys_good dec st st"
  by (simp add: sys_good_def)

context broker_hooks
begin

lemma publish_safe:
  assumes "json_roundtrip (ev_enc ev) dec" and "sys_ok dec st" and "ev_hooks ev = hk"
  shows "safe (sys_good dec st) (processPublishPostAck ev pa st)"
proof -
  obtain b sm where st: "st = (b, sm)" by (cases st)
  have b: "broker_inv b" and sm: "sm_good dec sm" using assms(2) by (simp_all add: st sys_ok_def)
  let ?first = "if pa_retain pa then store_retained ev (pa_topic pa) (pa_payload pa) (pa_qos pa) (pa_clientID pa) b else Ok b"
  have "safe (broker_good b) ?first" by (simp add: store_retained_safe b broker_good_refl)
  then have route: "safe (broker_good b) (go_bind ?first (\<lambda>b1. routePublishWithRequestResponse hk (pa_topic pa) (pa_payload pa) (pa_qos pa)
      (pa_userProperties pa) (pa_responseTopic pa) (pa_correlationData pa) b1))"
    unfolding routePublishWithRequestResponse_def
    by (rule safe_then) (rule safe_then [OF route_request_response_safe], assumption, simp add: route_remote_good)
  have "safe (sys_good dec st) (go_bind (go_bind ?first (\<lambda>b1. routePublishWithRequestResponse hk (pa_topic pa) (pa_payload pa) (pa_qos pa)
      (pa_userProperties pa) (pa_responseTopic pa) (pa_correlationData pa) b1)) (\<lambda>b2.
      go_bind (queue_offline ev [] (pa_topic pa) (pa_payload pa) (pa_qos pa) (pa_retain pa) sm) (\<lambda>sm'.
        Ok (spawn (TConnectors (pa_topic pa) (pa_payload pa) (pa_qos pa)) b2, sm'))))"
  proof (intro safe_bind [OF route] safe_bind [OF queue_offline_safe [OF assms(1) sm]])
    fix b2 sm'
    assume "broker_good b b2" and "sm_good dec sm'"
    then show "safe (sys_good dec st) (Ok (spawn (TConnectors (pa_topic pa) (pa_payload pa) (pa_qos pa)) b2, sm'))"
      by (simp add: st sys_good_def sys_ok_def broker_good_def broker_inv_spawn task_ok_def)
  qed
  then show ?thesis unfolding processPublishPostAck_def st fst_conv snd_conv assms(3) by (simp add: go_bind_assoc)
qed

end

section \<open>Will messages and the end of a session\<close>

lemma queue_offline_keeps:
  assumes "json_roundtrip (ev_enc ev) dec" and "sm_inv dec sm" and "queue_offline ev held topic payload qos retain sm = Ok sm'"
  shows "sm_inv dec sm' \<and> sm_config sm' = sm_config sm"
proof -
  have config: "queue_pass enc now matcher held topic payload qos retain ss s = Ok s' \<Longrightarrow> sm_config s' = sm_config s"
    for enc :: "'a json_enc" and now matcher ss s s'
  proof (induction ss arbitrary: s)
    case (Cons p ss)
    then show ?case
      by (cases p) (force simp: QueueMessage_def Let_def split: if_splits go.splits option.splits)
  qed simp
  show ?thesis
    using assms(2,3) queue_pass_inv [OF assms(1,2)] config
    by (auto simp: queue_offline_def QueueMessageForOfflineClients_def logged_def split: go.splits)
qed

lemma will_keeps: "json_roundtrip (ev_enc ev) dec \<Longrightarrow> keeps_inv dec (Some (broker_PublishWillMessage ev))"
  unfolding keeps_inv_def broker_PublishWillMessage_def by (auto dest!: queue_offline_keeps)

lemma disconnect_will_config:
  assumes "keeps_inv dec publisher" and "sm_inv dec (snd st)" and "disconnect_will publisher now cid graceful s st = Ok st'"
  shows "sm_config (snd st') = sm_config (snd st)"
  using assms(3) PublishWillMessage_inv [OF assms(1,2)]
  by (auto simp: disconnect_will_def CancelWillMessage_def split: if_splits go.splits)

lemma DisconnectSession_keeps:
  assumes "json_roundtrip enc dec" and "keeps_inv dec publisher" and "sm_good dec (snd st)"
    and "DisconnectSession enc publisher now cid graceful st = Ok st'"
  shows "sm_good dec (snd st')"
proof -
  have inv: "sm_inv dec (snd st)" using assms(3) by (simp add: sm_good_def)
  from assms(4) obtain s0 where s0: "gm_get (sm_activeSessions (snd st)) cid = Some s0"
    by (auto simp: DisconnectSession_def split: option.splits)
  let ?s = "s0\<lparr>ps_Connected := False, ps_LastActivity := now\<rparr>"
  have "session_ok (sm_config (snd st)) cid ?s" using session_okD [OF inv s0] by (simp add: session_ok_def)
  then have put: "sm_inv dec (snd (fst st, put_session (snd st) cid ?s))" using sm_inv_put [OF inv] by simp
  obtain w sm2 where mid: "disconnect_will publisher now cid graceful ?s (fst st, put_session (snd st) cid ?s) = Ok (w, sm2)"
    and fin: "snd st' = disconnect_save enc cid (?s\<lparr>ps_WillMessage := None\<rparr>) sm2"
    using assms(4) s0 by (auto simp: DisconnectSession_def Let_def)
  have "sm_config (snd st') = sm_config (snd st)"
    using disconnect_will_config [OF assms(2) put mid] by (simp add: fin disconnect_save_def)
  then show ?thesis
    using DisconnectSession_inv [OF assms(1,2) inv assms(4)] assms(3) by (simp add: sm_good_def)
qed

lemma broker_inv_callbacks:
  "broker_inv b \<Longrightarrow> broker_inv (b\<lparr>b_offlineMessageMgr := RemoveDeliveryCallback (b_offlineMessageMgr b) cid\<rparr>)"
  "broker_inv b \<Longrightarrow> broker_inv (b\<lparr>b_offlineMessageMgr := SetDeliveryCallback (b_offlineMessageMgr b) cid deliverOfflineMessage\<rparr>)"
  by (auto simp: broker_inv_def tasks_ok_def RemoveDeliveryCallback_def SetDeliveryCallback_def split: if_splits)

lemma broker_inv_sessions:
  assumes "broker_inv b" and "mem_inv ss" and "\<And>cid mb. Get ss cid = Ok mb \<Longrightarrow> box_exists b mb"
  shows "broker_inv (b\<lparr>b_sessions := ss\<rparr>)"
  using assms by (auto simp: broker_inv_def tasks_ok_def)

lemma unregisterSession_good:
  assumes "broker_inv b"
  shows "broker_good b (unregisterSession cid b)"
proof -
  note m = broker_invD(2) [OF assms]
  let ?t = "case Get (b_sessions b) cid of Ok mb \<Rightarrow> fst (RemoveAllSubscriptions (b_topics b) (Some mb)) | _ \<Rightarrow> b_topics b"
  have "store_inv ?t \<and> known (box_exists b) ?t"
    using broker_invD(1,3) [OF assms] by (auto simp: store_inv_RemoveAll known_RemoveAll split: go.splits)
  then have "broker_inv (b\<lparr>b_topics := ?t\<rparr>)" using assms by (simp add: broker_inv_topics)
  moreover have "Get (Delete (b_sessions b) cid) cid' = Ok mb \<Longrightarrow> box_exists b mb" for cid' mb
    using broker_invD(4) [OF assms] by (auto simp: mem.get_del [OF m] split: if_splits)
  ultimately have "broker_inv (b\<lparr>b_topics := ?t, b_sessions := Delete (b_sessions b) cid\<rparr>)"
    using mem.inv_del [OF m] by (intro broker_inv_sessions) auto
  then show ?thesis by (simp add: unregisterSession_def Let_def broker_good_def)
qed

lemma safe_publish:
  assumes "safe (broker_good b) m" and "safe (sm_good dec) q"
  shows "safe (sys_good dec (b, sm)) (go_bind m (\<lambda>b2. go_bind q (\<lambda>sm'. Ok (b2, sm'))))"
  by (rule safe_bind [OF assms(1)], rule safe_bind [OF assms(2)]) (simp add: sys_goodI)

lemma retained_safe: "broker_inv b \<Longrightarrow> box_exists b mb \<Longrightarrow> safe (broker_good b) (sendRetainedMessages now (Some mb) fs b)"
  unfolding sendRetainedMessages_def by (simp, rule deliver_safe) auto

lemma deliverOfflineMessage_eqs:
  "deliverOfflineMessage cid topic payload qos retain Blocked = (Blocked, None)"
  "Get sessions cid = Ok mb \<Longrightarrow> deliverOfflineMessage cid topic payload qos retain (Ok (sessions, boxes)) =
     (case send_to boxes mb (MPublish ((plain_publish topic payload qos)\<lparr>pm_Retain := retain\<rparr>)) of
        Ok boxes' \<Rightarrow> (Ok (sessions, boxes'), None) | r \<Rightarrow> (go_bind r (\<lambda>_. Panic), None))"
  "\<nexists>mb. Get sessions cid = Ok mb \<Longrightarrow>
     deliverOfflineMessage cid topic payload qos retain (Ok (sessions, boxes)) = (Ok (sessions, boxes), Some (no_session cid))"
  by (auto simp: deliverOfflineMessage_def split: go.splits)

lemma deliver_loop_safe:
  assumes "\<And>mb. Get sessions cid = Ok mb \<Longrightarrow> gm_get boxes mb \<noteq> None"
  shows "safe (\<lambda>(ss, bx). ss = sessions \<and> same_boxes boxes bx)
    (fst (deliver_loop now deliverOfflineMessage cid msgs (Ok (sessions, boxes))))"
  using assms
proof (induction msgs arbitrary: boxes)
  case (Cons msg msgs)
  have stuck: "fst (deliver_loop now deliverOfflineMessage cid ms Blocked) = Blocked" for ms
    by (induction ms) (auto simp: deliverOfflineMessage_eqs)
  show ?case
  proof (cases "undeliverable now msg")
    case False
    show ?thesis
    proof (cases "Get sessions cid")
      case (Ok mb)
      let ?m = "MPublish ((plain_publish (qm_Topic msg) (qm_Payload msg) (qm_QoS msg))\<lparr>pm_Retain := qm_Retain msg\<rparr>)"
      have s: "safe (same_boxes boxes) (send_to boxes mb ?m :: (string, mailboxes) go)"
        using Cons.prems [OF Ok] by (rule send_to_safe)
      show ?thesis
      proof (cases "send_to boxes mb ?m :: (string, mailboxes) go")
        case ok: (Ok bx)
        then have same: "same_boxes boxes bx" using s by simp
        then have "\<And>mb. Get sessions cid = Ok mb \<Longrightarrow> gm_get bx mb \<noteq> None" using Cons.prems by (auto simp: same_boxes_def)
        from Cons.IH [OF this] same False Ok ok show ?thesis
          by (auto simp: deliverOfflineMessage_eqs same_boxes_def elim!: safe_mono)
      next
        case (Err e)
        then show ?thesis by (simp add: send_to_def split: option.splits go.splits)
      qed (use s False Ok in \<open>auto simp: deliverOfflineMessage_eqs stuck\<close>)
    qed (use False in \<open>simp_all add: deliverOfflineMessage_eqs(3) same_boxes_def\<close>)
  qed (use Cons in simp)
qed (simp add: same_boxes_def)

lemma DeliverOffline_config: "sm_config (snd (fst (DeliverOfflineMessages enc now omm cid st))) = sm_config (snd st)"
  by (auto simp: DeliverOfflineMessages_def Let_def split: option.splits prod.splits)

lemma deliver_offline_safe:
  assumes "json_roundtrip (ev_enc ev) dec" and "sys_ok dec st"
  shows "safe (sys_good dec st) (deliver_offline ev cid st)"
proof -
  obtain b sm where st: "st = (b, sm)" by (cases st)
  have b: "broker_inv b" and sm: "sm_good dec sm" using assms(2) by (simp_all add: st sys_ok_def)
  let ?d = "DeliverOfflineMessages (ev_enc ev) (ev_now ev) (b_offlineMessageMgr b) cid (Ok (b_sessions b, b_mailboxes b), sm)"
  have sm': "sm_good dec (snd (fst ?d))"
    using DeliverOfflineMessages_inv [OF assms(1), of "(Ok (b_sessions b, b_mailboxes b), sm)"] sm
    by (simp add: sm_good_def DeliverOffline_config)
  have loop: "safe (\<lambda>(ss, bx). ss = b_sessions b \<and> same_boxes (b_mailboxes b) bx)
      (fst (deliver_loop now deliverOfflineMessage cid msgs (Ok (b_sessions b, b_mailboxes b))))" for now msgs
    using broker_invD(4) [OF b] by (intro deliver_loop_safe) blast
  have "safe (\<lambda>(ss, bx). same_boxes (b_mailboxes b) bx) (fst (fst ?d))"
  proof (cases "gm_get (om_deliveryCallbacks (b_offlineMessageMgr b)) cid")
    case (Some cb)
    then have "cb = deliverOfflineMessage" using broker_invD(5) [OF b] by blast
    then have cb: "gm_get (om_deliveryCallbacks (b_offlineMessageMgr b)) cid = Some deliverOfflineMessage" using Some by simp
    show ?thesis
    proof (cases "\<exists>s. gm_get (sm_activeSessions sm) cid = Some s \<and> ps_Connected s")
      case True
      then obtain s where s: "gm_get (sm_activeSessions sm) cid = Some s" "ps_Connected s" by blast
      have eq: "fst (fst ?d) = fst (deliver_loop (ev_now ev) deliverOfflineMessage cid (ps_MessageQueue s) (Ok (b_sessions b, b_mailboxes b)))"
        using cb s by (simp add: DeliverOfflineMessages_def Let_def split: prod.split option.split)
      show ?thesis unfolding eq by (rule safe_mono [OF loop]) auto
    next
      case False
      then have "fst (fst ?d) = Ok (b_sessions b, b_mailboxes b)"
        using cb by (cases "gm_get (sm_activeSessions sm) cid") (simp_all add: DeliverOfflineMessages_def)
      then show ?thesis by (simp add: same_boxes_def)
    qed
  qed (simp add: DeliverOfflineMessages_def same_boxes_def)
  then show ?thesis
    unfolding deliver_offline_def st fst_conv snd_conv case_prod_beta
    by (rule safe_bind) (use sm' b in \<open>auto simp: sys_good_def sys_ok_def broker_inv_boxes grows_boxes\<close>)
qed

context broker_hooks
begin

lemma will_safe:
  assumes "json_roundtrip (ev_enc ev) dec" and "sys_ok dec st" and "ev_hooks ev = hk"
  shows "safe (sys_good dec st) (broker_PublishWillMessage ev held wm cid st)"
proof -
  obtain b sm where st: "st = (b, sm)" by (cases st)
  have b: "broker_inv b" and sm: "sm_good dec sm" using assms(2) by (simp_all add: st sys_ok_def)
  let ?first = "if wm_Retain wm then store_retained ev (wm_Topic wm) (wm_Payload wm) (wm_QoS wm) cid b else Ok b"
  have "safe (broker_good b) ?first" by (simp add: store_retained_safe b broker_good_refl)
  then have "safe (broker_good b) (go_bind ?first (\<lambda>b1. routePublish hk (wm_Topic wm) (wm_Payload wm) (wm_QoS wm) b1))"
    unfolding routePublish_def
    by (rule safe_then) (rule safe_then [OF route_qos_safe], assumption, simp add: route_remote_good)
  from safe_publish [OF this queue_offline_safe [OF assms(1) sm], of sm held "wm_Topic wm" "wm_Payload wm" "wm_QoS wm" "wm_Retain wm"]
  show ?thesis unfolding broker_PublishWillMessage_def st fst_conv snd_conv assms(3) by (simp add: go_bind_assoc)
qed

lemma disconnect_will_safe:
  assumes "json_roundtrip (ev_enc ev) dec" and "sys_ok dec st" and "ev_hooks ev = hk"
  shows "safe (sys_good dec st) (disconnect_will (Some (broker_PublishWillMessage ev)) now cid graceful s st)"
proof (cases "\<not> graceful \<and> ps_WillMessage s \<noteq> None")
  case True
  then obtain wm where wm: "ps_WillMessage s = Some wm" by blast
  show ?thesis
  proof (cases "wm_DelayInterval wm > 0")
    case delayed: True
    then show ?thesis using True wm assms(2)
      by (simp add: disconnect_will_def PublishWillMessage_def scheduleDelayedWillMessage_def Let_def sys_good_def sys_ok_def sm_good_def sm_inv_timers)
  next
    case False
    then have "disconnect_will (Some (broker_PublishWillMessage ev)) now cid graceful s st
        = logged (broker_PublishWillMessage ev [cid] wm cid st) st"
      using True wm by (simp add: disconnect_will_def PublishWillMessage_def publishImmediately_def logged_def split: go.split)
    then show ?thesis using safe_logged [OF will_safe [OF assms] sys_good_refl [OF assms(2)]] by simp
  qed
next
  case False
  then show ?thesis using assms(2)
    by (auto simp: disconnect_will_def CancelWillMessage_def sys_good_def sys_ok_def sm_good_def sm_inv_timers)
qed

lemma DisconnectSession_safe:
  assumes "json_roundtrip (ev_enc ev) dec" and "sys_ok dec st" and "ev_hooks ev = hk"
  shows "safe (sys_good dec st) (DisconnectSession (ev_enc ev) (Some (broker_PublishWillMessage ev)) now cid graceful st)"
proof (cases "gm_get (sm_activeSessions (snd st)) cid")
  case None
  then show ?thesis by (simp add: DisconnectSession_def)
next
  case (Some s0)
  define s where "s = s0\<lparr>ps_Connected := False, ps_LastActivity := now\<rparr>"
  define st1 where "st1 = (fst st, put_session (snd st) cid s)"
  have inv: "sm_inv dec (snd st)" using assms(2) by (simp add: sys_ok_def sm_good_def)
  have "session_ok (sm_config (snd st)) cid s" using session_okD [OF inv Some] by (simp add: session_ok_def s_def)
  then have ok1: "sys_ok dec st1"
    using sm_inv_put [OF inv] assms(2) by (simp add: st1_def sys_ok_def sm_good_def)
  have "safe (sys_good dec st1) (disconnect_will (Some (broker_PublishWillMessage ev)) now cid graceful s st1)"
    by (rule disconnect_will_safe [OF assms(1) ok1 assms(3)])
  then have "safe (\<lambda>st'. broker_good (fst st) (fst st'))
      (DisconnectSession (ev_enc ev) (Some (broker_PublishWillMessage ev)) now cid graceful st)"
    unfolding DisconnectSession_def Some Let_def option.case s_def [symmetric] st1_def [symmetric]
    by (rule safe_bind) (auto simp: sys_good_def sys_ok_def broker_good_def st1_def)
  then show ?thesis
    using DisconnectSession_keeps [OF assms(1) will_keeps [OF assms(1)], of st now cid graceful] assms(2)
    by (cases "DisconnectSession (ev_enc ev) (Some (broker_PublishWillMessage ev)) now cid graceful st")
      (auto simp: sys_good_def sys_ok_def broker_good_def)
qed

lemma end_session_safe:
  assumes "json_roundtrip (ev_enc ev) dec" and "sys_ok dec st" and "ev_hooks ev = hk"
  shows "safe (sys_good dec st) (end_session ev cid graceful st)"
  unfolding end_session_def
proof (rule safe_bind [OF safe_logged [OF DisconnectSession_safe [OF assms] sys_good_refl [OF assms(2)]]], clarify)
  fix b1 sm1
  assume g: "sys_good dec st (b1, sm1)"
  let ?b2 = "b1\<lparr>b_offlineMessageMgr := RemoveDeliveryCallback (b_offlineMessageMgr b1) cid, b_topicAliasManagers := gm_del (b_topicAliasManagers b1) cid\<rparr>"
  have "broker_inv ?b2" using g by (simp add: sys_good_def sys_ok_def broker_inv_callbacks(1))
  then have "broker_good ?b2 (unregisterSession cid ?b2)" by (rule unregisterSession_good)
  then show "safe (sys_good dec st) (let b2 = ?b2 in Ok (unregisterSession cid b2, sm1))"
    using g by (auto simp: sys_good_def sys_ok_def broker_good_def grows_def Let_def)
qed

lemma run_task_safe:
  assumes "json_roundtrip (ev_enc ev) dec" and "sys_ok dec st" and "ev_hooks ev = hk" and "task_ok (fst st) t"
  shows "safe (sys_good dec st) (run_task ev t st)"
proof (cases t)
  case (TSendRetained mb fs)
  have "safe (broker_good (fst st)) (sendRetainedMessages (ev_now ev) (Some mb) fs (fst st))"
    using assms(2,4) TSendRetained by (intro retained_safe) (auto simp: sys_ok_def task_ok_def)
  then show ?thesis unfolding run_task_def TSendRetained task.case
    by (rule safe_bind) (use assms(2) in \<open>simp add: sys_good_def sys_ok_def broker_good_def\<close>)
next
  case (TPostAck pa)
  then show ?thesis using publish_safe [OF assms(1-3), of pa] by (simp add: run_task_def)
next
  case (TDeliverOffline cid)
  then show ?thesis using deliver_offline_safe [OF assms(1,2), of cid] by (simp add: run_task_def)
qed (use assms(2) sys_good_refl [OF assms(2)] in \<open>simp_all add: run_task_def sys_good_def sys_ok_def Let_def\<close>)

lemma fire_timer_safe:
  assumes "json_roundtrip (ev_enc ev) dec" and "sys_ok dec st" and "ev_hooks ev = hk"
  shows "safe (sys_good dec st) (fire_timer (Some (broker_PublishWillMessage ev)) tid st)"
proof (cases "gm_get (sm_timers (snd st)) tid")
  case None
  then show ?thesis using sys_good_refl [OF assms(2)] by (simp add: fire_timer_def)
next
  case (Some t)
  let ?st1 = "(fst st, (snd st)\<lparr>sm_timers := gm_del (sm_timers (snd st)) tid\<rparr>)"
  have ok1: "sys_ok dec ?st1" using assms(2) by (simp add: sys_ok_def sm_good_def sm_inv_timers)
  have "safe (sys_good dec ?st1) (broker_PublishWillMessage ev [] (wt_willMsg t) (wt_clientID t) ?st1)"
    by (rule will_safe [OF assms(1) ok1 assms(3)])
  then show ?thesis using ok1
    by (cases "broker_PublishWillMessage ev [] (wt_willMsg t) (wt_clientID t) ?st1")
      (simp_all add: fire_timer_def Some publishImmediately_def Let_def sys_good_def)
qed

end

section \<open>Connecting\<close>

lemma take_over_safe:
  assumes "broker_inv b"
  shows "safe (broker_good b) (take_over cid b)"
proof (cases "Get (b_sessions b) cid")
  case (Ok old)
  note m = broker_invD(2) [OF assms]
  have "box_exists b old" using broker_invD(4) [OF assms Ok] .
  have "broker_good b (b\<lparr>b_mailboxes := boxes, b_topics := fst (RemoveAllSubscriptions (b_topics b) (Some old)),
      b_sessions := Delete (b_sessions b) cid\<rparr>)" if same: "same_boxes (b_mailboxes b) boxes" for boxes
  proof -
    let ?b1 = "b\<lparr>b_mailboxes := boxes\<rparr>"
    have b1: "broker_inv ?b1" by (rule broker_inv_boxes [OF assms same])
    then have "broker_inv (?b1\<lparr>b_topics := fst (RemoveAllSubscriptions (b_topics b) (Some old))\<rparr>)"
      using broker_invD(1,3) [OF b1] by (intro broker_inv_topics) (simp_all add: store_inv_RemoveAll known_RemoveAll)
    then have "broker_inv (?b1\<lparr>b_topics := fst (RemoveAllSubscriptions (b_topics b) (Some old)), b_sessions := Delete (b_sessions b) cid\<rparr>)"
      using broker_invD(4) [OF b1] mem.inv_del [OF m]
      by (intro broker_inv_sessions) (auto simp: mem.get_del [OF m] split: if_splits)
    then show ?thesis using grows_boxes [OF same] by (simp add: broker_good_def)
  qed
  then show ?thesis unfolding take_over_def Ok go.case
    by (intro safe_bind [OF send_to_safe [OF \<open>box_exists b old\<close>]]) simp
qed (use broker_good_refl [OF assms] in \<open>simp_all add: take_over_def\<close>)

lemma fresh_box: "gm_get m (fresh_mailbox m) = None"
  using fresh_mailbox_new [of m "fresh_mailbox m"] by (cases "gm_get m (fresh_mailbox m)") auto

lemma known_exists_mono: "known (box_exists b) s \<Longrightarrow> grows b b' \<Longrightarrow> known (box_exists b') s"
  by (erule known_mono) (simp add: grows_def)

lemma broker_inv_new_box:
  assumes "broker_inv b"
  shows "broker_inv (b\<lparr>b_mailboxes := gm_set (b_mailboxes b) mb box\<rparr>)"
proof -
  let ?b = "b\<lparr>b_mailboxes := gm_set (b_mailboxes b) mb box\<rparr>"
  have "grows b ?b" by (simp add: grows_def)
  then show ?thesis using assms known_exists_mono [OF broker_invD(3) [OF assms], of ?b]
    by (auto simp: broker_inv_def tasks_ok_def)
qed

lemma registerSession_safe:
  assumes "broker_inv b"
  shows "safe (\<lambda>(mb, b'). broker_good b b' \<and> box_exists b' mb) (registerSession cid v b)"
  unfolding registerSession_def
proof (rule safe_bind [OF take_over_safe [OF assms]])
  fix b1
  assume g: "broker_good b b1"
  let ?mb = "fresh_mailbox (b_mailboxes b1)"
  let ?b2 = "b1\<lparr>b_mailboxes := gm_set (b_mailboxes b1) ?mb (NewMailbox 100)\<rparr>"
  have b1: "broker_inv b1" using g by (simp add: broker_good_def)
  then have b2: "broker_inv ?b2" by (rule broker_inv_new_box)
  note m = broker_invD(2) [OF b2, simplified]
  have "broker_inv (?b2\<lparr>b_sessions := Set (b_sessions b1) cid ?mb\<rparr>)"
  proof (rule broker_inv_sessions [OF b2 mem.inv_set [OF m]])
    fix cid' mb
    assume "Get (Set (b_sessions b1) cid ?mb) cid' = Ok mb"
    then show "box_exists ?b2 mb"
      using broker_invD(4) [OF b2, of cid' mb] by (auto simp: mem.get_set [OF m] split: if_splits)
  qed
  moreover have "grows b ?b2" using g by (simp add: broker_good_def grows_def)
  ultimately show "safe (\<lambda>(mb, b'). broker_good b b' \<and> box_exists b' mb)
      (let mb = ?mb in Ok (mb, spawn (TSession mb (SetProtocolVersion (New cid) v))
         (b1\<lparr>b_mailboxes := gm_set (b_mailboxes b1) mb (NewMailbox 100), b_sessions := Set (b_sessions b1) cid mb\<rparr>)))"
    by (simp add: Let_def broker_good_def broker_inv_spawn task_ok_def) (simp add: spawn_def)
qed

text \<open>What \<open>establish\<close> does to the broker once the session is registered.\<close>

lemma install_good:
  assumes "broker_inv b" and "box_exists b mb"
    and "b_mailboxes b' = b_mailboxes b" and "b_sessions b' = b_sessions b"
    and "b_offlineMessageMgr b' = SetDeliveryCallback (b_offlineMessageMgr b) cid deliverOfflineMessage"
    and "b_topics b' = foldl (\<lambda>s p. Subscribe s (fst p) mb (snd p)) (b_topics b) subs"
    and "set (b_tasks b') \<subseteq> insert (TDeliverOffline cid) (set (b_tasks b))"
  shows "broker_good b b'"
proof -
  let ?sub = "\<lambda>s subs. foldl (\<lambda>s p. Subscribe s (fst p) mb (snd p)) s subs"
  have "store_inv s \<Longrightarrow> known (box_exists b) s \<Longrightarrow> store_inv (?sub s subs) \<and> known (box_exists b) (?sub s subs)" for s
    using assms(2) by (induction subs arbitrary: s) (simp_all add: store_inv_Subscribe known_Subscribe)
  then have "store_inv (b_topics b') \<and> known (box_exists b) (b_topics b')"
    using broker_invD(1,3) [OF assms(1)] by (simp add: assms(6))
  moreover have "tasks_ok b'"
    using broker_invD(6) [OF assms(1)] assms(3,7) by (auto simp: tasks_ok_def)
  moreover have "cb = deliverOfflineMessage" if "gm_get (om_deliveryCallbacks (b_offlineMessageMgr b')) cid' = Some cb" for cid' cb
    using that broker_invD(5) [OF assms(1), of cid' cb] by (simp add: assms(5) SetDeliveryCallback_def split: if_splits)
  ultimately show ?thesis
    using assms(1,3,4) by (auto simp: broker_good_def broker_inv_def grows_def)
qed

lemma connect_sm_good:
  assumes "json_roundtrip enc dec" and "sm_good dec sm"
  shows "sm_good dec (connect_will cp cid (snd (CreateOrResumeSession enc dec now sm cid clean expiry)))"
proof -
  let ?sm = "snd (CreateOrResumeSession enc dec now sm cid clean expiry)"
  have "sm_config ?sm = sm_config sm"
    by (auto simp: CreateOrResumeSession_def Let_def split: option.splits go.splits)
  then have "sm_good dec ?sm" using CreateOrResumeSession_inv [OF assms(1)] assms(2) by (simp add: sm_good_def)
  moreover have "sm_config sm' = sm_config s" if "SetWillMessage s c t p q r d = Ok sm'" for s sm' :: "'a SessionManager" and c t p q r d
    using that by (auto simp: SetWillMessage_def split: option.splits)
  ultimately show ?thesis
    using SetWillMessage_inv [of dec ?sm cid] by (auto simp: connect_will_def sm_good_def split: go.splits)
qed

lemma establish_safe:
  assumes "json_roundtrip (ev_enc ev) (ev_dec ev)" and "sys_ok (ev_dec ev) st"
  shows "safe (\<lambda>(mb, st'). sys_good (ev_dec ev) st st' \<and> box_exists (fst st') mb) (establish ev cp cid st)"
proof -
  obtain b sm where st: "st = (b, sm)" by (cases st)
  have b: "broker_inv b" and sm: "sm_good (ev_dec ev) sm" using assms(2) by (simp_all add: st sys_ok_def)
  let ?cr = "CreateOrResumeSession (ev_enc ev) (ev_dec ev) (ev_now ev) sm cid (cp_Clean cp) (session_expiry (cp_Keepalive cp))"
  note sm2 = connect_sm_good [OF assms(1) sm, of cp cid "ev_now ev" "cp_Clean cp" "session_expiry (cp_Keepalive cp)"]
  show ?thesis
    unfolding establish_def st fst_conv snd_conv Let_def case_prod_beta
  proof (rule safe_bind [OF registerSession_safe [OF b]], goal_cases)
    case (1 r)
    let ?subs = "if cp_Clean cp then [] else ps_Subscriptions (fst ?cr)"
    have r: "broker_good b (snd r)" "box_exists (snd r) (fst r)" using 1 by (auto simp: case_prod_beta)
    then have "broker_inv (snd r)" by (simp add: broker_good_def)
    note good = install_good [OF this r(2), where cid = cid and subs = ?subs]
    show ?case
      using r(2) sm2 by (auto simp: spawn_def intro!: sys_goodI broker_good_trans [OF r(1)] good)
  qed
qed

section \<open>The handlers\<close>

text \<open>What a handler guarantees: the invariants, and that its connection's mailbox exists.\<close>

definition conn_ok :: "Broker \<Rightarrow> Conn \<Rightarrow> bool" where
  "conn_ok b c \<longleftrightarrow> (\<forall>mb. cn_mailbox c = Some mb \<longrightarrow> box_exists b mb)"

definition handled_good :: "'d json_dec \<Rightarrow> 'd broker \<Rightarrow> verdict \<times> Conn \<times> 'd broker \<Rightarrow> bool" where
  "handled_good dec st = (\<lambda>(v, c', st'). sys_good dec st st' \<and> conn_ok (fst st') c')"

lemma handled_goodI:
  "sys_good dec st st' \<Longrightarrow> conn_ok (fst st) c \<Longrightarrow> cn_mailbox c' = cn_mailbox c \<Longrightarrow> handled_good dec st (v, c', st')"
  by (auto simp: handled_good_def conn_ok_def sys_good_def grows_def)

lemma handled_good_same:
  "sys_ok dec st \<Longrightarrow> conn_ok (fst st) c \<Longrightarrow> cn_mailbox c' = cn_mailbox c \<Longrightarrow> handled_good dec st (v, c', st)"
  by (rule handled_goodI [OF sys_good_refl])

lemma sys_good_box: "sys_good dec st st' \<Longrightarrow> box_exists (fst st) mb \<Longrightarrow> box_exists (fst st') mb"
  by (simp add: sys_good_def grows_def)

lemma reply_or_return_safe:
  assumes "sys_good dec st st'" and "conn_ok (fst st) c"
  shows "safe (handled_good dec st) (reply_or_return c pk st')"
  using handled_goodI [OF assms]
  by (auto simp: reply_or_return_def dest: writePacket_frame split: go.split)

lemma writePacket_mailbox: "writePacket c pk = Ok c' \<Longrightarrow> cn_mailbox c' = cn_mailbox c"
  by (simp add: writePacket_frame)

lemma note_block_good: "broker_inv b \<Longrightarrow> broker_good b (note_block blk b)"
  by (auto simp: note_block_def broker_good_def broker_inv_spawn task_ok_def split: option.split)

lemma note_block_sys: "sys_ok dec st \<Longrightarrow> sys_good dec st (note_block blk (fst st), snd st)"
  using note_block_good [of "fst st" blk] by (simp add: sys_good_def sys_ok_def broker_good_def)

text \<open>The clock reading that a generated client identifier is cut from has at least eight digits.\<close>

definition clock_ok :: "'d env \<Rightarrow> bool" where
  "clock_ok ev \<longleftrightarrow> 8 \<le> length (show_int (ev_unixNano ev))"

lemma connect_checks_safe: "clock_ok ev \<Longrightarrow> safe (\<lambda>_. True) (connect_checks (ev_unixNano ev) cp)"
  by (auto simp: connect_checks_def generateClientID_def clock_ok_def Let_def)

lemma handle_connect_safe:
  assumes "json_roundtrip (ev_enc ev) (ev_dec ev)" and "clock_ok ev" and "sys_ok (ev_dec ev) st" and "conn_ok (fst st) c"
  shows "safe (handled_good (ev_dec ev) st) (handle_connect ev cp c st)"
  unfolding handle_connect_def
proof (rule safe_bind [OF connect_checks_safe [OF assms(2)]], goal_cases)
  case (1 r)
  note same = handled_good_same [OF assms(3,4)]
  show ?case
  proof (cases r)
    case (Refuse code)
    then show ?thesis by (auto simp: same split: option.split)
  next
    case (Accept t)
    obtain cid u p where t: "t = (cid, u, p)" by (cases t) auto
    obtain allowed reason blk where mw: "mw_CheckClientConnection (ev_lib ev) (ev_now ev) (b_blacklistMiddleware (fst st)) cid u (client_ip c) ''mqtt''
        = (allowed, reason, blk)" by (metis prod_cases3)
    let ?st1 = "(note_block blk (fst st), snd st)"
    have g1: "sys_good (ev_dec ev) st ?st1" by (rule note_block_sys [OF assms(3)])
    then have "sys_ok (ev_dec ev) ?st1" by (simp add: sys_good_def)
    note est = establish_safe [OF assms(1) this, of cp cid]
    have "safe (handled_good (ev_dec ev) st) (go_bind (establish ev cp cid ?st1) (\<lambda>(mb, st').
        Ok (Continue, c1\<lparr>cn_clientID := cid, cn_mailbox := Some mb, cn_keepAlive := k\<rparr>, st')))" for c1 k
      by (rule safe_bind [OF est]) (auto simp: handled_good_def conn_ok_def intro: sys_good_trans [OF g1])
    then show ?thesis using handled_goodI [OF g1 assms(4)]
      by (auto simp: Accept t mw Let_def dest: writePacket_frame split: go.split)
  qed
qed

lemma update_config:
  "AddSubscription enc now sm cid f q = Ok sm' \<Longrightarrow> sm_config sm' = sm_config sm"
  "RemoveSubscription enc now sm cid f = Ok sm' \<Longrightarrow> sm_config sm' = sm_config sm"
  by (auto simp: AddSubscription_def RemoveSubscription_def Let_def split: option.splits)

lemma topics_sys:
  assumes "sys_ok dec (b, sm)" and "store_inv s" and "known (box_exists b) s" and "sm_good dec sm'"
  shows "sys_good dec (b, sm) (b\<lparr>b_topics := s\<rparr>, sm')"
  using assms by (simp add: sys_good_def sys_ok_def broker_inv_topics)

lemma subscribe_one_good:
  assumes "json_roundtrip (ev_enc ev) dec" and "sys_ok dec (b, sm)" and "box_exists b mb"
  shows "sys_good dec (b, sm) (b\<lparr>b_topics := Subscribe (b_topics b) f mb q\<rparr>,
      case AddSubscription (ev_enc ev) now sm cid f q of Ok sm' \<Rightarrow> sm' | _ \<Rightarrow> sm)"
proof (rule topics_sys [OF assms(2)])
  have b: "broker_inv b" and sm: "sm_inv dec sm" "0 < pc_MaxOfflineMessages (sm_config sm)"
    using assms(2) by (simp_all add: sys_ok_def sm_good_def)
  show "store_inv (Subscribe (b_topics b) f mb q)" by (rule store_inv_Subscribe [OF broker_invD(1) [OF b]])
  show "known (box_exists b) (Subscribe (b_topics b) f mb q)" using broker_invD(3) [OF b] assms(3) by (simp add: known_Subscribe)
  show "sm_good dec (case AddSubscription (ev_enc ev) now sm cid f q of Ok sm' \<Rightarrow> sm' | _ \<Rightarrow> sm)"
    using sm AddSubscription_inv [OF assms(1) sm(1)] by (auto simp: sm_good_def update_config split: go.split)
qed

lemma subscribe_filters_good:
  assumes "json_roundtrip (ev_enc ev) dec" and "sys_ok dec st" and "box_exists (fst st) mb"
  shows "sys_good dec st (fst (subscribe_filters ev c mb fs st))"
  using assms(2,3)
proof (induction fs arbitrary: st)
  case (Cons sub fs)
  obtain r blk where chk: "check_filter ev c (fst st) sub = (r, blk)" by (cases "check_filter ev c (fst st) sub")
  let ?b = "note_block blk (fst st)"
  have g1: "sys_good dec st (?b, snd st)" by (rule note_block_sys [OF Cons.prems(1)])
  then have ok1: "sys_ok dec (?b, snd st)" by (simp add: sys_good_def)
  have mb1: "box_exists ?b mb" using Cons.prems(2) by simp
  show ?case
  proof (cases r)
    case (Some code)
    have "sys_good dec (?b, snd st) (fst (subscribe_filters ev c mb fs (?b, snd st)))" using Cons.IH [OF ok1] mb1 by simp
    then show ?thesis using sys_good_trans [OF g1] by (simp add: chk Some case_prod_beta)
  next
    case None
    let ?st2 = "(?b\<lparr>b_topics := Subscribe (b_topics ?b) (fst sub) mb (snd sub)\<rparr>,
      case AddSubscription (ev_enc ev) (ev_now ev) (snd st) (cn_clientID c) (fst sub) (snd sub) of Ok sm' \<Rightarrow> sm' | _ \<Rightarrow> snd st)"
    have g2: "sys_good dec (?b, snd st) ?st2" by (rule subscribe_one_good [OF assms(1) ok1 mb1])
    then have "sys_good dec ?st2 (fst (subscribe_filters ev c mb fs ?st2))"
      using mb1 by (intro Cons.IH) (simp_all add: sys_good_def)
    then show ?thesis using sys_good_trans [OF sys_good_trans [OF g1 g2]] by (simp add: chk None case_prod_beta Let_def)
  qed
qed (simp add: sys_good_refl)

lemma broadcast_routes_good: "broker_inv b \<Longrightarrow> broker_good b (broadcast_routes routes b)"
  by (auto simp: broadcast_routes_def broker_good_def task_ok_def intro!: broker_inv_tasks split: option.split)

lemma handle_subscribe_safe:
  assumes "json_roundtrip (ev_enc ev) dec" and "sys_ok dec st" and "conn_ok (fst st) c"
  shows "safe (handled_good dec st) (handle_subscribe ev pid fs rs c st)"
proof (cases "cn_mailbox c")
  case None
  then show ?thesis using handled_good_same [OF assms(2,3)] by (simp add: handle_subscribe_def)
next
  case (Some mb)
  have box: "box_exists (fst st) mb" using assms(3) Some by (simp add: conn_ok_def)
  obtain b1 sm1 codes routes where loop: "subscribe_filters ev c mb fs st = ((b1, sm1), codes, routes)" by (metis prod.exhaust)
  let ?b2 = "broadcast_routes routes b1"
  have g1: "sys_good dec st (b1, sm1)" using subscribe_filters_good [OF assms(1,2) box, of c fs] by (simp add: loop)
  then have "broker_good b1 ?b2" by (intro broadcast_routes_good) (simp add: sys_good_def sys_ok_def)
  then have g2: "sys_good dec st (?b2, sm1)"
    using g1 by (intro sys_good_trans [OF g1]) (simp add: sys_goodI sys_good_def sys_ok_def broker_good_def)
  have "box_exists ?b2 mb" using g2 box by (simp add: sys_good_def grows_def)
  then have g3: "sys_good dec st (spawn (TSendRetained mb fs) ?b2, sm1)"
    using g2 by (simp add: sys_good_def sys_ok_def broker_inv_spawn task_ok_def)
  show ?thesis using Some handled_good_same [OF assms(2,3)] handled_goodI [OF g2 assms(3)] handled_goodI [OF g3 assms(3)]
    by (auto simp: handle_subscribe_def loop Let_def dest: writePacket_frame split: go.split)
qed

lemma unsubscribe_filters_good:
  assumes "json_roundtrip (ev_enc ev) dec" and "sys_ok dec st"
  shows "sys_good dec st (fst (unsubscribe_filters ev c mb fs st))"
  using assms(2)
proof (induction fs arbitrary: st)
  case (Cons f fs)
  obtain b sm where st: "st = (b, sm)" by (cases st)
  have b: "broker_inv b" and sm: "sm_inv dec sm" "0 < pc_MaxOfflineMessages (sm_config sm)"
    using Cons.prems by (simp_all add: st sys_ok_def sm_good_def)
  let ?b1 = "b\<lparr>b_topics := Unsubscribe (b_topics b) f mb\<rparr>"
  have one: "sm_good dec sm' \<Longrightarrow> sys_good dec st (?b1, sm')" for sm'
    using Cons.prems store_inv_Unsubscribe [OF broker_invD(1) [OF b]] known_Unsubscribe [OF broker_invD(3) [OF b]]
    unfolding st by (rule topics_sys)
  have rest: "sm_good dec sm' \<Longrightarrow> sys_good dec st (fst (unsubscribe_filters ev c mb fs (?b1, sm')))" for sm'
    by (rule sys_good_trans [OF one Cons.IH]) (use one [of sm'] in \<open>simp_all add: sys_good_def\<close>)
  have "sm_good dec sm" using sm by (simp add: sm_good_def)
  moreover have "sm_good dec sm'" if "RemoveSubscription (ev_enc ev) (ev_now ev) sm (cn_clientID c) f = Ok sm'" for sm'
    using that sm RemoveSubscription_inv [OF assms(1) sm(1)] by (auto simp: sm_good_def update_config)
  ultimately show ?case using rest Cons
    by (auto simp: st Let_def case_prod_beta split: go.split)
qed (simp add: sys_good_refl)

lemma handle_unsubscribe_safe:
  assumes "json_roundtrip (ev_enc ev) dec" and "sys_ok dec st" and "conn_ok (fst st) c"
  shows "safe (handled_good dec st) (handle_unsubscribe ev pid fs c st)"
  using handled_good_same [OF assms(2,3)] reply_or_return_safe [OF unsubscribe_filters_good [OF assms(1,2)] assms(3)]
  by (auto simp: handle_unsubscribe_def case_prod_beta split: option.split)

lemma markAndCheckDuplicate_good: "broker_inv b \<Longrightarrow> broker_good b (snd (markAndCheckDuplicate now cid pid b))"
  by (auto simp: markAndCheckDuplicate_def Let_def broker_good_def split: option.split)

lemma resolve_publish_safe: "broker_inv b \<Longrightarrow> safe (\<lambda>(t, b'). broker_good b b') (resolve_publish cid pk b)"
  by (auto simp: resolve_publish_def resolveTopicAlias_def Let_def broker_good_def split: option.split)

lemma accept_publish_safe:
  assumes "sys_ok dec st" and "conn_ok (fst st) c"
  shows "safe (handled_good dec st) (accept_publish ev pk c st)"
proof -
  obtain b sm where st: "st = (b, sm)" by (cases st)
  have b: "broker_inv b" and sm: "sm_good dec sm" using assms(1) by (simp_all add: st sys_ok_def)
  let ?m = "if pk_Qos pk = 1 then markAndCheckDuplicate (ev_now ev) (cn_clientID c) (pk_PacketID pk) b else (False, b)"
  obtain skip b1 where m: "?m = (skip, b1)" by fastforce
  have g1: "broker_good b b1"
    using m markAndCheckDuplicate_good [OF b, of "ev_now ev" "cn_clientID c" "pk_PacketID pk"] broker_good_refl [OF b]
    by (auto split: if_splits)
  have hg: "broker_good b b' \<Longrightarrow> cn_mailbox c' = cn_mailbox c \<Longrightarrow> handled_good dec st (v, c', b', sm)" for b' c' v
    using assms(2) sm by (intro handled_goodI) (simp_all add: st sys_goodI)
  have r: "safe (\<lambda>(t, b'). broker_good b1 b') (resolve_publish (cn_clientID c) pk b1)"
    using g1 by (intro resolve_publish_safe) (simp add: broker_good_def)
  note eq = accept_publish_def [of ev pk c st, unfolded st fst_conv snd_conv m Let_def prod.case]
  show ?thesis
  proof (cases "resolve_publish (cn_clientID c) pk b1")
    case (Ok p)
    obtain topic b2 where p: "p = (topic, b2)" by (cases p)
    have g2: "broker_good b b2" using r Ok p broker_good_trans [OF g1] by simp
    obtain allowed reason blk where acc: "CheckPublishAccess (ev_now ev) (b_blacklistMiddleware b2) (cn_clientID c) [] (client_ip c) topic
        = (allowed, reason, blk)" by (metis prod_cases3)
    have "broker_good b2 (note_block blk b2)" using g2 by (intro note_block_good) (simp add: broker_good_def)
    then have g3: "broker_good b (note_block blk b2)" using broker_good_trans [OF g2] by blast
    then have g4: "broker_good b (spawn (TPostAck (post_ack (cn_clientID c) topic pk)) (note_block blk b2))"
      by (simp add: broker_good_def broker_inv_spawn task_ok_def)
    show ?thesis using hg [OF g3] hg [OF g4] unfolding st eq Ok p go.case prod.case acc
      by (auto simp: writePacket_mailbox split: go.split option.split)
  qed (use r hg [OF g1] in \<open>auto simp: st eq\<close>)
qed

lemma handle_publish_safe:
  assumes "sys_ok dec st" and "conn_ok (fst st) c"
  shows "safe (handled_good dec st) (handle_publish ev dup pk c st)"
  using handled_good_same [OF assms] accept_publish_safe [OF assms, of ev pk]
  by (auto simp: handle_publish_def identity_def dest!: identity_publish_checks split: option.split)

context broker_hooks
begin

lemma handle_packet_safe:
  assumes "json_roundtrip (ev_enc ev) (ev_dec ev)" and "clock_ok ev" and "ev_hooks ev = hk"
    and "sys_ok (ev_dec ev) st" and "conn_ok (fst st) c"
  shows "safe (handled_good (ev_dec ev) st) (handle_packet ev pk c st)"
proof -
  note same = handled_good_same [OF assms(4,5)]
  note answer = reply_or_return_safe [OF sys_good_refl [OF assms(4)] assms(5)]
  have "safe (handled_good (ev_dec ev) st) (handle_disconnect ev c st)"
    unfolding handle_disconnect_def
    by (rule safe_bind [OF end_session_safe [OF assms(1,4,3)]]) (simp add: handled_goodI [OF _ assms(5)])
  then show ?thesis
    using same answer handle_connect_safe [OF assms(1,2,4,5)] handle_subscribe_safe [OF assms(1,4,5)]
      handle_unsubscribe_safe [OF assms(1,4,5)] handle_publish_safe [OF assms(4,5)]
    by (cases pk) (simp_all add: handle_packet_def handle_puback_def handle_pubrec_def handle_pubrel_def handle_pingreq_def)
qed

lemma connection_step_safe:
  assumes "json_roundtrip (ev_enc ev) (ev_dec ev)" and "clock_ok ev" and "ev_hooks ev = hk"
    and "sys_ok (ev_dec ev) st" and "conn_ok (fst st) c"
  shows "safe (\<lambda>(go_on, c', st'). sys_good (ev_dec ev) st st' \<and> conn_ok (fst st') c') (connection_step ev r c st)"
  unfolding connection_step_def
proof (rule safe_bind)
  show "safe (handled_good (ev_dec ev) st) (handle_read ev r c st)"
    using handle_packet_safe [OF assms] handled_good_same [OF assms(4,5)]
    by (simp add: handle_read_def split: read_result.split)
  fix x
  assume good: "handled_good (ev_dec ev) st x"
  obtain v c' st' where x: "x = (v, c', st')" by (cases x)
  have g: "sys_good (ev_dec ev) st st'" and c': "conn_ok (fst st') c'" using good by (simp_all add: x handled_good_def)
  then have "sys_ok (ev_dec ev) st'" by (simp add: sys_good_def)
  then have "safe (\<lambda>(go_on, c', st'). sys_good (ev_dec ev) st st' \<and> conn_ok (fst st') c')
      (go_bind (end_session ev (cn_clientID c') False st') (\<lambda>st''. Ok (False, c', st'')))"
    by (rule safe_bind [OF end_session_safe [OF assms(1) _ assms(3)]])
      (use c' in \<open>auto simp: conn_ok_def dest: sys_good_box intro: sys_good_trans [OF g]\<close>)
  then show "safe (\<lambda>(go_on, c', st'). sys_good (ev_dec ev) st st' \<and> conn_ok (fst st') c')
      (case x of (v, c', st') \<Rightarrow> case v of Continue \<Rightarrow> Ok (True, c', st') | Return \<Rightarrow> Ok (False, c', st')
         | Break \<Rightarrow> if cn_clientID c' \<noteq> []
             then go_bind (end_session ev (cn_clientID c') False st') (\<lambda>st''. Ok (False, c', st'')) else Ok (False, c', st'))"
    using g c' by (cases v) (simp_all add: x)
qed

end

end
