(* ===== verification/System_Run.thy ===== *)
theory System_Run
  imports System
begin

text \<open>
  The broker with its connections as a transition system. A step is one event: a connection is
  accepted, a connection reads, a goroutine that was started runs, a session actor takes a message from
  its mailbox, the timer of a delayed will fires, the cleanup of the session manager runs, another node
  forwards a message, announces routes or joins, the broker closes. A handler is one step; one that
  waits (for a full mailbox, or for ever) is a step once it returns. The environment (clock, rules,
  library functions) may be another one at each step.
\<close>

section \<open>Rules that do not publish\<close>

text \<open>
  What the actions reach outside the broker does not change the broker: the console, the HTTP client,
  the connectors.
\<close>

definition outside_quiet :: "('f, Broker) outside \<Rightarrow> bool" where
  "outside_quiet ow \<longleftrightarrow> (\<forall>s b. ow_Println ow s b = b) \<and> (\<forall>r b. snd (ow_Do ow r b) = b)
     \<and> (\<forall>i b. safe (\<lambda>send. \<forall>m b. snd (send m b) = b) (ow_GetConnector ow i b))"

definition rules_quiet :: "'f sqllib \<Rightarrow> 'f rules \<Rightarrow> bool" where
  "rules_quiet lib rs \<longleftrightarrow>
     list_all (\<lambda>(rid, rule). ru_Status rule = RuleStatusEnabled \<longrightarrow> (\<exists>c. Parse lib (ru_SQL rule) = Ok c) \<and> \<not> republishes rule) rs"

lemma action_safe:
  assumes "outside_quiet ow" and "ac_Type a \<noteq> ''republish''" and "gm_get (default_registry lib ow) (ac_Type a) = Some ex"
  shows "safe (\<lambda>(r, st'). snd st' = snd st) (ex_Execute ex ctx a st)"
proof -
  have do: "ow_Do ow r b = (x, b') \<Longrightarrow> b' = b" for r b x b' using assms(1) unfolding outside_quiet_def by (metis snd_conv)
  have http: "safe (\<lambda>(r, st'). snd st' = snd st) (HTTP_Execute lib ow ctx a st)"
    by (auto simp: HTTP_Execute_def Let_def dest: do split: option.split prod.split sum.split)
  have send: "safe (\<lambda>send. \<forall>m b. snd (send m b) = b) (ow_GetConnector ow i b)" for i b
    using assms(1) by (simp add: outside_quiet_def)
  have conn: "safe (\<lambda>(r, st'). snd st' = snd st) (Connector_Execute ow ctx a st)"
  proof (cases "string_param (ac_Parameters a) ''connector_id''")
    case (Some i)
    have sk: "f m b = (x, b') \<Longrightarrow> \<forall>m b. snd (f m b) = b \<Longrightarrow> b' = b" for f :: "connector_message \<Rightarrow> Broker \<Rightarrow> (string + bool \<times> string) \<times> Broker" and m b x b'
      by (metis snd_conv)
    show ?thesis using send [of i "snd st"]
      by (cases "ow_GetConnector ow i (snd st)")
        (auto simp: Connector_Execute_def Some Let_def dest: sk split: prod.split sum.split)
  qed (simp add: Connector_Execute_def)
  show ?thesis using assms http conn
    by (auto simp: default_registry_def RegisterAction_def Console_Execute_def Discard_Execute_def outside_quiet_def
        split: if_splits)
qed

lemma run_actions_safe:
  assumes "outside_quiet ow" and "\<forall>a \<in> set as. ac_Type a \<noteq> ''republish''" and "snd st = b"
  shows "safe (\<lambda>st'. snd st' = b) (run_actions (default_registry lib ow) ck rid ctx as st)"
  using assms(2,3)
proof (induction as arbitrary: st)
  case (Cons a as)
  show ?case
  proof (cases "gm_get (default_registry lib ow) (ac_Type a)")
    case None
    then show ?thesis using Cons by simp
  next
    case (Some ex)
    have "safe (\<lambda>(r, st'). snd st' = snd st) (ex_Execute ex ctx a st)"
      using action_safe [OF assms(1) _ Some] Cons.prems(1) by simp
    then show ?thesis unfolding run_actions.simps Some option.case
      by (rule safe_bind) (use Cons in \<open>auto split: sum.split\<close>)
  qed
qed simp

lemma processRule_safe:
  assumes "outside_quiet ow" and "lib_total lib" and "Parse lib (ru_SQL rule) = Ok c" and "\<not> republishes rule" and "snd st = b"
  shows "safe (\<lambda>st'. snd st' = b) (processRule lib (default_registry lib ow) ck ctx (rid, rule) st)"
proof -
  have "\<forall>a \<in> set (ru_Actions rule). ac_Type a \<noteq> ''republish''" using assms(4) by (auto simp: republishes_def list_ex_iff)
  then have run: "safe (\<lambda>st'. snd st' = b) (run_actions (default_registry lib ow) ck rid ctx (ru_Actions rule) s)"
    if "snd s = b" for s using assms(1) that by (intro run_actions_safe) auto
  have "safe (\<lambda>st'. snd st' = b) (go_bind (run_actions (default_registry lib ow) ck rid ctx (ru_Actions rule) (apfst f st)) (\<lambda>st'. Ok (apfst g st')))"
    for f g by (rule safe_bind [OF run]) (simp_all add: assms(5))
  then show ?thesis using Evaluate_returns [OF assms(2), of ctx c] assms(3,5)
    by (auto simp: processRule_def returns_def split: go.splits)
qed

lemma process_all_safe:
  "(\<And>x st. x \<in> set xs \<Longrightarrow> snd st = b \<Longrightarrow> safe (\<lambda>st'. snd st' = b) (f x st)) \<Longrightarrow> snd st = b \<Longrightarrow>
    safe (\<lambda>st'. snd st' = b) (process_all f xs st)"
proof (induction xs arbitrary: st)
  case (Cons x xs)
  show ?case unfolding process_all.simps
    by (rule safe_bind [OF Cons.prems(1)]) (use Cons in auto)
qed simp

lemma rule_hook_safe:
  assumes "outside_quiet (rv_outside en)" and "lib_total (rv_lib en)" and "rules_quiet (rv_lib en) rs"
  shows "safe (\<lambda>b'. b' = b) (rule_hook en (Suc depth) rs t p q h b)"
proof -
  have eq: "processMessageThroughRuleEngine en (Suc depth) t p q h (rs, b)
      = ProcessMessage (rv_lib en) (default_registry (rv_lib en) ((rv_outside en)\<lparr>ow_Republish := None\<rparr>)) (rv_clock en)
          (rule_context (ck_now (rv_clock en)) t p q h) (rs, b)"
    using assms(3) by (intro processing_without_republish) (auto simp: rules_quiet_def list_all_iff)
  have quiet: "outside_quiet ((rv_outside en)\<lparr>ow_Republish := None\<rparr>)" using assms(1) by (simp add: outside_quiet_def)
  let ?en = "filter (\<lambda>(rid, rule). ru_Status rule = RuleStatusEnabled) rs"
  have "safe (\<lambda>st'. snd st' = b) (processMessageThroughRuleEngine en (Suc depth) t p q h (rs, b))"
    unfolding eq ProcessMessage_def Let_def
  proof (rule process_all_safe)
    fix entry and st :: "'a rules \<times> Broker"
    assume "entry \<in> set (exchange_sort (\<lambda>(rid, rule). ru_Priority rule) (filter (\<lambda>(rid, rule). ru_Status rule = RuleStatusEnabled) (fst (rs, b))))"
      and st: "snd st = b"
    then have "entry \<in> set ?en" by (metis mset_exchange_sort set_mset_mset fst_conv)
    then obtain rid rule c where "entry = (rid, rule)" and "Parse (rv_lib en) (ru_SQL rule) = Ok c" and "\<not> republishes rule"
      using assms(3) by (auto simp: rules_quiet_def list_all_iff)
    then show "safe (\<lambda>st'. snd st' = b) (processRule (rv_lib en) (default_registry (rv_lib en) ((rv_outside en)\<lparr>ow_Republish := None\<rparr>))
        (rv_clock en) (rule_context (ck_now (rv_clock en)) t p q h) entry st)"
      using processRule_safe [OF quiet assms(2)] st by blast
  qed simp
  then show ?thesis unfolding rule_hook_def by (rule safe_bind) (simp add: case_prod_beta)
qed

definition engine_quiet :: "engine \<Rightarrow> bool" where
  "engine_quiet e \<longleftrightarrow> (\<forall>t p q h b. safe (\<lambda>b'. b' = b) (e t p q h b))"

lemma quiet_hooks: "engine_quiet (hk_rules hk) \<Longrightarrow> engine_quiet (hk_integration hk) \<Longrightarrow> broker_hooks hk"
  by unfold_locales (simp_all add: engine_quiet_def, (rule safe_mono, blast, simp add: broker_good_refl)+)

interpretation idle: broker_hooks idle_hooks
  by (rule quiet_hooks) (simp_all add: idle_hooks_def engine_quiet_def)

text \<open>A broker whose table of rules is empty, at any depth of the stack.\<close>

interpretation without_rules: broker_hooks "\<lparr>hk_rules = rule_hook en (Suc depth) [], hk_integration = (\<lambda>_ _ _ _. Ok)\<rparr>" for en depth
  by (rule quiet_hooks) (simp_all add: engine_quiet_def rule_hook_def ProcessMessage_def)

section \<open>Steps\<close>

record 'd system =
  sy_broker :: "'d broker"
  sy_conns :: "(nat, Conn) gomap"

definition with_broker :: "Broker \<Rightarrow> 'd system \<Rightarrow> 'd system" where
  "with_broker b sy = sy\<lparr>sy_broker := (b, snd (sy_broker sy))\<rparr>"

abbreviation the_broker :: "'d system \<Rightarrow> Broker" where
  "the_broker sy \<equiv> fst (sy_broker sy)"

text \<open>A goroutine that is started is in \<open>b_tasks\<close>; it leaves the list when it runs.\<close>

definition without_task :: "task \<Rightarrow> 'd broker \<Rightarrow> 'd broker" where
  "without_task t st = ((fst st)\<lparr>b_tasks := remove1 t (b_tasks (fst st))\<rparr>, snd st)"

inductive sys_step :: "('d env \<Rightarrow> bool) \<Rightarrow> 'd system \<Rightarrow> 'd system \<Rightarrow> bool" for E where
  accept: "gm_get (sy_conns sy) i = None \<Longrightarrow>
    sys_step E sy (sy\<lparr>sy_conns := gm_set (sy_conns sy) i (new_conn remote)\<rparr>)"
| read: "E ev \<Longrightarrow> gm_get (sy_conns sy) i = Some c \<Longrightarrow> connection_step ev r c (sy_broker sy) = Ok (go_on, c', st') \<Longrightarrow>
    sys_step E sy \<lparr>sy_broker = st', sy_conns = (if go_on then gm_set (sy_conns sy) i c' else gm_del (sy_conns sy) i)\<rparr>"
| run: "E ev \<Longrightarrow> t \<in> set (b_tasks (the_broker sy)) \<Longrightarrow> run_task ev t (without_task t (sy_broker sy)) = Ok st' \<Longrightarrow>
    sys_step E sy (sy\<lparr>sy_broker := st'\<rparr>)"
| receive: "gm_get (b_mailboxes (the_broker sy)) mb = Some box \<Longrightarrow> Receive pick ctx box = Ok (msg, box') \<Longrightarrow>
    sys_step E sy (with_broker ((the_broker sy)\<lparr>b_mailboxes := gm_set (b_mailboxes (the_broker sy)) mb box'\<rparr>) sy)"
| timer: "E ev \<Longrightarrow> fire_timer (Some (broker_PublishWillMessage ev)) tid (sy_broker sy) = Ok st' \<Longrightarrow>
    sys_step E sy (sy\<lparr>sy_broker := st'\<rparr>)"
| cleanup: "E ev \<Longrightarrow>
    sys_step E sy (sy\<lparr>sy_broker := (the_broker sy, cleanupExpiredSessions (ev_enc ev) (ev_now ev) (snd (sy_broker sy)))\<rparr>)"
| forwarded: "E ev \<Longrightarrow> RouteToLocalSubscribers (ev_hooks ev) (pf_Topic (req :: PublishForward)) (pf_Payload req) (the_broker sy) = Ok b' \<Longrightarrow>
    sys_step E sy (with_broker b' sy)"
| announced: "b_cluster (the_broker sy) = Some m \<Longrightarrow>
    sys_step E sy (with_broker ((the_broker sy)\<lparr>b_cluster := Some (fst (BatchUpdateRoutes m (reqs :: BatchUpdateRoutesRequest)))\<rparr>) sy)"
| joined: "b_cluster (the_broker sy) = Some m \<Longrightarrow>
    sys_step E sy (with_broker ((the_broker sy)\<lparr>b_cluster := Some (AddPeer connect join now m peerID address)\<rparr>) sy)"
| close: "E ev \<Longrightarrow> sys_step E sy (sy\<lparr>sy_broker := broker_Close ev (sy_broker sy)\<rparr>)"

inductive sys_reach :: "('d env \<Rightarrow> bool) \<Rightarrow> 'd system \<Rightarrow> 'd system \<Rightarrow> bool" for E start where
  start: "sys_reach E start start"
| step: "sys_reach E start sy \<Longrightarrow> sys_step E sy sy' \<Longrightarrow> sys_reach E start sy'"

definition started :: "time \<Rightarrow> string \<Rightarrow> Manager option \<Rightarrow> 'd system" where
  "started now nodeID clusterMgr = \<lparr>sy_broker = New_broker now nodeID clusterMgr, sy_conns = []\<rparr>"

section \<open>The invariant of the system\<close>

definition sys_inv :: "'d json_dec \<Rightarrow> 'd system \<Rightarrow> bool" where
  "sys_inv dec sy \<longleftrightarrow> sys_ok dec (sy_broker sy) \<and> gm_wf (sy_conns sy)
     \<and> (\<forall>i c. gm_get (sy_conns sy) i = Some c \<longrightarrow> conn_ok (the_broker sy) c)"

lemma conn_ok_mono: "conn_ok b c \<Longrightarrow> grows b b' \<Longrightarrow> conn_ok b' c"
  by (simp add: conn_ok_def grows_def)

lemma sys_inv_change:
  assumes "sys_inv dec sy" and "sys_good dec (sy_broker sy) st'"
  shows "sys_inv dec (sy\<lparr>sy_broker := st'\<rparr>)"
  using assms conn_ok_mono by (fastforce simp: sys_inv_def sys_good_def)

lemma sys_inv_broker: "sys_inv dec sy \<Longrightarrow> broker_good (the_broker sy) b' \<Longrightarrow> sys_inv dec (with_broker b' sy)"
  unfolding with_broker_def by (rule sys_inv_change) (simp_all add: sys_inv_def sys_good_def sys_ok_def broker_good_def)

lemma broker_inv_cluster: "broker_inv (b\<lparr>b_cluster := m\<rparr>) = broker_inv b" "grows b (b\<lparr>b_cluster := m\<rparr>)"
  by (simp_all add: broker_inv_def tasks_ok_def grows_def)

lemma without_task_good: "sys_ok dec st \<Longrightarrow> sys_good dec st (without_task t st)"
  using set_remove1_subset [of t "b_tasks (fst st)"]
  by (fastforce simp: without_task_def sys_good_def sys_ok_def broker_inv_def tasks_ok_def)

lemma task_okD: "broker_inv b \<Longrightarrow> t \<in> set (b_tasks b) \<Longrightarrow> task_ok b t"
  unfolding task_ok_def by (drule broker_invD(6), unfold tasks_ok_def) (auto split: task.split)

lemma task_safe:
  assumes "broker_hooks (ev_hooks ev)" and "json_roundtrip (ev_enc ev) dec" and "sys_ok dec st" and "t \<in> set (b_tasks (fst st))"
  shows "safe (sys_good dec st) (run_task ev t (without_task t st))"
proof -
  note g = without_task_good [OF assms(3), of t]
  have "task_ok (fst (without_task t st)) t"
    using task_okD [OF _ assms(4)] assms(3) by (auto simp: sys_ok_def task_ok_def without_task_def split: task.splits)
  then have "safe (sys_good dec (without_task t st)) (run_task ev t (without_task t st))"
    using g by (intro broker_hooks.run_task_safe [OF assms(1,2)]) (simp_all add: sys_good_def)
  then show ?thesis by (rule safe_mono) (rule sys_good_trans [OF g])
qed

lemma read_inv:
  assumes "sys_inv dec sy" and "gm_get (sy_conns sy) i = Some c"
    and "sys_good dec (sy_broker sy) st'" and "conn_ok (fst st') c'"
  shows "sys_inv dec \<lparr>sy_broker = st', sy_conns = (if go_on then gm_set (sy_conns sy) i c' else gm_del (sy_conns sy) i)\<rparr>"
proof -
  let ?conns = "if go_on then gm_set (sy_conns sy) i c' else gm_del (sy_conns sy) i"
  have wf: "gm_wf (sy_conns sy)" and ok: "sys_ok dec st'" and g: "grows (the_broker sy) (fst st')"
    using assms(1,3) by (simp_all add: sys_inv_def sys_good_def)
  have "conn_ok (fst st') d" if "gm_get ?conns j = Some d" for j d
  proof (cases "d = c'")
    case False
    then have "gm_get (sy_conns sy) j = Some d" using that by (auto split: if_splits)
    then show ?thesis using assms(1) conn_ok_mono [OF _ g] by (auto simp: sys_inv_def)
  qed (use assms(4) in simp)
  then show ?thesis using wf ok by (simp add: sys_inv_def distinct_update distinct_delete)
qed

text \<open>What is assumed of the environment of a step.\<close>

definition env_ok :: "'d json_enc \<Rightarrow> 'd json_dec \<Rightarrow> 'd env \<Rightarrow> bool" where
  "env_ok enc dec ev \<longleftrightarrow> ev_enc ev = enc \<and> ev_dec ev = dec \<and> clock_ok ev \<and> broker_hooks (ev_hooks ev)"

lemma cleanup_config: "sm_config (cleanupExpiredSessions enc now sm) = sm_config sm"
proof -
  have pass: "sm_config (fst (cleanup_pass enc now ss sm acc)) = sm_config sm" for ss acc
    by (induction ss arbitrary: sm acc) (auto simp: Let_def)
  have "sm_config (remove_expired now cids sm) = sm_config sm" for cids and sm :: "'a SessionManager"
    by (induction now cids sm rule: remove_expired.induct) (auto split: option.split)
  then show ?thesis using pass [of "map snd (sm_activeSessions sm)" "[]"]
    by (simp add: cleanupExpiredSessions_def case_prod_beta)
qed

lemma close_config: "sm_config (sm_Close enc sm) = sm_config sm"
proof -
  have "sm_config (foldl (\<lambda>sm (cid, s). if \<not> ps_CleanSession s then log_save enc sm s else sm) sm ss) = sm_config sm"
    for ss :: "(string \<times> PersistentSession) list" and sm :: "'a SessionManager"
    by (induction ss arbitrary: sm) auto
  then show ?thesis by (simp add: sm_Close_def will_Close_def)
qed

lemma safe_Ok: "safe Q m \<Longrightarrow> m = Ok x \<Longrightarrow> Q x"
  by simp

lemma sys_step_inv:
  assumes "json_roundtrip enc dec" and "\<And>ev. E ev \<Longrightarrow> env_ok enc dec ev" and "sys_step E sy sy'" and "sys_inv dec sy"
  shows "sys_inv dec sy'"
  using assms(3,4)
proof cases
  case (accept i remote)
  then show ?thesis using assms(4) by (auto simp: sys_inv_def distinct_update conn_ok_def new_conn_def)
next
  case (read ev i c r go_on c' st')
  have "safe (\<lambda>(go_on, c', st'). sys_good dec (sy_broker sy) st' \<and> conn_ok (fst st') c') (connection_step ev r c (sy_broker sy))"
    using broker_hooks.connection_step_safe [of "ev_hooks ev" ev] assms(1,4) assms(2) [OF read(2)] read(3)
    by (simp add: env_ok_def sys_inv_def)
  then have "sys_good dec (sy_broker sy) st'" and "conn_ok (fst st') c'" using read(4) by simp_all
  then show ?thesis unfolding read(1) by (rule read_inv [OF assms(4) read(3)])
next
  case (run ev t st')
  show ?thesis unfolding run(1)
    by (rule sys_inv_change [OF assms(4) safe_Ok [OF task_safe run(4)]])
      (use assms(1,4) assms(2) [OF run(2)] run(3) in \<open>auto simp: env_ok_def sys_inv_def\<close>)
next
  case (receive mb box pick ctx msg box')
  have "broker_good (the_broker sy) ((the_broker sy)\<lparr>b_mailboxes := gm_set (b_mailboxes (the_broker sy)) mb box'\<rparr>)"
    using assms(4) by (simp add: broker_good_def broker_inv_new_box sys_inv_def sys_ok_def) (simp add: grows_def)
  then show ?thesis unfolding receive(1) by (rule sys_inv_broker [OF assms(4)])
next
  case (timer ev tid st')
  show ?thesis unfolding timer(1)
    by (rule sys_inv_change [OF assms(4) safe_Ok [OF broker_hooks.fire_timer_safe timer(3)]])
      (use assms(1,4) assms(2) [OF timer(2)] in \<open>auto simp: env_ok_def sys_inv_def\<close>)
next
  case (cleanup ev)
  show ?thesis unfolding cleanup(1)
    by (rule sys_inv_change [OF assms(4)])
      (use cleanupExpiredSessions_inv [OF assms(1), of "snd (sy_broker sy)" "ev_now ev"] assms(4) assms(2) [OF cleanup(2)] in
        \<open>auto simp: env_ok_def sys_inv_def sys_good_def sys_ok_def sm_good_def cleanup_config\<close>)
next
  case (forwarded ev req b')
  show ?thesis unfolding forwarded(1)
    by (rule sys_inv_broker [OF assms(4) safe_Ok [OF broker_hooks.route_qos_safe forwarded(3) [unfolded RouteToLocalSubscribers_def]]])
      (use assms(4) assms(2) [OF forwarded(2)] in \<open>auto simp: env_ok_def sys_inv_def sys_ok_def\<close>)
next
  case (announced m reqs)
  show ?thesis unfolding announced(1)
    by (rule sys_inv_broker [OF assms(4)]) (use assms(4) in \<open>simp add: broker_good_def broker_inv_cluster sys_inv_def sys_ok_def\<close>)
next
  case (joined m connect join now peerID address)
  show ?thesis unfolding joined(1)
    by (rule sys_inv_broker [OF assms(4)]) (use assms(4) in \<open>simp add: broker_good_def broker_inv_cluster sys_inv_def sys_ok_def\<close>)
next
  case (close ev)
  show ?thesis unfolding close(1)
    by (rule sys_inv_change [OF assms(4)])
      (use sm_Close_inv [OF assms(1), of "snd (sy_broker sy)"] assms(4) assms(2) [OF close(2)] in
        \<open>auto simp: env_ok_def sys_inv_def sys_good_def sys_ok_def sm_good_def broker_Close_def close_config\<close>)
qed

lemma started_inv: "sys_inv dec (started now nodeID clusterMgr)"
  using broker_inv_New [of now nodeID clusterMgr] sm_inv_new [of dec "Some PersistDefaultConfig"]
  by (simp add: sys_inv_def started_def sys_ok_def sm_good_def New_broker_def NewSessionManager_def PersistDefaultConfig_def)

lemma reach_inv:
  assumes "json_roundtrip enc dec" and "\<And>ev. E ev \<Longrightarrow> env_ok enc dec ev" and "sys_reach E (started now nodeID clusterMgr) sy"
  shows "sys_inv dec sy"
  using assms(3) by (induction rule: sys_reach.induct) (auto intro: started_inv sys_step_inv [OF assms(1,2)])

section \<open>The system never panics\<close>

text \<open>
  The environments in question: JSON as given, a clock after the first hundredth of a second of 1970, a
  table of valid rules without republish actions, whatever it is at that moment and however deep the
  stack is, and an integration engine that leaves the broker alone.
\<close>

definition without_republish :: "'d json_enc \<Rightarrow> 'd json_dec \<Rightarrow> 'f rule_env \<Rightarrow> 'd env \<Rightarrow> bool" where
  "without_republish enc dec en ev \<longleftrightarrow>
     ev_enc ev = enc \<and> ev_dec ev = dec \<and> clock_ok ev \<and> engine_quiet (hk_integration (ev_hooks ev))
     \<and> (\<exists>ck depth rs. rules_quiet (rv_lib en) rs \<and> hk_rules (ev_hooks ev) = rule_hook (en\<lparr>rv_clock := ck\<rparr>) (Suc depth) rs)"

lemma without_republish_ok:
  assumes "outside_quiet (rv_outside en)" and "lib_total (rv_lib en)" and "without_republish enc dec en ev"
  shows "env_ok enc dec ev"
proof -
  obtain ck depth rs where "rules_quiet (rv_lib en) rs" and hook: "hk_rules (ev_hooks ev) = rule_hook (en\<lparr>rv_clock := ck\<rparr>) (Suc depth) rs"
    using assms(3) by (auto simp: without_republish_def)
  then have "engine_quiet (hk_rules (ev_hooks ev))"
    using assms(1,2) unfolding engine_quiet_def hook by (intro allI rule_hook_safe) simp_all
  then show ?thesis using assms(3) by (simp add: without_republish_def env_ok_def quiet_hooks)
qed



section \<open>A reachable state\<close>

definition system_env :: "PersistentSession env" where
  "system_env = sample_env\<lparr>ev_hooks := \<lparr>hk_rules = rule_hook sample_rule_env (Suc 5) [(''r1'', sample_discard)],
     hk_integration = (\<lambda>_ _ _ _. Ok)\<rparr>\<rparr>"

lemma sample_json: "json_roundtrip Some Some"
  by (simp add: json_roundtrip_def)

lemma sample_outside: "outside_quiet (rv_outside sample_rule_env)"
  by (simp add: sample_rule_env_def outside_quiet_def silent_def)

lemma sample_lib_total: "lib_total (rv_lib sample_rule_env)"
  by (simp add: sample_rule_env_def lib_total_def int_lib_def)

lemma system_env_clock: "clock_ok system_env"
  by (simp add: clock_ok_def system_env_def sample_env_def show_int_def show_nat.simps)

lemma system_env_ok: "without_republish Some Some sample_rule_env system_env"
proof -
  have "rules_quiet (rv_lib sample_rule_env) [(''r1'', sample_discard)]"
    by (simp add: rules_quiet_def sample_discard_def sample_rule_def sample_rule_env_def Parse_Nil republishes_def)
  moreover have "hk_rules (ev_hooks system_env) = rule_hook (sample_rule_env\<lparr>rv_clock := rv_clock sample_rule_env\<rparr>) (Suc 5) [(''r1'', sample_discard)]"
    by (simp add: system_env_def)
  ultimately have "\<exists>ck depth rs. rules_quiet (rv_lib sample_rule_env) rs
      \<and> hk_rules (ev_hooks system_env) = rule_hook (sample_rule_env\<lparr>rv_clock := ck\<rparr>) (Suc depth) rs" by blast
  moreover have "ev_enc system_env = Some" "ev_dec system_env = Some" "engine_quiet (hk_integration (ev_hooks system_env))"
    by (simp_all add: system_env_def sample_env_def engine_quiet_def)
  ultimately show ?thesis using system_env_clock unfolding without_republish_def by blast
qed

definition one_connection :: "PersistentSession system" where
  "one_connection = (started 0 ''n1'' None)\<lparr>sy_conns := [(0, new_conn ''10.0.0.1:4711'')]\<rparr>"

lemma one_connection_reached: "sys_reach (without_republish Some Some sample_rule_env) (started 0 ''n1'' None) one_connection"
  using sys_reach.step [OF sys_reach.start sys_step.accept [of "started 0 ''n1'' None" 0 "without_republish Some Some sample_rule_env" "''10.0.0.1:4711''"]]
  by (simp add: one_connection_def started_def)

lemma first_connect:
  "\<exists>c st. connection_step system_env (RPacket (IConnect resume_params)) (new_conn ''10.0.0.1:4711'') (sy_broker one_connection)
     = Ok (True, c, st) \<and> cn_clientID c = ''c'' \<and> cn_mailbox c \<noteq> None"
proof -
  let ?b = "fst (New_broker 0 ''n1'' None :: PersistentSession broker)"
  have conn: "mw_CheckClientConnection lib now (b_blacklistMiddleware ?b) cid u ip proto = (True, [], None)"
    for lib now cid u ip proto
    by (simp add: mw_CheckClientConnection_def New_broker_def CheckClientConnection_def empty_blacklist)
  have auth: "connect_auth (b_authChain ?b) ''c'' [] [] = AuthSuccess"
    by (simp add: connect_auth_def bypass_prefixes_def has_prefix_def New_broker_def NewAuthChain_def AuthChain_Authenticate_def)
  have "take_over ''c'' ?b = Ok ?b"
    by (simp add: take_over_def New_broker_def mem.get_empty)
  then show ?thesis
    by (simp add: one_connection_def started_def connection_step_def handle_read_def handle_packet_def new_conn_def is_connect_def
        handle_connect_def connect_checks_def resume_params_def conn note_block_def auth writePacket_def connack_def establish_def
        registerSession_def Let_def case_prod_beta)
qed

lemma connected_reached:
  "\<exists>sy c. sys_reach (without_republish Some Some sample_rule_env) (started 0 ''n1'' None) sy
     \<and> gm_get (sy_conns sy) 0 = Some c \<and> cn_clientID c = ''c'' \<and> cn_mailbox c \<noteq> None"
proof -
  obtain c st where step: "connection_step system_env (RPacket (IConnect resume_params)) (new_conn ''10.0.0.1:4711'') (sy_broker one_connection)
     = Ok (True, c, st)" and c: "cn_clientID c = ''c''" "cn_mailbox c \<noteq> None" using first_connect by blast
  have conn: "gm_get (sy_conns one_connection) 0 = Some (new_conn ''10.0.0.1:4711'')" by (simp add: one_connection_def)
  from sys_reach.step [OF one_connection_reached 
      sys_step.read [where E = "without_republish Some Some sample_rule_env", OF system_env_ok conn step]] c
  show ?thesis by fastforce
qed



end
