(* ===== verification/Json_Processor.thy ===== *)
theory Json_Processor
  imports Rule_Sql
begin

text \<open>
  The data processors of the integration engine, \<open>pkg/integration/processors.go\<close>: transformations of
  JSON payloads by paths, conditions and templates.

  A \<open>map[string]interface{}\<close> is a reference, and the code stores one and the same map in several
  places, so maps live in a store (\<open>heap\<close>) and a value that is a map is its address; \<open>nil\<close> is the
  address \<open>None\<close>. Reading a \<open>nil\<close> map gives nothing, writing to it panics. The texts of JSON,
  floating-point numbers, regular expressions and \<open>fmt.Sprintf("%v")\<close> are the library's (\<open>jsonlib\<close>).
\<close>

section \<open>Values\<close>

type_synonym ref = nat

datatype 'f jvalue =
    JNil
  | JBool bool
  | JInt int
  | JNum 'f
  | JStr string
  | JList "'f jvalue list"
  | JMap "ref option"

type_synonym 'f heap = "(ref, (string, 'f jvalue) gomap) gomap"

text \<open>Metadata of a message: the processors enter strings and times.\<close>

datatype meta = MString string | MTime time | MOther string

record 'f world =
  wo_maps :: "'f heap"
  wo_meta :: "(ref, (string, meta) gomap) gomap"

record IMessage =
  im_ID :: string
  im_Topic :: string
  im_Payload :: "byte list"
  im_QoS :: int
  im_Headers :: "(string, string) gomap"
  im_Metadata :: "ref option"
  im_Timestamp :: time
  im_SourceType :: string
  im_SourceID :: string
  im_DestinationType :: string
  im_DestinationID :: string

record 'f JSONTransformation =
  jt_Type :: string
  jt_SourcePath :: string
  jt_TargetPath :: string
  jt_Value :: "'f jvalue"
  jt_Condition :: string
  jt_DefaultValue :: "'f jvalue"
  jt_Template :: string

record 'f JSONProcessor =
  jp_id :: string
  jp_name :: string
  jp_transformations :: "'f JSONTransformation list"
  jp_config :: "ref option"

record PlainTextProcessor =
  pp_id :: string
  pp_name :: string
  pp_config :: "ref option"

section \<open>JSON texts\<close>

datatype 'f json =
    TNull
  | TBool bool
  | TInt int
  | TNum 'f
  | TStr string
  | TArr "'f json list"
  | TObj "(string \<times> 'f json) list"

text \<open>
  What the code uses of the library: reading and writing JSON texts (the members of an object in the
  order of their keys), formatting with \<open>%v\<close> (on a map that contains itself it does not return),
  \<open>strconv.ParseFloat\<close> and comparisons, matching a regular expression (false when it does not compile),
  times as text and in Unix seconds, and
  decoding a list of transformations.
\<close>

record 'f jsonlib =
  jl_Decode :: "byte list \<Rightarrow> 'f json option"
  jl_Encode :: "'f json \<Rightarrow> byte list option"
  jl_Sprint :: "'f heap \<Rightarrow> 'f jvalue \<Rightarrow> (string, string) go"
  jl_ParseFloat :: "string \<Rightarrow> 'f option"
  jl_of_int :: "int \<Rightarrow> 'f"
  jl_less :: "'f \<Rightarrow> 'f \<Rightarrow> bool"
  jl_leq :: "'f \<Rightarrow> 'f \<Rightarrow> bool"
  jl_MatchString :: "string \<Rightarrow> string \<Rightarrow> bool"
  jl_RFC3339 :: "time \<Rightarrow> string"
  jl_TimeText :: "time \<Rightarrow> string"
  jl_Unix :: "time \<Rightarrow> int"
  jl_Transformations :: "byte list \<Rightarrow> 'f heap \<Rightarrow> ('f JSONTransformation list \<times> 'f heap) option"

text \<open>\<open>json.Unmarshal\<close> makes a new map for every object.\<close>

fun alloc :: "'f json \<Rightarrow> 'f heap \<Rightarrow> 'f jvalue \<times> 'f heap"
  and alloc_list :: "'f json list \<Rightarrow> 'f heap \<Rightarrow> 'f jvalue list \<times> 'f heap"
  and alloc_members :: "(string \<times> 'f json) list \<Rightarrow> (string, 'f jvalue) gomap \<Rightarrow> 'f heap \<Rightarrow> (string, 'f jvalue) gomap \<times> 'f heap" where
  "alloc TNull h = (JNil, h)"
| "alloc (TBool b) h = (JBool b, h)"
| "alloc (TInt n) h = (JInt n, h)"
| "alloc (TNum x) h = (JNum x, h)"
| "alloc (TStr s) h = (JStr s, h)"
| "alloc (TArr ts) h = (let (vs, h') = alloc_list ts h in (JList vs, h'))"
| "alloc (TObj ms) h =
     (let r = fresh_key h; (m, h') = alloc_members ms [] (gm_set h r []) in (JMap (Some r), gm_set h' r m))"
| "alloc_list [] h = ([], h)"
| "alloc_list (t # ts) h = (let (v, h1) = alloc t h; (vs, h2) = alloc_list ts h1 in (v # vs, h2))"
| "alloc_members [] m h = (m, h)"
| "alloc_members ((k, t) # ms) m h = (let (v, h1) = alloc t h in alloc_members ms (gm_set m k v) h1)"

text \<open>
  Decoding into a \<open>map[string]interface{}\<close>: an error (\<open>None\<close>) unless the text is an object or \<open>null\<close>,
  and \<open>null\<close> leaves the map \<open>nil\<close>.
\<close>

definition Unmarshal_map :: "'f jsonlib \<Rightarrow> byte list \<Rightarrow> 'f heap \<Rightarrow> (ref option \<times> 'f heap) option" where
  "Unmarshal_map lib text h =
     (case jl_Decode lib text of
        Some (TObj ms) \<Rightarrow> (case alloc (TObj ms) h of (JMap r, h') \<Rightarrow> Some (r, h') | _ \<Rightarrow> None)
      | Some TNull \<Rightarrow> Some (None, h)
      | _ \<Rightarrow> None)"

text \<open>
  The value a map holds, as \<open>json.Marshal\<close> walks it. The number of maps on a path is limited by the
  number of maps there are, unless a map contains itself, which the library reports as an error.
\<close>

fun walk :: "nat \<Rightarrow> 'f heap \<Rightarrow> 'f jvalue \<Rightarrow> 'f json option" where
  "walk n h JNil = Some TNull"
| "walk n h (JBool b) = Some (TBool b)"
| "walk n h (JInt i) = Some (TInt i)"
| "walk n h (JNum x) = Some (TNum x)"
| "walk n h (JStr s) = Some (TStr s)"
| "walk n h (JList vs) = map_option TArr (those (map (walk n h) vs))"
| "walk n h (JMap None) = Some TNull"
| "walk 0 h (JMap (Some r)) = None"
| "walk (Suc n) h (JMap (Some r)) =
     map_option TObj (those (map (\<lambda>(k, v). map_option (Pair k) (walk n h v)) (gm_get0 [] h r)))"

definition Marshal :: "'f jsonlib \<Rightarrow> 'f heap \<Rightarrow> 'f jvalue \<Rightarrow> (string, byte list) go" where
  "Marshal lib h v =
     (case walk (Suc (length h)) h v of
        None \<Rightarrow> Err ''json: unsupported value: encountered a cycle''
      | Some t \<Rightarrow> (case jl_Encode lib t of None \<Rightarrow> Err ''json: unsupported value'' | Some text \<Rightarrow> Ok text))"

section \<open>Paths\<close>

fun get_parts :: "'f heap \<Rightarrow> 'f jvalue \<Rightarrow> string list \<Rightarrow> 'f jvalue" where
  "get_parts h current [] = current"
| "get_parts h current (part # parts) =
     (case current of
        JMap None \<Rightarrow> get_parts h JNil parts
      | JMap (Some r) \<Rightarrow> get_parts h (gm_get0 JNil (gm_get0 [] h r) part) parts
      | _ \<Rightarrow> JNil)"

definition getValueByPath :: "'f heap \<Rightarrow> ref option \<Rightarrow> string \<Rightarrow> 'f jvalue" where
  "getValueByPath h data path =
     (if path = [] then JMap data else get_parts h (JMap data) (go_split (CHR ''.'') path))"

definition map_store :: "'f heap \<Rightarrow> ref option \<Rightarrow> string \<Rightarrow> 'f jvalue \<Rightarrow> (string, 'f heap) go" where
  "map_store h m key v =
     (case m of None \<Rightarrow> Panic | Some r \<Rightarrow> Ok (gm_set h r (gm_set (gm_get0 [] h r) key v)))"

definition map_load :: "'f heap \<Rightarrow> ref option \<Rightarrow> string \<Rightarrow> 'f jvalue option" where
  "map_load h m key = (case m of None \<Rightarrow> None | Some r \<Rightarrow> gm_get (gm_get0 [] h r) key)"

fun set_parts :: "'f heap \<Rightarrow> ref option \<Rightarrow> string list \<Rightarrow> 'f jvalue \<Rightarrow> (string, 'f heap) go" where
  "set_parts h current [] v = Ok h"
| "set_parts h current [part] v = map_store h current part v"
| "set_parts h current (part # next # parts) v =
     (case map_load h current part of
        None \<Rightarrow>
          (let r = fresh_key h
           in go_bind (map_store (gm_set h r []) current part (JMap (Some r))) (\<lambda>h'. set_parts h' (Some r) (next # parts) v))
      | Some (JMap nested) \<Rightarrow> set_parts h nested (next # parts) v
      | Some _ \<Rightarrow> Ok h)"

definition setValueByPath :: "'f heap \<Rightarrow> ref option \<Rightarrow> string \<Rightarrow> 'f jvalue \<Rightarrow> (string, 'f heap) go" where
  "setValueByPath h data path v = (if path = [] then Ok h else set_parts h data (go_split (CHR ''.'') path) v)"

fun remove_parts :: "'f heap \<Rightarrow> ref option \<Rightarrow> string list \<Rightarrow> 'f heap" where
  "remove_parts h current [] = h"
| "remove_parts h current [part] =
     (case current of None \<Rightarrow> h | Some r \<Rightarrow> gm_set h r (gm_del (gm_get0 [] h r) part))"
| "remove_parts h current (part # next # parts) =
     (case map_load h current part of
        Some (JMap nested) \<Rightarrow> remove_parts h nested (next # parts)
      | _ \<Rightarrow> h)"

definition removeFieldByPath :: "'f heap \<Rightarrow> ref option \<Rightarrow> string \<Rightarrow> 'f heap" where
  "removeFieldByPath h data path = (if path = [] then h else remove_parts h data (go_split (CHR ''.'') path))"

section \<open>Conditions\<close>

text \<open>\<open>strings.Fields\<close>.\<close>

function fields_from :: "string \<Rightarrow> string \<Rightarrow> string list" where
  "fields_from s cur =
     (if s = [] then (if cur = [] then [] else [cur])
      else if space_width spaces s > 0
      then (if cur = [] then [] else [cur]) @ fields_from (drop (space_width spaces s) s) []
      else fields_from (tl s) (cur @ [hd s]))"
  by pat_completeness auto
termination
  by (relation "measure (length \<circ> fst)") (auto simp: space_width_progress)

declare fields_from.simps [simp del]

definition Fields :: "string \<Rightarrow> string list" where
  "Fields s = fields_from s []"

text \<open>\<open>strings.Trim\<close> with the two quotation marks.\<close>

definition trim_quotes :: "string \<Rightarrow> string" where
  "trim_quotes s =
     (let q = (\<lambda>c. c = CHR 0x27 \<or> c = CHR 0x22) in rev (dropWhile q (rev (dropWhile q s))))"

definition toFloat64 :: "'f jsonlib \<Rightarrow> 'f jvalue \<Rightarrow> 'f option" where
  "toFloat64 lib v =
     (case v of
        JNum x \<Rightarrow> Some x
      | JInt n \<Rightarrow> Some (jl_of_int lib n)
      | JStr s \<Rightarrow> jl_ParseFloat lib s
      | _ \<Rightarrow> None)"

definition compareNumeric :: "'f jsonlib \<Rightarrow> 'f jvalue \<Rightarrow> string \<Rightarrow> ('f \<Rightarrow> 'f \<Rightarrow> bool) \<Rightarrow> bool" where
  "compareNumeric lib actual expected compare =
     (case (toFloat64 lib actual, jl_ParseFloat lib expected) of
        (Some a, Some b) \<Rightarrow> compare a b
      | _ \<Rightarrow> False)"

definition compareValues :: "'f jsonlib \<Rightarrow> 'f heap \<Rightarrow> 'f jvalue \<Rightarrow> string \<Rightarrow> string \<Rightarrow> (string, bool) go" where
  "compareValues lib h actual operator expected =
     (let text = (\<lambda>f. go_bind (jl_Sprint lib h actual) (\<lambda>s. Ok (f s)));
          value = trim_quotes expected
      in if operator = ''=='' \<or> operator = ''='' then text (\<lambda>s. s = value)
         else if operator = ''!='' then text (\<lambda>s. s \<noteq> value)
         else if operator = ''>'' then Ok (compareNumeric lib actual expected (\<lambda>a b. jl_less lib b a))
         else if operator = ''<'' then Ok (compareNumeric lib actual expected (jl_less lib))
         else if operator = ''>='' then Ok (compareNumeric lib actual expected (\<lambda>a b. jl_leq lib b a))
         else if operator = ''<='' then Ok (compareNumeric lib actual expected (jl_leq lib))
         else if operator = ''contains'' then text (\<lambda>s. str_contains s value)
         else if operator = ''matches'' then text (\<lambda>s. jl_MatchString lib value s)
         else Ok False)"

definition evaluateCondition :: "'f jsonlib \<Rightarrow> 'f heap \<Rightarrow> ref option \<Rightarrow> string \<Rightarrow> (string, bool) go" where
  "evaluateCondition lib h payload condition =
     (case Fields condition of
        [fieldPath, operator, expectedValue] \<Rightarrow>
          (let actualValue = getValueByPath h payload fieldPath
           in if actualValue = JNil then Ok False else compareValues lib h actualValue operator expectedValue)
      | _ \<Rightarrow> Ok True)"

section \<open>Templates\<close>

definition placeholder :: "string \<Rightarrow> string" where
  "placeholder key = ''${'' @ key @ ''}''"

fun replace_values :: "'f jsonlib \<Rightarrow> 'f heap \<Rightarrow> (string, 'f jvalue) gomap \<Rightarrow> string \<Rightarrow> (string, string) go" where
  "replace_values lib h [] result = Ok result"
| "replace_values lib h ((key, v) # m) result =
     go_bind (jl_Sprint lib h v) (\<lambda>s. replace_values lib h m (ReplaceAll result (placeholder key) s))"

definition meta_text :: "'f jsonlib \<Rightarrow> meta \<Rightarrow> string" where
  "meta_text lib v = (case v of MString s \<Rightarrow> s | MTime t \<Rightarrow> jl_TimeText lib t | MOther s \<Rightarrow> s)"

definition metadata_of :: "'f world \<Rightarrow> IMessage \<Rightarrow> (string, meta) gomap" where
  "metadata_of w msg = (case im_Metadata msg of None \<Rightarrow> [] | Some r \<Rightarrow> gm_get0 [] (wo_meta w) r)"

definition applyTemplate :: "'f jsonlib \<Rightarrow> string \<Rightarrow> ref option \<Rightarrow> IMessage \<Rightarrow> 'f world \<Rightarrow> (string, string) go" where
  "applyTemplate lib template payload msg w =
     go_bind (replace_values lib (wo_maps w) (case payload of None \<Rightarrow> [] | Some r \<Rightarrow> gm_get0 [] (wo_maps w) r) template) (\<lambda>result.
       let result = ReplaceAll result ''${topic}'' (im_Topic msg);
           result = ReplaceAll result ''${source_id}'' (im_SourceID msg);
           result = ReplaceAll result ''${timestamp}'' (jl_RFC3339 lib (im_Timestamp msg));
           result = ReplaceAll result ''${unix_timestamp}'' (show_int (jl_Unix lib (im_Timestamp msg)));
           result = foldl (\<lambda>s (key, v). ReplaceAll s (placeholder (''headers.'' @ key)) v) result (im_Headers msg)
       in Ok (foldl (\<lambda>s (key, v). ReplaceAll s (placeholder (''metadata.'' @ key)) (meta_text lib v)) result (metadata_of w msg)))"

section \<open>Transformations\<close>

definition applyMapTransformation :: "ref option \<Rightarrow> 'f JSONTransformation \<Rightarrow> 'f heap \<Rightarrow> (string, 'f heap) go" where
  "applyMapTransformation payload transform h =
     (let sourceValue = getValueByPath h payload (jt_SourcePath transform);
          sourceValue = (if sourceValue = JNil then jt_DefaultValue transform else sourceValue)
      in if sourceValue \<noteq> JNil then setValueByPath h payload (jt_TargetPath transform) sourceValue else Ok h)"

definition applyFilterTransformation :: "'f jsonlib \<Rightarrow> ref option \<Rightarrow> 'f JSONTransformation \<Rightarrow> 'f heap \<Rightarrow> (string, 'f heap) go" where
  "applyFilterTransformation lib payload transform h =
     (if jt_Condition transform \<noteq> []
      then go_bind (evaluateCondition lib h payload (jt_Condition transform)) (\<lambda>holds.
             Ok (if \<not> holds then removeFieldByPath h payload (jt_TargetPath transform) else h))
      else Ok h)"

definition enrich_value ::
  "'f jsonlib \<Rightarrow> time \<Rightarrow> ref option \<Rightarrow> 'f JSONTransformation \<Rightarrow> IMessage \<Rightarrow> 'f world \<Rightarrow> (string, 'f jvalue) go" where
  "enrich_value lib now payload transform msg w =
     (if jt_Value transform \<noteq> JNil then Ok (jt_Value transform)
      else if jt_Template transform \<noteq> []
      then go_bind (applyTemplate lib (jt_Template transform) payload msg w) (\<lambda>s. Ok (JStr s))
      else Ok (if jt_TargetPath transform = ''timestamp'' then JInt (jl_Unix lib now)
               else if jt_TargetPath transform = ''iso_timestamp'' then JStr (jl_RFC3339 lib now)
               else if jt_TargetPath transform = ''topic'' then JStr (im_Topic msg)
               else if jt_TargetPath transform = ''source_id'' then JStr (im_SourceID msg)
               else jt_DefaultValue transform))"

definition applyEnrichTransformation ::
  "'f jsonlib \<Rightarrow> time \<Rightarrow> ref option \<Rightarrow> 'f JSONTransformation \<Rightarrow> IMessage \<Rightarrow> 'f world \<Rightarrow> (string, 'f heap) go" where
  "applyEnrichTransformation lib now payload transform msg w =
     go_bind (enrich_value lib now payload transform msg w) (\<lambda>enrichValue.
       if enrichValue \<noteq> JNil then setValueByPath (wo_maps w) payload (jt_TargetPath transform) enrichValue
       else Ok (wo_maps w))"

definition applyExtractTransformation :: "'f jsonlib \<Rightarrow> ref option \<Rightarrow> 'f JSONTransformation \<Rightarrow> 'f heap \<Rightarrow> (string, 'f heap) go" where
  "applyExtractTransformation lib payload transform h =
     (case getValueByPath h payload (jt_SourcePath transform) of
        JStr jsonStr \<Rightarrow>
          (case jl_Decode lib (bytes_of jsonStr) of
             None \<Rightarrow> Ok h
           | Some t \<Rightarrow> (case alloc t h of (parsed, h') \<Rightarrow> setValueByPath h' payload (jt_TargetPath transform) parsed))
      | _ \<Rightarrow> Ok h)"

definition applyTemplateTransformation ::
  "'f jsonlib \<Rightarrow> ref option \<Rightarrow> 'f JSONTransformation \<Rightarrow> IMessage \<Rightarrow> 'f world \<Rightarrow> (string, 'f heap) go" where
  "applyTemplateTransformation lib payload transform msg w =
     (if jt_Template transform = [] then Ok (wo_maps w)
      else go_bind (applyTemplate lib (jt_Template transform) payload msg w) (\<lambda>result.
             setValueByPath (wo_maps w) payload (jt_TargetPath transform) (JStr result)))"

definition applyTransformation ::
  "'f jsonlib \<Rightarrow> time \<Rightarrow> ref option \<Rightarrow> IMessage \<Rightarrow> 'f JSONTransformation \<Rightarrow> 'f world \<Rightarrow> (string, 'f heap) go" where
  "applyTransformation lib now payload msg transform w =
     (let t = jt_Type transform
      in if t = ''map'' then applyMapTransformation payload transform (wo_maps w)
         else if t = ''filter'' then applyFilterTransformation lib payload transform (wo_maps w)
         else if t = ''enrich'' then applyEnrichTransformation lib now payload transform msg w
         else if t = ''extract'' then applyExtractTransformation lib payload transform (wo_maps w)
         else if t = ''template'' then applyTemplateTransformation lib payload transform msg w
         else Err (''unknown transformation type: '' @ t))"

fun apply_all ::
  "'f jsonlib \<Rightarrow> time \<Rightarrow> ref option \<Rightarrow> IMessage \<Rightarrow> 'f JSONTransformation list \<Rightarrow> 'f world \<Rightarrow> (string, 'f world) go" where
  "apply_all lib now payload msg [] w = Ok w"
| "apply_all lib now payload msg (t # ts) w =
     go_bind (applyTransformation lib now payload msg t w) (\<lambda>h. apply_all lib now payload msg ts (w\<lparr>wo_maps := h\<rparr>))"

section \<open>Processors\<close>

text \<open>
  The processed message has a new payload and the metadata map of the message it was made from, in
  which the processor enters itself.
\<close>

definition mark_processed :: "string \<Rightarrow> time \<Rightarrow> byte list \<Rightarrow> IMessage \<Rightarrow> 'f world \<Rightarrow> IMessage \<times> 'f world" where
  "mark_processed pid now processedPayload msg w =
     (let r = (case im_Metadata msg of None \<Rightarrow> fresh_key (wo_meta w) | Some r \<Rightarrow> r);
          m = gm_set (gm_set (metadata_of w msg) ''processed_by'' (MString pid)) ''processed_at'' (MTime now)
      in (msg\<lparr>im_Payload := processedPayload, im_Metadata := Some r\<rparr>, w\<lparr>wo_meta := gm_set (wo_meta w) r m\<rparr>))"

definition raw_payload :: "byte list \<Rightarrow> 'f heap \<Rightarrow> ref option \<times> 'f heap" where
  "raw_payload text h = (Some (fresh_key h), gm_set h (fresh_key h) [(''raw_data'', JStr (string_of text))])"

definition JSON_Process :: "'f jsonlib \<Rightarrow> time \<Rightarrow> 'f JSONProcessor \<Rightarrow> IMessage \<Rightarrow> 'f world \<Rightarrow> (string, IMessage \<times> 'f world) go" where
  "JSON_Process lib now jp msg w =
     (let (payload, h) = (case Unmarshal_map lib (im_Payload msg) (wo_maps w) of
                            None \<Rightarrow> raw_payload (im_Payload msg) (wo_maps w)
                          | Some r \<Rightarrow> r)
      in go_bind (apply_all lib now payload msg (jp_transformations jp) (w\<lparr>wo_maps := h\<rparr>)) (\<lambda>w'.
         go_bind (Marshal lib (wo_maps w') (JMap payload)) (\<lambda>processedPayload.
           Ok (mark_processed (jp_id jp) now processedPayload msg w'))))"

definition PlainText_Process :: "'f jsonlib \<Rightarrow> time \<Rightarrow> PlainTextProcessor \<Rightarrow> IMessage \<Rightarrow> 'f world \<Rightarrow> (string, IMessage \<times> 'f world) go" where
  "PlainText_Process lib now ptp msg w =
     (case jl_Encode lib (TObj [(''length'', TInt (int (length (im_Payload msg)))),
                                (''raw_text'', TStr (string_of (im_Payload msg))),
                                (''timestamp'', TStr (jl_RFC3339 lib (im_Timestamp msg))),
                                (''topic'', TStr (im_Topic msg))]) of
        None \<Rightarrow> Err ''failed to process plain text''
      | Some processedPayload \<Rightarrow> Ok (mark_processed (pp_id ptp) now processedPayload msg w))"

text \<open>The configuration a processor is given; its map is kept, not copied.\<close>

definition config_string :: "'f heap \<Rightarrow> ref option \<Rightarrow> string \<Rightarrow> string \<Rightarrow> string" where
  "config_string h config key old = (case map_load h config key of Some (JStr s) \<Rightarrow> s | _ \<Rightarrow> old)"

definition config_map :: "'f heap \<Rightarrow> ref option \<Rightarrow> ref option \<Rightarrow> ref option" where
  "config_map h config old = (case map_load h config ''config'' of Some (JMap r) \<Rightarrow> r | _ \<Rightarrow> old)"

text \<open>The new processor, the store, and the error, if any: what was set before it stays set.\<close>

definition JSON_SetConfiguration ::
  "'f jsonlib \<Rightarrow> 'f JSONProcessor \<Rightarrow> ref option \<Rightarrow> 'f heap \<Rightarrow> ('f JSONProcessor \<times> 'f heap) \<times> string option" where
  "JSON_SetConfiguration lib jp config h =
     (let jp1 = jp\<lparr>jp_id := config_string h config ''id'' (jp_id jp), jp_name := config_string h config ''name'' (jp_name jp)\<rparr>;
          finish = (\<lambda>(jp, h'). ((jp\<lparr>jp_config := config_map h config (jp_config jp)\<rparr>, h'), None))
      in case map_load h config ''transformations'' of
           None \<Rightarrow> finish (jp1, h)
         | Some v \<Rightarrow>
             (case Marshal lib h v of
                Ok text \<Rightarrow>
                  (case jl_Transformations lib text h of
                     None \<Rightarrow> ((jp1, h), Some ''failed to unmarshal transformations'')
                   | Some (ts, h') \<Rightarrow> finish (jp1\<lparr>jp_transformations := ts\<rparr>, h'))
              | _ \<Rightarrow> ((jp1, h), Some ''failed to marshal transformations'')))"

definition PlainText_SetConfiguration :: "PlainTextProcessor \<Rightarrow> ref option \<Rightarrow> 'f heap \<Rightarrow> PlainTextProcessor" where
  "PlainText_SetConfiguration ptp config h =
     ptp\<lparr>pp_id := config_string h config ''id'' (pp_id ptp), pp_name := config_string h config ''name'' (pp_name ptp),
         pp_config := config_map h config (pp_config ptp)\<rparr>"

section \<open>A payload that is null\<close>

lemma set_nil_panics: "path \<noteq> [] \<Longrightarrow> setValueByPath h None path v = Panic"
proof -
  assume "path \<noteq> []"
  have "set_parts h None parts v = Panic" if "parts \<noteq> []" for parts
    using that by (cases "(h, None :: ref option, parts, v)" rule: set_parts.cases) (simp_all add: map_store_def map_load_def Let_def)
  then show ?thesis using \<open>path \<noteq> []\<close> by (simp add: setValueByPath_def)
qed

text \<open>Transformations that write something into every payload.\<close>

definition always_writes :: "'f JSONTransformation \<Rightarrow> bool" where
  "always_writes t \<longleftrightarrow> jt_TargetPath t \<noteq> [] \<and>
     (jt_Type t = ''map'' \<and> jt_DefaultValue t \<noteq> JNil
      \<or> jt_Type t = ''enrich'' \<and> (jt_Value t \<noteq> JNil \<or> jt_Template t = [] \<and>
           (jt_TargetPath t \<in> {''timestamp'', ''iso_timestamp'', ''topic'', ''source_id''} \<or> jt_DefaultValue t \<noteq> JNil)))"

lemma always_writes_panics: "always_writes t \<Longrightarrow> applyTransformation lib now None msg t w = Panic"
  by (auto simp: always_writes_def applyTransformation_def applyMapTransformation_def applyEnrichTransformation_def
      enrich_value_def set_nil_panics Let_def)

text \<open>
  A message with the payload \<open>null\<close> makes a JSON processor panic if its first transformation always
  writes a field: \<open>null\<close> decodes without error into a map that is \<open>nil\<close>.
\<close>

lemma null_payload_panics:
  assumes "jl_Decode lib (im_Payload msg) = Some TNull"
    and "jp_transformations jp = t # ts" and "always_writes t"
  shows "JSON_Process lib now jp msg w = Panic"
  using assms by (simp add: JSON_Process_def Unmarshal_map_def always_writes_panics)

section \<open>Other payloads\<close>

fun no_nil :: "'f jvalue \<Rightarrow> bool" where
  "no_nil (JMap r) = (r \<noteq> None)"
| "no_nil (JList vs) = list_all no_nil vs"
| "no_nil _ = True"

definition heap_ok :: "'f heap \<Rightarrow> bool" where
  "heap_ok h \<longleftrightarrow> (\<forall>r k v. gm_get (gm_get0 [] h r) k = Some v \<longrightarrow> no_nil v)"

lemma heap_ok_set: "heap_ok h \<Longrightarrow> (\<And>k v. gm_get m k = Some v \<Longrightarrow> no_nil v) \<Longrightarrow> heap_ok (gm_set h r m)"
  by (auto simp: heap_ok_def)

lemma heap_ok_get: "heap_ok h \<Longrightarrow> gm_get (gm_get0 [] h r) k = Some v \<Longrightarrow> no_nil v"
  unfolding heap_ok_def by blast

lemma heap_ok_write: "heap_ok h \<Longrightarrow> no_nil v \<Longrightarrow> heap_ok (gm_set h r (gm_set (gm_get0 [] h r) k v))"
  by (rule heap_ok_set) (auto dest: heap_ok_get split: if_splits)

lemma heap_ok_new: "heap_ok h \<Longrightarrow> heap_ok (gm_set h r [])"
  by (rule heap_ok_set) simp_all

lemma heap_ok_delete: "heap_ok h \<Longrightarrow> heap_ok (gm_set h r (gm_del (gm_get0 [] h r) k))"
  by (rule heap_ok_set) (auto dest: heap_ok_get split: if_splits)

lemma get_parts_no_nil: "heap_ok h \<Longrightarrow> no_nil v \<Longrightarrow> no_nil (get_parts h v ps)"
proof (induction h v ps rule: get_parts.induct)
  case (2 h v p ps)
  have "no_nil (gm_get0 JNil (gm_get0 [] h r) p)" for r
    using heap_ok_get [OF 2(3), of r p] by (simp add: gm_get0_def [of JNil] split: option.split)
  then show ?case using 2 by (auto split: jvalue.split option.split)
qed simp

lemma getValue_no_nil: "heap_ok h \<Longrightarrow> no_nil (getValueByPath h (Some r) path)"
  by (simp add: getValueByPath_def get_parts_no_nil)

lemma set_parts_safe: "heap_ok h \<Longrightarrow> no_nil v \<Longrightarrow> safe heap_ok (set_parts h (Some r) ps v)"
proof (induction h "Some r" ps v arbitrary: r rule: set_parts.induct)
  case (3 h part "next" parts v)
  let ?n = "fresh_key h"
  have "heap_ok (gm_set (gm_set h ?n []) r (gm_set (gm_get0 [] (gm_set h ?n []) r) part (JMap (Some ?n))))"
    by (intro heap_ok_write heap_ok_new 3) simp
  then have "map_load h (Some r) part = None \<Longrightarrow> ?case"
    using 3(1) [OF _ refl] 3(3,4) by (auto simp: map_store_def Let_def)
  moreover have "map_load h (Some r) part = Some v' \<Longrightarrow> ?case" for v'
    using 3(2) 3(3,4) heap_ok_get [OF 3(3), of r part v'] by (cases v') (auto simp: map_load_def)
  ultimately show ?case by (cases "map_load h (Some r) part") blast+
qed (simp_all add: map_store_def heap_ok_write)

lemma setValue_safe: "heap_ok h \<Longrightarrow> no_nil v \<Longrightarrow> safe heap_ok (setValueByPath h (Some r) path v)"
  by (simp add: setValueByPath_def set_parts_safe)

lemma alloc_ok:
  "heap_ok h \<Longrightarrow> no_nil (fst (alloc t h)) \<and> heap_ok (snd (alloc t h))"
  "heap_ok h \<Longrightarrow> list_all no_nil (fst (alloc_list ts h)) \<and> heap_ok (snd (alloc_list ts h))"
  "heap_ok h \<Longrightarrow> \<forall>k v. gm_get m k = Some v \<longrightarrow> no_nil v \<Longrightarrow>
     (\<forall>k v. gm_get (fst (alloc_members ms m h)) k = Some v \<longrightarrow> no_nil v) \<and> heap_ok (snd (alloc_members ms m h))"
proof (induction t h and ts h and ms m h rule: alloc_alloc_list_alloc_members.induct)
  case (7 ms h)
  then show ?case by (auto simp: Let_def case_prod_beta heap_ok_new intro!: heap_ok_set)
next
  case (9 t ts h)
  obtain v h1 where a: "alloc t h = (v, h1)" by (cases "alloc t h")
  then have "no_nil v" "heap_ok h1" using "9.IH"(1) [OF "9.prems"] by simp_all
  then show ?case using "9.IH"(2) [OF a [symmetric] refl] by (simp add: a Let_def case_prod_beta)
next
  case (11 k t ms m h)
  obtain v h1 where a: "alloc t h = (v, h1)" by (cases "alloc t h")
  then have v: "no_nil v" "heap_ok h1" using "11.IH"(1) [OF "11.prems"(1)] by simp_all
  have "\<forall>k' v'. gm_get (gm_set m k v) k' = Some v' \<longrightarrow> no_nil v'" using v(1) "11.prems"(2) by simp
  from "11.IH"(2) [OF a [symmetric] refl v(2) this] show ?case by (simp add: a)
qed (auto simp: Let_def case_prod_beta)

lemma remove_parts_ok: "heap_ok h \<Longrightarrow> heap_ok (remove_parts h m ps)"
  by (induction h m ps rule: remove_parts.induct) (auto simp: heap_ok_delete split: option.split jvalue.split)

text \<open>A transformation that does not format values (\<open>%v\<close>): no template, no condition.\<close>

definition formats :: "'f JSONTransformation \<Rightarrow> bool" where
  "formats t \<longleftrightarrow> jt_Template t \<noteq> [] \<or> jt_Type t = ''filter'' \<and> jt_Condition t \<noteq> []"

definition transform_ok :: "'f JSONTransformation \<Rightarrow> bool" where
  "transform_ok t \<longleftrightarrow> \<not> formats t \<and> no_nil (jt_Value t) \<and> no_nil (jt_DefaultValue t)"

lemma applyTransformation_safe:
  assumes "heap_ok (wo_maps w)" and "transform_ok t"
  shows "safe heap_ok (applyTransformation lib now (Some r) msg t w)"
proof -
  have set: "no_nil v \<Longrightarrow> safe heap_ok (setValueByPath (wo_maps w) (Some r) path v)" for path v
    using assms(1) by (rule setValue_safe)
  have "safe heap_ok (applyMapTransformation (Some r) t (wo_maps w))"
    using assms getValue_no_nil [OF assms(1)] by (auto simp: applyMapTransformation_def Let_def transform_ok_def intro!: set)
  moreover have "safe heap_ok (applyEnrichTransformation lib now (Some r) t msg w)"
    using assms by (auto simp: applyEnrichTransformation_def enrich_value_def transform_ok_def formats_def intro!: set)
  moreover have "safe heap_ok (applyExtractTransformation lib (Some r) t (wo_maps w))"
    using assms(1) alloc_ok(1) [OF assms(1)]
    by (auto simp: applyExtractTransformation_def case_prod_beta setValue_safe split: jvalue.split option.split)
  moreover have "safe heap_ok (applyFilterTransformation lib (Some r) t (wo_maps w))" if "jt_Type t = ''filter''"
    using assms that by (simp add: applyFilterTransformation_def transform_ok_def formats_def)
  moreover have "safe heap_ok (applyTemplateTransformation lib (Some r) t msg w)"
    using assms by (simp add: applyTemplateTransformation_def transform_ok_def formats_def)
  ultimately show ?thesis by (simp add: applyTransformation_def Let_def)
qed

lemma apply_all_safe:
  assumes "heap_ok (wo_maps w)" and "list_all transform_ok ts"
  shows "safe (\<lambda>w'. heap_ok (wo_maps w')) (apply_all lib now (Some r) msg ts w)"
  using assms
proof (induction ts arbitrary: w)
  case (Cons t ts)
  show ?case unfolding apply_all.simps
    by (rule safe_bind [OF applyTransformation_safe]) (use Cons in simp_all)
qed simp

lemma Unmarshal_ok:
  assumes "heap_ok h" and "jl_Decode lib text \<noteq> Some TNull" and "Unmarshal_map lib text h = Some (payload, h')"
  shows "heap_ok h' \<and> payload \<noteq> None"
proof -
  obtain ms where ms: "jl_Decode lib text = Some (TObj ms)"
    using assms(2,3) by (auto simp: Unmarshal_map_def split: option.splits json.splits)
  obtain v h1 where a: "alloc (TObj ms) h = (v, h1)" by (cases "alloc (TObj ms) h")
  have "no_nil v" "heap_ok h1" using alloc_ok(1) [OF assms(1), of "TObj ms"] unfolding a by simp_all
  then show ?thesis using assms(3) unfolding Unmarshal_map_def ms option.case json.case a by (auto split: jvalue.splits)
qed

lemma raw_payload_ok: "heap_ok h \<Longrightarrow> heap_ok (snd (raw_payload text h))"
  by (auto simp: raw_payload_def intro!: heap_ok_set split: if_splits)

text \<open>
  On every payload that is not \<open>null\<close>, JSON or not, a processor without templates and conditions
  does not panic, whatever its transformations do; the store keeps its invariant, so that this holds
  for every further message, too.
\<close>

lemma JSON_Process_no_panic:
  assumes "jl_Decode lib (im_Payload msg) \<noteq> Some TNull" and "list_all transform_ok (jp_transformations jp)"
    and "heap_ok (wo_maps w)"
  shows "JSON_Process lib now jp msg w \<noteq> Panic
    \<and> (\<forall>msg' w'. JSON_Process lib now jp msg w = Ok (msg', w') \<longrightarrow> heap_ok (wo_maps w'))"
proof -
  define ph where "ph = (case Unmarshal_map lib (im_Payload msg) (wo_maps w) of
      None \<Rightarrow> raw_payload (im_Payload msg) (wo_maps w) | Some r \<Rightarrow> r)"
  obtain payload h where ph': "ph = (payload, h)" by (cases ph)
  have "heap_ok h \<and> payload \<noteq> None"
    using ph' Unmarshal_ok [OF assms(3,1)] raw_payload_ok [OF assms(3), of "im_Payload msg"]
    by (auto simp: ph_def raw_payload_def split: option.splits)
  then obtain r where r: "payload = Some r" and h: "heap_ok h" by blast
  have "safe (\<lambda>w'. heap_ok (wo_maps w')) (apply_all lib now (Some r) msg (jp_transformations jp) (w\<lparr>wo_maps := h\<rparr>))"
    using h assms(2) by (intro apply_all_safe) simp_all
  then have "safe (\<lambda>(msg', w'). heap_ok (wo_maps w')) (JSON_Process lib now jp msg w)"
    unfolding JSON_Process_def ph_def [symmetric] ph' r prod.case Let_def
    by (rule safe_bind) (simp add: Marshal_def mark_processed_def Let_def split: option.split)
  then show ?thesis by (cases "JSON_Process lib now jp msg w") auto
qed

section \<open>Writing and reading a path\<close>

text \<open>No map contains itself: the rank \<open>f\<close> falls from a map to the maps in it, and these exist.\<close>

definition linked :: "'f heap \<Rightarrow> (ref \<Rightarrow> nat) \<Rightarrow> bool" where
  "linked h f \<longleftrightarrow> (\<forall>r k r'. gm_get (gm_get0 [] h r) k = Some (JMap (Some r')) \<longrightarrow> gm_get h r' \<noteq> None \<and> f r' < f r)"

text \<open>No value on the way that is not a map.\<close>

fun reaches :: "'f heap \<Rightarrow> ref \<Rightarrow> string list \<Rightarrow> bool" where
  "reaches h r (part # next # parts) =
     (case gm_get (gm_get0 [] h r) part of
        None \<Rightarrow> True
      | Some (JMap (Some r')) \<Rightarrow> reaches h r' (next # parts)
      | _ \<Rightarrow> False)"
| "reaches h r _ = True"

lemma reaches_empty: "gm_get0 [] h r = [] \<Longrightarrow> reaches h r parts"
  by (cases "(h, r, parts)" rule: reaches.cases) simp_all

lemma linked_extend:
  assumes "linked h f" and "gm_get h r \<noteq> None"
  shows "linked (gm_set (gm_set h (fresh_key h) []) r (gm_set (gm_get0 [] h r) part (JMap (Some (fresh_key h)))))
    (\<lambda>x. if x = fresh_key h then 0 else Suc (f x))"
proof -
  let ?n = "fresh_key h"
  have old: "r' \<noteq> ?n" "gm_get h r' \<noteq> None" "f r' < f q" if "gm_get (gm_get0 [] h q) k = Some (JMap (Some r'))" for q k r'
    using assms(1) that fresh_key_None [of h] unfolding linked_def by (metis, metis, metis)
  have r: "r \<noteq> ?n" using assms(2) by auto
  have none: "gm_get0 [] h ?n = []" by (simp add: gm_get0_def)
  show ?thesis using old r assms(2) none unfolding linked_def by (auto split: if_splits)
qed

lemma set_get_parts:
  assumes "linked h f" and "gm_get h r \<noteq> None" and "reaches h r parts" and "parts \<noteq> []"
  shows "\<exists>h'. set_parts h (Some r) parts v = Ok h' \<and> get_parts h' (JMap (Some r)) parts = v
    \<and> (\<forall>r'. f r < f r' \<longrightarrow> gm_get h r' \<noteq> None \<longrightarrow> gm_get h' r' = gm_get h r')"
  using assms
proof (induction parts arbitrary: h r f)
  case (Cons part parts)
  show ?case
  proof (cases parts)
    case Nil
    then show ?thesis by (auto simp: map_store_def)
  next
    case (Cons "next" rest)
    note parts = this
    show ?thesis
    proof (cases "gm_get (gm_get0 [] h r) part")
      case None
      let ?n = "fresh_key h" and ?f = "\<lambda>x. if x = fresh_key h then 0 else Suc (f x)"
      let ?h1 = "gm_set (gm_set h ?n []) r (gm_set (gm_get0 [] h r) part (JMap (Some ?n)))"
      have rn: "r \<noteq> ?n" using Cons.prems(2) by auto
      have l1: "linked ?h1 ?f" by (rule linked_extend [OF Cons.prems(1,2)])
      have "gm_get ?h1 ?n \<noteq> None" and "reaches ?h1 ?n parts" using rn by (auto intro: reaches_empty)
      from Cons.IH [OF l1 this] parts obtain h' where h': "set_parts ?h1 (Some ?n) parts v = Ok h'"
        "get_parts h' (JMap (Some ?n)) parts = v" "\<forall>r'. ?f ?n < ?f r' \<longrightarrow> gm_get ?h1 r' \<noteq> None \<longrightarrow> gm_get h' r' = gm_get ?h1 r'" by blast
      have "gm_get h' r = Some (gm_set (gm_get0 [] h r) part (JMap (Some ?n)))" using h'(3) rn by simp
      moreover have "gm_get h' r' = gm_get h r'" if "f r < f r'" "gm_get h r' \<noteq> None" for r'
      proof -
        have "r' \<noteq> ?n" "r' \<noteq> r" using that by auto
        then show ?thesis using h'(3) [rule_format, of r'] that(2) by simp
      qed
      ultimately show ?thesis using h' None parts rn
        by (intro exI [of _ h']) (simp add: map_load_def map_store_def Let_def gm_get0_def [of "[]" h'])
    next
      case (Some x)
      then obtain r' where x: "x = JMap (Some r')" and reach: "reaches h r' parts"
        using Cons.prems(3) parts by (auto split: jvalue.splits option.splits)
      have l: "gm_get h r' \<noteq> None" "f r' < f r" using Cons.prems(1) Some x unfolding linked_def by blast+
      from Cons.IH [OF Cons.prems(1) l(1) reach] parts obtain h' where h': "set_parts h (Some r') parts v = Ok h'"
        "get_parts h' (JMap (Some r')) parts = v" "\<forall>q. f r' < f q \<longrightarrow> gm_get h q \<noteq> None \<longrightarrow> gm_get h' q = gm_get h q" by blast
      have "gm_get h' r = gm_get h r" using h'(3) l Cons.prems(2) by blast
      then show ?thesis using h' Some x parts l
        by (intro exI [of _ h']) (auto simp: map_load_def gm_get0_def [of "[]"] gm_get0_def [of JNil])
    qed
  qed
qed simp

text \<open>
  What \<open>setValueByPath\<close> wrote is what \<open>getValueByPath\<close> reads at the path, with the maps that were
  missing on the way created, for every path on which no other value stands in the way, as long as no
  map contains itself.
\<close>

lemma setValueByPath_roundtrip:
  assumes "linked h f" and "gm_get h r \<noteq> None" and "path \<noteq> []" and "reaches h r (go_split (CHR ''.'') path)"
  shows "\<exists>h'. setValueByPath h (Some r) path v = Ok h' \<and> getValueByPath h' (Some r) path = v"
  using set_get_parts [OF assms(1,2,4) go_split_not_Nil, of v] assms(3)
  by (auto simp: setValueByPath_def getValueByPath_def)

section \<open>Writing JSON\<close>

text \<open>The depth given to \<open>walk\<close> is enough: more of it changes nothing.\<close>

lemma those_mono:
  "(\<And>x y. x \<in> set xs \<Longrightarrow> f x = Some y \<Longrightarrow> g x = Some y) \<Longrightarrow> those (map f xs) = Some ys \<Longrightarrow> those (map g xs) = Some ys"
proof (induction xs arbitrary: ys)
  case (Cons x xs)
  from Cons.prems(2) obtain z zs where "f x = Some z" and zs: "those (map f xs) = Some zs" and "ys = z # zs"
    by (auto split: option.splits)
  moreover have "those (map g xs) = Some zs" by (rule Cons.IH [OF _ zs]) (simp add: Cons.prems(1))
  ultimately show ?case using Cons.prems(1) [of x z] by simp
qed simp

lemma walk_mono: "walk n h v = Some t \<Longrightarrow> n \<le> m \<Longrightarrow> walk m h v = Some t"
proof (induction n h v arbitrary: m t rule: walk.induct)
  case (6 n h vs)
  from "6.prems"(1) obtain ts where ts: "those (map (walk n h) vs) = Some ts" "t = TArr ts" by auto
  have "those (map (walk m h) vs) = Some ts"
    by (rule those_mono [OF _ ts(1)]) (rule "6.IH", assumption+, rule "6.prems"(2))
  then show ?case using ts by simp
next
  case (9 n h r)
  obtain m' where m: "m = Suc m'" "n \<le> m'" using "9.prems"(2) by (cases m) auto
  from "9.prems"(1) obtain ts where ts: "those (map (\<lambda>(k, v). map_option (Pair k) (walk n h v)) (gm_get0 [] h r)) = Some ts" "t = TObj ts" by auto
  have "those (map (\<lambda>(k, v). map_option (Pair k) (walk m' h v)) (gm_get0 [] h r)) = Some ts"
  proof (rule those_mono [OF _ ts(1)])
    fix x y
    assume x: "x \<in> set (gm_get0 [] h r)" and y: "(case x of (k, v) \<Rightarrow> map_option (Pair k) (walk n h v)) = Some y"
    obtain k v where kv: "x = (k, v)" by (cases x)
    with y obtain t' where "walk n h v = Some t'" "y = (k, t')" by auto
    then show "(case x of (k, v) \<Rightarrow> map_option (Pair k) (walk m' h v)) = Some y"
      using "9.IH" [OF x _ _ m(2)] kv by simp
  qed
  then show ?case using m ts by simp
qed simp_all

definition walks :: "'f heap \<Rightarrow> nat \<Rightarrow> ref \<Rightarrow> bool" where
  "walks h n r \<longleftrightarrow> walk n h (JMap (Some r)) \<noteq> None"

lemma walks_mono: "walks h n r \<Longrightarrow> n \<le> m \<Longrightarrow> walks h m r"
  by (auto simp: walks_def dest: walk_mono)

lemma those_None: "those xs = None \<longleftrightarrow> None \<in> set xs"
proof (induction xs)
  case (Cons x xs)
  then show ?case by (cases x) auto
qed simp

lemma walk_cong:
  "(\<And>r. walks h n r = walks h m r) \<Longrightarrow> (walk n h v = None) = (walk m h v = None)"
proof (induction v)
  case (JList vs)
  then have "\<forall>v \<in> set vs. (walk n h v = None) = (walk m h v = None)" by blast
  then have "None \<in> walk n h ` set vs \<longleftrightarrow> None \<in> walk m h ` set vs" by (auto simp: image_iff eq_commute [of None])
  then show ?case by (simp add: those_None)
next
  case (JMap r)
  show ?case
  proof (cases r)
    case (Some a)
    then show ?thesis using JMap [of a] unfolding walks_def by blast
  qed simp
qed simp_all

lemma walks_step: "(\<And>r. walks h n r = walks h m r) \<Longrightarrow> walks h (Suc n) r = walks h (Suc m) r"
  using walk_cong [of h n m] unfolding walks_def by (auto simp: those_None image_iff)

lemma walks_stable:
  assumes "\<And>r. walks h k r = walks h (Suc k) r" and "k \<le> n"
  shows "walks h n r = walks h k r"
  using assms(2)
proof (induction n arbitrary: r rule: dec_induct)
  case (step n)
  from walks_step [of h n k, OF step.IH] show ?case using assms(1) by simp
qed simp

text \<open>The maps that can be written with a given depth become more with every level until they stay the same.\<close>

lemma walks_stabilise: "\<exists>k. k \<le> Suc (length h) \<and> (\<forall>r. walks h k r = walks h (Suc k) r)"
proof (rule ccontr)
  assume never: "\<not> ?thesis"
  define D where "D n = {r \<in> fst ` set h. walks h n r}" for n
  have outside: "walks h (Suc n) r" if "r \<notin> fst ` set h" for n r
    using that by (simp add: walks_def gm_get0_def those_None map_of_eq_None_iff [symmetric])
  have grow: "D n \<subset> D (Suc n)" if n: "1 \<le> n" "n \<le> Suc (length h)" for n
  proof -
    obtain r where "walks h n r \<noteq> walks h (Suc n) r" using never n(2) by blast
    then have r: "\<not> walks h n r" "walks h (Suc n) r" using walks_mono [of h n r "Suc n"] by auto
    moreover have "r \<in> fst ` set h" using r(1) outside [of r "n - 1"] n(1) by (cases n) auto
    ultimately show ?thesis using walks_mono [of h n _ "Suc n"] by (auto simp: D_def)
  qed
  have fin: "finite (D n)" for n by (simp add: D_def)
  have "j \<le> length h \<Longrightarrow> Suc j \<le> card (D (Suc (Suc j)))" for j
  proof (induction j)
    case 0
    have "card (D 1) < card (D (Suc 1))" using grow [of 1] fin by (intro psubset_card_mono) auto
    then show ?case by simp
  next
    case (Suc j)
    have "card (D (Suc (Suc j))) < card (D (Suc (Suc (Suc j))))" using grow [of "Suc (Suc j)"] fin Suc.prems by (intro psubset_card_mono) auto
    then show ?case using Suc by simp
  qed
  from this [of "length h"] have "Suc (length h) \<le> card (D (Suc (Suc (length h))))" by simp
  moreover have "card (D n) \<le> length h" for n
  proof -
    have "card (D n) \<le> card (fst ` set h)" by (intro card_mono) (auto simp: D_def)
    also have "\<dots> \<le> length h" by (metis card_length length_map set_map)
    finally show ?thesis .
  qed
  ultimately show False by (metis Suc_n_not_le_n order_trans)
qed

lemma walk_enough:
  assumes "walk n h v = Some t"
  shows "walk (Suc (length h)) h v = Some t"
proof -
  obtain k where k: "k \<le> Suc (length h)" and st: "\<forall>r. walks h k r = walks h (Suc k) r"
    using walks_stabilise [of h] by (elim exE conjE)
  have "walk k h v \<noteq> None"
  proof (cases "n \<le> k")
    case True
    have "walk k h v = Some t" by (rule walk_mono [OF assms True])
    then show ?thesis by simp
  next
    case False
    then have "walks h n r = walks h k r" for r by - (rule walks_stable, rule st [rule_format], simp)
    then have "(walk n h v = None) = (walk k h v = None)" by (rule walk_cong)
    then show ?thesis by (simp add: assms)
  qed
  then obtain t' where "walk k h v = Some t'" by (meson not_None_eq)
  then have t': "walk (Suc (length h)) h v = Some t'" by (rule walk_mono [OF _ k])
  have "walk (max n (Suc (length h))) h v = Some t'" by (rule walk_mono [OF t']) simp
  moreover have "walk (max n (Suc (length h))) h v = Some t" by (rule walk_mono [OF assms]) simp
  ultimately show ?thesis using t' by (simp del: walk.simps)
qed

section \<open>Examples\<close>

text \<open>A library that reads three texts.\<close>

definition tiny_json :: "int jsonlib" where
  "tiny_json = \<lparr>jl_Decode = (\<lambda>t. if t = bytes_of ''null'' then Some TNull else if t = bytes_of ''{}'' then Some (TObj [])
                    else if t = bytes_of ''a'' then Some (TObj [(''a'', TObj [])]) else None),
     jl_Encode = (\<lambda>_. Some []), jl_Sprint = (\<lambda>_ _. Ok []), jl_ParseFloat = (\<lambda>_. None), jl_of_int = id, jl_less = (<), jl_leq = (\<le>),
     jl_MatchString = (\<lambda>_ _. False), jl_RFC3339 = (\<lambda>_. []), jl_TimeText = (\<lambda>_. []), jl_Unix = id, jl_Transformations = (\<lambda>_ _. None)\<rparr>"

definition sample_transform :: "string \<Rightarrow> string \<Rightarrow> string \<Rightarrow> int jvalue \<Rightarrow> int JSONTransformation" where
  "sample_transform ty source target v = \<lparr>jt_Type = ty, jt_SourcePath = source, jt_TargetPath = target, jt_Value = v,
     jt_Condition = [], jt_DefaultValue = JNil, jt_Template = []\<rparr>"

definition sample_processor :: "int JSONTransformation list \<Rightarrow> int JSONProcessor" where
  "sample_processor ts = \<lparr>jp_id = ''p'', jp_name = ''p'', jp_transformations = ts, jp_config = None\<rparr>"

definition sample_message :: "string \<Rightarrow> IMessage" where
  "sample_message text = \<lparr>im_ID = ''m'', im_Topic = ''t'', im_Payload = bytes_of text, im_QoS = 0, im_Headers = [], im_Metadata = None,
     im_Timestamp = 0, im_SourceType = ''mqtt'', im_SourceID = [], im_DestinationType = [], im_DestinationID = []\<rparr>"

abbreviation empty_world :: "int world" where
  "empty_world \<equiv> \<lparr>wo_maps = [], wo_meta = []\<rparr>"

lemmas sample_json_defs = tiny_json_def sample_transform_def sample_processor_def sample_message_def

lemma JSON_Process_no_panic_witness:
  "JSON_Process tiny_json 5 (sample_processor [sample_transform ''enrich'' [] ''topic'' JNil]) (sample_message ''{}'') empty_world \<noteq> Panic"
  using JSON_Process_no_panic [of tiny_json "sample_message ''{}''" "sample_processor [sample_transform ''enrich'' [] ''topic'' JNil]" empty_world 5]
  by (simp add: sample_json_defs transform_ok_def formats_def heap_ok_def bytes_of_def byte_of_char_def)

lemma setValueByPath_roundtrip_witness:
  "\<exists>h'. setValueByPath [(1 :: ref, [(''a'', JMap (Some 2))]), (2, [(''b'', JInt 1)])] (Some 1) ''a.c.d'' (JInt 7 :: int jvalue) = Ok h'
    \<and> getValueByPath h' (Some 1) ''a.c.d'' = JInt 7"
  by (rule setValueByPath_roundtrip [where f = "\<lambda>r. if r = 1 then 1 else 0"])
    (auto simp: linked_def gm_get0_def split: if_splits)

text \<open>
  A map that the configuration of an enrichment holds is stored in the payload itself, not a copy: a
  later transformation of the message changes the configuration of the processor, and with it what the
  next messages get.
\<close>

lemma enrichment_changes_configuration:
  "\<exists>msg' w'. JSON_Process tiny_json 5
      (sample_processor [sample_transform ''enrich'' [] ''site'' (JMap (Some 1)), sample_transform ''enrich'' [] ''site.last'' (JInt 7)])
      (sample_message ''{}'') \<lparr>wo_maps = [(1, [])], wo_meta = []\<rparr> = Ok (msg', w')
    \<and> gm_get0 [] (wo_maps w') 1 = [(''last'', JInt 7)]"
  by (simp add: sample_json_defs JSON_Process_def Unmarshal_map_def bytes_of_def byte_of_char_def fresh_key_def applyTransformation_def
      applyEnrichTransformation_def enrich_value_def setValueByPath_def map_store_def map_load_def Marshal_def mark_processed_def Let_def)

text \<open>A mapping into its own source makes a map contain itself, and the message is lost.\<close>

lemma mapping_into_source_fails:
  "JSON_Process tiny_json 5 (sample_processor [sample_transform ''map'' ''a'' ''a.b'' JNil]) (sample_message ''a'') empty_world
    = Err ''json: unsupported value: encountered a cycle''"
  by (simp add: sample_json_defs JSON_Process_def Unmarshal_map_def bytes_of_def byte_of_char_def fresh_key_def applyTransformation_def
      applyMapTransformation_def getValueByPath_def setValueByPath_def map_store_def map_load_def Marshal_def Let_def)

end
