(* ===== verification/Integration.thy ===== *)
theory Integration
  imports Json_Processor
begin

text \<open>
  The data integration engine, \<open>pkg/integration/engine.go\<close>: bridges, connectors and processors, the
  bridges a message goes through, and their metrics.

  A connector is an interface; what its methods do to the outside (of type \<open>'w\<close>) is in the record
  \<open>Connector\<close>. \<open>ProcessMessage\<close> starts a goroutine for every bridge that applies; it returns them as a
  list, and each runs later with the engine as it is then. Arithmetic on \<open>float64\<close> is an argument.
\<close>

section \<open>State\<close>

record 'f BridgeMetrics =
  bm_MessagesProcessed :: int
  bm_MessagesSucceeded :: int
  bm_MessagesFailed :: int
  bm_BytesProcessed :: int
  bm_AverageLatency :: 'f
  bm_LastActivity :: time
  bm_ErrorRate :: 'f

record 'f Bridge =
  br_ID :: string
  br_Name :: string
  br_Description :: string
  br_Type :: string
  br_Direction :: string
  br_SourceConnector :: string
  br_TargetConnector :: string
  br_DataProcessor :: string
  br_Configuration :: "(string, 'f jvalue) gomap"
  br_Status :: string
  br_Metrics :: "'f BridgeMetrics"
  br_CreatedAt :: time
  br_UpdatedAt :: time

text \<open>A method that can fail returns the error, if any, and the outside after the call.\<close>

record ('f, 'w) Connector =
  co_ID :: string
  co_IsConnected :: "'w \<Rightarrow> bool"
  co_Connect :: "'w \<Rightarrow> string option \<times> 'w"
  co_Disconnect :: "'w \<Rightarrow> 'w"
  co_Send :: "IMessage \<Rightarrow> 'f world \<Rightarrow> 'w \<Rightarrow> string option \<times> 'w"

datatype 'f DataProcessor = JSONProc "'f JSONProcessor" | PlainProc PlainTextProcessor

record 'f IntegrationMetrics =
  ig_TotalBridges :: int
  ig_ActiveBridges :: int
  ig_TotalConnectors :: int
  ig_ConnectedSources :: int
  ig_TotalMessages :: int
  ig_BridgeMetrics :: "(string, 'f BridgeMetrics) gomap"

record ('f, 'w) DataIntegrationEngine =
  die_bridges :: "(string, 'f Bridge) gomap"
  die_connectors :: "(string, ('f, 'w) Connector) gomap"
  die_processors :: "(string, 'f DataProcessor) gomap"
  die_metrics :: "'f IntegrationMetrics"
  die_cancelled :: bool

record 'f floats =
  fl_zero :: 'f
  fl_of_int :: "int \<Rightarrow> 'f"
  fl_add :: "'f \<Rightarrow> 'f \<Rightarrow> 'f"
  fl_mul :: "'f \<Rightarrow> 'f \<Rightarrow> 'f"
  fl_div :: "'f \<Rightarrow> 'f \<Rightarrow> 'f"

definition no_bridge_metrics :: "'f floats \<Rightarrow> 'f BridgeMetrics" where
  "no_bridge_metrics fl = \<lparr>bm_MessagesProcessed = 0, bm_MessagesSucceeded = 0, bm_MessagesFailed = 0, bm_BytesProcessed = 0,
     bm_AverageLatency = fl_zero fl, bm_LastActivity = 0, bm_ErrorRate = fl_zero fl\<rparr>"

definition NewDataIntegrationEngine :: "('f, 'w) DataIntegrationEngine" where
  "NewDataIntegrationEngine = \<lparr>die_bridges = [], die_connectors = [], die_processors = [],
     die_metrics = \<lparr>ig_TotalBridges = 0, ig_ActiveBridges = 0, ig_TotalConnectors = 0, ig_ConnectedSources = 0,
                    ig_TotalMessages = 0, ig_BridgeMetrics = []\<rparr>,
     die_cancelled = False\<rparr>"

section \<open>Bridges\<close>

definition validateBridge :: "'f Bridge \<Rightarrow> (string, unit) go" where
  "validateBridge bridge =
     (if br_ID bridge = [] then Err ''bridge ID is required''
      else if br_Name bridge = [] then Err ''bridge name is required''
      else if br_Type bridge = [] then Err ''bridge type is required''
      else if br_Direction bridge = [] then Err ''bridge direction is required''
      else if br_Direction bridge \<notin> set [''ingress'', ''egress'', ''bidirectional'']
      then Err (''invalid bridge direction: '' @ br_Direction bridge)
      else Ok ())"

definition CreateBridge ::
  "'f floats \<Rightarrow> time \<Rightarrow> ('f, 'w) DataIntegrationEngine \<Rightarrow> 'f Bridge \<Rightarrow> (string, ('f, 'w) DataIntegrationEngine) go" where
  "CreateBridge fl now die bridge =
     (case gm_get (die_bridges die) (br_ID bridge) of
        Some _ \<Rightarrow> Err (''bridge with ID '' @ br_ID bridge @ '' already exists'')
      | None \<Rightarrow>
          go_bind (validateBridge bridge) (\<lambda>_.
            let bridge' = bridge\<lparr>br_CreatedAt := now, br_UpdatedAt := now, br_Status := ''disabled'', br_Metrics := no_bridge_metrics fl\<rparr>;
                m = die_metrics die
            in Ok (die\<lparr>die_bridges := gm_set (die_bridges die) (br_ID bridge) bridge',
                       die_metrics := m\<lparr>ig_TotalBridges := ig_TotalBridges m + 1\<rparr>\<rparr>)))"

definition bridge_missing :: "string \<Rightarrow> string" where
  "bridge_missing bridgeID = ''bridge '' @ bridgeID @ '' not found''"

definition GetBridge :: "('f, 'w) DataIntegrationEngine \<Rightarrow> string \<Rightarrow> (string, 'f Bridge) go" where
  "GetBridge die bridgeID =
     (case gm_get (die_bridges die) bridgeID of None \<Rightarrow> Err (bridge_missing bridgeID) | Some bridge \<Rightarrow> Ok bridge)"

definition ListBridges :: "('f, 'w) DataIntegrationEngine \<Rightarrow> 'f Bridge list" where
  "ListBridges die = map snd (die_bridges die)"

definition UpdateBridge ::
  "time \<Rightarrow> ('f, 'w) DataIntegrationEngine \<Rightarrow> string \<Rightarrow> 'f Bridge \<Rightarrow> (string, ('f, 'w) DataIntegrationEngine) go" where
  "UpdateBridge now die bridgeID updates =
     (case gm_get (die_bridges die) bridgeID of
        None \<Rightarrow> Err (bridge_missing bridgeID)
      | Some existing \<Rightarrow>
          (let updates' = updates\<lparr>br_ID := br_ID existing, br_CreatedAt := br_CreatedAt existing, br_UpdatedAt := now,
                                  br_Metrics := br_Metrics existing\<rparr>
           in go_bind (validateBridge updates') (\<lambda>_. Ok (die\<lparr>die_bridges := gm_set (die_bridges die) bridgeID updates'\<rparr>))))"

text \<open>\<open>stopBridge\<close> does nothing and does not fail.\<close>

definition DeleteBridge :: "('f, 'w) DataIntegrationEngine \<Rightarrow> string \<Rightarrow> (string, ('f, 'w) DataIntegrationEngine) go" where
  "DeleteBridge die bridgeID =
     (case gm_get (die_bridges die) bridgeID of
        None \<Rightarrow> Err (bridge_missing bridgeID)
      | Some _ \<Rightarrow>
          (let m = die_metrics die
           in Ok (die\<lparr>die_bridges := gm_del (die_bridges die) bridgeID,
                      die_metrics := m\<lparr>ig_BridgeMetrics := gm_del (ig_BridgeMetrics m) bridgeID,
                                       ig_TotalBridges := ig_TotalBridges m - 1\<rparr>\<rparr>)))"

text \<open>Connects a connector that is named, registered and not connected yet.\<close>

definition connect_if_needed :: "('f, 'w) DataIntegrationEngine \<Rightarrow> string \<Rightarrow> 'w \<Rightarrow> string option \<times> 'w" where
  "connect_if_needed die name w =
     (if name = [] then (None, w)
      else case gm_get (die_connectors die) name of
             None \<Rightarrow> (None, w)
           | Some connector \<Rightarrow> if co_IsConnected connector w then (None, w) else co_Connect connector w)"

definition startBridge :: "('f, 'w) DataIntegrationEngine \<Rightarrow> 'f Bridge \<Rightarrow> 'w \<Rightarrow> string option \<times> 'w" where
  "startBridge die bridge w =
     (case connect_if_needed die (br_SourceConnector bridge) w of
        (Some err, w1) \<Rightarrow> (Some (''failed to connect source connector: '' @ err), w1)
      | (None, w1) \<Rightarrow>
          (case connect_if_needed die (br_TargetConnector bridge) w1 of
             (Some err, w2) \<Rightarrow> (Some (''failed to connect target connector: '' @ err), w2)
           | (None, w2) \<Rightarrow> (None, w2)))"

definition set_active :: "string \<Rightarrow> int \<Rightarrow> time \<Rightarrow> ('f, 'w) DataIntegrationEngine \<Rightarrow> 'f Bridge \<Rightarrow> string \<Rightarrow> ('f, 'w) DataIntegrationEngine" where
  "set_active status change now die bridge bridgeID =
     (let m = die_metrics die
      in die\<lparr>die_bridges := gm_set (die_bridges die) bridgeID (bridge\<lparr>br_Status := status, br_UpdatedAt := now\<rparr>),
             die_metrics := m\<lparr>ig_ActiveBridges := ig_ActiveBridges m + change\<rparr>\<rparr>)"

definition EnableBridge ::
  "time \<Rightarrow> ('f, 'w) DataIntegrationEngine \<Rightarrow> string \<Rightarrow> 'w \<Rightarrow> (('f, 'w) DataIntegrationEngine \<times> 'w) \<times> string option" where
  "EnableBridge now die bridgeID w =
     (case gm_get (die_bridges die) bridgeID of
        None \<Rightarrow> ((die, w), Some (bridge_missing bridgeID))
      | Some bridge \<Rightarrow>
          if br_Status bridge = ''enabled'' then ((die, w), None)
          else (case startBridge die bridge w of
                  (Some err, w') \<Rightarrow> ((die, w'), Some (''failed to start bridge: '' @ err))
                | (None, w') \<Rightarrow> ((set_active ''enabled'' 1 now die bridge bridgeID, w'), None)))"

definition DisableBridge ::
  "time \<Rightarrow> ('f, 'w) DataIntegrationEngine \<Rightarrow> string \<Rightarrow> (string, ('f, 'w) DataIntegrationEngine) go" where
  "DisableBridge now die bridgeID =
     (case gm_get (die_bridges die) bridgeID of
        None \<Rightarrow> Err (bridge_missing bridgeID)
      | Some bridge \<Rightarrow>
          if br_Status bridge = ''disabled'' then Ok die
          else Ok (set_active ''disabled'' (-1) now die bridge bridgeID))"

section \<open>Connectors and processors\<close>

definition RegisterConnector ::
  "('f, 'w) DataIntegrationEngine \<Rightarrow> ('f, 'w) Connector \<Rightarrow> (string, ('f, 'w) DataIntegrationEngine) go" where
  "RegisterConnector die connector =
     (case gm_get (die_connectors die) (co_ID connector) of
        Some _ \<Rightarrow> Err (''connector with ID '' @ co_ID connector @ '' already exists'')
      | None \<Rightarrow>
          (let m = die_metrics die
           in Ok (die\<lparr>die_connectors := gm_set (die_connectors die) (co_ID connector) connector,
                      die_metrics := m\<lparr>ig_TotalConnectors := ig_TotalConnectors m + 1\<rparr>\<rparr>)))"

definition GetConnector :: "('f, 'w) DataIntegrationEngine \<Rightarrow> string \<Rightarrow> (string, ('f, 'w) Connector) go" where
  "GetConnector die connectorID =
     (case gm_get (die_connectors die) connectorID of
        None \<Rightarrow> Err (''connector '' @ connectorID @ '' not found'') | Some connector \<Rightarrow> Ok connector)"

definition ListConnectors :: "('f, 'w) DataIntegrationEngine \<Rightarrow> ('f, 'w) Connector list" where
  "ListConnectors die = map snd (die_connectors die)"

fun processor_ID :: "'f DataProcessor \<Rightarrow> string" where
  "processor_ID (JSONProc jp) = jp_id jp"
| "processor_ID (PlainProc ptp) = pp_id ptp"

fun Process :: "'f jsonlib \<Rightarrow> time \<Rightarrow> 'f DataProcessor \<Rightarrow> IMessage \<Rightarrow> 'f world \<Rightarrow> (string, IMessage \<times> 'f world) go" where
  "Process lib now (JSONProc jp) msg w = JSON_Process lib now jp msg w"
| "Process lib now (PlainProc ptp) msg w = PlainText_Process lib now ptp msg w"

definition RegisterDataProcessor ::
  "('f, 'w) DataIntegrationEngine \<Rightarrow> 'f DataProcessor \<Rightarrow> (string, ('f, 'w) DataIntegrationEngine) go" where
  "RegisterDataProcessor die processor =
     (case gm_get (die_processors die) (processor_ID processor) of
        Some _ \<Rightarrow> Err (''data processor with ID '' @ processor_ID processor @ '' already exists'')
      | None \<Rightarrow> Ok (die\<lparr>die_processors := gm_set (die_processors die) (processor_ID processor) processor\<rparr>))"

section \<open>Messages\<close>

definition matchTopic :: "string \<Rightarrow> string \<Rightarrow> bool" where
  "matchTopic flt topic = (flt = ''#'' \<or> flt = topic)"

definition shouldProcessMessage :: "'f Bridge \<Rightarrow> IMessage \<Rightarrow> bool" where
  "shouldProcessMessage bridge msg =
     (case gm_get (br_Configuration bridge) ''topic_filter'' of
        Some (JStr topicFilter) \<Rightarrow> matchTopic topicFilter (im_Topic msg)
      | _ \<Rightarrow> True)"

text \<open>The engine and the bridges for which a goroutine is started.\<close>

definition ProcessMessage :: "('f, 'w) DataIntegrationEngine \<Rightarrow> IMessage \<Rightarrow> ('f, 'w) DataIntegrationEngine \<times> 'f Bridge list" where
  "ProcessMessage die msg =
     (let m = die_metrics die
      in (die\<lparr>die_metrics := m\<lparr>ig_TotalMessages := ig_TotalMessages m + 1\<rparr>\<rparr>,
          filter (\<lambda>bridge. br_Status bridge = ''enabled'' \<and> shouldProcessMessage bridge msg) (map snd (die_bridges die))))"

definition updateBridgeMetrics ::
  "'f floats \<Rightarrow> time \<Rightarrow> string \<Rightarrow> bool \<Rightarrow> int \<Rightarrow> duration \<Rightarrow> ('f, 'w) DataIntegrationEngine \<Rightarrow> ('f, 'w) DataIntegrationEngine" where
  "updateBridgeMetrics fl now bridgeID ok bytes latency die =
     (let m = die_metrics die;
          old = gm_get0 (no_bridge_metrics fl) (ig_BridgeMetrics m) bridgeID;
          processed = bm_MessagesProcessed old + 1;
          failed = (if ok then bm_MessagesFailed old else bm_MessagesFailed old + 1);
          ms = fl_div fl (fl_of_int fl latency) (fl_of_int fl 1000000);
          new = old\<lparr>bm_MessagesProcessed := processed,
                    bm_MessagesSucceeded := (if ok then bm_MessagesSucceeded old + 1 else bm_MessagesSucceeded old),
                    bm_MessagesFailed := failed,
                    bm_BytesProcessed := bm_BytesProcessed old + bytes,
                    bm_LastActivity := now,
                    bm_AverageLatency := (if processed = 1 then ms
                                          else fl_div fl (fl_add fl (bm_AverageLatency old) ms) (fl_of_int fl 2)),
                    bm_ErrorRate := (if processed > 0
                                     then fl_mul fl (fl_div fl (fl_of_int fl failed) (fl_of_int fl processed)) (fl_of_int fl 100)
                                     else bm_ErrorRate old)\<rparr>
      in die\<lparr>die_metrics := m\<lparr>ig_BridgeMetrics := gm_set (ig_BridgeMetrics m) bridgeID new\<rparr>\<rparr>)"

text \<open>The goroutine of a bridge; \<open>latency\<close> is the time it takes.\<close>

definition processThroughBridge ::
  "'f jsonlib \<Rightarrow> 'f floats \<Rightarrow> time \<Rightarrow> duration \<Rightarrow> 'f Bridge \<Rightarrow> IMessage
    \<Rightarrow> ('f, 'w) DataIntegrationEngine \<times> 'f world \<times> 'w \<Rightarrow> (string, ('f, 'w) DataIntegrationEngine \<times> 'f world \<times> 'w) go" where
  "processThroughBridge lib fl now latency bridge msg st =
     (case st of (die, wo, w) \<Rightarrow>
        let send = (\<lambda>processedMsg wo.
              let done = (\<lambda>ok w. Ok (updateBridgeMetrics fl now (br_ID bridge) ok (int (length (im_Payload processedMsg))) latency die, wo, w))
              in if br_TargetConnector bridge = [] then done True w
                 else case gm_get (die_connectors die) (br_TargetConnector bridge) of
                        None \<Rightarrow> done True w
                      | Some connector \<Rightarrow>
                          (case co_Send connector processedMsg wo w of
                             (Some err, w') \<Rightarrow> done False w'
                           | (None, w') \<Rightarrow> done True w'))
        in if br_DataProcessor bridge = [] then send msg wo
           else case gm_get (die_processors die) (br_DataProcessor bridge) of
                  None \<Rightarrow> send msg wo
                | Some processor \<Rightarrow>
                    (case Process lib now processor msg wo of
                       Ok (processedMsg, wo') \<Rightarrow> send processedMsg wo'
                     | Err e \<Rightarrow> Ok (updateBridgeMetrics fl now (br_ID bridge) False 0 latency die, wo, w)
                     | Panic \<Rightarrow> Panic
                     | Blocked \<Rightarrow> Blocked))"

definition updateMetrics :: "('f, 'w) DataIntegrationEngine \<Rightarrow> 'w \<Rightarrow> ('f, 'w) DataIntegrationEngine" where
  "updateMetrics die w =
     (let m = die_metrics die
      in die\<lparr>die_metrics :=
           m\<lparr>ig_ActiveBridges := int (length (filter (\<lambda>bridge. br_Status bridge = ''enabled'') (map snd (die_bridges die)))),
             ig_ConnectedSources := int (length (filter (\<lambda>c. co_IsConnected c w) (map snd (die_connectors die))))\<rparr>\<rparr>)"

definition GetMetrics :: "('f, 'w) DataIntegrationEngine \<Rightarrow> 'w \<Rightarrow> 'f IntegrationMetrics \<times> ('f, 'w) DataIntegrationEngine" where
  "GetMetrics die w = (let die' = updateMetrics die w in (die_metrics die', die'))"

definition Integration_Close :: "('f, 'w) DataIntegrationEngine \<Rightarrow> 'w \<Rightarrow> ('f, 'w) DataIntegrationEngine \<times> 'w" where
  "Integration_Close die w =
     (die\<lparr>die_cancelled := True\<rparr>,
      foldl (\<lambda>w connector. if co_IsConnected connector w then co_Disconnect connector w else w) w (map snd (die_connectors die)))"

text \<open>
  \<open>processMessageThroughIntegration\<close> of the broker: the message with a new metadata map, and the
  bridges that process it. \<open>None\<close> is a broker without an engine.
\<close>

definition integration_message :: "int \<Rightarrow> time \<Rightarrow> string \<Rightarrow> byte list \<Rightarrow> byte \<Rightarrow> string \<Rightarrow> (string, string) gomap \<Rightarrow> ref \<Rightarrow> IMessage" where
  "integration_message nano now topicName payload qos clientID headers meta =
     \<lparr>im_ID = ''mqtt-'' @ show_int nano, im_Topic = topicName, im_Payload = payload, im_QoS = uint qos, im_Headers = headers,
      im_Metadata = Some meta, im_Timestamp = now, im_SourceType = ''mqtt'', im_SourceID = clientID,
      im_DestinationType = [], im_DestinationID = []\<rparr>"

definition processMessageThroughIntegration ::
  "int \<Rightarrow> time \<Rightarrow> string \<Rightarrow> byte list \<Rightarrow> byte \<Rightarrow> string \<Rightarrow> (string, string) gomap
    \<Rightarrow> ('f, 'w) DataIntegrationEngine option \<times> 'f world
    \<Rightarrow> (('f, 'w) DataIntegrationEngine option \<times> 'f world) \<times> ('f Bridge \<times> IMessage) list" where
  "processMessageThroughIntegration nano now topicName payload qos clientID headers st =
     (case st of
        (None, wo) \<Rightarrow> (st, [])
      | (Some die, wo) \<Rightarrow>
          (let meta = fresh_key (wo_meta wo);
               msg = integration_message nano now topicName payload qos clientID headers meta;
               (die', bridges) = ProcessMessage die msg
           in ((Some die', wo\<lparr>wo_meta := gm_set (wo_meta wo) meta []\<rparr>), map (\<lambda>bridge. (bridge, msg)) bridges)))"

section \<open>Reachable states\<close>

text \<open>
  The operations of administrators, the messages of the broker, the goroutines of the bridges and the
  outside world in any order. \<open>ts\<close> are the goroutines that were started and have not run.
\<close>

inductive int_reach ::
  "'f jsonlib \<Rightarrow> 'f floats \<Rightarrow> ('f, 'w) DataIntegrationEngine \<times> ('f Bridge \<times> IMessage) list \<times> 'f world \<times> 'w \<Rightarrow> bool" for lib fl where
  start: "int_reach lib fl (NewDataIntegrationEngine, [], wo, w)"
| create: "int_reach lib fl (die, ts, wo, w) \<Longrightarrow> CreateBridge fl now die bridge = Ok die' \<Longrightarrow> int_reach lib fl (die', ts, wo, w)"
| update: "int_reach lib fl (die, ts, wo, w) \<Longrightarrow> UpdateBridge now die bid updates = Ok die' \<Longrightarrow> int_reach lib fl (die', ts, wo, w)"
| delete: "int_reach lib fl (die, ts, wo, w) \<Longrightarrow> DeleteBridge die bid = Ok die' \<Longrightarrow> int_reach lib fl (die', ts, wo, w)"
| enable: "int_reach lib fl (die, ts, wo, w) \<Longrightarrow> EnableBridge now die bid w = ((die', w'), err) \<Longrightarrow> int_reach lib fl (die', ts, wo, w')"
| disable: "int_reach lib fl (die, ts, wo, w) \<Longrightarrow> DisableBridge now die bid = Ok die' \<Longrightarrow> int_reach lib fl (die', ts, wo, w)"
| connector: "int_reach lib fl (die, ts, wo, w) \<Longrightarrow> RegisterConnector die c = Ok die' \<Longrightarrow> int_reach lib fl (die', ts, wo, w)"
| processor: "int_reach lib fl (die, ts, wo, w) \<Longrightarrow> RegisterDataProcessor die p = Ok die' \<Longrightarrow> int_reach lib fl (die', ts, wo, w)"
| message: "int_reach lib fl (die, ts, wo, w) \<Longrightarrow>
    processMessageThroughIntegration nano now topic payload qos cid headers (Some die, wo) = ((Some die', wo'), new) \<Longrightarrow>
    int_reach lib fl (die', ts @ new, wo', w)"
| bridge: "int_reach lib fl (die, ts, wo, w) \<Longrightarrow> (b, msg) \<in> set ts \<Longrightarrow>
    processThroughBridge lib fl now latency b msg (die, wo, w) = Ok (die', wo', w') \<Longrightarrow>
    int_reach lib fl (die', remove1 (b, msg) ts, wo', w')"
| metrics: "int_reach lib fl (die, ts, wo, w) \<Longrightarrow> int_reach lib fl (snd (GetMetrics die w), ts, wo, w)"
| close: "int_reach lib fl (die, ts, wo, w) \<Longrightarrow> int_reach lib fl (fst (Integration_Close die w), ts, wo, snd (Integration_Close die w))"
| outside: "int_reach lib fl (die, ts, wo, w) \<Longrightarrow> int_reach lib fl (die, ts, wo', w')"

definition bridge_ok :: "'f floats \<Rightarrow> string \<Rightarrow> 'f Bridge \<Rightarrow> bool" where
  "bridge_ok fl bid b \<longleftrightarrow> br_ID b = bid \<and> validateBridge b = Ok () \<and> br_Metrics b = no_bridge_metrics fl"

definition counts_ok :: "'f BridgeMetrics \<Rightarrow> bool" where
  "counts_ok m \<longleftrightarrow> 0 \<le> bm_MessagesSucceeded m \<and> 0 \<le> bm_MessagesFailed m
     \<and> bm_MessagesProcessed m = bm_MessagesSucceeded m + bm_MessagesFailed m"

definition int_inv :: "'f floats \<Rightarrow> ('f, 'w) DataIntegrationEngine \<Rightarrow> bool" where
  "int_inv fl die \<longleftrightarrow> gm_wf (die_bridges die)
     \<and> (\<forall>bid b. gm_get (die_bridges die) bid = Some b \<longrightarrow> bridge_ok fl bid b)
     \<and> ig_TotalBridges (die_metrics die) = int (length (die_bridges die))
     \<and> ig_TotalConnectors (die_metrics die) = int (length (die_connectors die))
     \<and> (\<forall>bid m. gm_get (ig_BridgeMetrics (die_metrics die)) bid = Some m \<longrightarrow> counts_ok m)"

lemma length_gm_del_present: "gm_wf m \<Longrightarrow> gm_get m k = Some v \<Longrightarrow> Suc (length (gm_del m k)) = length m"
proof (induction m)
  case (Cons p m)
  show ?case
  proof (cases "fst p = k")
    case True
    then have "gm_del m k = m" using Cons.prems(1) by (auto simp: AList.delete_eq filter_id_conv case_prod_beta)
    then show ?thesis using True by (cases p) auto
  next
    case False
    then show ?thesis using Cons by (cases p) auto
  qed
qed simp

lemma validate_frame [simp]:
  "validateBridge (b\<lparr>br_CreatedAt := t\<rparr>) = validateBridge b" "validateBridge (b\<lparr>br_UpdatedAt := t\<rparr>) = validateBridge b"
  "validateBridge (b\<lparr>br_Status := s\<rparr>) = validateBridge b" "validateBridge (b\<lparr>br_Metrics := m\<rparr>) = validateBridge b"
  by (simp_all add: validateBridge_def)

lemma int_inv_put:
  assumes "int_inv fl die" and "gm_get (die_bridges die) bid = Some b0" and "bridge_ok fl bid b"
    and "die_bridges die' = gm_set (die_bridges die) bid b" and "die_connectors die' = die_connectors die"
    and "ig_TotalBridges (die_metrics die') = ig_TotalBridges (die_metrics die)"
    and "ig_TotalConnectors (die_metrics die') = ig_TotalConnectors (die_metrics die)"
    and "ig_BridgeMetrics (die_metrics die') = ig_BridgeMetrics (die_metrics die)"
  shows "int_inv fl die'"
  using assms by (auto simp: int_inv_def length_gm_set split: if_splits)

lemma set_active_inv:
  assumes "int_inv fl die" and "gm_get (die_bridges die) bid = Some b"
  shows "int_inv fl (set_active status change now die b bid)"
proof (rule int_inv_put [OF assms])
  have "bridge_ok fl bid b" using assms unfolding int_inv_def by blast
  then show "bridge_ok fl bid (b\<lparr>br_Status := status, br_UpdatedAt := now\<rparr>)" by (simp add: bridge_ok_def)
qed (simp_all add: set_active_def Let_def)

lemma updateBridgeMetrics_inv: "int_inv fl die \<Longrightarrow> int_inv fl (updateBridgeMetrics fl now bid ok bytes latency die)"
proof -
  assume inv: "int_inv fl die"
  have "counts_ok (gm_get0 (no_bridge_metrics fl) (ig_BridgeMetrics (die_metrics die)) bid)"
    using inv by (auto simp: gm_get0_def int_inv_def counts_ok_def no_bridge_metrics_def split: option.split)
  then show ?thesis using inv by (auto simp: int_inv_def updateBridgeMetrics_def Let_def counts_ok_def)
qed

lemma CreateBridge_inv: "int_inv fl die \<Longrightarrow> CreateBridge fl now die b = Ok die' \<Longrightarrow> int_inv fl die'"
  by (auto simp: CreateBridge_def Let_def int_inv_def bridge_ok_def length_gm_set split: option.splits if_splits)

lemma UpdateBridge_inv:
  assumes "int_inv fl die" and "UpdateBridge now die bid b = Ok die'"
  shows "int_inv fl die'"
proof -
  obtain e where e: "gm_get (die_bridges die) bid = Some e" using assms(2) by (auto simp: UpdateBridge_def split: option.splits)
  have ok: "bridge_ok fl bid e" using assms(1) e unfolding int_inv_def by blast
  let ?b = "b\<lparr>br_ID := br_ID e, br_CreatedAt := br_CreatedAt e, br_UpdatedAt := now, br_Metrics := br_Metrics e\<rparr>"
  have v: "validateBridge ?b = Ok ()" and die': "die' = die\<lparr>die_bridges := gm_set (die_bridges die) bid ?b\<rparr>"
    using assms(2) e by (auto simp: UpdateBridge_def Let_def)
  show ?thesis by (rule int_inv_put [OF assms(1) e, of ?b]) (use ok v in \<open>auto simp: bridge_ok_def die'\<close>)
qed

lemma DeleteBridge_inv:
  assumes "int_inv fl die" and "DeleteBridge die bid = Ok die'"
  shows "int_inv fl die'"
proof -
  obtain b where b: "gm_get (die_bridges die) bid = Some b" using assms(2) by (auto simp: DeleteBridge_def split: option.splits)
  have "gm_wf (die_bridges die)" using assms(1) by (simp add: int_inv_def)
  from length_gm_del_present [OF this b] have "int (length (gm_del (die_bridges die) bid)) = int (length (die_bridges die)) - 1" by linarith
  then show ?thesis using assms b by (auto simp: int_inv_def DeleteBridge_def Let_def split: if_splits)
qed

lemma EnableBridge_inv: "int_inv fl die \<Longrightarrow> EnableBridge now die bid w = ((die', w'), err) \<Longrightarrow> int_inv fl die'"
  by (auto simp: EnableBridge_def set_active_inv split: option.splits if_splits prod.splits)

lemma DisableBridge_inv: "int_inv fl die \<Longrightarrow> DisableBridge now die bid = Ok die' \<Longrightarrow> int_inv fl die'"
  by (auto simp: DisableBridge_def set_active_inv split: option.splits if_splits)

lemma RegisterConnector_inv: "int_inv fl die \<Longrightarrow> RegisterConnector die c = Ok die' \<Longrightarrow> int_inv fl die'"
  by (auto simp: RegisterConnector_def Let_def int_inv_def length_gm_set split: option.splits)

lemma RegisterDataProcessor_inv: "int_inv fl die \<Longrightarrow> RegisterDataProcessor die p = Ok die' \<Longrightarrow> int_inv fl die'"
  by (auto simp: RegisterDataProcessor_def int_inv_def split: option.splits)

lemma processThroughBridge_inv:
  "int_inv fl die \<Longrightarrow> processThroughBridge lib fl now latency b msg (die, wo, w) = Ok (die', wo', w') \<Longrightarrow> int_inv fl die'"
  by (auto simp: processThroughBridge_def Let_def updateBridgeMetrics_inv split: if_splits option.splits go.splits prod.splits)

lemma reach_int_inv: "int_reach lib fl st \<Longrightarrow> int_inv fl (fst st)"
proof (induction rule: int_reach.induct)
  case (message die ts wo w nano now topic payload qos cid headers die' wo' new)
  then show ?case by (auto simp: processMessageThroughIntegration_def ProcessMessage_def Let_def int_inv_def)
next
  case (start wo w)
  show ?case by (simp add: NewDataIntegrationEngine_def int_inv_def)
next
  case (metrics die ts wo w)
  then show ?case by (simp add: int_inv_def GetMetrics_def updateMetrics_def Let_def)
next
  case (close die ts wo w)
  then show ?case by (simp add: int_inv_def Integration_Close_def)
qed (auto dest: CreateBridge_inv UpdateBridge_inv DeleteBridge_inv EnableBridge_inv DisableBridge_inv RegisterConnector_inv
    RegisterDataProcessor_inv processThroughBridge_inv)

section \<open>What the engine guarantees\<close>


text \<open>The metrics a bridge reports about itself are always zero: only those of the engine are updated.\<close>

lemma bridge_metrics_stay_zero:
  "int_reach lib fl (die, ts, wo, w) \<Longrightarrow> GetBridge die bid = Ok b \<Longrightarrow> br_Metrics b = no_bridge_metrics fl"
  using reach_int_inv [of lib fl "(die, ts, wo, w)"] by (auto simp: GetBridge_def int_inv_def bridge_ok_def split: option.splits)

text \<open>
  Any client that may publish on the topic of an enabled bridge can bring the broker down: if the
  bridge has a JSON processor whose first transformation always writes a field, the payload \<open>null\<close>
  starts a goroutine that panics, and none of the goroutines is protected.
\<close>

lemma null_message_crashes:
  assumes "gm_get (die_bridges die) bid = Some b" and "br_Status b = ''enabled''" and "br_DataProcessor b \<noteq> []"
    and "gm_get (br_Configuration b) ''topic_filter'' \<in> {None, Some (JStr ''#''), Some (JStr topic)}"
    and "gm_get (die_processors die) (br_DataProcessor b) = Some (JSONProc jp)"
    and "jp_transformations jp = t # rest" and "always_writes t" and "jl_Decode lib payload = Some TNull"
  shows "\<exists>die' wo' tasks. processMessageThroughIntegration nano now topic payload qos cid headers (Some die, wo) = ((Some die', wo'), tasks)
    \<and> (\<exists>(bridge, msg) \<in> set tasks. processThroughBridge lib fl now latency bridge msg (die', wo', w) = Panic)"
proof -
  let ?meta = "fresh_key (wo_meta wo)"
  let ?msg = "integration_message nano now topic payload qos cid headers ?meta"
  let ?die = "fst (ProcessMessage die ?msg)" and ?wo = "wo\<lparr>wo_meta := gm_set (wo_meta wo) ?meta []\<rparr>"
  have "b \<in> snd ` set (die_bridges die)" using assms(1) by (force dest: gm_get_in)
  moreover have "shouldProcessMessage b ?msg"
    using assms(4) by (auto simp: shouldProcessMessage_def matchTopic_def integration_message_def)
  ultimately have b: "b \<in> set (snd (ProcessMessage die ?msg))" using assms(2) by (simp add: ProcessMessage_def Let_def)
  have "JSON_Process lib now jp ?msg ?wo = Panic"
    using assms(6-8) by (intro null_payload_panics) (simp_all add: integration_message_def)
  then have "processThroughBridge lib fl now latency b ?msg (?die, ?wo, w) = Panic"
    using assms(3,5) by (simp add: processThroughBridge_def ProcessMessage_def Let_def)
  then show ?thesis using b
    by (intro exI [of _ ?die] exI [of _ ?wo] exI [of _ "map (\<lambda>b. (b, ?msg)) (snd (ProcessMessage die ?msg))"])
      (auto simp: processMessageThroughIntegration_def case_prod_beta Let_def)
qed

section \<open>A bridge\<close>

definition int_floats :: "int floats" where
  "int_floats = \<lparr>fl_zero = 0, fl_of_int = id, fl_add = (+), fl_mul = (*), fl_div = (div)\<rparr>"

definition sample_bridge :: "int Bridge" where
  "sample_bridge = \<lparr>br_ID = ''b1'', br_Name = ''bridge'', br_Description = [], br_Type = ''kafka'', br_Direction = ''egress'',
     br_SourceConnector = [], br_TargetConnector = [], br_DataProcessor = ''p'', br_Configuration = [(''topic_filter'', JStr ''t'')],
     br_Status = ''disabled'', br_Metrics = no_bridge_metrics int_floats, br_CreatedAt = 3, br_UpdatedAt = 3\<rparr>"

definition bridged_engine :: "(int, unit) DataIntegrationEngine" where
  "bridged_engine = \<lparr>die_bridges = [(''b1'', sample_bridge\<lparr>br_Status := ''enabled'', br_UpdatedAt := 4\<rparr>)], die_connectors = [],
     die_processors = [(''p'', JSONProc (sample_processor [sample_transform ''enrich'' [] ''topic'' JNil]))],
     die_metrics = \<lparr>ig_TotalBridges = 1, ig_ActiveBridges = 1, ig_TotalConnectors = 0, ig_ConnectedSources = 0,
                    ig_TotalMessages = 0, ig_BridgeMetrics = []\<rparr>,
     die_cancelled = False\<rparr>"

lemma bridged_engine_reached: "int_reach tiny_json int_floats (bridged_engine, [], empty_world, ())"
proof -
  let ?p = "JSONProc (sample_processor [sample_transform ''enrich'' [] ''topic'' JNil]) :: int DataProcessor"
  let ?e0 = "NewDataIntegrationEngine\<lparr>die_processors := [(''p'', ?p)]\<rparr> :: (int, unit) DataIntegrationEngine"
  let ?m = "die_metrics (NewDataIntegrationEngine :: (int, unit) DataIntegrationEngine)"
  let ?e1 = "?e0\<lparr>die_bridges := [(''b1'', sample_bridge)], die_metrics := ?m\<lparr>ig_TotalBridges := 1\<rparr>\<rparr>"
  have "RegisterDataProcessor NewDataIntegrationEngine ?p = Ok ?e0"
    by (simp add: RegisterDataProcessor_def NewDataIntegrationEngine_def sample_processor_def)
  from processor [OF start this] have "int_reach tiny_json int_floats (?e0, [], empty_world, ())" .
  moreover have "CreateBridge int_floats 3 ?e0 sample_bridge = Ok ?e1"
    by (simp add: CreateBridge_def validateBridge_def NewDataIntegrationEngine_def sample_bridge_def Let_def)
  ultimately have "int_reach tiny_json int_floats (?e1, [], empty_world, ())" by (rule create)
  moreover have "EnableBridge 4 ?e1 ''b1'' () = ((bridged_engine, ()), None)"
    by (simp add: EnableBridge_def startBridge_def connect_if_needed_def set_active_def bridged_engine_def NewDataIntegrationEngine_def Let_def)
      (simp add: sample_bridge_def)
  ultimately show ?thesis by (rule enable)
qed


lemma null_message_crashes_witness:
  "\<exists>die' wo' tasks. processMessageThroughIntegration 1 5 ''t'' (bytes_of ''null'') 0 [] [] (Some bridged_engine, empty_world) = ((Some die', wo'), tasks)
    \<and> (\<exists>(bridge, msg) \<in> set tasks. processThroughBridge tiny_json int_floats 5 2 bridge msg (die', wo', ()) = Panic)"
  by (rule null_message_crashes [where bid = "''b1''" and b = "sample_bridge\<lparr>br_Status := ''enabled'', br_UpdatedAt := 4\<rparr>"
        and jp = "sample_processor [sample_transform ''enrich'' [] ''topic'' JNil]" and t = "sample_transform ''enrich'' [] ''topic'' JNil" and rest = "[]"])
    (simp_all add: bridged_engine_def sample_bridge_def sample_json_defs always_writes_def)

end
