(* ===== verification/Connectors.thy ===== *)
theory Connectors
  imports Json_Processor
begin

text \<open>
  Connectors to external systems, \<open>pkg/connector\<close>: what all connectors share (\<open>base.go\<close>) and the HTTP
  connector (\<open>http.go\<close>); the manager is in the theory \<open>Connector_Manager\<close>.

  The mutex of a connector matters: a goroutine that holds it and asks for it again waits for ever, and
  with it everybody who asks for it later. \<open>bc_stuck\<close> says that this has happened; every method that
  takes the lock is then \<open>Blocked\<close>. The HTTP client and the parsers of the standard library are the
  argument \<open>httplib\<close>, what they do to the outside is of type \<open>'w\<close>. Parameters are JSON values.
\<close>

section \<open>Data\<close>

datatype ConnectorState =
    StateCreated | StateStarting | StateRunning | StateStopping | StateStopped | StateFailed | StateReconnecting

record HealthCheckConfig =
  hk_Enabled :: bool
  hk_Interval :: duration
  hk_Timeout :: duration
  hk_MaxFails :: int

record 'f RetryConfig =
  ry_MaxAttempts :: int
  ry_InitialBackoff :: duration
  ry_MaxBackoff :: duration
  ry_BackoffMultiplier :: 'f

record PoolConfig =
  pl_MaxSize :: int
  pl_MinSize :: int
  pl_MaxIdle :: duration
  pl_MaxLifetime :: duration

record 'f ConnectorConfig =
  cc_ID :: string
  cc_Name :: string
  cc_Type :: string
  cc_Description :: string
  cc_Enabled :: bool
  cc_Parameters :: "(string, 'f json) gomap"
  cc_HealthCheck :: HealthCheckConfig
  cc_Retry :: "'f RetryConfig"
  cc_Pool :: PoolConfig
  cc_Tags :: "string list"
  cc_CreatedAt :: time
  cc_UpdatedAt :: time

record ConnectorMetrics =
  xm_MessagesSent :: int
  xm_MessagesReceived :: int
  xm_MessagesDropped :: int
  xm_ErrorCount :: int
  xm_SuccessCount :: int
  xm_AvgLatency :: duration
  xm_MinLatency :: duration
  xm_MaxLatency :: duration
  xm_LastMessageTime :: "time option"

record HealthStatus =
  hs_Healthy :: bool
  hs_LastCheckTime :: time
  hs_CheckCount :: int
  hs_FailureCount :: int
  hs_Message :: string

record ConnectorStatus =
  cs_ID :: string
  cs_State :: ConnectorState
  cs_LastError :: string
  cs_LastErrorTime :: "time option"
  cs_StartTime :: "time option"
  cs_UpdateTime :: time
  cs_Metrics :: ConnectorMetrics
  cs_HealthStatus :: HealthStatus
  cs_NextRetryTime :: "time option"
  cs_RetryCount :: int

record 'f BaseConnector =
  bc_config :: "'f ConnectorConfig"
  bc_state :: ConnectorState
  bc_status :: ConnectorStatus
  bc_metrics :: ConnectorMetrics
  bc_cancelled :: bool
  bc_healthChecks :: nat
  bc_retryCount :: int
  bc_lastError :: "string option"
  bc_startTime :: "time option"
  bc_stuck :: bool

datatype metavalue = MByte byte | MText string | MBytes "byte list"

record xmessage =
  xs_ID :: string
  xs_Topic :: string
  xs_Payload :: "byte list"
  xs_Headers :: "(string, string) gomap"
  xs_Timestamp :: time
  xs_Metadata :: "(string, metavalue) gomap"

record MessageResult =
  mr_MessageID :: string
  mr_Success :: bool
  mr_Error :: string
  mr_Latency :: duration
  mr_Timestamp :: time

definition no_connector_metrics :: ConnectorMetrics where
  "no_connector_metrics = \<lparr>xm_MessagesSent = 0, xm_MessagesReceived = 0, xm_MessagesDropped = 0, xm_ErrorCount = 0,
     xm_SuccessCount = 0, xm_AvgLatency = 0, xm_MinLatency = 0, xm_MaxLatency = 0, xm_LastMessageTime = None\<rparr>"

section \<open>What connectors share\<close>

definition NewBaseConnector :: "time \<Rightarrow> 'f ConnectorConfig \<Rightarrow> 'f BaseConnector" where
  "NewBaseConnector now config =
     (let config = (if cc_CreatedAt config = 0 then config\<lparr>cc_CreatedAt := now\<rparr> else config);
          config = config\<lparr>cc_UpdatedAt := now\<rparr>
      in \<lparr>bc_config = config, bc_state = StateCreated,
          bc_status = \<lparr>cs_ID = cc_ID config, cs_State = StateCreated, cs_LastError = [], cs_LastErrorTime = None, cs_StartTime = None, cs_UpdateTime = now,
                       cs_Metrics = no_connector_metrics,
                       cs_HealthStatus = \<lparr>hs_Healthy = False, hs_LastCheckTime = now, hs_CheckCount = 0, hs_FailureCount = 0, hs_Message = []\<rparr>,
                       cs_NextRetryTime = None, cs_RetryCount = 0\<rparr>,
          bc_metrics = no_connector_metrics, bc_cancelled = False, bc_healthChecks = 0, bc_retryCount = 0, bc_lastError = None,
          bc_startTime = None, bc_stuck = False\<rparr>)"

text \<open>A body between \<open>bc.mu.Lock()\<close> and its release.\<close>

definition under_lock :: "'f BaseConnector \<Rightarrow> 'a \<Rightarrow> (string, 'a) go" where
  "under_lock bc x = (if bc_stuck bc then Blocked else Ok x)"

definition GetConfig :: "'f BaseConnector \<Rightarrow> (string, 'f ConnectorConfig) go" where
  "GetConfig bc = under_lock bc (bc_config bc)"

definition Status :: "time \<Rightarrow> 'f BaseConnector \<Rightarrow> (string, ConnectorStatus) go" where
  "Status now bc =
     under_lock bc ((bc_status bc)\<lparr>cs_Metrics := bc_metrics bc, cs_UpdateTime := now, cs_RetryCount := bc_retryCount bc\<rparr>)"

definition GetConnectorMetrics :: "'f BaseConnector \<Rightarrow> (string, ConnectorMetrics) go" where
  "GetConnectorMetrics bc = under_lock bc (bc_metrics bc)"

definition ResetMetrics :: "'f BaseConnector \<Rightarrow> (string, 'f BaseConnector) go" where
  "ResetMetrics bc = under_lock bc (bc\<lparr>bc_metrics := no_connector_metrics\<rparr>)"

definition IsRunning :: "'f BaseConnector \<Rightarrow> (string, bool) go" where
  "IsRunning bc = under_lock bc (bc_state bc = StateRunning)"

definition UpdateConfig :: "time \<Rightarrow> 'f ConnectorConfig \<Rightarrow> 'f BaseConnector \<Rightarrow> (string, 'f BaseConnector) go" where
  "UpdateConfig now config bc =
     (if bc_stuck bc then Blocked
      else if cc_ID config \<noteq> cc_ID (bc_config bc) then Err ''cannot change connector ID''
      else if cc_Type config \<noteq> cc_Type (bc_config bc) then Err ''cannot change connector type''
      else Ok (bc\<lparr>bc_config := config\<lparr>cc_CreatedAt := cc_CreatedAt (bc_config bc), cc_UpdatedAt := now\<rparr>,
                  bc_status := (bc_status bc)\<lparr>cs_UpdateTime := now\<rparr>\<rparr>))"

definition setState :: "time \<Rightarrow> ConnectorState \<Rightarrow> 'f BaseConnector \<Rightarrow> (string, 'f BaseConnector) go" where
  "setState now state bc =
     under_lock bc (bc\<lparr>bc_state := state, bc_status := (bc_status bc)\<lparr>cs_State := state, cs_UpdateTime := now\<rparr>\<rparr>)"

definition setError :: "time \<Rightarrow> string \<Rightarrow> 'f BaseConnector \<Rightarrow> (string, 'f BaseConnector) go" where
  "setError now err bc =
     under_lock bc (bc\<lparr>bc_lastError := Some err,
       bc_status := (bc_status bc)\<lparr>cs_LastError := err, cs_LastErrorTime := Some now\<rparr>,
       bc_metrics := (bc_metrics bc)\<lparr>xm_ErrorCount := xm_ErrorCount (bc_metrics bc) + 1\<rparr>,
       bc_retryCount := bc_retryCount bc + 1\<rparr>)"

definition add_latency :: "time \<Rightarrow> duration \<Rightarrow> ConnectorMetrics \<Rightarrow> ConnectorMetrics" where
  "add_latency now latency m =
     m\<lparr>xm_SuccessCount := xm_SuccessCount m + 1,
       xm_MinLatency := (if xm_MinLatency m = 0 \<or> latency < xm_MinLatency m then latency else xm_MinLatency m),
       xm_MaxLatency := (if latency > xm_MaxLatency m then latency else xm_MaxLatency m),
       xm_AvgLatency := (if xm_AvgLatency m = 0 then latency else (xm_AvgLatency m + latency) div 2),
       xm_LastMessageTime := Some now\<rparr>"

definition recordSuccess :: "time \<Rightarrow> duration \<Rightarrow> 'f BaseConnector \<Rightarrow> (string, 'f BaseConnector) go" where
  "recordSuccess now latency bc = under_lock bc (bc\<lparr>bc_metrics := add_latency now latency (bc_metrics bc)\<rparr>)"

text \<open>These three are atomic additions without the lock.\<close>

definition recordSentMessage :: "'f BaseConnector \<Rightarrow> 'f BaseConnector" where
  "recordSentMessage bc = bc\<lparr>bc_metrics := (bc_metrics bc)\<lparr>xm_MessagesSent := xm_MessagesSent (bc_metrics bc) + 1\<rparr>\<rparr>"

definition recordReceivedMessage :: "'f BaseConnector \<Rightarrow> 'f BaseConnector" where
  "recordReceivedMessage bc = bc\<lparr>bc_metrics := (bc_metrics bc)\<lparr>xm_MessagesReceived := xm_MessagesReceived (bc_metrics bc) + 1\<rparr>\<rparr>"

definition recordDroppedMessage :: "'f BaseConnector \<Rightarrow> 'f BaseConnector" where
  "recordDroppedMessage bc = bc\<lparr>bc_metrics := (bc_metrics bc)\<lparr>xm_MessagesDropped := xm_MessagesDropped (bc_metrics bc) + 1\<rparr>\<rparr>"

text \<open>
  The number of goroutines started to check the health; none of them ends before \<open>Close\<close>. An interval of
  zero means the default, and \<open>time.NewTicker\<close> panics on a negative one.
\<close>

definition startHealthCheck :: "'f BaseConnector \<Rightarrow> (string, 'f BaseConnector) go" where
  "startHealthCheck bc =
     (if \<not> hk_Enabled (cc_HealthCheck (bc_config bc)) then Ok bc
      else if hk_Interval (cc_HealthCheck (bc_config bc)) < 0 then Panic
      else Ok (bc\<lparr>bc_healthChecks := Suc (bc_healthChecks bc)\<rparr>))"

text \<open>
  \<open>performHealthCheck\<close> with the result of the check, \<open>None\<close> for success. When the failures reach the
  maximum it calls \<open>setState\<close>, which asks for the lock that \<open>performHealthCheck\<close> holds: the call does
  not return and the lock is never released.
\<close>

definition performHealthCheck :: "time \<Rightarrow> string option \<Rightarrow> 'f BaseConnector \<Rightarrow> (string, 'f BaseConnector) go" where
  "performHealthCheck now result bc =
     (if bc_stuck bc then Blocked
      else
        let hs = (cs_HealthStatus (bc_status bc))\<lparr>hs_LastCheckTime := now, hs_CheckCount := hs_CheckCount (cs_HealthStatus (bc_status bc)) + 1\<rparr>;
            put = (\<lambda>hs bc. bc\<lparr>bc_status := (bc_status bc)\<lparr>cs_HealthStatus := hs\<rparr>\<rparr>);
            maxFails = hk_MaxFails (cc_HealthCheck (bc_config bc))
        in case result of
             Some err \<Rightarrow>
               let hs1 = hs\<lparr>hs_Healthy := False, hs_FailureCount := hs_FailureCount hs + 1, hs_Message := err\<rparr>
               in if maxFails > 0 \<and> hs_FailureCount hs1 \<ge> maxFails then Ok ((put hs1 bc)\<lparr>bc_stuck := True\<rparr>)
                  else Ok (put hs1 bc)
           | None \<Rightarrow> Ok (put (hs\<lparr>hs_Healthy := True, hs_Message := [], hs_FailureCount := 0\<rparr>) bc))"

definition Base_Close :: "time \<Rightarrow> 'f BaseConnector \<Rightarrow> (string, 'f BaseConnector) go" where
  "Base_Close now bc = setState now StateStopped (bc\<lparr>bc_cancelled := True\<rparr>)"

definition DefaultHealthCheckConfig :: HealthCheckConfig where
  "DefaultHealthCheckConfig = \<lparr>hk_Enabled = True, hk_Interval = 30 * second, hk_Timeout = 10 * second, hk_MaxFails = 3\<rparr>"

section \<open>The HTTP connector\<close>

record BasicAuth =
  ba_Username :: string
  ba_Password :: string

record HTTPConnectorConfig =
  hp_URL :: string
  hp_Method :: string
  hp_Headers :: "(string, string) gomap"
  hp_Timeout :: duration
  hp_MaxIdleConns :: int
  hp_MaxConnsPerHost :: int
  hp_IdleConnTimeout :: duration
  hp_TLSHandshakeTimeout :: duration
  hp_ExpectContinueTimeout :: duration
  hp_InsecureSkipVerify :: bool
  hp_EnableKeepAlive :: bool
  hp_BasicAuth :: "BasicAuth option"
  hp_BearerToken :: string
  hp_RequestTemplate :: string
  hp_ResponseHandler :: string

record hrequest =
  rq_Method :: string
  rq_URL :: string
  rq_Body :: "byte list option"
  rq_Header :: "(string, string) gomap"

text \<open>
  The library: the canonical form of a header name, the value of a basic authentication header, whether a
  request can be built (an error if not), the exchange (an error, or status and body), and the parsers of
  URLs, durations and integers.
\<close>

record ('f, 'w) httplib =
  ht_Canonical :: "string \<Rightarrow> string"
  ht_Basic :: "string \<Rightarrow> string \<Rightarrow> string"
  ht_NewRequest :: "string \<Rightarrow> string \<Rightarrow> string option"
  ht_Do :: "hrequest \<Rightarrow> 'w \<Rightarrow> (string + int \<times> string) \<times> 'w"
  ht_ParseURL :: "string \<Rightarrow> string option"
  ht_ParseDuration :: "string \<Rightarrow> duration option"
  ht_Atoi :: "string \<Rightarrow> int option"
  ht_ToUpper :: "string \<Rightarrow> string"
  ht_int_of_float :: "'f \<Rightarrow> int"

record 'f HTTPConnector =
  hc_base :: "'f BaseConnector"
  hc_config :: HTTPConnectorConfig

definition convertToInt :: "('f, 'w) httplib \<Rightarrow> 'f json \<Rightarrow> int option" where
  "convertToInt lib v =
     (case v of
        TInt n \<Rightarrow> Some n
      | TNum x \<Rightarrow> Some (ht_int_of_float lib x)
      | TStr s \<Rightarrow> ht_Atoi lib s
      | _ \<Rightarrow> None)"

definition string_or :: "(string, 'f json) gomap \<Rightarrow> string \<Rightarrow> string \<Rightarrow> string" where
  "string_or params key old = (case gm_get params key of Some (TStr s) \<Rightarrow> s | _ \<Rightarrow> old)"

definition bool_or :: "(string, 'f json) gomap \<Rightarrow> string \<Rightarrow> bool \<Rightarrow> bool" where
  "bool_or params key old = (case gm_get params key of Some (TBool b) \<Rightarrow> b | _ \<Rightarrow> old)"

definition int_or :: "('f, 'w) httplib \<Rightarrow> (string, 'f json) gomap \<Rightarrow> string \<Rightarrow> int \<Rightarrow> int" where
  "int_or lib params key old =
     (case gm_get params key of None \<Rightarrow> old | Some v \<Rightarrow> (case convertToInt lib v of None \<Rightarrow> old | Some n \<Rightarrow> n))"

definition duration_or :: "('f, 'w) httplib \<Rightarrow> (string, 'f json) gomap \<Rightarrow> string \<Rightarrow> duration \<Rightarrow> duration" where
  "duration_or lib params key old =
     (case gm_get params key of
        Some (TStr s) \<Rightarrow> (case ht_ParseDuration lib s of None \<Rightarrow> old | Some d \<Rightarrow> d)
      | _ \<Rightarrow> old)"

definition timeout_or :: "('f, 'w) httplib \<Rightarrow> (string, 'f json) gomap \<Rightarrow> duration \<Rightarrow> duration" where
  "timeout_or lib params old =
     (case gm_get params ''timeout'' of
        Some (TNum x) \<Rightarrow> ht_int_of_float lib x * second
      | _ \<Rightarrow> duration_or lib params ''timeout'' old)"

definition header_params :: "'f json \<Rightarrow> (string, string) gomap" where
  "header_params v =
     (case v of TObj hs \<Rightarrow> foldl (\<lambda>m (k, v). case v of TStr s \<Rightarrow> gm_set m k s | _ \<Rightarrow> m) [] hs | _ \<Rightarrow> [])"

definition parseHTTPConfig :: "('f, 'w) httplib \<Rightarrow> (string, 'f json) gomap \<Rightarrow> (string, HTTPConnectorConfig) go" where
  "parseHTTPConfig lib params =
     (case gm_get params ''url'' of
        Some (TStr urlStr) \<Rightarrow>
          (case ht_ParseURL lib urlStr of
             Some err \<Rightarrow> Err (''invalid URL: '' @ err)
           | None \<Rightarrow>
               Ok \<lparr>hp_URL = urlStr,
                   hp_Method = (case gm_get params ''method'' of Some (TStr s) \<Rightarrow> ToUpper (ht_ToUpper lib) s | _ \<Rightarrow> ''POST''),
                   hp_Headers = (case gm_get params ''headers'' of Some v \<Rightarrow> header_params v | None \<Rightarrow> []),
                   hp_Timeout = timeout_or lib params (30 * second),
                   hp_MaxIdleConns = int_or lib params ''max_idle_conns'' 100,
                   hp_MaxConnsPerHost = int_or lib params ''max_conns_per_host'' 10,
                   hp_IdleConnTimeout = duration_or lib params ''idle_conn_timeout'' (90 * second),
                   hp_TLSHandshakeTimeout = duration_or lib params ''tls_handshake_timeout'' (10 * second),
                   hp_ExpectContinueTimeout = duration_or lib params ''expect_continue_timeout'' second,
                   hp_InsecureSkipVerify = bool_or params ''insecure_skip_verify'' False,
                   hp_EnableKeepAlive = bool_or params ''enable_keepalive'' True,
                   hp_BasicAuth = (case gm_get params ''basic_auth'' of
                                     Some (TObj m) \<Rightarrow> Some \<lparr>ba_Username = string_or m ''username'' [], ba_Password = string_or m ''password'' []\<rparr>
                                   | _ \<Rightarrow> None),
                   hp_BearerToken = string_or params ''bearer_token'' [],
                   hp_RequestTemplate = string_or params ''request_template'' [],
                   hp_ResponseHandler = string_or params ''response_handler'' []\<rparr>)
      | _ \<Rightarrow> Err ''url is required'')"

definition HTTP_Create :: "('f, 'w) httplib \<Rightarrow> time \<Rightarrow> 'f ConnectorConfig \<Rightarrow> (string, 'f HTTPConnector) go" where
  "HTTP_Create lib now config =
     go_bind (parseHTTPConfig lib (cc_Parameters config)) (\<lambda>httpConfig.
       Ok \<lparr>hc_base = NewBaseConnector now config, hc_config = httpConfig\<rparr>)"

definition HTTP_ValidateConfig :: "('f, 'w) httplib \<Rightarrow> 'f ConnectorConfig \<Rightarrow> (string, unit) go" where
  "HTTP_ValidateConfig lib config = go_bind (parseHTTPConfig lib (cc_Parameters config)) (\<lambda>_. Ok ())"

definition set_header :: "('f, 'w) httplib \<Rightarrow> (string, string) gomap \<Rightarrow> string \<Rightarrow> string \<Rightarrow> (string, string) gomap" where
  "set_header lib h k v = gm_set h (ht_Canonical lib k) v"

definition set_headers :: "('f, 'w) httplib \<Rightarrow> (string, string) gomap \<Rightarrow> (string, string) gomap \<Rightarrow> (string, string) gomap" where
  "set_headers lib new h = foldl (\<lambda>h (k, v). set_header lib h k v) h new"

definition addAuthentication :: "('f, 'w) httplib \<Rightarrow> HTTPConnectorConfig \<Rightarrow> (string, string) gomap \<Rightarrow> (string, string) gomap" where
  "addAuthentication lib config h =
     (let h1 = (case hp_BasicAuth config of
                  None \<Rightarrow> h
                | Some ba \<Rightarrow> set_header lib h ''Authorization'' (''Basic '' @ ht_Basic lib (ba_Username ba) (ba_Password ba)))
      in if hp_BearerToken config \<noteq> [] then set_header lib h1 ''Authorization'' (''Bearer '' @ hp_BearerToken config) else h1)"

definition HTTP_HealthCheck :: "('f, 'w) httplib \<Rightarrow> 'f HTTPConnector \<Rightarrow> 'w \<Rightarrow> string option \<times> 'w" where
  "HTTP_HealthCheck lib hc w =
     (let config = hc_config hc; mth = (if hp_Method config = ''GET'' then ''GET'' else ''HEAD'')
      in case ht_NewRequest lib mth (hp_URL config) of
           Some err \<Rightarrow> (Some (''failed to create health check request: '' @ err), w)
         | None \<Rightarrow>
             (case ht_Do lib \<lparr>rq_Method = mth, rq_URL = hp_URL config, rq_Body = None,
                     rq_Header = addAuthentication lib config (set_headers lib (hp_Headers config) [])\<rparr> w of
                (Inl err, w') \<Rightarrow> (Some (''health check request failed: '' @ err), w')
              | (Inr (code, _), w') \<Rightarrow>
                  (if code \<ge> 400 then Some (''health check failed with status: '' @ show_int code) else None, w')))"

text \<open>The result of a method: the connector and the outside after it, and the error, if any.\<close>

type_synonym ('f, 'w) http_result = "(string, ('f HTTPConnector \<times> 'w) \<times> string option) go"

definition with_base :: "'f HTTPConnector \<Rightarrow> (string, 'f BaseConnector) go \<Rightarrow> ('f HTTPConnector \<Rightarrow> (string, 'a) go) \<Rightarrow> (string, 'a) go" where
  "with_base hc r k = go_bind r (\<lambda>bc. k (hc\<lparr>hc_base := bc\<rparr>))"

definition HTTP_Start :: "('f, 'w) httplib \<Rightarrow> time \<Rightarrow> 'f HTTPConnector \<Rightarrow> 'w \<Rightarrow> ('f, 'w) http_result" where
  "HTTP_Start lib now hc w =
     go_bind (IsRunning (hc_base hc)) (\<lambda>running.
       if running then Ok ((hc, w), Some ''connector is already running'')
       else with_base hc (setState now StateStarting (hc_base hc)) (\<lambda>hc1.
         case HTTP_HealthCheck lib hc1 w of
           (Some err, w') \<Rightarrow>
             with_base hc1 (setError now err (hc_base hc1)) (\<lambda>hc2.
             with_base hc2 (setState now StateFailed (hc_base hc2)) (\<lambda>hc3. Ok ((hc3, w'), Some err)))
         | (None, w') \<Rightarrow>
             with_base hc1 (setState now StateRunning ((hc_base hc1)\<lparr>bc_startTime := Some now\<rparr>)) (\<lambda>hc2.
             with_base hc2 (startHealthCheck (hc_base hc2)) (\<lambda>hc3. Ok ((hc3, w'), None)))))"

definition HTTP_Stop :: "time \<Rightarrow> 'f HTTPConnector \<Rightarrow> 'w \<Rightarrow> ('f, 'w) http_result" where
  "HTTP_Stop now hc w =
     go_bind (IsRunning (hc_base hc)) (\<lambda>running.
       if \<not> running then Ok ((hc, w), Some ''connector is not running'')
       else with_base hc (setState now StateStopping (hc_base hc)) (\<lambda>hc1.
            with_base hc1 (setState now StateStopped (hc_base hc1)) (\<lambda>hc2. Ok ((hc2, w), None))))"

definition HTTP_Restart :: "('f, 'w) httplib \<Rightarrow> time \<Rightarrow> 'f HTTPConnector \<Rightarrow> 'w \<Rightarrow> ('f, 'w) http_result" where
  "HTTP_Restart lib now hc w =
     go_bind (HTTP_Stop now hc w) (\<lambda>((hc1, w1), err).
       case err of Some e \<Rightarrow> Ok ((hc1, w1), Some e) | None \<Rightarrow> HTTP_Start lib now hc1 w1)"

text \<open>A failed send: the error is recorded, the message counts as dropped.\<close>

definition send_failed :: "time \<Rightarrow> MessageResult \<Rightarrow> string \<Rightarrow> string \<Rightarrow> 'f HTTPConnector \<Rightarrow> 'w
    \<Rightarrow> (string, ('f HTTPConnector \<times> 'w) \<times> MessageResult option \<times> string option) go" where
  "send_failed now res text err hc w =
     with_base hc (setError now err (hc_base hc)) (\<lambda>hc1.
       Ok ((hc1\<lparr>hc_base := recordDroppedMessage (hc_base hc1)\<rparr>, w), Some (res\<lparr>mr_Error := text\<rparr>), Some err))"

definition http_request_of :: "('f, 'w) httplib \<Rightarrow> HTTPConnectorConfig \<Rightarrow> xmessage \<Rightarrow> hrequest" where
  "http_request_of lib config msg =
     (let h = set_headers lib (xs_Headers msg) (set_headers lib (hp_Headers config) []);
          h' = (if xs_Topic msg \<noteq> [] then set_header lib h ''X-MQTT-Topic'' (xs_Topic msg) else h)
      in \<lparr>rq_Method = hp_Method config, rq_URL = hp_URL config,
          rq_Body = (if xs_Payload msg = [] then None else Some (xs_Payload msg)), rq_Header = addAuthentication lib config h'\<rparr>)"

definition HTTP_Send :: "('f, 'w) httplib \<Rightarrow> time \<Rightarrow> duration \<Rightarrow> 'f HTTPConnector \<Rightarrow> xmessage \<Rightarrow> 'w
    \<Rightarrow> (string, ('f HTTPConnector \<times> 'w) \<times> MessageResult option \<times> string option) go" where
  "HTTP_Send lib now latency hc msg w =
     go_bind (IsRunning (hc_base hc)) (\<lambda>running.
       if \<not> running then Ok ((hc, w), None, Some ''connector is not running'')
       else
         let config = hc_config hc;
             res = \<lparr>mr_MessageID = xs_ID msg, mr_Success = False, mr_Error = [], mr_Latency = 0, mr_Timestamp = now\<rparr>
         in case ht_NewRequest lib (hp_Method config) (hp_URL config) of
              Some err \<Rightarrow> send_failed now res err err hc w
            | None \<Rightarrow>
                (case ht_Do lib (http_request_of lib config msg) w of
                   (Inl err, w') \<Rightarrow> send_failed now res err err hc w'
                 | (Inr (code, body), w') \<Rightarrow>
                     if code \<ge> 400
                     then send_failed now (res\<lparr>mr_Latency := latency\<rparr>) (''HTTP '' @ show_int code @ '': '' @ body)
                            (''HTTP request failed with status '' @ show_int code) hc w'
                     else with_base hc (recordSuccess now latency (hc_base hc)) (\<lambda>hc1.
                            Ok ((hc1\<lparr>hc_base := recordSentMessage (hc_base hc1)\<rparr>, w'),
                                Some (res\<lparr>mr_Latency := latency, mr_Success := True\<rparr>), None))))"

fun HTTP_SendBatch :: "('f, 'w) httplib \<Rightarrow> time \<Rightarrow> duration \<Rightarrow> 'f HTTPConnector \<Rightarrow> xmessage list \<Rightarrow> 'w
    \<Rightarrow> (string, ('f HTTPConnector \<times> 'w) \<times> MessageResult option list) go" where
  "HTTP_SendBatch lib now latency hc [] w = Ok ((hc, w), [])"
| "HTTP_SendBatch lib now latency hc (msg # msgs) w =
     go_bind (HTTP_Send lib now latency hc msg w) (\<lambda>((hc1, w1), r, err).
     go_bind (HTTP_SendBatch lib now latency hc1 msgs w1) (\<lambda>(st, rs). Ok (st, r # rs)))"

definition HTTP_Close :: "time \<Rightarrow> 'f HTTPConnector \<Rightarrow> (string, 'f HTTPConnector) go" where
  "HTTP_Close now hc = with_base hc (Base_Close now (hc_base hc)) Ok"

text \<open>\<open>UpdateConfig\<close> is the one of the base: the HTTP settings stay as they were.\<close>

definition HTTP_UpdateConfig :: "time \<Rightarrow> 'f ConnectorConfig \<Rightarrow> 'f HTTPConnector \<Rightarrow> (string, 'f HTTPConnector) go" where
  "HTTP_UpdateConfig now config hc = with_base hc (UpdateConfig now config (hc_base hc)) Ok"

section \<open>Health checks\<close>

text \<open>The goroutine of \<open>startHealthCheck\<close>: one check per tick, with the time and the result of each.\<close>

fun health_loop :: "(time \<times> string option) list \<Rightarrow> 'f BaseConnector \<Rightarrow> (string, 'f BaseConnector) go" where
  "health_loop [] bc = Ok bc"
| "health_loop ((now, result) # ticks) bc = go_bind (performHealthCheck now result bc) (health_loop ticks)"

text \<open>How many of the last checks failed, without a success in between.\<close>

definition failed_in_a_row :: "(time \<times> string option) list \<Rightarrow> int" where
  "failed_in_a_row ticks = int (length (takeWhile (\<lambda>t. snd t \<noteq> None) (rev ticks)))"

definition fails :: "'f BaseConnector \<Rightarrow> int" where
  "fails bc = hs_FailureCount (cs_HealthStatus (bc_status bc))"

definition max_fails :: "'f BaseConnector \<Rightarrow> int" where
  "max_fails bc = hk_MaxFails (cc_HealthCheck (bc_config bc))"

lemma failed_in_a_row_snoc:
  "failed_in_a_row (ticks @ [t]) = (if snd t = None then 0 else failed_in_a_row ticks + 1)"
  by (simp add: failed_in_a_row_def)

lemma performHealthCheck_running:
  assumes "\<not> bc_stuck bc" and "max_fails bc > 0"
  shows "\<exists>bc'. performHealthCheck now result bc = Ok bc' \<and> bc_config bc' = bc_config bc \<and> bc_state bc' = bc_state bc
    \<and> fails bc' = (if result = None then 0 else fails bc + 1)
    \<and> bc_stuck bc' = (result \<noteq> None \<and> fails bc + 1 \<ge> max_fails bc)"
  using assms by (auto simp: performHealthCheck_def fails_def max_fails_def Let_def split: option.splits)

lemma health_loop_snoc: "health_loop (ticks @ [(now, result)]) bc = go_bind (health_loop ticks bc) (performHealthCheck now result)"
proof (induction ticks bc rule: health_loop.induct)
  case (1 bc)
  show ?case by (cases "performHealthCheck now result bc") auto
next
  case (2 now' result' ticks bc)
  then show ?case by (cases "performHealthCheck now' result' bc") auto
qed

lemma health_loop_counts:
  assumes "\<not> bc_stuck bc" and "fails bc = 0" and "max_fails bc > 0"
    and "\<forall>k \<le> length ticks. failed_in_a_row (take k ticks) < max_fails bc"
  shows "\<exists>bc'. health_loop ticks bc = Ok bc' \<and> bc_config bc' = bc_config bc \<and> bc_state bc' = bc_state bc
    \<and> \<not> bc_stuck bc' \<and> fails bc' = failed_in_a_row ticks"
  using assms(4)
proof (induction ticks rule: rev_induct)
  case Nil
  then show ?case using assms by (simp add: failed_in_a_row_def)
next
  case (snoc t ticks)
  have all: "failed_in_a_row (take k ticks) < max_fails bc" if "k \<le> length ticks" for k
    using snoc.prems that by (auto dest: spec [of _ k])
  then obtain bc1 where 1: "health_loop ticks bc = Ok bc1" "bc_config bc1 = bc_config bc" "bc_state bc1 = bc_state bc"
      "\<not> bc_stuck bc1" "fails bc1 = failed_in_a_row ticks"
    using snoc.IH by blast
  have "failed_in_a_row (ticks @ [t]) < max_fails bc" using snoc.prems by (auto dest: spec [of _ "Suc (length ticks)"])
  moreover have "max_fails bc1 = max_fails bc" using 1 by (simp add: max_fails_def)
  ultimately show ?case
    using performHealthCheck_running [OF 1(4), of "fst t" "snd t"] 1 assms(3)
    by (cases t) (auto simp: health_loop_snoc failed_in_a_row_snoc split: if_splits)
qed

text \<open>Once the lock is lost every method that takes it waits for ever.\<close>

lemma stuck_blocks:
  assumes "bc_stuck bc"
  shows "GetConfig bc = Blocked" and "Status now bc = Blocked" and "GetConnectorMetrics bc = Blocked"
    and "ResetMetrics bc = Blocked" and "IsRunning bc = Blocked" and "UpdateConfig now config bc = Blocked"
    and "performHealthCheck now result bc = Blocked" and "Base_Close now bc = Blocked" and "setState now state bc = Blocked"
  using assms by (simp_all add: GetConfig_def Status_def GetConnectorMetrics_def ResetMetrics_def IsRunning_def UpdateConfig_def
      performHealthCheck_def Base_Close_def setState_def under_lock_def)

lemma stuck_http_blocks:
  assumes "bc_stuck (hc_base hc)"
  shows "HTTP_Start lib now hc w = Blocked" and "HTTP_Stop now hc w = Blocked" and "HTTP_Restart lib now hc w = Blocked"
    and "HTTP_Send lib now latency hc msg w = Blocked" and "HTTP_Close now hc = Blocked" and "HTTP_UpdateConfig now config hc = Blocked"
  using stuck_blocks [OF assms]
  by (simp_all add: HTTP_Start_def HTTP_Stop_def HTTP_Restart_def HTTP_Send_def HTTP_Close_def HTTP_UpdateConfig_def with_base_def)

lemma health_loop_blocked: "bc_stuck bc \<Longrightarrow> ticks \<noteq> [] \<Longrightarrow> health_loop ticks bc = Blocked"
  by (cases ticks) (auto simp: stuck_blocks)

lemma health_loop_append: "health_loop (xs @ ys) bc = go_bind (health_loop xs bc) (health_loop ys)"
proof (induction xs bc rule: health_loop.induct)
  case (1 bc)
  show ?case by simp
next
  case (2 now result ticks bc)
  then show ?case by (cases "performHealthCheck now result bc") auto
qed

lemma health_loop_deadlock:
  assumes "\<not> bc_stuck bc" and "fails bc = 0" and "max_fails bc > 0"
    and "\<forall>k < length ticks. failed_in_a_row (take k ticks) < max_fails bc" and "failed_in_a_row ticks \<ge> max_fails bc"
  shows "\<exists>bc'. health_loop ticks bc = Ok bc' \<and> bc_state bc' = bc_state bc \<and> bc_stuck bc'"
proof (cases ticks rule: rev_cases)
  case Nil
  then show ?thesis using assms by (simp add: failed_in_a_row_def)
next
  case (snoc ts t)
  have "\<forall>k \<le> length ts. failed_in_a_row (take k ts) < max_fails bc"
    using assms(4) snoc by (auto simp: less_Suc_eq_le [symmetric])
  from health_loop_counts [OF assms(1-3) this] obtain bc1
    where 1: "health_loop ts bc = Ok bc1" "bc_config bc1 = bc_config bc" "bc_state bc1 = bc_state bc"
      "\<not> bc_stuck bc1" "fails bc1 = failed_in_a_row ts" by blast
  moreover have "max_fails bc1 = max_fails bc" using 1 by (simp add: max_fails_def)
  ultimately show ?thesis
    using performHealthCheck_running [OF 1(4), of "fst t" "snd t"] assms(3,5) snoc
    by (cases t) (auto simp: health_loop_snoc failed_in_a_row_snoc split: if_splits)
qed

lemma health_loop_end:
  assumes "\<not> bc_stuck bc" and "fails bc = 0" and "max_fails bc > 0"
  shows "(\<exists>bc'. health_loop ticks bc = Ok bc' \<and> \<not> bc_stuck bc') \<longleftrightarrow> (\<forall>k \<le> length ticks. failed_in_a_row (take k ticks) < max_fails bc)"
proof
  assume ok: "\<exists>bc'. health_loop ticks bc = Ok bc' \<and> \<not> bc_stuck bc'"
  show "\<forall>k \<le> length ticks. failed_in_a_row (take k ticks) < max_fails bc"
  proof (rule ccontr)
    let ?bad = "\<lambda>k. k \<le> length ticks \<and> failed_in_a_row (take k ticks) \<ge> max_fails bc"
    assume "\<not> (\<forall>k \<le> length ticks. failed_in_a_row (take k ticks) < max_fails bc)"
    then have "\<exists>k. ?bad k" by (auto simp: not_less)
    then have bad: "?bad (LEAST k. ?bad k)" and least: "\<And>j. j < (LEAST k. ?bad k) \<Longrightarrow> \<not> ?bad j"
      by (rule LeastI_ex) (rule not_less_Least)
    define k where "k = (LEAST k. ?bad k)"
    have "\<forall>j < length (take k ticks). failed_in_a_row (take j (take k ticks)) < max_fails bc"
      using least bad by (auto simp: k_def [symmetric] min_def not_le)
    with bad obtain bc' where bc': "health_loop (take k ticks) bc = Ok bc'" "bc_stuck bc'"
      using health_loop_deadlock [OF assms, of "take k ticks"] by (auto simp: k_def)
    have "health_loop ticks bc = health_loop (drop k ticks) bc'"
      using health_loop_append [of "take k ticks" "drop k ticks" bc] bc' by simp
    with ok bc' show False using health_loop_blocked [of bc' "drop k ticks"] by (cases "drop k ticks = []") auto
  qed
next
  assume "\<forall>k \<le> length ticks. failed_in_a_row (take k ticks) < max_fails bc"
  from health_loop_counts [OF assms this] show "\<exists>bc'. health_loop ticks bc = Ok bc' \<and> \<not> bc_stuck bc'" by blast
qed


section \<open>Metrics\<close>

text \<open>The latencies of the messages sent since the metrics were reset, the last one first.\<close>

definition latencies_recorded :: "duration list \<Rightarrow> ConnectorMetrics \<Rightarrow> bool" where
  "latencies_recorded ls m \<longleftrightarrow>
     xm_SuccessCount m = int (length ls)
     \<and> (ls \<noteq> [] \<longrightarrow> xm_MinLatency m = Min (set ls) \<and> xm_MaxLatency m = Max (set ls)
                  \<and> xm_MinLatency m \<le> xm_AvgLatency m \<and> xm_AvgLatency m \<le> xm_MaxLatency m)
     \<and> (ls = [] \<longrightarrow> xm_MinLatency m = 0 \<and> xm_MaxLatency m = 0 \<and> xm_AvgLatency m = 0)"

lemma add_latency_recorded:
  assumes "latencies_recorded ls m" and "\<forall>l \<in> set ls. l > 0" and "l > 0"
  shows "latencies_recorded (l # ls) (add_latency now l m)"
proof (cases "ls = []")
  case True
  with assms show ?thesis by (auto simp: latencies_recorded_def add_latency_def)
next
  case False
  define lo hi av where "lo = xm_MinLatency m" and "hi = xm_MaxLatency m" and "av = xm_AvgLatency m"
  have m: "lo = Min (set ls)" "hi = Max (set ls)" "lo \<le> av" "av \<le> hi" "xm_SuccessCount m = int (length ls)"
    using assms(1) False by (simp_all add: latencies_recorded_def lo_def hi_def av_def)
  have "lo > 0" using assms(2) False m(1) by (simp add: Min_gr_iff)
  then have "xm_MinLatency (add_latency now l m) = min l lo" and "xm_MaxLatency (add_latency now l m) = max l hi"
    and "xm_AvgLatency (add_latency now l m) = (av + l) div 2"
    using m by (simp_all add: add_latency_def lo_def [symmetric] hi_def [symmetric] av_def [symmetric] min_def max_def)
  moreover have "min l lo \<le> (av + l) div 2" and "(av + l) div 2 \<le> max l hi" using m(3,4) unfolding min_def max_def by presburger+
  moreover have "xm_SuccessCount (add_latency now l m) = int (length (l # ls))" using m by (simp add: add_latency_def)
  ultimately show ?thesis using False m(1,2) by (simp add: latencies_recorded_def)
qed

text \<open>An operation of the HTTP connector keeps the state and its copy in the status equal, and counts every send once.\<close>

definition http_inv :: "'f HTTPConnector \<Rightarrow> bool" where
  "http_inv hc \<longleftrightarrow>
     cs_State (bc_status (hc_base hc)) = bc_state (hc_base hc)
     \<and> xm_SuccessCount (bc_metrics (hc_base hc)) = xm_MessagesSent (bc_metrics (hc_base hc))
     \<and> xm_MessagesDropped (bc_metrics (hc_base hc)) \<le> xm_ErrorCount (bc_metrics (hc_base hc))"

text \<open>
  The life of an HTTP connector: its methods and the ticks of its health checks in any order. The history
  has the latencies of the messages sent since the metrics were reset.
\<close>

inductive http_life :: "('f, 'w) httplib \<Rightarrow> 'f HTTPConnector \<Rightarrow> duration list \<Rightarrow> bool" for lib :: "('f, 'w) httplib" where
  created: "HTTP_Create lib now config = Ok hc \<Longrightarrow> http_life lib hc []"
| start: "http_life lib hc ls \<Longrightarrow> HTTP_Start lib now hc w = Ok ((hc', w'), err) \<Longrightarrow> http_life lib hc' ls"
| stop: "http_life lib hc ls \<Longrightarrow> HTTP_Stop now hc (w :: 'w) = Ok ((hc', w'), err) \<Longrightarrow> http_life lib hc' ls"
| sent: "http_life lib hc ls \<Longrightarrow> HTTP_Send lib now latency hc msg w = Ok ((hc', w'), Some res, None) \<Longrightarrow> latency > 0
    \<Longrightarrow> http_life lib hc' (latency # ls)"
| failed: "http_life lib hc ls \<Longrightarrow> HTTP_Send lib now latency hc msg w = Ok ((hc', w'), res, Some err) \<Longrightarrow> http_life lib hc' ls"
| health: "http_life lib hc ls \<Longrightarrow> performHealthCheck now result (hc_base hc) = Ok bc \<Longrightarrow> http_life lib (hc\<lparr>hc_base := bc\<rparr>) ls"
| update: "http_life lib hc ls \<Longrightarrow> HTTP_UpdateConfig now config hc = Ok hc' \<Longrightarrow> http_life lib hc' ls"
| reset: "http_life lib hc ls \<Longrightarrow> ResetMetrics (hc_base hc) = Ok bc \<Longrightarrow> http_life lib (hc\<lparr>hc_base := bc\<rparr>) []"
| closed: "http_life lib hc ls \<Longrightarrow> HTTP_Close now hc = Ok hc' \<Longrightarrow> http_life lib hc' ls"

named_theorems http_simps \<open>definitions of the HTTP connector down to its fields\<close>

lemmas http_unfold [http_simps] = with_base_def under_lock_def IsRunning_def setState_def setError_def recordSuccess_def
  recordSentMessage_def recordDroppedMessage_def startHealthCheck_def UpdateConfig_def ResetMetrics_def Base_Close_def

text \<open>What a send changes: nothing but the error or the counters.\<close>

lemma HTTP_Send_success:
  assumes "HTTP_Send lib now latency hc msg w = Ok ((hc', w'), res, None)"
  shows "bc_state (hc_base hc) = StateRunning \<and> hc' = hc\<lparr>hc_base := (hc_base hc)\<lparr>bc_metrics :=
      (add_latency now latency (bc_metrics (hc_base hc)))\<lparr>xm_MessagesSent := xm_MessagesSent (bc_metrics (hc_base hc)) + 1\<rparr>\<rparr>\<rparr>"
  using assms
  by (auto simp: HTTP_Send_def send_failed_def http_simps Let_def add_latency_def split: if_splits option.splits prod.splits sum.splits)

definition failed_metrics :: "ConnectorMetrics \<Rightarrow> ConnectorMetrics" where
  "failed_metrics m = m\<lparr>xm_ErrorCount := xm_ErrorCount m + 1, xm_MessagesDropped := xm_MessagesDropped m + 1\<rparr>"

lemma HTTP_Send_failure:
  assumes "HTTP_Send lib now latency hc msg w = Ok ((hc', w'), res, Some err)"
  shows "bc_state (hc_base hc') = bc_state (hc_base hc) \<and> cs_State (bc_status (hc_base hc')) = cs_State (bc_status (hc_base hc))
    \<and> (bc_metrics (hc_base hc') = bc_metrics (hc_base hc) \<or> bc_metrics (hc_base hc') = failed_metrics (bc_metrics (hc_base hc)))"
  using assms
  by (auto simp: HTTP_Send_def send_failed_def http_simps Let_def failed_metrics_def split: if_splits option.splits prod.splits sum.splits)

text \<open>Start, stop, close, update and health checks leave the metrics alone but for an error of a start.\<close>

definition same_traffic :: "'f HTTPConnector \<Rightarrow> 'f HTTPConnector \<Rightarrow> bool" where
  "same_traffic hc hc' \<longleftrightarrow>
     (\<exists>n \<ge> 0. bc_metrics (hc_base hc') = (bc_metrics (hc_base hc))\<lparr>xm_ErrorCount := xm_ErrorCount (bc_metrics (hc_base hc)) + n\<rparr>)
     \<and> (cs_State (bc_status (hc_base hc)) = bc_state (hc_base hc) \<longrightarrow> cs_State (bc_status (hc_base hc')) = bc_state (hc_base hc'))"

lemma same_trafficI:
  assumes "bc_metrics (hc_base hc') = bc_metrics (hc_base hc)
    \<or> bc_metrics (hc_base hc') = (bc_metrics (hc_base hc))\<lparr>xm_ErrorCount := xm_ErrorCount (bc_metrics (hc_base hc)) + 1\<rparr>"
    and "cs_State (bc_status (hc_base hc)) = bc_state (hc_base hc) \<Longrightarrow> cs_State (bc_status (hc_base hc')) = bc_state (hc_base hc')"
  shows "same_traffic hc hc'"
proof -
  have "\<exists>n \<ge> 0. bc_metrics (hc_base hc') = (bc_metrics (hc_base hc))\<lparr>xm_ErrorCount := xm_ErrorCount (bc_metrics (hc_base hc)) + n\<rparr>"
    using assms(1) by (elim disjE) (rule exI [of _ 0], simp, rule exI [of _ 1], simp)
  with assms(2) show ?thesis by (simp add: same_traffic_def)
qed

lemma HTTP_Start_traffic: "HTTP_Start lib now hc w = Ok ((hc', w'), err) \<Longrightarrow> same_traffic hc hc'"
  by (rule same_trafficI) (auto simp: HTTP_Start_def http_simps split: if_splits option.splits prod.splits)

lemma HTTP_Stop_traffic: "HTTP_Stop now hc w = Ok ((hc', w'), err) \<Longrightarrow> same_traffic hc hc'"
  by (rule same_trafficI) (auto simp: HTTP_Stop_def http_simps split: if_splits)

lemma HTTP_Close_traffic: "HTTP_Close now hc = Ok hc' \<Longrightarrow> same_traffic hc hc'"
  by (rule same_trafficI) (auto simp: HTTP_Close_def http_simps split: if_splits)

lemma HTTP_UpdateConfig_traffic: "HTTP_UpdateConfig now config hc = Ok hc' \<Longrightarrow> same_traffic hc hc'"
  by (rule same_trafficI) (auto simp: HTTP_UpdateConfig_def http_simps split: if_splits)

lemma performHealthCheck_traffic: "performHealthCheck now result (hc_base hc) = Ok bc \<Longrightarrow> same_traffic hc (hc\<lparr>hc_base := bc\<rparr>)"
  by (rule same_trafficI) (auto simp: performHealthCheck_def Let_def split: if_splits option.splits)

lemma latencies_recorded_other [simp]:
  "latencies_recorded ls (m\<lparr>xm_ErrorCount := a\<rparr>) = latencies_recorded ls m"
  "latencies_recorded ls (m\<lparr>xm_MessagesDropped := b\<rparr>) = latencies_recorded ls m"
  "latencies_recorded ls (m\<lparr>xm_MessagesSent := c\<rparr>) = latencies_recorded ls m"
  by (simp_all add: latencies_recorded_def)

lemma http_inv_metrics:
  assumes "latencies_recorded ls (bc_metrics (hc_base hc))" and "http_inv hc"
    and "cs_State (bc_status (hc_base hc')) = bc_state (hc_base hc')" and "n \<ge> 0" and "k \<le> n"
    and "bc_metrics (hc_base hc') = (bc_metrics (hc_base hc))\<lparr>xm_ErrorCount := xm_ErrorCount (bc_metrics (hc_base hc)) + n,
           xm_MessagesDropped := xm_MessagesDropped (bc_metrics (hc_base hc)) + k\<rparr>"
  shows "http_inv hc' \<and> latencies_recorded ls (bc_metrics (hc_base hc'))"
proof
  show "latencies_recorded ls (bc_metrics (hc_base hc'))" using assms(1,6) by simp
  show "http_inv hc'" using assms(2-6) by (simp add: http_inv_def)
qed

lemma same_traffic_step:
  assumes "same_traffic hc hc'" and "http_inv hc \<and> latencies_recorded ls (bc_metrics (hc_base hc)) \<and> (\<forall>l \<in> set ls. l > 0)"
  shows "http_inv hc' \<and> latencies_recorded ls (bc_metrics (hc_base hc')) \<and> (\<forall>l \<in> set ls. l > 0)"
proof -
  from assms(1,2) obtain n where n: "n \<ge> 0"
      "bc_metrics (hc_base hc') = (bc_metrics (hc_base hc))\<lparr>xm_ErrorCount := xm_ErrorCount (bc_metrics (hc_base hc)) + n\<rparr>"
      "cs_State (bc_status (hc_base hc')) = bc_state (hc_base hc')"
    by (auto simp: same_traffic_def http_inv_def)
  have "http_inv hc' \<and> latencies_recorded ls (bc_metrics (hc_base hc'))"
    by (rule http_inv_metrics [of ls hc hc' n 0]) (use n assms(2) in simp_all)
  with assms(2) show ?thesis by simp
qed

lemma http_life_inv: "http_life lib hc ls \<Longrightarrow> http_inv hc \<and> latencies_recorded ls (bc_metrics (hc_base hc)) \<and> (\<forall>l \<in> set ls. l > 0)"
proof (induction rule: http_life.induct)
  case (created now config hc)
  then show ?case by (auto simp: HTTP_Create_def NewBaseConnector_def no_connector_metrics_def http_inv_def latencies_recorded_def Let_def)
next
  case (sent hc ls now latency msg w hc' w' res)
  define m where "m = add_latency now latency (bc_metrics (hc_base hc))"
  have "latencies_recorded (latency # ls) m" unfolding m_def using sent by (intro add_latency_recorded) simp_all
  moreover have "xm_SuccessCount m = xm_SuccessCount (bc_metrics (hc_base hc)) + 1" "xm_MessagesDropped m = xm_MessagesDropped (bc_metrics (hc_base hc))"
      "xm_ErrorCount m = xm_ErrorCount (bc_metrics (hc_base hc))" by (simp_all add: m_def add_latency_def)
  ultimately show ?case using sent HTTP_Send_success [OF sent.hyps(2)] by (simp add: http_inv_def m_def [symmetric])
next
  case (failed hc ls now latency msg w hc' w' res err)
  then have h: "http_inv hc" "latencies_recorded ls (bc_metrics (hc_base hc))" "\<forall>l \<in> set ls. l > 0" by simp_all
  from HTTP_Send_failure [OF failed.hyps(2)] h(1) have st: "cs_State (bc_status (hc_base hc')) = bc_state (hc_base hc')"
    by (simp add: http_inv_def)
  from HTTP_Send_failure [OF failed.hyps(2)] have "http_inv hc' \<and> latencies_recorded ls (bc_metrics (hc_base hc'))"
    using http_inv_metrics [OF h(2,1) st, of 0 0] http_inv_metrics [OF h(2,1) st, of 1 1] by (auto simp: failed_metrics_def)
  with h(3) show ?case by simp
next
  case (reset hc ls bc)
  then show ?case by (auto simp: http_simps http_inv_def latencies_recorded_def no_connector_metrics_def split: if_splits)
next
  case start
  then show ?case by - (rule same_traffic_step [OF HTTP_Start_traffic])
next
  case stop
  then show ?case by - (rule same_traffic_step [OF HTTP_Stop_traffic])
next
  case health
  then show ?case by - (rule same_traffic_step [OF performHealthCheck_traffic])
next
  case update
  then show ?case by - (rule same_traffic_step [OF HTTP_UpdateConfig_traffic])
next
  case closed
  then show ?case by - (rule same_traffic_step [OF HTTP_Close_traffic])
qed

text \<open>
  Whatever happens to an HTTP connector between resets of its metrics, the number of successes is
  the number of messages sent, the minimum and maximum latencies are those of the messages sent, the
  average lies between them, the messages dropped never exceed the errors, and the state reported is the
  state.
\<close>

lemma http_metrics_bounds:
  assumes "http_life lib hc ls"
  shows "let m = bc_metrics (hc_base hc) in
    xm_SuccessCount m = int (length ls) \<and> xm_MessagesSent m = int (length ls) \<and> xm_MessagesDropped m \<le> xm_ErrorCount m
    \<and> (ls \<noteq> [] \<longrightarrow> xm_MinLatency m = Min (set ls) \<and> xm_MaxLatency m = Max (set ls)
                  \<and> Min (set ls) \<le> xm_AvgLatency m \<and> xm_AvgLatency m \<le> Max (set ls))
    \<and> cs_State (bc_status (hc_base hc)) = bc_state (hc_base hc)"
  using http_life_inv [OF assms] by (auto simp: Let_def http_inv_def latencies_recorded_def)

section \<open>An example\<close>

text \<open>A library without a network: every request succeeds.\<close>

definition example_http :: "(unit, unit) httplib" where
  "example_http = \<lparr>ht_Canonical = id, ht_Basic = (\<lambda>u p. u @ p), ht_NewRequest = (\<lambda>m u. None), ht_Do = (\<lambda>r w. (Inr (200, []), w)),
     ht_ParseURL = (\<lambda>u. None), ht_ParseDuration = (\<lambda>s. None), ht_Atoi = (\<lambda>s. None), ht_ToUpper = id, ht_int_of_float = (\<lambda>x. 0)\<rparr>"

definition example_connector :: "unit ConnectorConfig" where
  "example_connector = \<lparr>cc_ID = ''c'', cc_Name = [], cc_Type = ''http'', cc_Description = [], cc_Enabled = True,
     cc_Parameters = [(''url'', TStr ''u'')],
     cc_HealthCheck = \<lparr>hk_Enabled = True, hk_Interval = 1, hk_Timeout = 1, hk_MaxFails = 1\<rparr>,
     cc_Retry = \<lparr>ry_MaxAttempts = 0, ry_InitialBackoff = 0, ry_MaxBackoff = 0, ry_BackoffMultiplier = ()\<rparr>,
     cc_Pool = \<lparr>pl_MaxSize = 0, pl_MinSize = 0, pl_MaxIdle = 0, pl_MaxLifetime = 0\<rparr>, cc_Tags = [], cc_CreatedAt = 0, cc_UpdatedAt = 0\<rparr>"

definition example_hc0 :: "unit HTTPConnector" where
  "example_hc0 = (case HTTP_Create example_http 1 example_connector of Ok hc \<Rightarrow> hc)"

lemma example_hc0_created: "HTTP_Create example_http 1 example_connector = Ok example_hc0"
  by code_simp


definition example_hc1 :: "unit HTTPConnector" where
  "example_hc1 = (case HTTP_Start example_http 2 example_hc0 () of Ok ((hc, w), err) \<Rightarrow> hc)"

lemma example_hc1_started: "HTTP_Start example_http 2 example_hc0 () = Ok ((example_hc1, ()), None)"
  by code_simp

definition example_sent :: xmessage where
  "example_sent = \<lparr>xs_ID = ''m'', xs_Topic = ''t'', xs_Payload = [1], xs_Headers = [], xs_Timestamp = 0, xs_Metadata = []\<rparr>"

definition send_example :: "duration \<Rightarrow> unit HTTPConnector \<Rightarrow> unit HTTPConnector \<times> MessageResult" where
  "send_example l hc = (case HTTP_Send example_http 3 l hc example_sent () of Ok ((hc', w), Some res, err) \<Rightarrow> (hc', res))"

lemma http_metrics_bounds_witness:
  "let hc = fst (send_example 7 (fst (send_example 4 example_hc1))); m = bc_metrics (hc_base hc) in
   http_life example_http hc [7, 4] \<and> xm_MinLatency m = 4 \<and> xm_MaxLatency m = 7 \<and> xm_MessagesSent m = 2"
proof -
  let ?h1 = "fst (send_example 4 example_hc1)" and ?h2 = "fst (send_example 7 (fst (send_example 4 example_hc1)))"
  have 1: "HTTP_Send example_http 3 4 example_hc1 example_sent () = Ok ((?h1, ()), Some (snd (send_example 4 example_hc1)), None)"
    and 2: "HTTP_Send example_http 3 7 ?h1 example_sent () = Ok ((?h2, ()), Some (snd (send_example 7 ?h1)), None)"
    by code_simp+
  have "http_life example_http example_hc1 []" by (rule http_life.start [OF http_life.created [OF example_hc0_created] example_hc1_started])
  then have "http_life example_http ?h1 [4]" by (rule http_life.sent [OF _ 1]) simp
  then have life: "http_life example_http ?h2 [7, 4]" by (rule http_life.sent [OF _ 2]) simp
  from http_metrics_bounds [OF life] life show ?thesis by (simp add: Let_def)
qed

end
