(* ===== verification/Connector_Manager.thy ===== *)
theory Connector_Manager
  imports Connectors
begin

text \<open>
  The connector manager, \<open>pkg/connector/connector.go\<close>, and the broker's \<open>routeToConnectors\<close>. What the
  manager needs of a connector is the locale \<open>connector_interface\<close>, which the HTTP connector satisfies.
\<close>

section \<open>The manager\<close>

text \<open>
  The interface of a connector, as the manager and the broker use it, and a factory. The manager keeps
  pointers: connectors are in a store (\<open>cm_store\<close>) and the table has their addresses.
\<close>

record ('c, 'f, 'w) connector_ops =
  op_Start :: "time \<Rightarrow> 'c \<Rightarrow> 'w \<Rightarrow> (string, ('c \<times> 'w) \<times> string option) go"
  op_Stop :: "time \<Rightarrow> 'c \<Rightarrow> 'w \<Rightarrow> (string, ('c \<times> 'w) \<times> string option) go"
  op_Restart :: "time \<Rightarrow> 'c \<Rightarrow> 'w \<Rightarrow> (string, ('c \<times> 'w) \<times> string option) go"
  op_Close :: "time \<Rightarrow> 'c \<Rightarrow> 'w \<Rightarrow> (string, ('c \<times> 'w) \<times> string option) go"
  op_IsRunning :: "'c \<Rightarrow> (string, bool) go"
  op_HealthCheck :: "'c \<Rightarrow> 'w \<Rightarrow> string option \<times> 'w"
  op_GetConfig :: "'c \<Rightarrow> (string, 'f ConnectorConfig) go"
  op_Status :: "time \<Rightarrow> 'c \<Rightarrow> (string, ConnectorStatus) go"
  op_GetMetrics :: "'c \<Rightarrow> (string, ConnectorMetrics) go"
  op_UpdateConfig :: "time \<Rightarrow> 'f ConnectorConfig \<Rightarrow> 'c \<Rightarrow> (string, 'c) go"

record ('c, 'f) factory =
  fa_Type :: string
  fa_Create :: "time \<Rightarrow> 'f ConnectorConfig \<Rightarrow> (string, 'c) go"
  fa_ValidateConfig :: "'f ConnectorConfig \<Rightarrow> (string, unit) go"

text \<open>
  The lock of the manager: free, held for ever by a reader that waits, or held (or asked for) for ever by
  a writer that waits. Once a writer waits no reader gets the lock either.
\<close>

datatype lock = Free | ReaderWaits | WriterWaits

record ('c, 'f) ConnectorManager =
  cm_connectors :: "(string, ref) gomap"
  cm_store :: "(ref, 'c) gomap"
  cm_factories :: "(string, ('c, 'f) factory) gomap"
  cm_cancelled :: bool
  cm_lock :: lock

definition NewConnectorManager :: "('c, 'f) ConnectorManager" where
  "NewConnectorManager = \<lparr>cm_connectors = [], cm_store = [], cm_factories = [], cm_cancelled = False, cm_lock = Free\<rparr>"

text \<open>The manager after a call, and how the call ended.\<close>

type_synonym ('c, 'f, 'a) managed = "('c, 'f) ConnectorManager \<times> (string, 'a) go"

definition as_reader :: "('c, 'f) ConnectorManager \<Rightarrow> (('c, 'f) ConnectorManager \<Rightarrow> ('c, 'f, 'a) managed) \<Rightarrow> ('c, 'f, 'a) managed" where
  "as_reader cm body = (if cm_lock cm = WriterWaits then (cm, Blocked) else body cm)"

definition as_writer :: "('c, 'f) ConnectorManager \<Rightarrow> (('c, 'f) ConnectorManager \<Rightarrow> ('c, 'f, 'a) managed) \<Rightarrow> ('c, 'f, 'a) managed" where
  "as_writer cm body = (if cm_lock cm = Free then body cm else (cm\<lparr>cm_lock := WriterWaits\<rparr>, Blocked))"

definition RegisterFactory :: "('c, 'f) factory \<Rightarrow> ('c, 'f) ConnectorManager \<Rightarrow> ('c, 'f, unit) managed" where
  "RegisterFactory factory cm =
     as_writer cm (\<lambda>cm. (cm\<lparr>cm_factories := gm_set (cm_factories cm) (fa_Type factory) factory\<rparr>, Ok ()))"

text \<open>The result is the connector for which a goroutine that starts it is created, if it is enabled.\<close>

definition CreateConnector :: "time \<Rightarrow> 'f ConnectorConfig \<Rightarrow> ('c, 'f) ConnectorManager \<Rightarrow> ('c, 'f, ref option) managed" where
  "CreateConnector now config cm =
     as_writer cm (\<lambda>cm.
       if gm_get (cm_connectors cm) (cc_ID config) \<noteq> None then (cm, Err ''connector already exists'')
       else case gm_get (cm_factories cm) (cc_Type config) of
              None \<Rightarrow> (cm, Err ''connector type not supported'')
            | Some factory \<Rightarrow>
                (case go_bind (fa_ValidateConfig factory config) (\<lambda>_. fa_Create factory now config) of
                   Ok c \<Rightarrow>
                     (let r = fresh_key (cm_store cm)
                      in (cm\<lparr>cm_store := gm_set (cm_store cm) r c, cm_connectors := gm_set (cm_connectors cm) (cc_ID config) r\<rparr>,
                          Ok (if cc_Enabled config then Some r else None)))
                 | Err e \<Rightarrow> (cm, Err e)
                 | Panic \<Rightarrow> (cm, Panic)
                 | Blocked \<Rightarrow> (cm\<lparr>cm_lock := WriterWaits\<rparr>, Blocked)))"

definition GetConnector :: "string \<Rightarrow> ('c, 'f) ConnectorManager \<Rightarrow> ('c, 'f, ref) managed" where
  "GetConnector cid cm =
     as_reader cm (\<lambda>cm. (cm, case gm_get (cm_connectors cm) cid of None \<Rightarrow> Err ''connector not found'' | Some r \<Rightarrow> Ok r))"

definition ListConnectors :: "('c, 'f) ConnectorManager \<Rightarrow> ('c, 'f, (string, ref) gomap) managed" where
  "ListConnectors cm = as_reader cm (\<lambda>cm. (cm, Ok (cm_connectors cm)))"

text \<open>A method of the connector at an address, with the outside before and after.\<close>

definition call :: "('c \<Rightarrow> 'w \<Rightarrow> (string, ('c \<times> 'w) \<times> string option) go) \<Rightarrow> ref \<Rightarrow> ('c, 'f) ConnectorManager \<Rightarrow> 'w
    \<Rightarrow> ('c, 'f, 'w \<times> string option) managed" where
  "call mth r cm w =
     (case gm_get (cm_store cm) r of
        None \<Rightarrow> (cm, Panic)
      | Some c \<Rightarrow>
          (case mth c w of
             Ok ((c', w'), err) \<Rightarrow> (cm\<lparr>cm_store := gm_set (cm_store cm) r c'\<rparr>, Ok (w', err))
           | Err e \<Rightarrow> (cm, Err e) | Panic \<Rightarrow> (cm, Panic) | Blocked \<Rightarrow> (cm, Blocked)))"

definition StartConnector :: "('c, 'f, 'w) connector_ops \<Rightarrow> time \<Rightarrow> string \<Rightarrow> ('c, 'f) ConnectorManager \<Rightarrow> 'w \<Rightarrow> ('c, 'f, 'w \<times> string option) managed" where
  "StartConnector ops now cid cm w =
     (case GetConnector cid cm of
        (cm, Ok r) \<Rightarrow> call (op_Start ops now) r cm w
      | (cm, Err e) \<Rightarrow> (cm, Err e) | (cm, Panic) \<Rightarrow> (cm, Panic) | (cm, Blocked) \<Rightarrow> (cm, Blocked))"

definition StopConnector :: "('c, 'f, 'w) connector_ops \<Rightarrow> time \<Rightarrow> string \<Rightarrow> ('c, 'f) ConnectorManager \<Rightarrow> 'w \<Rightarrow> ('c, 'f, 'w \<times> string option) managed" where
  "StopConnector ops now cid cm w =
     (case GetConnector cid cm of
        (cm, Ok r) \<Rightarrow> call (op_Stop ops now) r cm w
      | (cm, Err e) \<Rightarrow> (cm, Err e) | (cm, Panic) \<Rightarrow> (cm, Panic) | (cm, Blocked) \<Rightarrow> (cm, Blocked))"

definition RestartConnector :: "('c, 'f, 'w) connector_ops \<Rightarrow> time \<Rightarrow> string \<Rightarrow> ('c, 'f) ConnectorManager \<Rightarrow> 'w \<Rightarrow> ('c, 'f, 'w \<times> string option) managed" where
  "RestartConnector ops now cid cm w =
     (case GetConnector cid cm of
        (cm, Ok r) \<Rightarrow> call (op_Restart ops now) r cm w
      | (cm, Err e) \<Rightarrow> (cm, Err e) | (cm, Panic) \<Rightarrow> (cm, Panic) | (cm, Blocked) \<Rightarrow> (cm, Blocked))"

definition UpdateConnector :: "('c, 'f, 'w) connector_ops \<Rightarrow> time \<Rightarrow> string \<Rightarrow> 'f ConnectorConfig \<Rightarrow> ('c, 'f) ConnectorManager \<Rightarrow> ('c, 'f, unit) managed" where
  "UpdateConnector ops now cid config cm =
     (case GetConnector cid cm of
        (cm, Ok r) \<Rightarrow>
          (case gm_get (cm_factories cm) (cc_Type config) of
             None \<Rightarrow> (cm, Err ''connector type not supported'')
           | Some factory \<Rightarrow>
               (case go_bind (fa_ValidateConfig factory config) (\<lambda>_.
                       case gm_get (cm_store cm) r of None \<Rightarrow> Panic | Some c \<Rightarrow> op_UpdateConfig ops now config c) of
                  Ok c' \<Rightarrow> (cm\<lparr>cm_store := gm_set (cm_store cm) r c'\<rparr>, Ok ())
                | Err e \<Rightarrow> (cm, Err e) | Panic \<Rightarrow> (cm, Panic) | Blocked \<Rightarrow> (cm, Blocked)))
      | (cm, Err e) \<Rightarrow> (cm, Err e) | (cm, Panic) \<Rightarrow> (cm, Panic) | (cm, Blocked) \<Rightarrow> (cm, Blocked))"

text \<open>A writer that waits keeps the lock.\<close>

definition keep_lock :: "('c, 'f, 'a) managed \<Rightarrow> ('c, 'f, 'a) managed" where
  "keep_lock r = (case r of (cm, Blocked) \<Rightarrow> (cm\<lparr>cm_lock := WriterWaits\<rparr>, Blocked) | _ \<Rightarrow> r)"

text \<open>Stopping, if it runs, and closing the connector at an address.\<close>

definition shut_down :: "('c, 'f, 'w) connector_ops \<Rightarrow> time \<Rightarrow> ref \<Rightarrow> ('c, 'f) ConnectorManager \<Rightarrow> 'w \<Rightarrow> ('c, 'f, 'w \<times> string option) managed" where
  "shut_down ops now r cm w =
     call (\<lambda>c w.
       go_bind (op_IsRunning ops c) (\<lambda>running.
       go_bind (if running then op_Stop ops now c w else Ok ((c, w), None)) (\<lambda>((c1, w1), err).
         case err of Some e \<Rightarrow> Ok ((c1, w1), Some e) | None \<Rightarrow> op_Close ops now c1 w1))) r cm w"

definition DeleteConnector :: "('c, 'f, 'w) connector_ops \<Rightarrow> time \<Rightarrow> string \<Rightarrow> ('c, 'f) ConnectorManager \<Rightarrow> 'w \<Rightarrow> ('c, 'f, 'w \<times> string option) managed" where
  "DeleteConnector ops now cid cm w =
     as_writer cm (\<lambda>cm.
       case gm_get (cm_connectors cm) cid of
         None \<Rightarrow> (cm, Err ''connector not found'')
       | Some r \<Rightarrow>
           (case keep_lock (shut_down ops now r cm w) of
              (cm1, Ok (w1, None)) \<Rightarrow> (cm1\<lparr>cm_connectors := gm_del (cm_connectors cm1) cid\<rparr>, Ok (w1, None))
            | res \<Rightarrow> res))"

fun close_all :: "('c, 'f, 'w) connector_ops \<Rightarrow> time \<Rightarrow> ref list \<Rightarrow> ('c, 'f) ConnectorManager \<Rightarrow> 'w \<Rightarrow> ('c, 'f, 'w) managed" where
  "close_all ops now [] cm w = (cm, Ok w)"
| "close_all ops now (r # rs) cm w =
     (case call (op_Stop ops now) r cm w of
        (cm1, Ok (w1, err)) \<Rightarrow>
          (case call (op_Close ops now) r cm1 w1 of
             (cm2, Ok (w2, err')) \<Rightarrow> close_all ops now rs cm2 w2
           | (cm2, Err e) \<Rightarrow> close_all ops now rs cm2 w1
           | (cm2, Panic) \<Rightarrow> (cm2, Panic) | (cm2, Blocked) \<Rightarrow> (cm2, Blocked))
      | (cm1, Err e) \<Rightarrow> close_all ops now rs cm1 w
      | (cm1, Panic) \<Rightarrow> (cm1, Panic) | (cm1, Blocked) \<Rightarrow> (cm1, Blocked))"

definition Manager_Close :: "('c, 'f, 'w) connector_ops \<Rightarrow> time \<Rightarrow> ('c, 'f) ConnectorManager \<Rightarrow> 'w \<Rightarrow> ('c, 'f, 'w) managed" where
  "Manager_Close ops now cm w =
     as_writer (cm\<lparr>cm_cancelled := True\<rparr>) (\<lambda>cm. keep_lock (close_all ops now (map snd (cm_connectors cm)) cm w))"

text \<open>What the manager reports; a reader that waits for a connector keeps the lock from writers.\<close>

definition keep_reading :: "('c, 'f, 'a) managed \<Rightarrow> ('c, 'f, 'a) managed" where
  "keep_reading r = (case r of (cm, Blocked) \<Rightarrow> (cm\<lparr>cm_lock := ReaderWaits\<rparr>, Blocked) | _ \<Rightarrow> r)"

definition GetConnectorInfo :: "('c, 'f, 'w) connector_ops \<Rightarrow> time \<Rightarrow> string \<Rightarrow> ('c, 'f) ConnectorManager
    \<Rightarrow> ('c, 'f, 'f ConnectorConfig \<times> ConnectorStatus) managed" where
  "GetConnectorInfo ops now cid cm =
     (case GetConnector cid cm of
        (cm, Ok r) \<Rightarrow>
          (cm, case gm_get (cm_store cm) r of
                 None \<Rightarrow> Panic
               | Some c \<Rightarrow> go_bind (op_GetConfig ops c) (\<lambda>config. go_bind (op_Status ops now c) (\<lambda>status. Ok (config, status))))
      | (cm, Err e) \<Rightarrow> (cm, Err e) | (cm, Panic) \<Rightarrow> (cm, Panic) | (cm, Blocked) \<Rightarrow> (cm, Blocked))"

definition GetConnectorTypes :: "('c, 'f) ConnectorManager \<Rightarrow> ('c, 'f, string list) managed" where
  "GetConnectorTypes cm = as_reader cm (\<lambda>cm. (cm, Ok (map fst (cm_factories cm))))"

fun check_running :: "('c, 'f, 'w) connector_ops \<Rightarrow> (ref, 'c) gomap \<Rightarrow> (string, ref) gomap \<Rightarrow> 'w \<Rightarrow> (string, (string, string option) gomap \<times> 'w) go" where
  "check_running ops store [] w = Ok ([], w)"
| "check_running ops store ((cid, r) # rest) w =
     (case gm_get store r of
        None \<Rightarrow> Panic
      | Some c \<Rightarrow>
          go_bind (op_IsRunning ops c) (\<lambda>running.
            if running then (case op_HealthCheck ops c w of (err, w1) \<Rightarrow>
              go_bind (check_running ops store rest w1) (\<lambda>(results, w2). Ok ((cid, err) # results, w2)))
            else check_running ops store rest w))"

definition HealthCheckAll :: "('c, 'f, 'w) connector_ops \<Rightarrow> ('c, 'f) ConnectorManager \<Rightarrow> 'w \<Rightarrow> ('c, 'f, (string, string option) gomap \<times> 'w) managed" where
  "HealthCheckAll ops cm w =
     as_reader cm (\<lambda>cm. keep_reading (cm, check_running ops (cm_store cm) (cm_connectors cm) w))"

fun metrics_of :: "('c, 'f, 'w) connector_ops \<Rightarrow> (ref, 'c) gomap \<Rightarrow> (string, ref) gomap \<Rightarrow> (string, (string, ConnectorMetrics) gomap) go" where
  "metrics_of ops store [] = Ok []"
| "metrics_of ops store ((cid, r) # rest) =
     (case gm_get store r of
        None \<Rightarrow> Panic
      | Some c \<Rightarrow> go_bind (op_GetMetrics ops c) (\<lambda>m. go_bind (metrics_of ops store rest) (\<lambda>ms. Ok ((cid, m) # ms))))"

definition GetAllMetrics :: "('c, 'f, 'w) connector_ops \<Rightarrow> ('c, 'f) ConnectorManager \<Rightarrow> ('c, 'f, (string, ConnectorMetrics) gomap) managed" where
  "GetAllMetrics ops cm = as_reader cm (\<lambda>cm. keep_reading (cm, metrics_of ops (cm_store cm) (cm_connectors cm)))"

text \<open>
  The broker's \<open>routeToConnectors\<close>: the connectors, in the order of the loop, for which a goroutine that
  sends the message is started, and how the loop ends. \<open>None\<close> is a broker without a manager.
\<close>

fun running_of :: "('c, 'f, 'w) connector_ops \<Rightarrow> (ref, 'c) gomap \<Rightarrow> (string, ref) gomap \<Rightarrow> (string \<times> ref) list \<times> (string, unit) go" where
  "running_of ops store [] = ([], Ok ())"
| "running_of ops store ((cid, r) # rest) =
     (case gm_get store r of
        None \<Rightarrow> ([], Panic)
      | Some c \<Rightarrow>
          (case op_IsRunning ops c of
             Ok running \<Rightarrow> (case running_of ops store rest of (rs, end_of_loop) \<Rightarrow> (if running then (cid, r) # rs else rs, end_of_loop))
           | Err e \<Rightarrow> ([], Err e) | Panic \<Rightarrow> ([], Panic) | Blocked \<Rightarrow> ([], Blocked)))"

definition connector_metadata :: "byte \<Rightarrow> string \<Rightarrow> byte list \<Rightarrow> (string, metavalue) gomap" where
  "connector_metadata qos responseTopic correlationData =
     (let m1 = gm_set [] ''qos'' (MByte qos);
          m2 = (if responseTopic \<noteq> [] then gm_set m1 ''response_topic'' (MText responseTopic) else m1)
      in if correlationData \<noteq> [] then gm_set m2 ''correlation_data'' (MBytes correlationData) else m2)"

definition connector_message :: "time \<Rightarrow> string \<Rightarrow> byte list \<Rightarrow> byte \<Rightarrow> (string, byte list) gomap \<Rightarrow> string \<Rightarrow> byte list \<Rightarrow> xmessage" where
  "connector_message now topicName payload qos userProperties responseTopic correlationData =
     \<lparr>xs_ID = ''msg-'' @ show_int (unix_nano now), xs_Topic = topicName, xs_Payload = payload,
      xs_Headers = foldl (\<lambda>h (k, v). gm_set h k (string_of v)) [] userProperties, xs_Timestamp = now,
      xs_Metadata = connector_metadata qos responseTopic correlationData\<rparr>"

definition routeToConnectors :: "('c, 'f, 'w) connector_ops \<Rightarrow> time \<Rightarrow> string \<Rightarrow> byte list \<Rightarrow> byte \<Rightarrow> (string, byte list) gomap
    \<Rightarrow> string \<Rightarrow> byte list \<Rightarrow> ('c, 'f) ConnectorManager option \<Rightarrow> ((string \<times> ref) \<times> xmessage) list \<times> (string, unit) go" where
  "routeToConnectors ops now topicName payload qos userProperties responseTopic correlationData manager =
     (case manager of
        None \<Rightarrow> ([], Ok ())
      | Some cm \<Rightarrow>
          (case snd (ListConnectors cm) of
             Ok connectors \<Rightarrow>
               if connectors = [] then ([], Ok ())
               else
                 let msg = connector_message now topicName payload qos userProperties responseTopic correlationData
                 in (case running_of ops (cm_store cm) connectors of (rs, end_of_loop) \<Rightarrow> (map (\<lambda>c. (c, msg)) rs, end_of_loop))
           | Err e \<Rightarrow> ([], Err e) | Panic \<Rightarrow> ([], Panic) | Blocked \<Rightarrow> ([], Blocked)))"

text \<open>The HTTP connector as a connector.\<close>

definition http_ops :: "('f, 'w) httplib \<Rightarrow> ('f HTTPConnector, 'f, 'w) connector_ops" where
  "http_ops lib = \<lparr>op_Start = HTTP_Start lib, op_Stop = HTTP_Stop, op_Restart = HTTP_Restart lib,
     op_Close = (\<lambda>now hc w. go_bind (HTTP_Close now hc) (\<lambda>hc'. Ok ((hc', w), None))),
     op_IsRunning = (\<lambda>hc. IsRunning (hc_base hc)), op_HealthCheck = HTTP_HealthCheck lib,
     op_GetConfig = (\<lambda>hc. GetConfig (hc_base hc)), op_Status = (\<lambda>now hc. Status now (hc_base hc)),
     op_GetMetrics = (\<lambda>hc. GetConnectorMetrics (hc_base hc)), op_UpdateConfig = HTTP_UpdateConfig\<rparr>"

definition HTTPConnectorFactory :: "('f, 'w) httplib \<Rightarrow> ('f HTTPConnector, 'f) factory" where
  "HTTPConnectorFactory lib = \<lparr>fa_Type = ''http'', fa_Create = HTTP_Create lib, fa_ValidateConfig = HTTP_ValidateConfig lib\<rparr>"

section \<open>What the manager relies on\<close>

definition connector_at :: "('c, 'f) ConnectorManager \<Rightarrow> string \<times> ref \<Rightarrow> 'c" where
  "connector_at cm e = the (gm_get (cm_store cm) (snd e))"

text \<open>
  A connector whose lock is lost answers nothing. Any other one says whether it runs, and does not run
  after it was stopped or closed.
\<close>

locale connector_interface =
  fixes ops :: "('c, 'f, 'w) connector_ops" and stuck :: "'c \<Rightarrow> bool" and running :: "'c \<Rightarrow> bool"
  assumes is_running: "op_IsRunning ops c = (if stuck c then Blocked else Ok (running c))"
    and stop_stuck: "stuck c \<Longrightarrow> op_Stop ops now c w = Blocked"
    and stop: "\<not> stuck c \<Longrightarrow> \<exists>c' w' err. op_Stop ops now c w = Ok ((c', w'), err) \<and> \<not> stuck c' \<and> \<not> running c' \<and> (err = None \<longleftrightarrow> running c)"
    and close_stuck: "stuck c \<Longrightarrow> op_Close ops now c w = Blocked"
    and close: "\<not> stuck c \<Longrightarrow> \<exists>c' w'. op_Close ops now c w = Ok ((c', w'), None) \<and> \<not> stuck c' \<and> \<not> running c'"
    and start: "op_Start ops now c w = Ok ((c', w'), None) \<Longrightarrow> \<not> stuck c' \<and> running c'"
begin

lemma shut_down_ok:
  assumes "gm_get (cm_store cm) r = Some c" and "\<not> stuck c"
  shows "\<exists>c' w'. shut_down ops now r cm w = (cm\<lparr>cm_store := gm_set (cm_store cm) r c'\<rparr>, Ok (w', None)) \<and> \<not> stuck c' \<and> \<not> running c'"
proof (cases "running c")
  case True
  obtain c1 w1 where 1: "op_Stop ops now c w = Ok ((c1, w1), None)" "\<not> stuck c1" using stop [OF assms(2), of now w] True by auto
  obtain c2 w2 where "op_Close ops now c1 w1 = Ok ((c2, w2), None)" "\<not> stuck c2" "\<not> running c2" using close [OF 1(2), of now w1] by auto
  with 1 True assms show ?thesis by (auto simp: shut_down_def call_def is_running)
next
  case False
  obtain c2 w2 where "op_Close ops now c w = Ok ((c2, w2), None)" "\<not> stuck c2" "\<not> running c2" using close [OF assms(2), of now w] by auto
  with False assms show ?thesis by (auto simp: shut_down_def call_def is_running)
qed

lemma DeleteConnector_ok:
  assumes "cm_lock cm = Free" and "gm_get (cm_connectors cm) cid = Some r" and "gm_get (cm_store cm) r = Some c" and "\<not> stuck c"
  shows "\<exists>c' w'. DeleteConnector ops now cid cm w =
      (cm\<lparr>cm_store := gm_set (cm_store cm) r c', cm_connectors := gm_del (cm_connectors cm) cid\<rparr>, Ok (w', None)) \<and> \<not> stuck c' \<and> \<not> running c'"
  using shut_down_ok [OF assms(3,4), of now w] assms by (auto simp: DeleteConnector_def as_writer_def keep_lock_def)

lemma DeleteConnector_stuck:
  assumes "cm_lock cm = Free" and "gm_get (cm_connectors cm) cid = Some r" and "gm_get (cm_store cm) r = Some c" and "stuck c"
  shows "DeleteConnector ops now cid cm w = (cm\<lparr>cm_lock := WriterWaits\<rparr>, Blocked)"
  using assms by (simp add: DeleteConnector_def as_writer_def keep_lock_def shut_down_def call_def is_running)

lemma close_all_ok:
  "\<lbrakk>\<forall>r \<in> set rs. \<exists>c. gm_get (cm_store cm) r = Some c \<and> \<not> stuck c\<rbrakk> \<Longrightarrow>
   \<exists>cm' w'. close_all ops now rs cm w = (cm', Ok w') \<and> cm_connectors cm' = cm_connectors cm \<and> cm_lock cm' = cm_lock cm
     \<and> (\<forall>r \<in> set rs. \<exists>c. gm_get (cm_store cm') r = Some c \<and> \<not> running c)
     \<and> (\<forall>r. r \<notin> set rs \<longrightarrow> gm_get (cm_store cm') r = gm_get (cm_store cm) r)"
proof (induction rs arbitrary: cm w)
  case Nil
  then show ?case by simp
next
  case (Cons r rs)
  then obtain c where c: "gm_get (cm_store cm) r = Some c" "\<not> stuck c" by auto
  obtain c1 w1 err where 1: "op_Stop ops now c w = Ok ((c1, w1), err)" "\<not> stuck c1" using stop [OF c(2), of now w] by auto
  obtain c2 w2 where 2: "op_Close ops now c1 w1 = Ok ((c2, w2), None)" "\<not> stuck c2" "\<not> running c2" using close [OF 1(2), of now w1] by auto
  let ?cm = "cm\<lparr>cm_store := gm_set (gm_set (cm_store cm) r c1) r c2\<rparr>"
  have "\<forall>r' \<in> set rs. \<exists>c. gm_get (cm_store ?cm) r' = Some c \<and> \<not> stuck c" using Cons.prems 2 by auto
  then obtain cm' w' where IH: "close_all ops now rs ?cm w2 = (cm', Ok w')" "cm_connectors cm' = cm_connectors cm" "cm_lock cm' = cm_lock cm"
      "\<forall>r' \<in> set rs. \<exists>c. gm_get (cm_store cm') r' = Some c \<and> \<not> running c"
      "\<forall>r'. r' \<notin> set rs \<longrightarrow> gm_get (cm_store cm') r' = gm_get (cm_store ?cm) r'"
    using Cons.IH [of ?cm w2] by auto
  have "\<exists>c. gm_get (cm_store cm') r = Some c \<and> \<not> running c" using IH(4,5) 2(3) by (cases "r \<in> set rs") auto
  with IH c 1 2 show ?case by (auto simp: call_def)
qed

lemma close_all_blocked:
  "\<lbrakk>\<forall>r \<in> set rs. gm_get (cm_store cm) r \<noteq> None; \<exists>r \<in> set rs. \<exists>c. gm_get (cm_store cm) r = Some c \<and> stuck c\<rbrakk> \<Longrightarrow>
   snd (close_all ops now rs cm w) = Blocked"
proof (induction rs arbitrary: cm w)
  case (Cons r rs)
  then obtain c where c: "gm_get (cm_store cm) r = Some c" by auto
  show ?case
  proof (cases "stuck c")
    case True
    with c show ?thesis by (simp add: call_def stop_stuck)
  next
    case False
    obtain c1 w1 err where 1: "op_Stop ops now c w = Ok ((c1, w1), err)" "\<not> stuck c1" using stop [OF False, of now w] by auto
    obtain c2 w2 where 2: "op_Close ops now c1 w1 = Ok ((c2, w2), None)" using close [OF 1(2), of now w1] by auto
    let ?cm = "cm\<lparr>cm_store := gm_set (gm_set (cm_store cm) r c1) r c2\<rparr>"
    have "\<exists>r' \<in> set rs. \<exists>c. gm_get (cm_store cm) r' = Some c \<and> stuck c \<and> r' \<noteq> r"
      using Cons.prems(2) c False by (metis option.inject set_ConsD)
    then have "snd (close_all ops now rs ?cm w2) = Blocked" using Cons.prems(1) by (intro Cons.IH) auto
    with c 1 2 show ?thesis by (simp add: call_def)
  qed
qed simp

lemma running_of_exact:
  assumes "\<forall>e \<in> set es. gm_get (cm_store cm) (snd e) \<noteq> None"
  shows "running_of ops (cm_store cm) es =
    (filter (\<lambda>e. running (connector_at cm e)) (takeWhile (\<lambda>e. \<not> stuck (connector_at cm e)) es),
     if \<exists>e \<in> set es. stuck (connector_at cm e) then Blocked else Ok ())"
  using assms
proof (induction es)
  case Nil
  show ?case by simp
next
  case (Cons e es)
  obtain cid r where e: "e = (cid, r)" by (cases e)
  with Cons.prems obtain c where c: "gm_get (cm_store cm) r = Some c" by auto
  then have "connector_at cm e = c" by (simp add: connector_at_def e)
  with c Cons show ?case by (simp add: e is_running)
qed

end

text \<open>The HTTP connector is a connector.\<close>

definition http_stuck :: "'f HTTPConnector \<Rightarrow> bool" where
  "http_stuck hc = bc_stuck (hc_base hc)"

definition http_running :: "'f HTTPConnector \<Rightarrow> bool" where
  "http_running hc \<longleftrightarrow> bc_state (hc_base hc) = StateRunning"

interpretation http: connector_interface "http_ops (lib :: ('f, 'w) httplib)" http_stuck http_running
proof unfold_locales
  fix c :: "'f HTTPConnector" and now and w :: 'w
  show "op_IsRunning (http_ops lib) c = (if http_stuck c then Blocked else Ok (http_running c))"
    by (simp add: http_ops_def IsRunning_def under_lock_def http_stuck_def http_running_def)
  show "http_stuck c \<Longrightarrow> op_Stop (http_ops lib) now c w = Blocked"
    and "http_stuck c \<Longrightarrow> op_Close (http_ops lib) now c w = Blocked"
    by (simp_all add: http_ops_def http_stuck_def stuck_http_blocks)
  show "\<not> http_stuck c \<Longrightarrow> \<exists>c' w' err. op_Stop (http_ops lib) now c w = Ok ((c', w'), err) \<and> \<not> http_stuck c' \<and> \<not> http_running c'
      \<and> (err = None \<longleftrightarrow> http_running c)"
    by (auto simp: http_ops_def http_stuck_def http_running_def HTTP_Stop_def http_simps)
  show "\<not> http_stuck c \<Longrightarrow> \<exists>c' w'. op_Close (http_ops lib) now c w = Ok ((c', w'), None) \<and> \<not> http_stuck c' \<and> \<not> http_running c'"
    by (auto simp: http_ops_def http_stuck_def http_running_def HTTP_Close_def http_simps)
next
  fix c c' :: "'f HTTPConnector" and now and w w' :: 'w
  show "op_Start (http_ops lib) now c w = Ok ((c', w'), None) \<Longrightarrow> \<not> http_stuck c' \<and> http_running c'"
    by (auto simp: http_ops_def http_stuck_def http_running_def HTTP_Start_def http_simps split: if_splits prod.splits option.splits)
qed

section \<open>The manager with HTTP connectors\<close>

definition http_id :: "'f HTTPConnector \<Rightarrow> string" where
  "http_id hc = cc_ID (bc_config (hc_base hc))"

definition manager_inv :: "('f HTTPConnector, 'f) ConnectorManager \<Rightarrow> bool" where
  "manager_inv cm \<longleftrightarrow>
     gm_wf (cm_connectors cm)
     \<and> (\<forall>(cid, r) \<in> set (cm_connectors cm). \<exists>c. gm_get (cm_store cm) r = Some c \<and> http_id c = cid)"

text \<open>The table stays as it is, and connectors change without losing their identity.\<close>

definition evolves :: "('f HTTPConnector, 'f) ConnectorManager \<Rightarrow> ('f HTTPConnector, 'f) ConnectorManager \<Rightarrow> bool" where
  "evolves cm cm' \<longleftrightarrow>
     cm_connectors cm' = cm_connectors cm \<and> cm_factories cm' = cm_factories cm
     \<and> (\<forall>r c. gm_get (cm_store cm) r = Some c \<longrightarrow> (\<exists>c'. gm_get (cm_store cm') r = Some c' \<and> http_id c' = http_id c))"

lemma evolves_refl [simp, intro]: "evolves cm cm"
  by (simp add: evolves_def)

lemma evolves_lock [simp]: "evolves cm (cm'\<lparr>cm_lock := l\<rparr>) = evolves cm cm'"
  by (simp add: evolves_def)

lemma evolves_trans: "evolves cm cm1 \<Longrightarrow> evolves cm1 cm2 \<Longrightarrow> evolves cm cm2"
  unfolding evolves_def by metis

lemma evolves_inv: "evolves cm cm' \<Longrightarrow> manager_inv cm \<Longrightarrow> manager_inv cm'"
  unfolding evolves_def manager_inv_def by fastforce

lemma evolves_put: "gm_get (cm_store cm) r = Some c \<Longrightarrow> http_id c' = http_id c \<Longrightarrow> evolves cm (cm\<lparr>cm_store := gm_set (cm_store cm) r c'\<rparr>)"
  by (auto simp: evolves_def)

text \<open>A method that keeps the identity of a connector.\<close>

definition keeps_id :: "('f HTTPConnector \<Rightarrow> 'w \<Rightarrow> (string, ('f HTTPConnector \<times> 'w) \<times> string option) go) \<Rightarrow> bool" where
  "keeps_id mth \<longleftrightarrow> (\<forall>c w c' w' err. mth c w = Ok ((c', w'), err) \<longrightarrow> http_id c' = http_id c)"

lemma Start_keeps_id: "keeps_id (op_Start (http_ops lib) now)"
  by (auto simp: keeps_id_def http_ops_def HTTP_Start_def http_id_def http_simps split: if_splits prod.splits option.splits)

lemma Stop_keeps_id: "keeps_id (op_Stop (http_ops lib) now)"
  by (auto simp: keeps_id_def http_ops_def HTTP_Stop_def http_id_def http_simps split: if_splits)

lemma Close_keeps_id: "keeps_id (op_Close (http_ops lib) now)"
  by (auto simp: keeps_id_def http_ops_def HTTP_Close_def http_id_def http_simps split: if_splits)

lemma Restart_keeps_id: "keeps_id (op_Restart (http_ops lib) now)"
  using Stop_keeps_id [of lib now] Start_keeps_id [of lib now]
  by (fastforce simp: keeps_id_def http_ops_def HTTP_Restart_def split: option.splits)

lemma call_evolves: "keeps_id mth \<Longrightarrow> evolves cm (fst (call mth r cm w))"
  by (auto simp: call_def keeps_id_def evolves_put split: option.splits go.splits)

lemma shut_down_evolves: "evolves cm (fst (shut_down (http_ops lib) now r cm w))"
  unfolding shut_down_def
proof (rule call_evolves)
  show "keeps_id (\<lambda>c w. go_bind (op_IsRunning (http_ops lib) c) (\<lambda>running.
      go_bind (if running then op_Stop (http_ops lib) now c w else Ok ((c, w), None)) (\<lambda>((c1, w1), err).
        case err of Some e \<Rightarrow> Ok ((c1, w1), Some e) | None \<Rightarrow> op_Close (http_ops lib) now c1 w1)))"
    using Stop_keeps_id [of lib now] Close_keeps_id [of lib now] unfolding keeps_id_def
    by (auto split: if_splits option.splits) (metis option.exhaust)+
qed

lemma close_all_evolves: "evolves cm (fst (close_all (http_ops lib) now rs cm w))"
proof (induction rs arbitrary: cm w)
  case (Cons r rs)
  let ?c1 = "call (op_Stop (http_ops lib) now) r cm w"
  have e1: "evolves cm (fst ?c1)" by (rule call_evolves [OF Stop_keeps_id])
  have e2: "evolves (fst ?c1) (fst (call (op_Close (http_ops lib) now) r (fst ?c1) w'))" for w' by (rule call_evolves [OF Close_keeps_id])
  obtain cm1 r1 where 1: "?c1 = (cm1, r1)" by (cases ?c1)
  show ?case
  proof (cases r1)
    case (Ok x)
    obtain w1 err where x: "x = (w1, err)" by (cases x)
    obtain cm2 r2 where 2: "call (op_Close (http_ops lib) now) r cm1 w1 = (cm2, r2)" by (cases "call (op_Close (http_ops lib) now) r cm1 w1")
    have "evolves cm cm2" using e1 e2 [of w1] 1 2 by (auto intro: evolves_trans)
    then show ?thesis using 1 2 Ok x Cons.IH by (cases r2) (auto intro: evolves_trans)
  qed (use 1 e1 Cons.IH in \<open>auto intro: evolves_trans\<close>)
qed simp

text \<open>
  The states of a manager: what its callers do, the goroutines that \<open>CreateConnector\<close> starts and the
  ticks of the health checks, in any order.
\<close>

inductive manager_reach :: "('f, 'w) httplib \<Rightarrow> ('f HTTPConnector, 'f) ConnectorManager \<Rightarrow> bool" for lib :: "('f, 'w) httplib" where
  new: "manager_reach lib NewConnectorManager"
| register: "manager_reach lib cm \<Longrightarrow> manager_reach lib (fst (RegisterFactory (HTTPConnectorFactory lib) cm))"
| create: "manager_reach lib cm \<Longrightarrow> manager_reach lib (fst (CreateConnector now config cm))"
| started: "manager_reach lib cm \<Longrightarrow> manager_reach lib (fst (call (op_Start (http_ops lib) now) r cm w))"
| start: "manager_reach lib cm \<Longrightarrow> manager_reach lib (fst (StartConnector (http_ops lib) now cid cm w))"
| stop: "manager_reach lib cm \<Longrightarrow> manager_reach lib (fst (StopConnector (http_ops lib) now cid cm w))"
| restart: "manager_reach lib cm \<Longrightarrow> manager_reach lib (fst (RestartConnector (http_ops lib) now cid cm w))"
| update: "manager_reach lib cm \<Longrightarrow> manager_reach lib (fst (UpdateConnector (http_ops lib) now cid config cm))"
| delete: "manager_reach lib cm \<Longrightarrow> manager_reach lib (fst (DeleteConnector (http_ops lib) now cid cm w))"
| tick: "manager_reach lib cm \<Longrightarrow> gm_get (cm_store cm) r = Some hc \<Longrightarrow> performHealthCheck now result (hc_base hc) = Ok bc
    \<Longrightarrow> manager_reach lib (cm\<lparr>cm_store := gm_set (cm_store cm) r (hc\<lparr>hc_base := bc\<rparr>)\<rparr>)"
| checked: "manager_reach lib cm \<Longrightarrow> manager_reach lib (fst (HealthCheckAll (http_ops lib) cm w))"
| metrics: "manager_reach lib cm \<Longrightarrow> manager_reach lib (fst (GetAllMetrics (http_ops lib) cm))"
| closed: "manager_reach lib cm \<Longrightarrow> manager_reach lib (fst (Manager_Close (http_ops lib) now cm w))"

lemma GetConnector_same: "GetConnector cid cm = (cm', x) \<Longrightarrow> cm' = cm"
  by (auto simp: GetConnector_def as_reader_def split: if_splits)

lemma lookup_evolves:
  assumes "\<And>r. evolves cm (fst (body r cm))"
  shows "evolves cm (fst (case GetConnector cid cm of (cm, Ok r) \<Rightarrow> body r cm
      | (cm, Err e) \<Rightarrow> (cm, Err e) | (cm, Panic) \<Rightarrow> (cm, Panic) | (cm, Blocked) \<Rightarrow> (cm, Blocked)))"
  using assms by (auto split: prod.splits go.splits dest: GetConnector_same)

lemma UpdateConnector_evolves: "evolves cm (fst (UpdateConnector (http_ops lib) now cid config cm))"
  unfolding UpdateConnector_def
  by (rule lookup_evolves)
    (auto simp: http_ops_def HTTP_UpdateConfig_def http_simps http_id_def split: option.splits go.splits if_splits intro!: evolves_put)

definition factories_ok :: "('f, 'w) httplib \<Rightarrow> ('f HTTPConnector, 'f) ConnectorManager \<Rightarrow> bool" where
  "factories_ok lib cm \<longleftrightarrow> (\<forall>t f. gm_get (cm_factories cm) t = Some f \<longrightarrow> fa_Create f = HTTP_Create lib)"

lemma HTTP_Create_id: "HTTP_Create lib now config = Ok hc \<Longrightarrow> http_id hc = cc_ID config"
  by (auto simp: HTTP_Create_def http_id_def NewBaseConnector_def Let_def)

lemma CreateConnector_inv:
  assumes "manager_inv cm" and "factories_ok lib cm"
  shows "manager_inv (fst (CreateConnector now config cm))"
proof (cases "snd (CreateConnector now config cm)")
  case (Ok x)
  then obtain hc where hc: "HTTP_Create lib now config = Ok hc" and new: "gm_get (cm_connectors cm) (cc_ID config) = None"
      and cm': "fst (CreateConnector now config cm) = cm\<lparr>cm_store := gm_set (cm_store cm) (fresh_key (cm_store cm)) hc,
                  cm_connectors := gm_set (cm_connectors cm) (cc_ID config) (fresh_key (cm_store cm))\<rparr>"
    using assms(2) by (auto simp: CreateConnector_def as_writer_def factories_ok_def HTTPConnectorFactory_def Let_def
        split: if_splits option.splits go.splits)
  have "gm_get (cm_store cm) r \<noteq> None" if "(cid, r) \<in> set (cm_connectors cm)" for cid r
    using assms(1) that by (auto simp: manager_inv_def)
  then have "r \<noteq> fresh_key (cm_store cm)" if "(cid, r) \<in> set (cm_connectors cm)" for cid r
    using that by fastforce
  with assms(1) HTTP_Create_id [OF hc] show ?thesis unfolding cm' manager_inv_def by (auto simp: set_gm_set)
qed (use assms in \<open>auto simp: CreateConnector_def as_writer_def manager_inv_def Let_def split: if_splits option.splits go.splits\<close>)

lemma DeleteConnector_inv:
  assumes "manager_inv cm"
  shows "manager_inv (fst (DeleteConnector (http_ops lib) now cid cm w))"
proof -
  have "manager_inv (fst (shut_down (http_ops lib) now r cm w))" for r
    by (rule evolves_inv [OF shut_down_evolves assms])
  moreover have "manager_inv (cm'\<lparr>cm_connectors := gm_del (cm_connectors cm') cid\<rparr>)" if "manager_inv cm'" for cm'
    using that by (auto simp: manager_inv_def set_gm_del)
  moreover have "manager_inv (cm'\<lparr>cm_lock := l\<rparr>) = manager_inv cm'" for cm' l by (simp add: manager_inv_def)
  ultimately show ?thesis using assms
    by (auto simp: DeleteConnector_def as_writer_def keep_lock_def split: option.splits prod.splits go.splits) (metis fst_conv)+
qed

lemma lock_evolves:
  assumes "evolves cm cm'"
  shows "evolves cm (fst (keep_lock (cm', x)))" and "evolves cm (fst (keep_reading (cm', x)))"
  using assms by (auto simp: keep_lock_def keep_reading_def split: go.splits)

lemma Manager_Close_evolves: "evolves cm (fst (Manager_Close (http_ops lib) now cm w))"
proof -
  let ?cm = "cm\<lparr>cm_cancelled := True\<rparr>"
  obtain cm' x where c: "close_all (http_ops lib) now (map snd (cm_connectors ?cm)) ?cm w = (cm', x)" by (meson surj_pair)
  have "evolves cm ?cm" by (simp add: evolves_def)
  then have "evolves cm cm'" using close_all_evolves [of ?cm lib now "map snd (cm_connectors ?cm)" w] c by (auto intro: evolves_trans)
  with c \<open>evolves cm ?cm\<close> show ?thesis by (simp add: Manager_Close_def as_writer_def lock_evolves)
qed

text \<open>The table and the factories, which are those of HTTP connectors.\<close>

lemma evolves_ok: "evolves cm cm' \<Longrightarrow> manager_inv cm \<and> factories_ok lib cm \<Longrightarrow> manager_inv cm' \<and> factories_ok lib cm'"
  using evolves_inv by (auto simp: evolves_def factories_ok_def)

lemma CreateConnector_factories: "cm_factories (fst (CreateConnector now config cm)) = cm_factories cm"
  by (auto simp: CreateConnector_def as_writer_def Let_def split: option.splits go.splits)

lemma DeleteConnector_factories: "cm_factories (fst (DeleteConnector (http_ops lib) now cid cm w)) = cm_factories cm"
proof -
  have "cm_factories (fst (shut_down (http_ops lib) now r cm w)) = cm_factories cm" for r
    using shut_down_evolves [of cm lib now r w] by (simp add: evolves_def)
  then show ?thesis
    by (auto simp: DeleteConnector_def as_writer_def keep_lock_def split: option.splits prod.splits go.splits) (metis fst_conv)+
qed

lemma manager_reach_ok: "manager_reach lib cm \<Longrightarrow> manager_inv cm \<and> factories_ok lib cm"
proof (induction rule: manager_reach.induct)
  case new
  show ?case by (simp add: NewConnectorManager_def manager_inv_def factories_ok_def)
next
  case (register cm)
  then show ?case by (auto simp: RegisterFactory_def as_writer_def manager_inv_def factories_ok_def HTTPConnectorFactory_def)
next
  case (create cm now config)
  then show ?case using CreateConnector_inv [of cm lib now config] CreateConnector_factories [of now config cm] by (simp add: factories_ok_def)
next
  case (delete cm now cid w)
  then show ?case using DeleteConnector_inv [of cm lib now cid w] DeleteConnector_factories [of lib now cid cm w] by (simp add: factories_ok_def)
next
  case (tick cm r hc now result bc)
  have "http_id (hc\<lparr>hc_base := bc\<rparr>) = http_id hc"
    using tick.hyps(3) by (auto simp: performHealthCheck_def http_id_def Let_def split: if_splits option.splits)
  from evolves_put [OF tick.hyps(2) this] tick.IH show ?case by (rule evolves_ok)
next
  case (started cm now r w)
  from call_evolves [OF Start_keeps_id] started.IH show ?case by (rule evolves_ok)
next
  case (start cm now cid w)
  from lookup_evolves [OF call_evolves [OF Start_keeps_id]] start.IH show ?case unfolding StartConnector_def by (rule evolves_ok)
next
  case (stop cm now cid w)
  from lookup_evolves [OF call_evolves [OF Stop_keeps_id]] stop.IH show ?case unfolding StopConnector_def by (rule evolves_ok)
next
  case (restart cm now cid w)
  from lookup_evolves [OF call_evolves [OF Restart_keeps_id]] restart.IH show ?case unfolding RestartConnector_def by (rule evolves_ok)
next
  case (update cm now cid config)
  from UpdateConnector_evolves update.IH show ?case by (rule evolves_ok)
next
  case (checked cm w)
  have "evolves cm (fst (HealthCheckAll (http_ops lib) cm w))" by (simp add: HealthCheckAll_def as_reader_def lock_evolves)
  then show ?case using checked.IH by (rule evolves_ok)
next
  case (metrics cm)
  have "evolves cm (fst (GetAllMetrics (http_ops lib) cm))" by (simp add: GetAllMetrics_def as_reader_def lock_evolves)
  then show ?case using metrics.IH by (rule evolves_ok)
next
  case (closed cm now w)
  from Manager_Close_evolves closed.IH show ?case by (rule evolves_ok)
qed

text \<open>
  In every state the connector manager reaches, its table names existing connectors, each under its
  own identifier and none twice. A published message is handed, once and in the order of the loop, to
  exactly the connectors that run, up to the first whose lock is lost; there the loop waits for ever, and
  when a writer waits for the manager it does not even begin. It never panics.
\<close>

lemma manager_routes_to_running:
  fixes lib :: "('f, 'w) httplib"
  assumes "manager_reach lib cm"
  shows "(\<forall>(cid, r) \<in> set (cm_connectors cm). \<exists>hc. gm_get (cm_store cm) r = Some hc \<and> cc_ID (bc_config (hc_base hc)) = cid)
    \<and> distinct (map fst (cm_connectors cm)) \<and> distinct (map snd (cm_connectors cm))
    \<and> routeToConnectors (http_ops lib) now topicName payload qos userProperties responseTopic correlationData (Some cm) =
       (if cm_lock cm = WriterWaits then ([], Blocked)
        else (map (\<lambda>e. (e, connector_message now topicName payload qos userProperties responseTopic correlationData))
                (filter (\<lambda>e. bc_state (hc_base (connector_at cm e)) = StateRunning)
                   (takeWhile (\<lambda>e. \<not> bc_stuck (hc_base (connector_at cm e))) (cm_connectors cm))),
              if \<exists>e \<in> set (cm_connectors cm). bc_stuck (hc_base (connector_at cm e)) then Blocked else Ok ()))"
proof -
  have inv: "manager_inv cm" using manager_reach_ok [OF assms(1)] by simp
  then have at: "(\<forall>(cid, r) \<in> set (cm_connectors cm). \<exists>hc. gm_get (cm_store cm) r = Some hc \<and> cc_ID (bc_config (hc_base hc)) = cid)"
    and wf: "distinct (map fst (cm_connectors cm))" by (auto simp: manager_inv_def http_id_def)
  have inj: "inj_on snd (set (cm_connectors cm))" 
  proof (rule inj_onI)
    fix e e' assume "e \<in> set (cm_connectors cm)" and "e' \<in> set (cm_connectors cm)" and "snd e = snd e'"
    with at show "e = e'" by (cases e; cases e') fastforce
  qed
  have "distinct (map snd (cm_connectors cm))" using wf inj by (auto simp: distinct_map)
  moreover have "\<forall>e \<in> set (cm_connectors cm). gm_get (cm_store cm) (snd e) \<noteq> None" using at by fastforce
  ultimately show ?thesis using at wf http.running_of_exact [of "cm_connectors cm" cm lib]
    by (auto simp: routeToConnectors_def ListConnectors_def as_reader_def http_stuck_def http_running_def Let_def)
qed

text \<open>
  Deleting a connector whose lock is lost does not return, and leaves the manager locked: creating,
  finding, listing, starting, stopping or deleting any connector, routing a message to the connectors and
  closing the manager (which the broker does when it shuts down) wait for ever. Closing the manager waits
  even without the attempt to delete.
\<close>

lemma stuck_connector_blocks_manager:
  fixes lib :: "('f, 'w) httplib" and w :: 'w
  assumes "manager_reach lib cm" and "cm_lock cm = Free" and "gm_get (cm_connectors cm) cid = Some r"
    and "gm_get (cm_store cm) r = Some hc" and "bc_stuck (hc_base hc)"
  shows "let (cm', result) = DeleteConnector (http_ops lib) now cid cm w in
    result = Blocked
    \<and> snd (CreateConnector now config cm') = Blocked \<and> snd (GetConnector cid' cm') = Blocked
    \<and> snd (StartConnector (http_ops lib) now cid' cm' w) = Blocked \<and> snd (StopConnector (http_ops lib) now cid' cm' w) = Blocked
    \<and> snd (DeleteConnector (http_ops lib) now cid' cm' w) = Blocked
    \<and> routeToConnectors (http_ops lib) now topicName payload qos userProperties responseTopic correlationData (Some cm') = ([], Blocked)
    \<and> snd (Manager_Close (http_ops lib) now cm' w) = Blocked \<and> snd (Manager_Close (http_ops lib) now cm w) = Blocked"
proof -
  let ?cm = "cm\<lparr>cm_lock := WriterWaits\<rparr>"
  have "DeleteConnector (http_ops lib) now cid cm w = (?cm, Blocked)"
    using http.DeleteConnector_stuck [OF assms(2-4)] assms(5) by (simp add: http_stuck_def)
  moreover have "snd (close_all (http_ops lib) now (map snd (cm_connectors cm)) (cm\<lparr>cm_cancelled := True\<rparr>) w) = Blocked"
  proof (rule http.close_all_blocked)
    show "\<forall>r \<in> set (map snd (cm_connectors cm)). gm_get (cm_store (cm\<lparr>cm_cancelled := True\<rparr>)) r \<noteq> None"
      using manager_reach_ok [OF assms(1)] by (fastforce simp: manager_inv_def)
    have "r \<in> set (map snd (cm_connectors cm))" using gm_get_in [OF assms(3)] by force
    then show "\<exists>r \<in> set (map snd (cm_connectors cm)). \<exists>c. gm_get (cm_store (cm\<lparr>cm_cancelled := True\<rparr>)) r = Some c \<and> http_stuck c"
      using assms(4,5) by (auto simp: http_stuck_def)
  qed
  then have "snd (Manager_Close (http_ops lib) now cm w) = Blocked"
    using assms(2) by (auto simp: Manager_Close_def as_writer_def keep_lock_def split: prod.splits)
  ultimately show ?thesis
    by (simp add: CreateConnector_def GetConnector_def StartConnector_def StopConnector_def DeleteConnector_def Manager_Close_def
        routeToConnectors_def ListConnectors_def as_reader_def as_writer_def)
qed

section \<open>An example\<close>

definition created_manager :: "(unit HTTPConnector, unit) ConnectorManager" where
  "created_manager = fst (CreateConnector 1 example_connector (fst (RegisterFactory (HTTPConnectorFactory example_http) NewConnectorManager)))"

definition running_manager :: "(unit HTTPConnector, unit) ConnectorManager" where
  "running_manager = fst (StartConnector (http_ops example_http) 2 ''c'' created_manager ())"

lemma running_manager_reached: "manager_reach example_http running_manager"
  unfolding running_manager_def created_manager_def by (intro manager_reach.intros)

definition example_hc :: "unit HTTPConnector" where
  "example_hc = connector_at running_manager (''c'', 1)"

lemma running_manager_table: "cm_connectors running_manager = [(''c'', 1)]" "cm_store running_manager = [(1, example_hc)]"
    "cm_lock running_manager = Free"
  by code_simp+

lemma example_hc_state: "bc_state (hc_base example_hc) = StateRunning" "bc_stuck (hc_base example_hc) = False"
    "fails (hc_base example_hc) = 0" "max_fails (hc_base example_hc) = 1"
  by code_simp+

lemma manager_routes_to_running_witness:
  "manager_reach example_http running_manager
    \<and> routeToConnectors (http_ops example_http) 3 ''t'' [1] 0 [] [] [] (Some running_manager) =
       ([((''c'', 1), connector_message 3 ''t'' [1] 0 [] [] [])], Ok ())"
  using running_manager_reached manager_routes_to_running [OF running_manager_reached, of 3 "''t''" "[1]" 0 "[]" "[]" "[]"]
  by (simp add: running_manager_table connector_at_def example_hc_state)

definition stuck_manager :: "(unit HTTPConnector, unit) ConnectorManager" where
  "stuck_manager = running_manager\<lparr>cm_store := gm_set (cm_store running_manager) 1
     (example_hc\<lparr>hc_base := (case performHealthCheck 5 (Some ''down'') (hc_base example_hc) of Ok bc \<Rightarrow> bc)\<rparr>)\<rparr>"

lemma stuck_manager_reached: "manager_reach example_http stuck_manager"
proof -
  have "performHealthCheck 5 (Some ''down'') (hc_base example_hc) =
      Ok (case performHealthCheck 5 (Some ''down'') (hc_base example_hc) of Ok bc \<Rightarrow> bc)" by code_simp
  moreover have "gm_get (cm_store running_manager) 1 = Some example_hc" by (simp add: running_manager_table)
  ultimately show ?thesis unfolding stuck_manager_def by (intro manager_reach.tick [OF running_manager_reached])
qed

lemma stuck_connector_blocks_manager_witness:
  "manager_reach example_http stuck_manager \<and> snd (DeleteConnector (http_ops example_http) 6 ''c'' stuck_manager ()) = Blocked
    \<and> snd (Manager_Close (http_ops example_http) 6 stuck_manager ()) = Blocked"
proof -
  let ?hc = "connector_at stuck_manager (''c'', 1)"
  have t: "cm_lock stuck_manager = Free" "gm_get (cm_connectors stuck_manager) ''c'' = Some 1" by code_simp+
  have s: "gm_get (cm_store stuck_manager) 1 = Some ?hc" by (simp add: stuck_manager_def connector_at_def)
  have k: "bc_stuck (hc_base ?hc)" by code_simp
  from stuck_connector_blocks_manager [OF stuck_manager_reached t s k, where now = 6 and w = "()" and config = example_connector
      and cid' = "''c''" and topicName = "''t''" and payload = "[]" and qos = 0 and userProperties = "[]" and responseTopic = "[]"
      and correlationData = "[]"] stuck_manager_reached
  show ?thesis by (simp add: Let_def split_beta)
qed

end
