(* ===== verification/Mria_Replication.thy ===== *)
theory Mria_Replication
  imports Cluster
begin

text \<open>
  Replication between core and replicant nodes, \<open>pkg/mria/replication.go\<close>: the replicated tables, the
  log entries that a core node puts in its channel for every change, and how a replicant applies them.

  A role is a string, as in the code. The callbacks are arguments; they change the manager, since the
  broker integration updates routes in them. Reading and writing JSON is the argument \<open>replib\<close>; a value of
  type \<open>'j\<close> is what the field \<open>Data\<close> is after reading a log entry.
\<close>

section \<open>State\<close>

definition CoreNode :: string where
  "CoreNode = ''core''"

definition ReplicantNode :: string where
  "ReplicantNode = ''replicant''"

record SubscriptionData =
  sd_ClientID :: string
  sd_TopicFilter :: string
  sd_QoS :: int
  sd_NodeID :: string

record SessionData =
  se_ClientID :: string
  se_NodeID :: string
  se_Connected :: bool
  se_CleanSession :: bool
  se_ExpiryTime :: time

record RouteData =
  ro_TopicFilter :: string
  ro_NodeIDs :: "string list"

datatype repdata = DSubscription SubscriptionData | DSession SessionData | DRoute RouteData

record 'd ReplicationLog =
  lg_ID :: string
  lg_Timestamp :: time
  lg_NodeID :: string
  lg_Operation :: string
  lg_Table :: string
  lg_Data :: 'd
  lg_Version :: int

record ReplicationState =
  rp_subscriptions :: "(string, SubscriptionData) gomap"
  rp_sessions :: "(string, SessionData) gomap"
  rp_routes :: "(string, RouteData) gomap"
  rp_replicationLogs :: "repdata ReplicationLog list"
  rp_lastLogID :: int
  rp_version :: int

record ReplicationManager =
  rm_nodeID :: string
  rm_nodeRole :: string
  rm_state :: ReplicationState
  rm_replicationCh :: "repdata ReplicationLog list"
  rm_stopped :: bool

type_synonym rm_result = "(string, ReplicationManager) go"

text \<open>The callbacks for changes of subscriptions, sessions and routes; the string is the operation.\<close>

record callbacks =
  cb_subscription :: "SubscriptionData \<Rightarrow> string \<Rightarrow> ReplicationManager \<Rightarrow> rm_result"
  cb_session :: "SessionData \<Rightarrow> string \<Rightarrow> ReplicationManager \<Rightarrow> rm_result"
  cb_route :: "RouteData \<Rightarrow> string \<Rightarrow> ReplicationManager \<Rightarrow> rm_result"

definition no_callbacks :: callbacks where
  "no_callbacks = \<lparr>cb_subscription = (\<lambda>_ _. Ok), cb_session = (\<lambda>_ _. Ok), cb_route = (\<lambda>_ _. Ok)\<rparr>"

definition NewReplicationState :: ReplicationState where
  "NewReplicationState = \<lparr>rp_subscriptions = [], rp_sessions = [], rp_routes = [], rp_replicationLogs = [], rp_lastLogID = 0, rp_version = 0\<rparr>"

definition NewReplicationManager :: "string \<Rightarrow> string \<Rightarrow> ReplicationManager" where
  "NewReplicationManager nodeID nodeRole =
     \<lparr>rm_nodeID = nodeID, rm_nodeRole = nodeRole, rm_state = NewReplicationState, rm_replicationCh = [], rm_stopped = False\<rparr>"

text \<open>Closing the channel a second time panics.\<close>

definition Replication_Stop :: "ReplicationManager \<Rightarrow> rm_result" where
  "Replication_Stop rm = (if rm_stopped rm then Panic else Ok (rm\<lparr>rm_stopped := True\<rparr>))"

section \<open>Changes\<close>

definition generateLogID :: "time \<Rightarrow> ReplicationManager \<Rightarrow> ReplicationManager \<times> string" where
  "generateLogID now rm =
     (let n = rp_lastLogID (rm_state rm) + 1
      in (rm\<lparr>rm_state := (rm_state rm)\<lparr>rp_lastLogID := n\<rparr>\<rparr>, rm_nodeID rm @ ''-'' @ show_int (unix_nano now) @ ''-'' @ show_int n))"

text \<open>A send to the channel of 1000 entries waits when it is full.\<close>

definition replication_capacity :: nat where
  "replication_capacity = 1000"

definition log_change :: "time \<Rightarrow> string \<Rightarrow> string \<Rightarrow> repdata \<Rightarrow> ReplicationManager \<Rightarrow> rm_result" where
  "log_change now operation table data rm =
     (if rm_nodeRole rm \<noteq> CoreNode then Ok rm
      else case generateLogID now rm of (rm1, logID) \<Rightarrow>
        if length (rm_replicationCh rm1) \<ge> replication_capacity then Blocked
        else Ok (rm1\<lparr>rm_replicationCh := rm_replicationCh rm1 @
               [\<lparr>lg_ID = logID, lg_Timestamp = unix now, lg_NodeID = rm_nodeID rm1, lg_Operation = operation, lg_Table = table,
                 lg_Data = data, lg_Version = rp_version (rm_state rm1)\<rparr>]\<rparr>))"

definition sub_key :: "string \<Rightarrow> string \<Rightarrow> string" where
  "sub_key clientID topicFilter = clientID @ '':'' @ topicFilter"

definition bump :: "(ReplicationState \<Rightarrow> ReplicationState) \<Rightarrow> ReplicationManager \<Rightarrow> ReplicationManager" where
  "bump f rm = rm\<lparr>rm_state := (f (rm_state rm))\<lparr>rp_version := rp_version (rm_state rm) + 1\<rparr>\<rparr>"

definition AddSubscription :: "callbacks \<Rightarrow> time \<Rightarrow> string \<Rightarrow> string \<Rightarrow> int \<Rightarrow> ReplicationManager \<Rightarrow> rm_result" where
  "AddSubscription cb now clientID topicFilter qos rm =
     (let subscription = \<lparr>sd_ClientID = clientID, sd_TopicFilter = topicFilter, sd_QoS = qos, sd_NodeID = rm_nodeID rm\<rparr>;
          rm1 = bump (\<lambda>st. st\<lparr>rp_subscriptions := gm_set (rp_subscriptions st) (sub_key clientID topicFilter) subscription\<rparr>) rm
      in go_bind (log_change now ''INSERT'' ''subscriptions'' (DSubscription subscription) rm1)
           (cb_subscription cb subscription ''INSERT''))"

definition RemoveSubscription :: "callbacks \<Rightarrow> time \<Rightarrow> string \<Rightarrow> string \<Rightarrow> ReplicationManager \<Rightarrow> rm_result" where
  "RemoveSubscription cb now clientID topicFilter rm =
     (case gm_get (rp_subscriptions (rm_state rm)) (sub_key clientID topicFilter) of
        None \<Rightarrow> Err ''subscription not found''
      | Some subscription \<Rightarrow>
          let rm1 = bump (\<lambda>st. st\<lparr>rp_subscriptions := gm_del (rp_subscriptions st) (sub_key clientID topicFilter)\<rparr>) rm
          in go_bind (log_change now ''DELETE'' ''subscriptions'' (DSubscription subscription) rm1)
               (cb_subscription cb subscription ''DELETE''))"

text \<open>The session is stored before the code looks whether it exists, so the operation is always \<open>UPDATE\<close>.\<close>

definition AddSession :: "callbacks \<Rightarrow> time \<Rightarrow> string \<Rightarrow> bool \<Rightarrow> bool \<Rightarrow> time \<Rightarrow> ReplicationManager \<Rightarrow> rm_result" where
  "AddSession cb now clientID connected cleanSession expiryTime rm =
     (let session = \<lparr>se_ClientID = clientID, se_NodeID = rm_nodeID rm, se_Connected = connected, se_CleanSession = cleanSession,
                     se_ExpiryTime = expiryTime\<rparr>;
          rm1 = bump (\<lambda>st. st\<lparr>rp_sessions := gm_set (rp_sessions st) clientID session\<rparr>) rm;
          operation = (if gm_get (rp_sessions (rm_state rm1)) clientID \<noteq> None then ''UPDATE'' else ''INSERT'')
      in go_bind (log_change now operation ''sessions'' (DSession session) rm1) (cb_session cb session ''UPSERT''))"

definition RemoveSession :: "callbacks \<Rightarrow> time \<Rightarrow> string \<Rightarrow> ReplicationManager \<Rightarrow> rm_result" where
  "RemoveSession cb now clientID rm =
     (case gm_get (rp_sessions (rm_state rm)) clientID of
        None \<Rightarrow> Err ''session not found''
      | Some session \<Rightarrow>
          let rm1 = bump (\<lambda>st. st\<lparr>rp_sessions := gm_del (rp_sessions st) clientID\<rparr>) rm
          in go_bind (log_change now ''DELETE'' ''sessions'' (DSession session) rm1) (cb_session cb session ''DELETE''))"

definition UpdateRoute :: "callbacks \<Rightarrow> time \<Rightarrow> string \<Rightarrow> string list \<Rightarrow> ReplicationManager \<Rightarrow> rm_result" where
  "UpdateRoute cb now topicFilter nodeIDs rm =
     (let route = \<lparr>ro_TopicFilter = topicFilter, ro_NodeIDs = nodeIDs\<rparr>;
          rm1 = bump (\<lambda>st. st\<lparr>rp_routes := gm_set (rp_routes st) topicFilter route\<rparr>) rm
      in go_bind (log_change now ''UPDATE'' ''routes'' (DRoute route) rm1) (cb_route cb route ''UPDATE''))"

section \<open>Queries\<close>

definition Mria_GetSubscriptions :: "string \<Rightarrow> ReplicationManager \<Rightarrow> SubscriptionData list" where
  "Mria_GetSubscriptions clientID rm = filter (\<lambda>s. sd_ClientID s = clientID) (map snd (rp_subscriptions (rm_state rm)))"

definition GetSession :: "string \<Rightarrow> ReplicationManager \<Rightarrow> SessionData option" where
  "GetSession clientID rm = gm_get (rp_sessions (rm_state rm)) clientID"

definition GetRoute :: "string \<Rightarrow> ReplicationManager \<Rightarrow> RouteData option" where
  "GetRoute topicFilter rm = gm_get (rp_routes (rm_state rm)) topicFilter"

section \<open>The log\<close>

text \<open>\<open>processReplicationLog\<close> keeps the last 1000 entries.\<close>

definition keep_last :: "nat \<Rightarrow> 'a list \<Rightarrow> 'a list" where
  "keep_last n xs = (if length xs > n then drop (length xs - n) xs else xs)"

definition append_log :: "repdata ReplicationLog \<Rightarrow> ReplicationManager \<Rightarrow> ReplicationManager" where
  "append_log e rm =
     rm\<lparr>rm_state := (rm_state rm)\<lparr>rp_replicationLogs := keep_last 1000 (rp_replicationLogs (rm_state rm) @ [e])\<rparr>\<rparr>"

record 'j replib =
  rl_Marshal :: "repdata ReplicationLog \<Rightarrow> byte list option"
  rl_Unmarshal :: "byte list \<Rightarrow> 'j ReplicationLog option"
  rl_subscription :: "'j \<Rightarrow> SubscriptionData option"
  rl_session :: "'j \<Rightarrow> SessionData option"
  rl_route :: "'j \<Rightarrow> RouteData option"

text \<open>
  \<open>replicateToReplicants\<close> with the identifiers of the replicant nodes and the cluster manager; the result
  is the list of calls that are started.
\<close>

definition replicateToReplicants :: "'j replib \<Rightarrow> string list \<Rightarrow> Manager \<Rightarrow> repdata ReplicationLog \<Rightarrow> (string \<times> rpc) list" where
  "replicateToReplicants lib replicantNodes clusterManager e =
     (if replicantNodes = [] then []
      else case rl_Marshal lib e of
             None \<Rightarrow> []
           | Some data \<Rightarrow> concat (map (\<lambda>n. ForwardPublish clusterManager (''$mria/replication/'' @ n) data n) replicantNodes))"

definition processReplicationLog :: "'j replib \<Rightarrow> string list \<Rightarrow> Manager \<Rightarrow> repdata ReplicationLog \<Rightarrow> ReplicationManager
    \<Rightarrow> ReplicationManager \<times> (string \<times> rpc) list" where
  "processReplicationLog lib replicantNodes clusterManager e rm =
     (append_log e rm, if rm_nodeRole rm = CoreNode then replicateToReplicants lib replicantNodes clusterManager e else [])"

text \<open>One turn of \<open>replicationLoop\<close>; \<open>None\<close> when there is nothing to read or the manager was stopped.\<close>

definition replicationLoop :: "'j replib \<Rightarrow> string list \<Rightarrow> Manager \<Rightarrow> ReplicationManager \<Rightarrow> (ReplicationManager \<times> (string \<times> rpc) list) option" where
  "replicationLoop lib replicantNodes clusterManager rm =
     (if rm_stopped rm then None
      else case rm_replicationCh rm of
             [] \<Rightarrow> None
           | e # rest \<Rightarrow> Some (processReplicationLog lib replicantNodes clusterManager e (rm\<lparr>rm_replicationCh := rest\<rparr>)))"

text \<open>What a replicant does with an entry.\<close>

definition put_table :: "string \<Rightarrow> string \<Rightarrow> 'v \<Rightarrow> (string, 'v) gomap \<Rightarrow> (string, 'v) gomap" where
  "put_table operation key v m =
     (if operation = ''INSERT'' \<or> operation = ''UPDATE'' then gm_set m key v
      else if operation = ''DELETE'' then gm_del m key else m)"

definition applySubscriptionChange :: "callbacks \<Rightarrow> 'j replib \<Rightarrow> 'j ReplicationLog \<Rightarrow> ReplicationManager \<Rightarrow> rm_result" where
  "applySubscriptionChange cb lib e rm =
     (case rl_subscription lib (lg_Data e) of
        None \<Rightarrow> Err ''unmarshal''
      | Some s \<Rightarrow>
          cb_subscription cb s (lg_Operation e) (rm\<lparr>rm_state := (rm_state rm)\<lparr>
            rp_subscriptions := put_table (lg_Operation e) (sub_key (sd_ClientID s) (sd_TopicFilter s)) s (rp_subscriptions (rm_state rm)),
            rp_version := lg_Version e\<rparr>\<rparr>))"

definition applySessionChange :: "callbacks \<Rightarrow> 'j replib \<Rightarrow> 'j ReplicationLog \<Rightarrow> ReplicationManager \<Rightarrow> rm_result" where
  "applySessionChange cb lib e rm =
     (case rl_session lib (lg_Data e) of
        None \<Rightarrow> Err ''unmarshal''
      | Some s \<Rightarrow>
          cb_session cb s (lg_Operation e) (rm\<lparr>rm_state := (rm_state rm)\<lparr>
            rp_sessions := put_table (lg_Operation e) (se_ClientID s) s (rp_sessions (rm_state rm)), rp_version := lg_Version e\<rparr>\<rparr>))"

definition applyRouteChange :: "callbacks \<Rightarrow> 'j replib \<Rightarrow> 'j ReplicationLog \<Rightarrow> ReplicationManager \<Rightarrow> rm_result" where
  "applyRouteChange cb lib e rm =
     (case rl_route lib (lg_Data e) of
        None \<Rightarrow> Err ''unmarshal''
      | Some r \<Rightarrow>
          cb_route cb r (lg_Operation e) (rm\<lparr>rm_state := (rm_state rm)\<lparr>
            rp_routes := put_table (lg_Operation e) (ro_TopicFilter r) r (rp_routes (rm_state rm)), rp_version := lg_Version e\<rparr>\<rparr>))"

definition ApplyReplicationLog :: "callbacks \<Rightarrow> 'j replib \<Rightarrow> byte list \<Rightarrow> ReplicationManager \<Rightarrow> rm_result" where
  "ApplyReplicationLog cb lib logData rm =
     (case rl_Unmarshal lib logData of
        None \<Rightarrow> Err ''failed to unmarshal replication log''
      | Some e \<Rightarrow>
          if lg_Table e = ''subscriptions'' then applySubscriptionChange cb lib e rm
          else if lg_Table e = ''sessions'' then applySessionChange cb lib e rm
          else if lg_Table e = ''routes'' then applyRouteChange cb lib e rm
          else Err (''unknown table: '' @ lg_Table e))"

section \<open>Replaying the log\<close>

text \<open>What the code relies on: reading an entry back from its JSON text gives the entry.\<close>

definition json_faithful :: "'j replib \<Rightarrow> repdata ReplicationLog \<Rightarrow> bool" where
  "json_faithful lib e \<longleftrightarrow>
     (\<exists>bs raw. rl_Marshal lib e = Some bs \<and> rl_Unmarshal lib bs = Some raw
       \<and> lg_Operation raw = lg_Operation e \<and> lg_Table raw = lg_Table e \<and> lg_Version raw = lg_Version e
       \<and> (case lg_Data e of
            DSubscription s \<Rightarrow> rl_subscription lib (lg_Data raw) = Some s
          | DSession s \<Rightarrow> rl_session lib (lg_Data raw) = Some s
          | DRoute r \<Rightarrow> rl_route lib (lg_Data raw) = Some r))"

text \<open>A replicant that receives the entries of a core node one by one.\<close>

fun replay :: "callbacks \<Rightarrow> 'j replib \<Rightarrow> repdata ReplicationLog list \<Rightarrow> ReplicationManager \<Rightarrow> rm_result" where
  "replay cb lib [] rm = Ok rm"
| "replay cb lib (e # es) rm =
     (case rl_Marshal lib e of
        None \<Rightarrow> Err ''marshal''
      | Some bs \<Rightarrow> go_bind (ApplyReplicationLog cb lib bs rm) (replay cb lib es))"

lemma replay_append: "replay cb lib (es @ es') rm = go_bind (replay cb lib es rm) (replay cb lib es')"
proof (induction es arbitrary: rm)
  case (Cons e es)
  then show ?case by (cases "rl_Marshal lib e") (auto simp: go_bind_assoc fun_eq_iff intro!: arg_cong [of _ _ "go_bind _"])
qed simp

text \<open>Applying an entry that reads back is applying what it says.\<close>

definition sub_entry :: "repdata ReplicationLog \<Rightarrow> string \<Rightarrow> SubscriptionData \<Rightarrow> bool" where
  "sub_entry e operation s \<longleftrightarrow> lg_Table e = ''subscriptions'' \<and> lg_Operation e = operation \<and> lg_Data e = DSubscription s"

definition session_entry :: "repdata ReplicationLog \<Rightarrow> string \<Rightarrow> SessionData \<Rightarrow> bool" where
  "session_entry e operation s \<longleftrightarrow> lg_Table e = ''sessions'' \<and> lg_Operation e = operation \<and> lg_Data e = DSession s"

definition route_entry :: "repdata ReplicationLog \<Rightarrow> RouteData \<Rightarrow> bool" where
  "route_entry e r \<longleftrightarrow> lg_Table e = ''routes'' \<and> lg_Operation e = ''UPDATE'' \<and> lg_Data e = DRoute r"

lemma replay_sub:
  assumes "json_faithful lib e" and "sub_entry e operation s"
  shows "replay cb lib [e] rm = cb_subscription cb s operation (rm\<lparr>rm_state := (rm_state rm)\<lparr>
    rp_subscriptions := put_table operation (sub_key (sd_ClientID s) (sd_TopicFilter s)) s (rp_subscriptions (rm_state rm)),
    rp_version := lg_Version e\<rparr>\<rparr>)"
proof -
  have "go_bind x (replay cb lib []) = x" for x :: rm_result by (cases x) auto
  then show ?thesis using assms
    by (auto simp: json_faithful_def sub_entry_def ApplyReplicationLog_def applySubscriptionChange_def)
qed

lemma replay_session:
  assumes "json_faithful lib e" and "session_entry e operation s"
  shows "replay cb lib [e] rm = cb_session cb s operation (rm\<lparr>rm_state := (rm_state rm)\<lparr>
    rp_sessions := put_table operation (se_ClientID s) s (rp_sessions (rm_state rm)), rp_version := lg_Version e\<rparr>\<rparr>)"
proof -
  have "go_bind x (replay cb lib []) = x" for x :: rm_result by (cases x) auto
  then show ?thesis using assms
    by (auto simp: json_faithful_def session_entry_def ApplyReplicationLog_def applySessionChange_def)
qed

lemma replay_route:
  assumes "json_faithful lib e" and "route_entry e r"
  shows "replay cb lib [e] rm = cb_route cb r ''UPDATE'' (rm\<lparr>rm_state := (rm_state rm)\<lparr>
    rp_routes := gm_set (rp_routes (rm_state rm)) (ro_TopicFilter r) r, rp_version := lg_Version e\<rparr>\<rparr>)"
proof -
  have "go_bind x (replay cb lib []) = x" for x :: rm_result by (cases x) auto
  then show ?thesis using assms
    by (auto simp: json_faithful_def route_entry_def ApplyReplicationLog_def applyRouteChange_def put_table_def)
qed

section \<open>What a core node logs\<close>

text \<open>The tables, without counters and logs.\<close>

definition tables :: "ReplicationManager \<Rightarrow> (string, SubscriptionData) gomap \<times> (string, SessionData) gomap \<times> (string, RouteData) gomap" where
  "tables rm = (rp_subscriptions (rm_state rm), rp_sessions (rm_state rm), rp_routes (rm_state rm))"

lemma log_change_core:
  assumes "log_change now operation table data rm = Ok rm'" and "rm_nodeRole rm = CoreNode"
  shows "tables rm' = tables rm \<and> rm_nodeID rm' = rm_nodeID rm \<and> rm_nodeRole rm' = rm_nodeRole rm \<and> rm_stopped rm' = rm_stopped rm
    \<and> (\<exists>e. rm_replicationCh rm' = rm_replicationCh rm @ [e] \<and> lg_Operation e = operation \<and> lg_Table e = table \<and> lg_Data e = data)"
  using assms by (auto simp: log_change_def generateLogID_def tables_def Let_def split: if_splits)

lemma log_change_other: "rm_nodeRole rm \<noteq> CoreNode \<Longrightarrow> log_change now operation table data rm = Ok rm"
  by (simp add: log_change_def)

lemma log_change_room:
  "length (rm_replicationCh rm) < replication_capacity \<Longrightarrow> \<exists>rm'. log_change now operation table data rm = Ok rm'"
  by (auto simp: log_change_def generateLogID_def Let_def)

lemma bump_simps [simp]:
  "rm_nodeID (bump f rm) = rm_nodeID rm" "rm_nodeRole (bump f rm) = rm_nodeRole rm" "rm_stopped (bump f rm) = rm_stopped rm"
  "rm_replicationCh (bump f rm) = rm_replicationCh rm"
  "tables (bump f rm) = tables (rm\<lparr>rm_state := f (rm_state rm)\<rparr>)"
  by (simp_all add: bump_def tables_def)

lemma AddSubscription_core:
  assumes "AddSubscription cb now c f q rm = Ok rm'" and "rm_nodeRole rm = CoreNode" and "\<And>s op' rm1. sd_NodeID s = rm_nodeID rm \<Longrightarrow> cb_subscription cb s op' rm1 = Ok rm1"
  defines "s \<equiv> \<lparr>sd_ClientID = c, sd_TopicFilter = f, sd_QoS = q, sd_NodeID = rm_nodeID rm\<rparr>"
  shows "tables rm' = (gm_set (rp_subscriptions (rm_state rm)) (sub_key c f) s, rp_sessions (rm_state rm), rp_routes (rm_state rm))
    \<and> rm_nodeID rm' = rm_nodeID rm \<and> rm_nodeRole rm' = rm_nodeRole rm
    \<and> (\<exists>e. rm_replicationCh rm' = rm_replicationCh rm @ [e] \<and> sub_entry e ''INSERT'' s)"
  using assms(1-3) unfolding AddSubscription_def Let_def s_def [symmetric]
  by (auto simp: s_def sub_entry_def tables_def bump_def dest!: log_change_core)

lemma RemoveSubscription_core:
  assumes "RemoveSubscription cb now c f rm = Ok rm'" and "rm_nodeRole rm = CoreNode" and "\<And>s op' rm1. sd_NodeID s = rm_nodeID rm \<Longrightarrow> cb_subscription cb s op' rm1 = Ok rm1"
    and "\<And>k s. gm_get (rp_subscriptions (rm_state rm)) k = Some s \<Longrightarrow> sd_NodeID s = rm_nodeID rm"
  shows "\<exists>s. gm_get (rp_subscriptions (rm_state rm)) (sub_key c f) = Some s
    \<and> tables rm' = (gm_del (rp_subscriptions (rm_state rm)) (sub_key c f), rp_sessions (rm_state rm), rp_routes (rm_state rm))
    \<and> rm_nodeID rm' = rm_nodeID rm \<and> rm_nodeRole rm' = rm_nodeRole rm
    \<and> (\<exists>e. rm_replicationCh rm' = rm_replicationCh rm @ [e] \<and> sub_entry e ''DELETE'' s)"
  using assms unfolding RemoveSubscription_def Let_def
  by (auto simp: sub_entry_def tables_def bump_def split: option.splits dest!: log_change_core)

lemma AddSession_core:
  assumes "AddSession cb now c conn clean expiry rm = Ok rm'" and "rm_nodeRole rm = CoreNode" and "\<And>s op' rm1. cb_session cb s op' rm1 = Ok rm1"
  defines "s \<equiv> \<lparr>se_ClientID = c, se_NodeID = rm_nodeID rm, se_Connected = conn, se_CleanSession = clean, se_ExpiryTime = expiry\<rparr>"
  shows "tables rm' = (rp_subscriptions (rm_state rm), gm_set (rp_sessions (rm_state rm)) c s, rp_routes (rm_state rm))
    \<and> rm_nodeID rm' = rm_nodeID rm \<and> rm_nodeRole rm' = rm_nodeRole rm
    \<and> (\<exists>e. rm_replicationCh rm' = rm_replicationCh rm @ [e] \<and> session_entry e ''UPDATE'' s)"
  using assms(1-3) unfolding AddSession_def Let_def s_def [symmetric]
  by (auto simp: session_entry_def tables_def bump_def dest!: log_change_core)

lemma UpdateRoute_core:
  assumes "UpdateRoute cb now f ns rm = Ok rm'" and "rm_nodeRole rm = CoreNode" and "\<And>r op' rm1. cb_route cb r op' rm1 = Ok rm1"
  defines "r \<equiv> \<lparr>ro_TopicFilter = f, ro_NodeIDs = ns\<rparr>"
  shows "tables rm' = (rp_subscriptions (rm_state rm), rp_sessions (rm_state rm), gm_set (rp_routes (rm_state rm)) f r)
    \<and> rm_nodeID rm' = rm_nodeID rm \<and> rm_nodeRole rm' = rm_nodeRole rm
    \<and> (\<exists>e. rm_replicationCh rm' = rm_replicationCh rm @ [e] \<and> route_entry e r)"
  using assms(1-3) unfolding UpdateRoute_def Let_def r_def [symmetric]
  by (auto simp: route_entry_def tables_def bump_def dest!: log_change_core)

end
