(* ===== verification/Mria_Cluster.thy ===== *)
theory Mria_Cluster
  imports Mria_Replication "HOL-Library.Char_ord" "HOL-Library.List_Lexorder"
begin

text \<open>
  The Mria cluster, \<open>pkg/mria\<close>: the manager with roles and leader election (\<open>manager.go\<close>), the layer
  between the cluster and the broker (\<open>integration.go\<close>) and the gRPC server (\<open>server.go\<close>).

  The tables of nodes hold pointers: \<open>Self\<close> is the information on the node itself, which heartbeats
  change, and \<open>Other\<close> what a joining node sent, which nobody changes. Strings are compared byte by byte.
  What goes out in a goroutine is returned as a list of calls or of peers to connect to.
\<close>

section \<open>The manager\<close>

record NodeInfo =
  ni_NodeId :: string
  ni_Address :: string
  ni_Version :: string
  ni_Uptime :: int
  ni_Status :: int
  ni_LastSeen :: int

definition NodeStatusStarting :: int where "NodeStatusStarting = 1"
definition NodeStatusRunning :: int where "NodeStatusRunning = 2"
definition NodeStatusStopping :: int where "NodeStatusStopping = 3"

datatype nodeptr = Self | Other NodeInfo

record MriaConfig =
  mf_NodeID :: string
  mf_NodeRole :: string
  mf_ListenAddress :: string
  mf_CoreNodes :: "string list"
  mf_HeartbeatInterval :: duration
  mf_ElectionTimeout :: duration
  mf_MaxReplicantNodes :: int
  mf_AutoDiscoveryEnabled :: bool
  mf_ClusterSecret :: string

definition DefaultMriaConfig :: "string \<Rightarrow> string \<Rightarrow> MriaConfig" where
  "DefaultMriaConfig nodeID listenAddress =
     \<lparr>mf_NodeID = nodeID, mf_NodeRole = CoreNode, mf_ListenAddress = listenAddress, mf_CoreNodes = [],
      mf_HeartbeatInterval = 5 * second, mf_ElectionTimeout = 10 * second, mf_MaxReplicantNodes = 100,
      mf_AutoDiscoveryEnabled = True, mf_ClusterSecret = []\<rparr>"

record ClusterState =
  ck_ClusterID :: string
  ck_Leader :: string
  ck_CoreNodes :: "(string, nodeptr) gomap"
  ck_ReplicantNodes :: "(string, nodeptr) gomap"
  ck_LastUpdated :: time

record MriaManager =
  mm_config :: MriaConfig
  mm_nodeInfo :: NodeInfo
  mm_clusterState :: ClusterState
  mm_clusterManager :: Manager
  mm_stopped :: bool
  mm_isLeader :: bool
  mm_leaderElectionCh :: "bool list"

definition NewMriaManager :: "time \<Rightarrow> MriaConfig \<Rightarrow> MriaManager" where
  "NewMriaManager now config =
     \<lparr>mm_config = config,
      mm_nodeInfo = \<lparr>ni_NodeId = mf_NodeID config, ni_Address = mf_ListenAddress config, ni_Version = ''1.0.0-mria'', ni_Uptime = 0,
                     ni_Status = NodeStatusStarting, ni_LastSeen = unix now\<rparr>,
      mm_clusterState = \<lparr>ck_ClusterID = ''emqx-cluster-'' @ show_int (unix now), ck_Leader = [], ck_CoreNodes = [], ck_ReplicantNodes = [],
                         ck_LastUpdated = now\<rparr>,
      mm_clusterManager = NewManager (mf_NodeID config) (mf_ListenAddress config),
      mm_stopped = False, mm_isLeader = False, mm_leaderElectionCh = []\<rparr>"

definition node_of :: "MriaManager \<Rightarrow> nodeptr \<Rightarrow> NodeInfo" where
  "node_of mm p = (case p of Self \<Rightarrow> mm_nodeInfo mm | Other n \<Rightarrow> n)"

definition connectToKnownNodes :: "MriaManager \<Rightarrow> (string \<times> string) list" where
  "connectToKnownNodes mm =
     filter (\<lambda>(nodeID, address). nodeID \<noteq> mf_NodeID (mm_config mm))
       (map (\<lambda>(i, address). (''core-'' @ show_nat i, address)) (enumerate 0 (mf_CoreNodes (mm_config mm))))"

text \<open>The discovery service may be missing (\<open>None\<close>) or fail (\<open>Some None\<close>).\<close>

definition startDiscovery :: "(string \<times> string) list option option \<Rightarrow> MriaManager \<Rightarrow> (string \<times> string) list" where
  "startDiscovery discovery mm =
     (if \<not> mf_AutoDiscoveryEnabled (mm_config mm) then connectToKnownNodes mm
      else case discovery of
             None \<Rightarrow> connectToKnownNodes mm
           | Some None \<Rightarrow> connectToKnownNodes mm
           | Some (Some found) \<Rightarrow> filter (\<lambda>(peerID, address). peerID \<noteq> mf_NodeID (mm_config mm)) found)"

definition Mria_Start :: "time \<Rightarrow> (string \<times> string) list option option \<Rightarrow> MriaManager \<Rightarrow> MriaManager \<times> (string \<times> string) list" where
  "Mria_Start now discovery mm =
     (let mm1 = mm\<lparr>mm_nodeInfo := (mm_nodeInfo mm)\<lparr>ni_Status := NodeStatusRunning, ni_Uptime := unix now\<rparr>\<rparr>;
          cs = mm_clusterState mm1;
          cs' = (if mf_NodeRole (mm_config mm1) = CoreNode
                 then cs\<lparr>ck_CoreNodes := gm_set (ck_CoreNodes cs) (mf_NodeID (mm_config mm1)) Self\<rparr>
                 else cs\<lparr>ck_ReplicantNodes := gm_set (ck_ReplicantNodes cs) (mf_NodeID (mm_config mm1)) Self\<rparr>);
          mm2 = mm1\<lparr>mm_clusterState := cs'\<rparr>
      in (mm2, startDiscovery discovery mm2))"

text \<open>A second \<open>Stop\<close> closes a closed channel.\<close>

definition Mria_Stop :: "MriaManager \<Rightarrow> (string, MriaManager) go" where
  "Mria_Stop mm =
     (if mm_stopped mm then Panic
      else Ok (mm\<lparr>mm_nodeInfo := (mm_nodeInfo mm)\<lparr>ni_Status := NodeStatusStopping\<rparr>, mm_stopped := True\<rparr>))"

definition IsLeader :: "MriaManager \<Rightarrow> bool" where
  "IsLeader mm \<longleftrightarrow> mm_isLeader mm \<and> mf_NodeRole (mm_config mm) = CoreNode"

definition GetCoreNodes :: "MriaManager \<Rightarrow> NodeInfo list" where
  "GetCoreNodes mm = map (\<lambda>(k, p). node_of mm p) (ck_CoreNodes (mm_clusterState mm))"

definition GetReplicantNodes :: "MriaManager \<Rightarrow> NodeInfo list" where
  "GetReplicantNodes mm = map (\<lambda>(k, p). node_of mm p) (ck_ReplicantNodes (mm_clusterState mm))"

text \<open>\<open>GetClusterState\<close> returns a copy of the tables.\<close>

definition GetClusterState :: "MriaManager \<Rightarrow> ClusterState" where
  "GetClusterState mm = mm_clusterState mm"

definition ForwardMessageToCore :: "string \<Rightarrow> byte list \<Rightarrow> MriaManager \<Rightarrow> (string, (string \<times> rpc) list) go" where
  "ForwardMessageToCore topic payload mm =
     (if mf_NodeRole (mm_config mm) = CoreNode then Ok []
      else case GetCoreNodes mm of
             [] \<Rightarrow> Err ''no core nodes available''
           | first # rest \<Rightarrow>
               let leader = ck_Leader (mm_clusterState mm);
                   found = (if leader \<noteq> [] then find (\<lambda>n. ni_NodeId n = leader) (first # rest) else None);
                   targetNode = (case found of Some n \<Rightarrow> n | None \<Rightarrow> first)
               in Ok (ForwardPublish (mm_clusterManager mm) topic payload (ni_NodeId targetNode)))"

definition sendHeartbeat :: "time \<Rightarrow> MriaManager \<Rightarrow> MriaManager" where
  "sendHeartbeat now mm =
     mm\<lparr>mm_nodeInfo := (mm_nodeInfo mm)\<lparr>ni_LastSeen := unix now, ni_Uptime := unix now - ni_Uptime (mm_nodeInfo mm)\<rparr>\<rparr>"

definition performMaintenance :: "time \<Rightarrow> MriaManager \<Rightarrow> MriaManager" where
  "performMaintenance now mm = mm\<lparr>mm_clusterState := (mm_clusterState mm)\<lparr>ck_LastUpdated := now\<rparr>\<rparr>"

definition elect :: "NodeInfo list \<Rightarrow> string" where
  "elect nodes = foldl (\<lambda>leader n.
     if ni_Status n = NodeStatusRunning \<and> (leader = [] \<or> ni_NodeId n < leader) then ni_NodeId n else leader) [] nodes"

text \<open>The channel has room for one change; the goroutine that sends is the one that reads.\<close>

definition performLeaderElection :: "MriaManager \<Rightarrow> (string, MriaManager) go" where
  "performLeaderElection mm =
     (if mf_NodeRole (mm_config mm) \<noteq> CoreNode then Ok mm
      else if GetCoreNodes mm = [] then Ok mm
      else
        let leader = elect (GetCoreNodes mm);
            oldLeader = ck_Leader (mm_clusterState mm);
            wasLeader = mm_isLeader mm;
            mm1 = mm\<lparr>mm_clusterState := (mm_clusterState mm)\<lparr>ck_Leader := leader\<rparr>, mm_isLeader := (leader = mf_NodeID (mm_config mm))\<rparr>;
            send = (\<lambda>b. if length (mm_leaderElectionCh mm1) \<ge> 1 then Blocked
                        else Ok (mm1\<lparr>mm_leaderElectionCh := mm_leaderElectionCh mm1 @ [b]\<rparr>))
        in if oldLeader = leader then Ok mm1
           else if mm_isLeader mm1 \<and> \<not> wasLeader then send True
           else if \<not> mm_isLeader mm1 \<and> wasLeader then send False
           else Ok mm1)"

text \<open>\<open>leaderElectionLoop\<close> reads a change from the channel; the callbacks of the integration only log.\<close>

definition handleLeadershipChange :: "MriaManager \<Rightarrow> (MriaManager \<times> bool) option" where
  "handleLeadershipChange mm =
     (case mm_leaderElectionCh mm of [] \<Rightarrow> None | b # rest \<Rightarrow> Some (mm\<lparr>mm_leaderElectionCh := rest\<rparr>, b))"

section \<open>The integration with the broker\<close>

record SessionInfo =
  sf_ClientID :: string
  sf_Connected :: bool
  sf_CleanSession :: bool
  sf_ConnectedAt :: time
  sf_LastSeen :: time

record BrokerIntegration =
  bi_nodeID :: string
  bi_nodeRole :: string
  bi_mria :: MriaManager
  bi_replication :: ReplicationManager
  bi_localSessions :: "(string, SessionInfo) gomap"
  bi_localRoutes :: "(string, string list) gomap"
  bi_isInitialized :: bool

definition NewBrokerIntegration :: "time \<Rightarrow> string \<Rightarrow> string \<Rightarrow> BrokerIntegration" where
  "NewBrokerIntegration now nodeID nodeRole =
     \<lparr>bi_nodeID = nodeID, bi_nodeRole = nodeRole,
      bi_mria = NewMriaManager now ((DefaultMriaConfig nodeID '':0'')\<lparr>mf_NodeRole := nodeRole\<rparr>),
      bi_replication = NewReplicationManager nodeID nodeRole, bi_localSessions = [], bi_localRoutes = [], bi_isInitialized = False\<rparr>"

text \<open>\<open>listen\<close> is the error of listening on the address, if any.\<close>

definition Initialize :: "time \<Rightarrow> string option \<Rightarrow> (string \<times> string) list option option \<Rightarrow> string \<Rightarrow> BrokerIntegration
    \<Rightarrow> (string, BrokerIntegration \<times> (string \<times> string) list) go" where
  "Initialize now listen discovery listenAddr bi =
     (if bi_isInitialized bi then Err ''broker integration already initialized''
      else case listen of
             Some e \<Rightarrow> Err (''failed to start cluster server: '' @ e)
           | None \<Rightarrow>
               (case Mria_Start now discovery ((bi_mria bi)\<lparr>mm_config := (mm_config (bi_mria bi))\<lparr>mf_ListenAddress := listenAddr\<rparr>\<rparr>) of
                  (mm, connects) \<Rightarrow> Ok (bi\<lparr>bi_mria := mm, bi_isInitialized := True\<rparr>, connects)))"

definition Shutdown :: "BrokerIntegration \<Rightarrow> (string, BrokerIntegration) go" where
  "Shutdown bi =
     (if \<not> bi_isInitialized bi then Ok bi
      else go_bind (Mria_Stop (bi_mria bi)) (\<lambda>mm.
           go_bind (Replication_Stop (bi_replication bi)) (\<lambda>rm.
             Ok (bi\<lparr>bi_isInitialized := False, bi_mria := mm, bi_replication := rm\<rparr>))))"

text \<open>
  The callbacks of the replication manager. Those for sessions and routes only log; the one for
  subscriptions of other nodes updates the route, which is a change of its own.
\<close>

definition updateRemoteRoute :: "time \<Rightarrow> string \<Rightarrow> string \<Rightarrow> bool \<Rightarrow> ReplicationManager \<Rightarrow> rm_result" where
  "updateRemoteRoute now topicFilter nodeID add rm =
     (case GetRoute topicFilter rm of
        None \<Rightarrow> if add then UpdateRoute no_callbacks now topicFilter [nodeID] rm else Ok rm
      | Some route \<Rightarrow>
          let found = (nodeID \<in> set (ro_NodeIDs route));
              kept = (if add then ro_NodeIDs route else filter (\<lambda>n. n \<noteq> nodeID) (ro_NodeIDs route));
              nodeIDs = (if add \<and> \<not> found then kept @ [nodeID] else kept)
          in UpdateRoute no_callbacks now topicFilter nodeIDs rm)"

definition handleSubscriptionChange :: "time \<Rightarrow> string \<Rightarrow> SubscriptionData \<Rightarrow> string \<Rightarrow> ReplicationManager \<Rightarrow> rm_result" where
  "handleSubscriptionChange now nodeID sub operation rm =
     (if sd_NodeID sub \<noteq> nodeID then updateRemoteRoute now (sd_TopicFilter sub) (sd_NodeID sub) (operation \<noteq> ''DELETE'') rm else Ok rm)"

definition integration_callbacks :: "time \<Rightarrow> string \<Rightarrow> callbacks" where
  "integration_callbacks now nodeID = no_callbacks\<lparr>cb_subscription := handleSubscriptionChange now nodeID\<rparr>"

text \<open>An error of the replication manager is logged, and the caller goes on.\<close>

definition log_error :: "ReplicationManager \<Rightarrow> rm_result \<Rightarrow> rm_result" where
  "log_error rm r = (case r of Err e \<Rightarrow> Ok rm | _ \<Rightarrow> r)"

definition with_replication :: "(ReplicationManager \<Rightarrow> rm_result) \<Rightarrow> BrokerIntegration \<Rightarrow> (string, BrokerIntegration) go" where
  "with_replication f bi = go_bind (log_error (bi_replication bi) (f (bi_replication bi))) (\<lambda>rm. Ok (bi\<lparr>bi_replication := rm\<rparr>))"

definition HandleClientConnect :: "time \<Rightarrow> string \<Rightarrow> bool \<Rightarrow> BrokerIntegration \<Rightarrow> (string, BrokerIntegration) go" where
  "HandleClientConnect now clientID cleanSession bi =
     (let bi1 = bi\<lparr>bi_localSessions := gm_set (bi_localSessions bi) clientID
                     \<lparr>sf_ClientID = clientID, sf_Connected = True, sf_CleanSession = cleanSession, sf_ConnectedAt = now, sf_LastSeen = now\<rparr>\<rparr>;
          expiryTime = (if cleanSession then now else now + 24 * hour)
      in with_replication (AddSession (integration_callbacks now (bi_nodeID bi)) now clientID True cleanSession expiryTime) bi1)"

text \<open>The session is looked up again after a clean session was deleted.\<close>

definition HandleClientDisconnect :: "time \<Rightarrow> string \<Rightarrow> BrokerIntegration \<Rightarrow> (string, BrokerIntegration) go" where
  "HandleClientDisconnect now clientID bi =
     (let bi1 = (case gm_get (bi_localSessions bi) clientID of
                   None \<Rightarrow> bi
                 | Some session \<Rightarrow>
                     let session' = session\<lparr>sf_Connected := False, sf_LastSeen := now\<rparr>
                     in if sf_CleanSession session' then bi\<lparr>bi_localSessions := gm_del (bi_localSessions bi) clientID\<rparr>
                        else bi\<lparr>bi_localSessions := gm_set (bi_localSessions bi) clientID session'\<rparr>);
          cb = integration_callbacks now (bi_nodeID bi)
      in case gm_get (bi_localSessions bi1) clientID of
           Some sessionInfo \<Rightarrow>
             if sf_CleanSession sessionInfo then with_replication (RemoveSession cb now clientID) bi1
             else with_replication (AddSession cb now clientID False False (now + 24 * hour)) bi1
         | None \<Rightarrow> with_replication (AddSession cb now clientID False False (now + 24 * hour)) bi1)"

definition updateClusterRoute :: "time \<Rightarrow> string \<Rightarrow> BrokerIntegration \<Rightarrow> (string, BrokerIntegration) go" where
  "updateClusterRoute now topicFilter bi =
     (let own = (if gm_get0 [] (bi_localRoutes bi) topicFilter \<noteq> [] then [bi_nodeID bi] else []);
          others = (case GetRoute topicFilter (bi_replication bi) of
                      None \<Rightarrow> [] | Some route \<Rightarrow> filter (\<lambda>n. n \<noteq> bi_nodeID bi) (ro_NodeIDs route))
      in with_replication (UpdateRoute (integration_callbacks now (bi_nodeID bi)) now topicFilter (own @ others)) bi)"

definition HandleSubscribe :: "time \<Rightarrow> string \<Rightarrow> string \<Rightarrow> int \<Rightarrow> BrokerIntegration \<Rightarrow> (string, BrokerIntegration) go" where
  "HandleSubscribe now clientID topicFilter qos bi =
     (let clients = (case gm_get (bi_localRoutes bi) topicFilter of
                       None \<Rightarrow> [clientID] | Some cs \<Rightarrow> if clientID \<in> set cs then cs else cs @ [clientID]);
          bi1 = bi\<lparr>bi_localRoutes := gm_set (bi_localRoutes bi) topicFilter clients\<rparr>
      in go_bind (with_replication (AddSubscription (integration_callbacks now (bi_nodeID bi)) now clientID topicFilter qos) bi1)
           (updateClusterRoute now topicFilter))"

definition HandleUnsubscribe :: "time \<Rightarrow> string \<Rightarrow> string \<Rightarrow> BrokerIntegration \<Rightarrow> (string, BrokerIntegration) go" where
  "HandleUnsubscribe now clientID topicFilter bi =
     (let bi1 = (case gm_get (bi_localRoutes bi) topicFilter of
                   None \<Rightarrow> bi
                 | Some clients \<Rightarrow>
                     let newClients = filter (\<lambda>c. c \<noteq> clientID) clients
                     in bi\<lparr>bi_localRoutes := (if newClients = [] then gm_del (bi_localRoutes bi) topicFilter
                                             else gm_set (bi_localRoutes bi) topicFilter newClients)\<rparr>)
      in go_bind (with_replication (RemoveSubscription (integration_callbacks now (bi_nodeID bi)) now clientID topicFilter) bi1)
           (updateClusterRoute now topicFilter))"

definition hasLocalSubscribers :: "string \<Rightarrow> BrokerIntegration \<Rightarrow> bool" where
  "hasLocalSubscribers topic bi \<longleftrightarrow> gm_get (bi_localRoutes bi) topic \<noteq> None"

definition handleClusterRouting :: "string \<Rightarrow> byte list \<Rightarrow> BrokerIntegration \<Rightarrow> (string \<times> rpc) list" where
  "handleClusterRouting topic payload bi =
     (case GetRoute topic (bi_replication bi) of
        None \<Rightarrow> []
      | Some route \<Rightarrow> concat (map (\<lambda>n. if n \<noteq> bi_nodeID bi then ForwardPublish (mm_clusterManager (bi_mria bi)) topic payload n else [])
                              (ro_NodeIDs route)))"

text \<open>The calls that are started; the message is also handed to the broker, in every case.\<close>

definition HandleMessagePublish :: "string \<Rightarrow> byte list \<Rightarrow> BrokerIntegration \<Rightarrow> (string \<times> rpc) list" where
  "HandleMessagePublish topic payload bi =
     (if bi_nodeRole bi = ReplicantNode \<and> \<not> hasLocalSubscribers topic bi
      then (case ForwardMessageToCore topic payload (bi_mria bi) of Ok calls \<Rightarrow> calls | _ \<Rightarrow> []) else [])
     @ (if bi_nodeRole bi = CoreNode then handleClusterRouting topic payload bi else [])"

text \<open>
  \<open>cleanupNodeData\<close> goes through copies of the tables. The loops over routes, sessions and subscriptions
  in turn; errors are logged.
\<close>

fun each :: "('a \<Rightarrow> ReplicationManager \<Rightarrow> rm_result) \<Rightarrow> 'a list \<Rightarrow> ReplicationManager \<Rightarrow> rm_result" where
  "each f [] rm = Ok rm"
| "each f (x # xs) rm = go_bind (log_error rm (f x rm)) (each f xs)"

definition clean_route :: "callbacks \<Rightarrow> time \<Rightarrow> string \<Rightarrow> string \<times> RouteData \<Rightarrow> ReplicationManager \<Rightarrow> rm_result" where
  "clean_route cb now nodeID e rm =
     (let newNodeIDs = filter (\<lambda>n. n \<noteq> nodeID) (ro_NodeIDs (snd e))
      in if length newNodeIDs \<noteq> length (ro_NodeIDs (snd e)) then UpdateRoute cb now (fst e) newNodeIDs rm else Ok rm)"

definition clean_session :: "callbacks \<Rightarrow> time \<Rightarrow> string \<Rightarrow> string \<times> SessionData \<Rightarrow> ReplicationManager \<Rightarrow> rm_result" where
  "clean_session cb now nodeID e rm = (if se_NodeID (snd e) = nodeID then RemoveSession cb now (fst e) rm else Ok rm)"

definition clean_subscription :: "callbacks \<Rightarrow> time \<Rightarrow> string \<Rightarrow> string \<times> SubscriptionData \<Rightarrow> ReplicationManager \<Rightarrow> rm_result" where
  "clean_subscription cb now nodeID e rm =
     (if sd_NodeID (snd e) = nodeID then RemoveSubscription cb now (sd_ClientID (snd e)) (sd_TopicFilter (snd e)) rm else Ok rm)"

definition cleanupNodeData :: "callbacks \<Rightarrow> time \<Rightarrow> string \<Rightarrow> ReplicationManager \<Rightarrow> rm_result" where
  "cleanupNodeData cb now nodeID rm =
     go_bind (each (clean_route cb now nodeID) (rp_routes (rm_state rm)) rm) (\<lambda>rm1.
     go_bind (each (clean_session cb now nodeID) (rp_sessions (rm_state rm1)) rm1) (\<lambda>rm2.
       each (clean_subscription cb now nodeID) (rp_subscriptions (rm_state rm2)) rm2))"

definition handleNodeLeave :: "time \<Rightarrow> string \<Rightarrow> BrokerIntegration \<Rightarrow> (string, BrokerIntegration) go" where
  "handleNodeLeave now nodeID bi =
     go_bind (cleanupNodeData (integration_callbacks now (bi_nodeID bi)) now nodeID (bi_replication bi)) (\<lambda>rm. Ok (bi\<lparr>bi_replication := rm\<rparr>))"

section \<open>The server\<close>

record NodesResponse =
  nr_Success :: bool
  nr_Message :: string
  nr_Nodes :: "NodeInfo list"
  nr_ClusterId :: string

definition all_nodes :: "MriaManager \<Rightarrow> ClusterState \<Rightarrow> NodeInfo list" where
  "all_nodes mm cs = map (\<lambda>(k, p). node_of mm p) (ck_CoreNodes cs) @ map (\<lambda>(k, p). node_of mm p) (ck_ReplicantNodes cs)"

text \<open>A joining node is a core node by its name; a request without a node is a nil pointer.\<close>

definition core_by_name :: "string \<Rightarrow> bool" where
  "core_by_name nodeId \<longleftrightarrow> nodeId = ''core'' \<or> length nodeId > 4 \<and> take 4 nodeId = ''core''"

definition add_node :: "NodeInfo \<Rightarrow> MriaManager \<Rightarrow> MriaManager" where
  "add_node node mm =
     (let cs = mm_clusterState mm
      in mm\<lparr>mm_clusterState :=
           (if core_by_name (ni_NodeId node) then cs\<lparr>ck_CoreNodes := gm_set (ck_CoreNodes cs) (ni_NodeId node) (Other node)\<rparr>
            else cs\<lparr>ck_ReplicantNodes := gm_set (ck_ReplicantNodes cs) (ni_NodeId node) (Other node)\<rparr>)\<rparr>)"

definition Mria_Join :: "NodeInfo option \<Rightarrow> BrokerIntegration \<Rightarrow> (string, BrokerIntegration \<times> NodesResponse) go" where
  "Mria_Join req bi =
     (case req of
        None \<Rightarrow> Panic
      | Some node \<Rightarrow>
          if ni_NodeId node = bi_nodeID bi
          then Ok (bi, \<lparr>nr_Success = False, nr_Message = ''Cannot join self'', nr_Nodes = [], nr_ClusterId = []\<rparr>)
          else if bi_nodeRole bi = ReplicantNode \<and> GetCoreNodes (bi_mria bi) \<noteq> []
          then Ok (bi, \<lparr>nr_Success = False,
                   nr_Message = ''Replicant node - please join via core node at '' @ ni_Address (hd (GetCoreNodes (bi_mria bi))),
                   nr_Nodes = [], nr_ClusterId = []\<rparr>)
          else
            let clusterState = GetClusterState (bi_mria bi);
                mm = (if ni_NodeId node \<noteq> [] then add_node node (bi_mria bi) else bi_mria bi)
            in Ok (bi\<lparr>bi_mria := mm\<rparr>,
                   \<lparr>nr_Success = True, nr_Message = ''Successfully joined cluster as '' @ bi_nodeRole bi @ '' node'',
                    nr_Nodes = all_nodes (bi_mria bi) clusterState, nr_ClusterId = ck_ClusterID clusterState\<rparr>))"

text \<open>\<open>Leave\<close> and \<open>SyncNodeStatus\<close> change the copy that \<open>GetClusterState\<close> returns.\<close>

definition Leave :: "time \<Rightarrow> string \<Rightarrow> BrokerIntegration \<Rightarrow> (string, BrokerIntegration \<times> NodesResponse) go" where
  "Leave now nodeId bi =
     (let clusterState = GetClusterState (bi_mria bi);
          copy = clusterState\<lparr>ck_CoreNodes := gm_del (ck_CoreNodes clusterState) nodeId,
                              ck_ReplicantNodes := gm_del (ck_ReplicantNodes clusterState) nodeId\<rparr>
      in go_bind (handleNodeLeave now nodeId bi) (\<lambda>bi1.
           Ok (bi1, \<lparr>nr_Success = True, nr_Message = ''Node removed from cluster'', nr_Nodes = all_nodes (bi_mria bi1) copy, nr_ClusterId = []\<rparr>)))"

definition SyncNodeStatus :: "NodeInfo option \<Rightarrow> BrokerIntegration \<Rightarrow> (string, NodesResponse) go" where
  "SyncNodeStatus req bi =
     (case req of
        None \<Rightarrow> Panic
      | Some node \<Rightarrow>
          let clusterState = GetClusterState (bi_mria bi);
              copy = (if gm_get (ck_CoreNodes clusterState) (ni_NodeId node) \<noteq> None
                      then clusterState\<lparr>ck_CoreNodes := gm_set (ck_CoreNodes clusterState) (ni_NodeId node) (Other node)\<rparr>
                      else clusterState\<lparr>ck_ReplicantNodes := gm_set (ck_ReplicantNodes clusterState) (ni_NodeId node) (Other node)\<rparr>)
          in Ok \<lparr>nr_Success = True, nr_Message = ''Status synchronized'', nr_Nodes = all_nodes (bi_mria bi) copy, nr_ClusterId = []\<rparr>)"

text \<open>The subscriptions are entered under the identifier of the receiving node.\<close>

fun SyncSubscriptions :: "time \<Rightarrow> (string \<times> string \<times> int) list \<Rightarrow> BrokerIntegration \<Rightarrow> (string, BrokerIntegration \<times> nat) go" where
  "SyncSubscriptions now [] bi = Ok (bi, 0)"
| "SyncSubscriptions now ((clientId, topicFilter, qos) # subs) bi =
     (case AddSubscription (integration_callbacks now (bi_nodeID bi)) now clientId topicFilter qos (bi_replication bi) of
        Ok rm \<Rightarrow> go_bind (SyncSubscriptions now subs (bi\<lparr>bi_replication := rm\<rparr>)) (\<lambda>(bi', n). Ok (bi', Suc n))
      | Err e \<Rightarrow> SyncSubscriptions now subs bi
      | Panic \<Rightarrow> Panic | Blocked \<Rightarrow> Blocked)"

record ForwardAck =
  fk_MessageId :: string
  fk_Success :: bool
  fk_Message :: string
  fk_ToNode :: string

definition ack :: "bool \<Rightarrow> string \<Rightarrow> string \<Rightarrow> BrokerIntegration \<Rightarrow> ForwardAck" where
  "ack success messageId message bi = \<lparr>fk_MessageId = messageId, fk_Success = success, fk_Message = message, fk_ToNode = bi_nodeID bi\<rparr>"

definition handleReplicationMessage :: "'j replib \<Rightarrow> time \<Rightarrow> string \<Rightarrow> PublishForward \<Rightarrow> BrokerIntegration \<Rightarrow> (string, BrokerIntegration \<times> ForwardAck) go" where
  "handleReplicationMessage lib now messageId req bi =
     (if bi_nodeRole bi \<noteq> ReplicantNode then Ok (bi, ack False messageId ''Replication messages are only for replicant nodes'' bi)
      else case ApplyReplicationLog (integration_callbacks now (bi_nodeID bi)) lib (pf_Payload req) (bi_replication bi) of
             Ok rm \<Rightarrow> Ok (bi\<lparr>bi_replication := rm\<rparr>, ack True messageId ''Replication applied successfully'' bi)
           | Err e \<Rightarrow> Ok (bi, ack False messageId (''Failed to apply replication: '' @ e) bi)
           | Panic \<Rightarrow> Panic | Blocked \<Rightarrow> Blocked)"

definition handleMriaMessage :: "'j replib \<Rightarrow> time \<Rightarrow> string \<Rightarrow> PublishForward \<Rightarrow> BrokerIntegration \<Rightarrow> (string, BrokerIntegration \<times> ForwardAck) go" where
  "handleMriaMessage lib now messageId req bi =
     (if length (pf_Topic req) > 16 \<and> take 16 (pf_Topic req) = ''$mria/replication'' then handleReplicationMessage lib now messageId req bi
      else Ok (bi, ack False messageId ''Unknown Mria message type'' bi))"

definition Mria_ForwardPublish :: "'j replib \<Rightarrow> time \<Rightarrow> string \<Rightarrow> PublishForward \<Rightarrow> BrokerIntegration \<Rightarrow> (string, BrokerIntegration \<times> ForwardAck) go" where
  "Mria_ForwardPublish lib now messageId req bi =
     (if length (pf_Topic req) > 6 \<and> take 6 (pf_Topic req) = ''$mria/'' then handleMriaMessage lib now messageId req bi
      else Ok (bi, ack True messageId ''Message forwarded successfully'' bi))"

fun Mria_BatchUpdateRoutes :: "time \<Rightarrow> string \<Rightarrow> Route list \<Rightarrow> BrokerIntegration \<Rightarrow> (string, BrokerIntegration \<times> nat) go" where
  "Mria_BatchUpdateRoutes now opType [] bi = Ok (bi, 0)"
| "Mria_BatchUpdateRoutes now opType (route # rs) bi =
     (let cb = integration_callbacks now (bi_nodeID bi);
          result = (if opType = ''add'' \<or> opType = ''update'' then UpdateRoute cb now (rt_Topic route) (rt_NodeIds route) (bi_replication bi)
                    else if opType = ''delete'' then UpdateRoute cb now (rt_Topic route) [] (bi_replication bi)
                    else Ok (bi_replication bi))
      in case result of
           Ok rm \<Rightarrow> go_bind (Mria_BatchUpdateRoutes now opType rs (bi\<lparr>bi_replication := rm\<rparr>)) (\<lambda>(bi', n). Ok (bi', Suc n))
         | Err e \<Rightarrow> Mria_BatchUpdateRoutes now opType rs bi
         | Panic \<Rightarrow> Panic | Blocked \<Rightarrow> Blocked)"

definition SyncConfig :: "BrokerIntegration \<Rightarrow> bool \<times> string \<times> (string, string) gomap" where
  "SyncConfig bi =
     (if bi_nodeRole bi \<noteq> CoreNode then (False, ''Configuration sync only available on core nodes'', [])
      else (True, ''Configuration synchronized'',
            gm_set (gm_set (gm_set [] ''node.role'' (bi_nodeRole bi)) ''cluster.name'' (ck_ClusterID (GetClusterState (bi_mria bi)))) ''node.id'' (bi_nodeID bi)))"

text \<open>The numbers of \<open>GetClusterStats\<close>.\<close>

definition Mria_GetClusterStats :: "BrokerIntegration \<Rightarrow> (string, int) gomap" where
  "Mria_GetClusterStats bi =
     (let cs = GetClusterState (bi_mria bi); st = rm_state (bi_replication bi)
      in [(''core_nodes'', int (length (ck_CoreNodes cs))), (''replicant_nodes'', int (length (ck_ReplicantNodes cs))),
          (''subscriptions'', int (length (rp_subscriptions st))), (''sessions'', int (length (rp_sessions st))),
          (''routes'', int (length (rp_routes st))), (''is_leader'', if IsLeader (bi_mria bi) then 1 else 0)])"

definition HandleMriaReplication :: "'j replib \<Rightarrow> time \<Rightarrow> string \<Rightarrow> string \<Rightarrow> repdata \<Rightarrow> BrokerIntegration \<Rightarrow> (string, BrokerIntegration) go" where
  "HandleMriaReplication lib now operation table data bi =
     (case rl_Marshal lib \<lparr>lg_ID = bi_nodeID bi @ ''-'' @ show_int (unix_nano now), lg_Timestamp = unix now, lg_NodeID = bi_nodeID bi,
             lg_Operation = operation, lg_Table = table, lg_Data = data, lg_Version = unix now\<rparr> of
        None \<Rightarrow> Err ''failed to marshal log entry''
      | Some logBytes \<Rightarrow>
          go_bind (ApplyReplicationLog (integration_callbacks now (bi_nodeID bi)) lib logBytes (bi_replication bi)) (\<lambda>rm.
            Ok (bi\<lparr>bi_replication := rm\<rparr>)))"

section \<open>Replicas\<close>

lemma integration_callbacks_own: "sd_NodeID s = n \<Longrightarrow> cb_subscription (integration_callbacks now n) s operation rm = Ok rm"
  and integration_callbacks_session: "cb_session (integration_callbacks now n) x operation rm = Ok rm"
  and integration_callbacks_route: "cb_route (integration_callbacks now n) y operation rm = Ok rm"
  by (simp_all add: integration_callbacks_def handleSubscriptionChange_def no_callbacks_def)

lemmas own_core = AddSubscription_core [OF _ _ integration_callbacks_own] RemoveSubscription_core [OF _ _ integration_callbacks_own]
  AddSession_core [OF _ _ integration_callbacks_session] UpdateRoute_core [OF _ _ integration_callbacks_route]

lemma UpdateRoute_other:
  assumes "rm_nodeRole rm \<noteq> CoreNode"
  shows "UpdateRoute no_callbacks now f ns rm =
    Ok (bump (\<lambda>st. st\<lparr>rp_routes := gm_set (rp_routes st) f \<lparr>ro_TopicFilter = f, ro_NodeIDs = ns\<rparr>\<rparr>) rm)"
  using assms by (simp add: UpdateRoute_def Let_def log_change_other no_callbacks_def)

text \<open>On a replicant the callback changes no table but the routes, and these at one filter only.\<close>

lemma updateRemoteRoute_other:
  assumes "rm_nodeRole rm \<noteq> CoreNode"
  shows "\<exists>rm'. updateRemoteRoute now f n add rm = Ok rm' \<and> rm_nodeRole rm' = rm_nodeRole rm
    \<and> rp_subscriptions (rm_state rm') = rp_subscriptions (rm_state rm) \<and> rp_sessions (rm_state rm') = rp_sessions (rm_state rm)
    \<and> (\<forall>x. gm_set (rp_routes (rm_state rm')) f x = gm_set (rp_routes (rm_state rm)) f x)"
  using assms by (auto simp: updateRemoteRoute_def UpdateRoute_other Let_def bump_def split: option.splits)

lemma handleSubscriptionChange_other:
  assumes "rm_nodeRole rm \<noteq> CoreNode"
  shows "\<exists>rm'. handleSubscriptionChange now n s operation rm = Ok rm' \<and> rm_nodeRole rm' = rm_nodeRole rm
    \<and> rp_subscriptions (rm_state rm') = rp_subscriptions (rm_state rm) \<and> rp_sessions (rm_state rm') = rp_sessions (rm_state rm)
    \<and> (\<forall>x. gm_set (rp_routes (rm_state rm')) (sd_TopicFilter s) x = gm_set (rp_routes (rm_state rm)) (sd_TopicFilter s) x)"
  using updateRemoteRoute_other [OF assms] by (auto simp: handleSubscriptionChange_def)

lemma replay_sub_route:
  assumes "json_faithful lib e" and "sub_entry e operation s" and "json_faithful lib e'" and "route_entry e' r"
    and "ro_TopicFilter r = sd_TopicFilter s" and "rm_nodeRole rm \<noteq> CoreNode" and "tables rm = (S, T, R)"
  shows "\<exists>rm'. replay (integration_callbacks now n) lib [e, e'] rm = Ok rm' \<and> rm_nodeRole rm' = rm_nodeRole rm
    \<and> tables rm' = (put_table operation (sub_key (sd_ClientID s) (sd_TopicFilter s)) s S, T, gm_set R (ro_TopicFilter r) r)"
proof -
  let ?rm1 = "rm\<lparr>rm_state := (rm_state rm)\<lparr>
    rp_subscriptions := put_table operation (sub_key (sd_ClientID s) (sd_TopicFilter s)) s (rp_subscriptions (rm_state rm)),
    rp_version := lg_Version e\<rparr>\<rparr>"
  have "rm_nodeRole ?rm1 \<noteq> CoreNode" using assms(6) by simp
  from handleSubscriptionChange_other [OF this, of now n s operation] obtain rm2
    where 2: "handleSubscriptionChange now n s operation ?rm1 = Ok rm2" "rm_nodeRole rm2 = rm_nodeRole rm"
      "rp_subscriptions (rm_state rm2) = rp_subscriptions (rm_state ?rm1)" "rp_sessions (rm_state rm2) = T"
      "\<forall>x. gm_set (rp_routes (rm_state rm2)) (sd_TopicFilter s) x = gm_set R (sd_TopicFilter s) x"
    using assms(7) by (auto simp: tables_def)
  have "replay (integration_callbacks now n) lib [e] rm = Ok rm2"
    using replay_sub [OF assms(1,2), of "integration_callbacks now n" rm] 2(1) by (simp add: integration_callbacks_def)
  then have "replay (integration_callbacks now n) lib [e, e'] rm = replay (integration_callbacks now n) lib [e'] rm2"
    using replay_append [of "integration_callbacks now n" lib "[e]" "[e']" rm] by simp
  also note replay_route [OF assms(3,4), of "integration_callbacks now n" rm2]
  finally show ?thesis using 2 assms(5,7) by (auto simp: integration_callbacks_route tables_def)
qed

text \<open>
  Client identifiers without a colon: the key of a subscription is the identifier, a colon and the filter,
  so that other identifiers and filters can share a key.
\<close>

definition plain :: "string \<Rightarrow> bool" where
  "plain clientID \<longleftrightarrow> CHR '':'' \<notin> set clientID"

lemma sub_key_inject: "plain c \<Longrightarrow> plain c' \<Longrightarrow> sub_key c f = sub_key c' f' \<Longrightarrow> c = c' \<and> f = f'"
  unfolding plain_def sub_key_def
proof (induction c arbitrary: c')
  case Nil
  then show ?case by (cases c') auto
next
  case (Cons x c)
  then show ?case by (cases c') auto
qed

text \<open>What the clients of a core node do.\<close>

datatype client_event = Connect string bool | Disconnect string | Subscribe string string int | Unsubscribe string string

fun handle_event :: "time \<Rightarrow> client_event \<Rightarrow> BrokerIntegration \<Rightarrow> (string, BrokerIntegration) go" where
  "handle_event now (Connect c clean) bi = HandleClientConnect now c clean bi"
| "handle_event now (Disconnect c) bi = HandleClientDisconnect now c bi"
| "handle_event now (Subscribe c f q) bi = HandleSubscribe now c f q bi"
| "handle_event now (Unsubscribe c f) bi = HandleUnsubscribe now c f bi"

fun client_of :: "client_event \<Rightarrow> string" where
  "client_of (Connect c clean) = c"
| "client_of (Disconnect c) = c"
| "client_of (Subscribe c f q) = c"
| "client_of (Unsubscribe c f) = c"

text \<open>The life of a core node and all the entries it has logged, those already sent included.\<close>

inductive core_life :: "'j replib \<Rightarrow> string \<Rightarrow> BrokerIntegration \<Rightarrow> repdata ReplicationLog list \<Rightarrow> bool" for lib :: "'j replib" and core :: string where
  new: "core_life lib core (NewBrokerIntegration now core CoreNode) []"
| event: "core_life lib core bi es \<Longrightarrow> plain (client_of ev) \<Longrightarrow> handle_event now ev bi = Ok bi'
    \<Longrightarrow> rm_replicationCh (bi_replication bi') = rm_replicationCh (bi_replication bi) @ new_es \<Longrightarrow> core_life lib core bi' (es @ new_es)"
| send: "core_life lib core bi es \<Longrightarrow> replicationLoop lib replicants (mm_clusterManager (bi_mria bi)) (bi_replication bi) = Some (rm, calls)
    \<Longrightarrow> core_life lib core (bi\<lparr>bi_replication := rm\<rparr>) es"
| mria: "core_life lib core bi es \<Longrightarrow> core_life lib core (bi\<lparr>bi_mria := mm\<rparr>) es"

definition core_inv :: "string \<Rightarrow> BrokerIntegration \<Rightarrow> bool" where
  "core_inv core bi \<longleftrightarrow> bi_nodeID bi = core \<and> rm_nodeID (bi_replication bi) = core \<and> rm_nodeRole (bi_replication bi) = CoreNode
     \<and> (\<forall>k s. gm_get (rp_subscriptions (rm_state (bi_replication bi))) k = Some s \<longrightarrow>
          sd_NodeID s = core \<and> plain (sd_ClientID s) \<and> k = sub_key (sd_ClientID s) (sd_TopicFilter s))"

text \<open>A copy of the tables of a core node on a replicant.\<close>

definition copy_of :: "ReplicationManager \<Rightarrow> ReplicationManager \<Rightarrow> bool" where
  "copy_of rm core_rm \<longleftrightarrow> rm_nodeRole rm \<noteq> CoreNode \<and> tables rm = tables core_rm"

text \<open>The entries that bring a copy up to date.\<close>

definition replicates :: "'j replib \<Rightarrow> BrokerIntegration \<Rightarrow> BrokerIntegration \<Rightarrow> bool" where
  "replicates lib bi bi' \<longleftrightarrow>
     (\<exists>es. rm_replicationCh (bi_replication bi') = rm_replicationCh (bi_replication bi) @ es
       \<and> (\<forall>rm now n. copy_of rm (bi_replication bi) \<and> (\<forall>e \<in> set es. json_faithful lib e) \<longrightarrow>
            (\<exists>rm'. replay (integration_callbacks now n) lib es rm = Ok rm' \<and> copy_of rm' (bi_replication bi'))))"

lemma with_replication_cases:
  assumes "with_replication f bi = Ok bi'"
  obtains (changed) rm where "f (bi_replication bi) = Ok rm" and "bi' = bi\<lparr>bi_replication := rm\<rparr>"
    | (refused) e where "f (bi_replication bi) = Err e" and "bi' = bi"
  using assms by (cases "f (bi_replication bi)") (auto simp: with_replication_def log_error_def)

lemma UpdateRoute_no_error: "UpdateRoute (integration_callbacks now n) now' f ns rm \<noteq> Err e"
  by (auto simp: UpdateRoute_def Let_def log_change_def generateLogID_def integration_callbacks_route split: if_splits)

lemma AddSession_no_error: "AddSession (integration_callbacks now n) now' c conn clean expiry rm \<noteq> Err e"
  by (auto simp: AddSession_def Let_def log_change_def generateLogID_def integration_callbacks_session split: if_splits)

lemma updateClusterRoute_core:
  assumes "core_inv core bi" and "updateClusterRoute now f bi = Ok bi'"
  obtains e r where "core_inv core bi'" and "rm_replicationCh (bi_replication bi') = rm_replicationCh (bi_replication bi) @ [e]"
    and "route_entry e r" and "ro_TopicFilter r = f"
    and "tables (bi_replication bi') = (rp_subscriptions (rm_state (bi_replication bi)), rp_sessions (rm_state (bi_replication bi)),
           gm_set (rp_routes (rm_state (bi_replication bi))) f r)"
proof -
  from assms(2) obtain ns rm where rm: "UpdateRoute (integration_callbacks now (bi_nodeID bi)) now f ns (bi_replication bi) = Ok rm"
      and bi': "bi' = bi\<lparr>bi_replication := rm\<rparr>"
    unfolding updateClusterRoute_def Let_def by (auto elim!: with_replication_cases simp: UpdateRoute_no_error)
  have role: "rm_nodeRole (bi_replication bi) = CoreNode" using assms(1) by (simp add: core_inv_def)
  from own_core(4) [OF rm role] obtain e where
    "tables rm = (rp_subscriptions (rm_state (bi_replication bi)), rp_sessions (rm_state (bi_replication bi)),
       gm_set (rp_routes (rm_state (bi_replication bi))) f \<lparr>ro_TopicFilter = f, ro_NodeIDs = ns\<rparr>)"
    "rm_nodeID rm = rm_nodeID (bi_replication bi)" "rm_nodeRole rm = CoreNode"
    "rm_replicationCh rm = rm_replicationCh (bi_replication bi) @ [e]" "route_entry e \<lparr>ro_TopicFilter = f, ro_NodeIDs = ns\<rparr>"
    by (auto simp: role)
  with assms(1) bi' show thesis by (intro that [of e "\<lparr>ro_TopicFilter = f, ro_NodeIDs = ns\<rparr>"]) (auto simp: core_inv_def tables_def)
qed

lemma session_event:
  assumes "core_inv core bi" and "with_replication (AddSession (integration_callbacks now (bi_nodeID bi)) now c conn clean expiry) bi = Ok bi'"
  shows "core_inv core bi' \<and> replicates lib bi bi'"
proof -
  from assms(2) obtain rm where rm: "AddSession (integration_callbacks now (bi_nodeID bi)) now c conn clean expiry (bi_replication bi) = Ok rm"
      and bi': "bi' = bi\<lparr>bi_replication := rm\<rparr>"
    by (auto elim!: with_replication_cases simp: AddSession_no_error)
  have role: "rm_nodeRole (bi_replication bi) = CoreNode" using assms(1) by (simp add: core_inv_def)
  let ?s = "\<lparr>se_ClientID = c, se_NodeID = rm_nodeID (bi_replication bi), se_Connected = conn, se_CleanSession = clean, se_ExpiryTime = expiry\<rparr>"
  from own_core(3) [OF rm role] obtain e where
    t: "tables rm = (rp_subscriptions (rm_state (bi_replication bi)), gm_set (rp_sessions (rm_state (bi_replication bi))) c ?s, rp_routes (rm_state (bi_replication bi)))"
    and f: "rm_nodeID rm = rm_nodeID (bi_replication bi)" "rm_nodeRole rm = CoreNode"
    and e: "rm_replicationCh rm = rm_replicationCh (bi_replication bi) @ [e]" "session_entry e ''UPDATE'' ?s"
    by (auto simp: role)
  have "core_inv core bi'" using assms(1) bi' t f by (auto simp: core_inv_def tables_def)
  moreover have "\<exists>r'. replay (integration_callbacks t n) lib [e] r = Ok r' \<and> copy_of r' rm"
    if "copy_of r (bi_replication bi)" and "json_faithful lib e" for r t n
    using that(1) t replay_session [OF that(2) e(2), of "integration_callbacks t n" r]
    by (auto simp: copy_of_def tables_def integration_callbacks_session put_table_def)
  ultimately show ?thesis using e(1) bi' by (auto simp: replicates_def intro!: exI [of _ "[e]"])
qed

text \<open>A change of a subscription followed by the update of the route.\<close>

lemma subscription_event:
  assumes "core_inv core bi"
    and "bi1 = bi\<lparr>bi_localRoutes := L, bi_replication := rm1\<rparr>"
    and "tables rm1 = (put_table operation (sub_key (sd_ClientID s) f) s (rp_subscriptions (rm_state (bi_replication bi))),
           rp_sessions (rm_state (bi_replication bi)), rp_routes (rm_state (bi_replication bi)))"
    and "rm_nodeID rm1 = rm_nodeID (bi_replication bi)" and "rm_nodeRole rm1 = CoreNode"
    and "rm_replicationCh rm1 = rm_replicationCh (bi_replication bi) @ [e]" and "sub_entry e operation s" and "sd_TopicFilter s = f"
    and "sd_NodeID s = core" and "updateClusterRoute now f bi1 = Ok bi'" and "plain (sd_ClientID s)"
  shows "core_inv core bi' \<and> replicates lib bi bi'"
proof -
  have inv1: "core_inv core bi1"
    using assms(1-5,8,9,11) by (auto simp: core_inv_def tables_def put_table_def split: if_splits)
  from updateClusterRoute_core [OF inv1 assms(10)] obtain e' r where inv': "core_inv core bi'"
    and ch: "rm_replicationCh (bi_replication bi') = rm_replicationCh (bi_replication bi1) @ [e']" and r: "route_entry e' r" "ro_TopicFilter r = f"
    and t: "tables (bi_replication bi') = (rp_subscriptions (rm_state (bi_replication bi1)), rp_sessions (rm_state (bi_replication bi1)),
           gm_set (rp_routes (rm_state (bi_replication bi1))) f r)" by metis
  have "\<exists>x'. replay (integration_callbacks t n) lib [e, e'] x = Ok x' \<and> copy_of x' (bi_replication bi')"
    if "copy_of x (bi_replication bi)" and "json_faithful lib e" and "json_faithful lib e'" for x t n
  proof -
    have "rm_nodeRole x \<noteq> CoreNode" and "tables x = (rp_subscriptions (rm_state (bi_replication bi)),
        rp_sessions (rm_state (bi_replication bi)), rp_routes (rm_state (bi_replication bi)))"
      using that(1) by (simp_all add: copy_of_def tables_def)
    from replay_sub_route [OF that(2) assms(7) that(3) r(1) _ this, of t n] r(2) assms(8)
    obtain x' where "replay (integration_callbacks t n) lib [e, e'] x = Ok x'" "rm_nodeRole x' = rm_nodeRole x"
      "tables x' = (put_table operation (sub_key (sd_ClientID s) f) s (rp_subscriptions (rm_state (bi_replication bi))),
         rp_sessions (rm_state (bi_replication bi)), gm_set (rp_routes (rm_state (bi_replication bi))) f r)" by auto
    with \<open>rm_nodeRole x \<noteq> CoreNode\<close> t assms(2,3) show ?thesis by (auto simp: copy_of_def tables_def)
  qed
  with inv' ch assms(2,6) show ?thesis by (auto simp: replicates_def intro!: exI [of _ "[e, e']"])
qed

lemma route_event:
  assumes "core_inv core bi" and "updateClusterRoute now f (bi\<lparr>bi_localRoutes := L\<rparr>) = Ok bi'"
  shows "core_inv core bi' \<and> replicates lib bi bi'"
proof -
  have "core_inv core (bi\<lparr>bi_localRoutes := L\<rparr>)" using assms(1) by (simp add: core_inv_def)
  then show ?thesis
  proof (rule updateClusterRoute_core [OF _ assms(2)])
    fix e r assume inv': "core_inv core bi'"
      and "rm_replicationCh (bi_replication bi') = rm_replicationCh (bi_replication (bi\<lparr>bi_localRoutes := L\<rparr>)) @ [e]"
      and r: "route_entry e r" "ro_TopicFilter r = f"
      and "tables (bi_replication bi') = (rp_subscriptions (rm_state (bi_replication (bi\<lparr>bi_localRoutes := L\<rparr>))),
             rp_sessions (rm_state (bi_replication (bi\<lparr>bi_localRoutes := L\<rparr>))),
             gm_set (rp_routes (rm_state (bi_replication (bi\<lparr>bi_localRoutes := L\<rparr>)))) f r)"
    then have ch: "rm_replicationCh (bi_replication bi') = rm_replicationCh (bi_replication bi) @ [e]"
      and t: "tables (bi_replication bi') = (rp_subscriptions (rm_state (bi_replication bi)), rp_sessions (rm_state (bi_replication bi)),
             gm_set (rp_routes (rm_state (bi_replication bi))) f r)" by simp_all
    have "\<exists>x'. replay (integration_callbacks t n) lib [e] x = Ok x' \<and> copy_of x' (bi_replication bi')"
      if "copy_of x (bi_replication bi)" and "json_faithful lib e" for x t n
      using that(1) t r(2) replay_route [OF that(2) r(1), of "integration_callbacks t n" x]
      by (auto simp: copy_of_def tables_def integration_callbacks_route)
    with inv' ch show ?thesis by (auto simp: replicates_def intro!: exI [of _ "[e]"])
  qed
qed

lemma Subscribe_event:
  assumes "core_inv core bi" and "HandleSubscribe now c f q bi = Ok bi'" and "plain c"
  shows "core_inv core bi' \<and> replicates lib bi bi'"
proof -
  let ?cb = "integration_callbacks now (bi_nodeID bi)"
  from assms(2) obtain L b where b: "with_replication (AddSubscription ?cb now c f q) (bi\<lparr>bi_localRoutes := L\<rparr>) = Ok b"
      and r: "updateClusterRoute now f b = Ok bi'"
    unfolding HandleSubscribe_def Let_def by auto
  from b show ?thesis
  proof (cases rule: with_replication_cases)
    case (refused err)
    then show ?thesis using r route_event [OF assms(1), where lib = lib] by simp
  next
    case (changed rm)
    have role: "rm_nodeRole (bi_replication bi) = CoreNode" and ids: "bi_nodeID bi = core" "rm_nodeID (bi_replication bi) = core"
      using assms(1) by (simp_all add: core_inv_def)
    let ?s = "\<lparr>sd_ClientID = c, sd_TopicFilter = f, sd_QoS = q, sd_NodeID = rm_nodeID (bi_replication bi)\<rparr>"
    have "AddSubscription ?cb now c f q (bi_replication bi) = Ok rm" using changed by simp
    from AddSubscription_core [OF this role integration_callbacks_own] ids obtain e where
      "tables rm = (gm_set (rp_subscriptions (rm_state (bi_replication bi))) (sub_key c f) ?s, rp_sessions (rm_state (bi_replication bi)),
         rp_routes (rm_state (bi_replication bi)))" "rm_nodeID rm = rm_nodeID (bi_replication bi)" "rm_nodeRole rm = CoreNode"
      "rm_replicationCh rm = rm_replicationCh (bi_replication bi) @ [e]" "sub_entry e ''INSERT'' ?s"
      by (auto simp: role)
    then show ?thesis using ids changed r assms(3)
      by (intro subscription_event [OF assms(1), where ?bi1.0 = b and L = L and ?rm1.0 = rm and operation = "''INSERT''" and s = ?s and f = f and e = e and now = now])
         (auto simp: put_table_def)
  qed
qed

lemma unsubscribe_local:
  "\<exists>L. (case gm_get (bi_localRoutes bi) f of
          None \<Rightarrow> bi
        | Some clients \<Rightarrow>
            let newClients = filter (\<lambda>x. x \<noteq> c) clients
            in bi\<lparr>bi_localRoutes := (if newClients = [] then gm_del (bi_localRoutes bi) f
                                    else gm_set (bi_localRoutes bi) f newClients)\<rparr>) = bi\<lparr>bi_localRoutes := L\<rparr>"
  by (cases "gm_get (bi_localRoutes bi) f") (auto simp: Let_def intro: exI [of _ "bi_localRoutes bi"])

lemma Unsubscribe_event:
  assumes "core_inv core bi" and "HandleUnsubscribe now c f bi = Ok bi'" and "plain c"
  shows "core_inv core bi' \<and> replicates lib bi bi'"
proof -
  let ?cb = "integration_callbacks now (bi_nodeID bi)"
  obtain L where "HandleUnsubscribe now c f bi =
      go_bind (with_replication (RemoveSubscription ?cb now c f) (bi\<lparr>bi_localRoutes := L\<rparr>)) (updateClusterRoute now f)"
    using unsubscribe_local [where bi = bi and f = f and c = c] unfolding HandleUnsubscribe_def by (elim exE) (simp add: Let_def)
  with assms(2) obtain b where b: "with_replication (RemoveSubscription ?cb now c f) (bi\<lparr>bi_localRoutes := L\<rparr>) = Ok b"
      and r: "updateClusterRoute now f b = Ok bi'" by auto
  from b show ?thesis
  proof (cases rule: with_replication_cases)
    case (refused err)
    then show ?thesis using r route_event [OF assms(1), where lib = lib] by simp
  next
    case (changed rm)
    have role: "rm_nodeRole (bi_replication bi) = CoreNode" and ids: "bi_nodeID bi = core" "rm_nodeID (bi_replication bi) = core"
      and own: "gm_get (rp_subscriptions (rm_state (bi_replication bi))) k = Some s \<Longrightarrow> sd_NodeID s = rm_nodeID (bi_replication bi)
        \<and> plain (sd_ClientID s) \<and> k = sub_key (sd_ClientID s) (sd_TopicFilter s)" for k s
      using assms(1) by (simp_all add: core_inv_def)
    have "RemoveSubscription ?cb now c f (bi_replication bi) = Ok rm" using changed by simp
    from RemoveSubscription_core [OF this role integration_callbacks_own] own ids obtain s e where
      s: "gm_get (rp_subscriptions (rm_state (bi_replication bi))) (sub_key c f) = Some s"
      and "tables rm = (gm_del (rp_subscriptions (rm_state (bi_replication bi))) (sub_key c f), rp_sessions (rm_state (bi_replication bi)),
         rp_routes (rm_state (bi_replication bi)))" "rm_nodeID rm = rm_nodeID (bi_replication bi)" "rm_nodeRole rm = CoreNode"
      "rm_replicationCh rm = rm_replicationCh (bi_replication bi) @ [e]" "sub_entry e ''DELETE'' s"
      by (auto simp: role)
    moreover from own [OF s] sub_key_inject [of c "sd_ClientID s" f "sd_TopicFilter s"] assms(3)
    have "sd_ClientID s = c" "sd_TopicFilter s = f" "sd_NodeID s = core" "plain (sd_ClientID s)" using ids by auto
    ultimately show ?thesis using ids changed r
      by (intro subscription_event [OF assms(1), where ?bi1.0 = b and L = L and ?rm1.0 = rm and operation = "''DELETE''" and s = s and f = f and e = e and now = now])
         (auto simp: put_table_def)
  qed
qed

lemma Disconnect_event:
  assumes "core_inv core bi" and "HandleClientDisconnect now c bi = Ok bi'"
  shows "core_inv core bi' \<and> replicates lib bi bi'"
proof -
  text \<open>A clean session is not found any more, so the code always adds a session.\<close>
  let ?add = "AddSession (integration_callbacks now (bi_nodeID bi)) now c False False (now + 24 * hour)"
  obtain L where L: "with_replication ?add (bi\<lparr>bi_localSessions := L\<rparr>) = Ok bi'"
  proof (cases "gm_get (bi_localSessions bi) c")
    case None
    with assms(2) show thesis by (intro that [of "bi_localSessions bi"]) (simp add: HandleClientDisconnect_def Let_def)
  next
    case (Some s)
    with assms(2) show thesis
      by (cases "sf_CleanSession s")
         (auto simp: HandleClientDisconnect_def Let_def intro: that [of "gm_del (bi_localSessions bi) c"]
            that [of "gm_set (bi_localSessions bi) c (s\<lparr>sf_Connected := False, sf_LastSeen := now\<rparr>)"])
  qed
  moreover have "core_inv core (bi\<lparr>bi_localSessions := L\<rparr>)" using assms(1) by (simp add: core_inv_def)
  ultimately have "core_inv core bi' \<and> replicates lib (bi\<lparr>bi_localSessions := L\<rparr>) bi'"
    using session_event [where bi = "bi\<lparr>bi_localSessions := L\<rparr>" and lib = lib] by simp
  then show ?thesis by (simp add: replicates_def)
qed

lemma Connect_event:
  assumes "core_inv core bi" and "HandleClientConnect now c clean bi = Ok bi'"
  shows "core_inv core bi' \<and> replicates lib bi bi'"
proof -
  from assms(2) obtain L expiry where "with_replication (AddSession (integration_callbacks now (bi_nodeID bi)) now c True clean expiry)
      (bi\<lparr>bi_localSessions := L\<rparr>) = Ok bi'" unfolding HandleClientConnect_def Let_def by blast
  moreover have "core_inv core (bi\<lparr>bi_localSessions := L\<rparr>)" using assms(1) by (simp add: core_inv_def)
  ultimately have "core_inv core bi' \<and> replicates lib (bi\<lparr>bi_localSessions := L\<rparr>) bi'"
    using session_event [where bi = "bi\<lparr>bi_localSessions := L\<rparr>" and lib = lib] by simp
  then show ?thesis by (simp add: replicates_def)
qed

lemma event_replicates:
  assumes "core_inv core bi" and "handle_event now ev bi = Ok bi'" and "plain (client_of ev)"
  shows "core_inv core bi' \<and> replicates lib bi bi'"
  using assms by (cases ev) (auto dest: Connect_event Disconnect_event Subscribe_event Unsubscribe_event)

lemma replicationLoop_tables:
  assumes "replicationLoop lib replicants m rm = Some (rm', calls)"
  shows "tables rm' = tables rm \<and> rm_nodeID rm' = rm_nodeID rm \<and> rm_nodeRole rm' = rm_nodeRole rm"
  using assms by (auto simp: replicationLoop_def processReplicationLog_def append_log_def tables_def split: if_splits list.splits)

lemma core_life_replica:
  assumes "core_life lib core bi es"
  shows "core_inv core bi \<and> ((\<forall>e \<in> set es. json_faithful lib e) \<longrightarrow>
    (\<exists>rm. replay (integration_callbacks now n) lib es (NewReplicationManager n ReplicantNode) = Ok rm \<and> copy_of rm (bi_replication bi)))"
  using assms
proof induction
  case (new t)
  show ?case by (simp add: core_inv_def NewBrokerIntegration_def NewReplicationManager_def NewReplicationState_def copy_of_def tables_def
        CoreNode_def ReplicantNode_def)
next
  case (event bi es ev t bi' new_es)
  then have "core_inv core bi' \<and> replicates lib bi bi'" by (intro event_replicates) auto
  with event show ?case unfolding replicates_def by (auto simp: replay_append)
next
  case (send bi es replicants rm calls)
  then show ?case using replicationLoop_tables [OF send.hyps(2)] by (auto simp: core_inv_def copy_of_def tables_def)
next
  case (mria bi es mm)
  then show ?case by (simp add: core_inv_def)
qed


text \<open>
  (C36) No replication message is ever applied: the server compares the first 16 bytes of the topic with a
  text of 17 bytes. Whatever a node receives by \<open>ForwardPublish\<close>, its tables stay as they were, and every
  message under \<open>$mria/\<close>, which is all a core node sends, is answered with a failure.
\<close>

theorem replication_never_applied:
  "\<exists>a. Mria_ForwardPublish lib now messageId req bi = Ok (bi, a)
    \<and> (take 6 (pf_Topic req) = ''$mria/'' \<and> length (pf_Topic req) > 6 \<longrightarrow> \<not> fk_Success a)
    \<and> (\<forall>(address, call) \<in> set (replicateToReplicants lib nodes m e).
         \<exists>f. call = RForwardPublish f \<and> (\<exists>a'. Mria_ForwardPublish lib now messageId f bi = Ok (bi, a') \<and> \<not> fk_Success a'))"
proof -
  have never: "take 16 t \<noteq> ''$mria/replication''" for t :: string
  proof
    assume "take 16 t = ''$mria/replication''"
    then have "length (take 16 t) = 17" by simp
    then show False by (simp add: min_def split: if_splits)
  qed
  have reply: "\<exists>a. Mria_ForwardPublish lib now messageId f bi = Ok (bi, a)
      \<and> (take 6 (pf_Topic f) = ''$mria/'' \<and> length (pf_Topic f) > 6 \<longrightarrow> \<not> fk_Success a)" for f
    by (auto simp: Mria_ForwardPublish_def handleMriaMessage_def never ack_def)
  moreover have "\<exists>f. call = RForwardPublish f \<and> (\<exists>a'. Mria_ForwardPublish lib now messageId f bi = Ok (bi, a') \<and> \<not> fk_Success a')"
    if "(address, call) \<in> set (replicateToReplicants lib nodes m e)" for address call
  proof -
    from that obtain f n where "call = RForwardPublish f" and "pf_Topic f = ''$mria/replication/'' @ n"
      by (auto simp: replicateToReplicants_def ForwardPublish_def split: if_splits option.splits)
    with reply [of f] show ?thesis by auto
  qed
  ultimately show ?thesis by blast
qed

section \<open>Leaders and departures\<close>

definition running_ids :: "NodeInfo list \<Rightarrow> string set" where
  "running_ids nodes = ni_NodeId ` {n \<in> set nodes. ni_Status n = NodeStatusRunning}"

lemma elect_min:
  assumes "[] \<notin> running_ids nodes"
  shows "elect nodes = (if running_ids nodes = {} then [] else Min (running_ids nodes))"
  using assms
proof (induction nodes rule: rev_induct)
  case Nil
  then show ?case by (simp add: elect_def running_ids_def)
next
  case (snoc n nodes)
  have ids: "running_ids (nodes @ [n]) = (if ni_Status n = NodeStatusRunning then insert (ni_NodeId n) (running_ids nodes) else running_ids nodes)"
    by (auto simp: running_ids_def)
  have fin: "finite (running_ids nodes)" by (simp add: running_ids_def)
  have IH: "elect nodes = (if running_ids nodes = {} then [] else Min (running_ids nodes))"
    using snoc by (auto simp: ids split: if_splits)
  have step: "elect (nodes @ [n]) = (if ni_Status n = NodeStatusRunning \<and> (elect nodes = [] \<or> ni_NodeId n < elect nodes) then ni_NodeId n else elect nodes)"
    unfolding elect_def by (simp only: foldl_append foldl.simps)
  have "Min (running_ids nodes) \<noteq> []" if "running_ids nodes \<noteq> {}"
    using Min_in [OF fin that] snoc.prems by (auto simp: ids split: if_splits)
  then show ?case
    by (cases "running_ids nodes = {}"; cases "ni_Status n = NodeStatusRunning") (simp_all add: step IH ids Min_insert [OF fin] min_def not_less less_imp_le)
qed

text \<open>
  (C37) An election on a core node makes the smallest identifier of the core nodes it knows to be running
  the leader, so that nodes that know the same ones agree, and the node leads exactly if that is its own.
  It can only wait for ever if the last change of leadership has not been read yet. A node that leaves
  takes no part in this: the answer no longer lists it, but the tables of the manager keep it, and it is
  elected as before.
\<close>

theorem leader_election:
  assumes "mf_NodeRole (mm_config (bi_mria bi)) = CoreNode" and "GetCoreNodes (bi_mria bi) \<noteq> []" and "[] \<notin> running_ids (GetCoreNodes (bi_mria bi))"
  shows "(performLeaderElection (bi_mria bi) = Blocked \<longrightarrow> mm_leaderElectionCh (bi_mria bi) \<noteq> [])
    \<and> (\<forall>mm'. performLeaderElection (bi_mria bi) = Ok mm' \<longrightarrow>
         ck_Leader (mm_clusterState mm') = (if running_ids (GetCoreNodes (bi_mria bi)) = {} then [] else Min (running_ids (GetCoreNodes (bi_mria bi))))
         \<and> (IsLeader mm' \<longleftrightarrow> ck_Leader (mm_clusterState mm') = mf_NodeID (mm_config mm')))
    \<and> (\<forall>bi' resp. Leave now nodeId bi = Ok (bi', resp) \<longrightarrow>
         performLeaderElection (bi_mria bi') = performLeaderElection (bi_mria bi) \<and> GetCoreNodes (bi_mria bi') = GetCoreNodes (bi_mria bi))"
proof -
  have 1: "performLeaderElection (bi_mria bi) = Blocked \<longrightarrow> mm_leaderElectionCh (bi_mria bi) \<noteq> []"
    by (auto simp: performLeaderElection_def Let_def split: if_splits)
  have 2: "ck_Leader (mm_clusterState mm') = elect (GetCoreNodes (bi_mria bi))
      \<and> (IsLeader mm' \<longleftrightarrow> ck_Leader (mm_clusterState mm') = mf_NodeID (mm_config mm'))"
    if "performLeaderElection (bi_mria bi) = Ok mm'" for mm'
    using that assms(1,2) by (auto simp: performLeaderElection_def IsLeader_def Let_def split: if_splits)
  have 3: "bi_mria bi' = bi_mria bi" if "Leave now nodeId bi = Ok (bi', resp)" for bi' resp
    using that by (auto simp: Leave_def handleNodeLeave_def Let_def)
  show ?thesis using 1 2 3 elect_min [OF assms(3)] by auto
qed

text \<open>The session of a clean client stays in the replicated table, as that of a persistent client.\<close>

lemma clean_session_stays:
  assumes "gm_get (bi_localSessions bi) c = Some s" and "sf_CleanSession s" and "HandleClientDisconnect now c bi = Ok bi'"
  shows "\<exists>x. GetSession c (bi_replication bi') = Some x \<and> \<not> se_CleanSession x \<and> \<not> se_Connected x \<and> se_ExpiryTime x = now + 24 * hour"
  using assms
  by (auto simp: HandleClientDisconnect_def Let_def AddSession_def with_replication_def log_error_def log_change_def generateLogID_def GetSession_def bump_def
      integration_callbacks_session split: if_splits go.splits)

text \<open>Every second heartbeat replaces the uptime by a point in time.\<close>

lemma uptime_alternates:
  "ni_Uptime (mm_nodeInfo (sendHeartbeat t2 (sendHeartbeat t1 (fst (Mria_Start t0 d mm))))) = unix t2 - (unix t1 - unix t0)"
  by (simp add: sendHeartbeat_def Mria_Start_def Let_def)

text \<open>A second shutdown after a restart closes closed channels.\<close>

lemma restart_panics:
  assumes "Initialize t None d a bi = Ok (bi1, cs1)" and "Shutdown bi1 = Ok bi2" and "Initialize t' None d' a' bi2 = Ok (bi3, cs3)"
  shows "Shutdown bi3 = Panic"
proof -
  have "bi_isInitialized bi1" using assms(1) by (auto simp: Initialize_def split: if_splits prod.splits)
  with assms(2) have "mm_stopped (bi_mria bi2)" by (auto simp: Shutdown_def Mria_Stop_def split: if_splits)
  then have "mm_stopped (bi_mria bi3)" and "bi_isInitialized bi3" using assms(3)
    by (auto simp: Initialize_def Mria_Start_def Let_def split: if_splits)
  then show ?thesis by (simp add: Shutdown_def Mria_Stop_def)
qed

text \<open>A replicant with a subscriber of its own for the topic keeps a message from the rest of the cluster.\<close>

lemma local_subscriber_stops_forwarding:
  "bi_nodeRole bi = ReplicantNode \<Longrightarrow> hasLocalSubscribers topic bi \<Longrightarrow> HandleMessagePublish topic payload bi = []"
  by (simp add: HandleMessagePublish_def ReplicantNode_def CoreNode_def)

section \<open>An example\<close>

definition example_core :: BrokerIntegration where
  "example_core = NewBrokerIntegration 62135596800000000000 ''core1'' CoreNode"

definition subscribed_core :: BrokerIntegration where
  "subscribed_core = (case handle_event 62135596800000000005 (Subscribe ''c'' ''t'' 1) example_core of Ok bi \<Rightarrow> bi)"

definition example_log :: "repdata ReplicationLog list" where
  "example_log = rm_replicationCh (bi_replication subscribed_core)"

text \<open>Texts for the two entries of the example.\<close>

definition example_json :: "repdata replib" where
  "example_json = \<lparr>rl_Marshal = (\<lambda>e. Some (if lg_Table e = ''routes'' then [1] else [0])),
     rl_Unmarshal = (\<lambda>bs. Some (if bs = [1] then example_log ! 1 else example_log ! 0)),
     rl_subscription = (\<lambda>d. case d of DSubscription s \<Rightarrow> Some s | _ \<Rightarrow> None),
     rl_session = (\<lambda>d. case d of DSession s \<Rightarrow> Some s | _ \<Rightarrow> None),
     rl_route = (\<lambda>d. case d of DRoute r \<Rightarrow> Some r | _ \<Rightarrow> None)\<rparr>"

lemma subscribed_core_lives: "core_life example_json ''core1'' subscribed_core example_log"
proof -
  have "core_life example_json ''core1'' example_core []" unfolding example_core_def by (rule core_life.new)
  moreover have "plain (client_of (Subscribe ''c'' ''t'' 1))" by (simp add: plain_def)
  moreover have "handle_event 62135596800000000005 (Subscribe ''c'' ''t'' 1) example_core = Ok subscribed_core" by code_simp
  moreover have "rm_replicationCh (bi_replication subscribed_core) = rm_replicationCh (bi_replication example_core) @ example_log" by code_simp
  ultimately have "core_life example_json ''core1'' subscribed_core ([] @ example_log)" by (rule core_life.event)
  then show ?thesis by simp
qed

lemma example_log_entries:
  "length example_log = 2" "lg_Table (example_log ! 0) = ''subscriptions''" "lg_Table (example_log ! 1) = ''routes''"
  "lg_Data (example_log ! 0) = DSubscription \<lparr>sd_ClientID = ''c'', sd_TopicFilter = ''t'', sd_QoS = 1, sd_NodeID = ''core1''\<rparr>"
  "lg_Data (example_log ! 1) = DRoute \<lparr>ro_TopicFilter = ''t'', ro_NodeIDs = [''core1'']\<rparr>"
  by code_simp+


theorem replication_never_applied_witness:
  "\<exists>a. Mria_ForwardPublish example_json 9 ''m'' \<lparr>pf_Topic = ''$mria/replication/r'', pf_Payload = [0], pf_FromNode = ''core1''\<rparr> subscribed_core
     = Ok (subscribed_core, a) \<and> \<not> fk_Success a"
  using replication_never_applied [where lib = example_json and now = 9 and messageId = "''m''" and bi = subscribed_core
      and req = "\<lparr>pf_Topic = ''$mria/replication/r'', pf_Payload = [0], pf_FromNode = ''core1''\<rparr>"] by simp blast

theorem leader_election_witness:
  "\<exists>mm. performLeaderElection (fst (Mria_Start 62135596800000000009 None (bi_mria example_core))) = Ok mm \<and> ck_Leader (mm_clusterState mm) = ''core1'' \<and> IsLeader mm"
proof -
  let ?bi = "example_core\<lparr>bi_mria := fst (Mria_Start 62135596800000000009 None (bi_mria example_core))\<rparr>"
  have n: "mf_NodeRole (mm_config (bi_mria ?bi)) = CoreNode" and "map ni_NodeId (GetCoreNodes (bi_mria ?bi)) = [''core1'']"
    and "map ni_Status (GetCoreNodes (bi_mria ?bi)) = [NodeStatusRunning]" by code_simp+
  then have ids: "running_ids (GetCoreNodes (bi_mria ?bi)) = {''core1''}" "GetCoreNodes (bi_mria ?bi) \<noteq> []"
    by (auto simp: running_ids_def)
  obtain mm where mm: "performLeaderElection (bi_mria ?bi) = Ok mm" and "mf_NodeID (mm_config mm) = ''core1''"
  proof
    show "performLeaderElection (bi_mria ?bi) = Ok (case performLeaderElection (bi_mria ?bi) of Ok mm \<Rightarrow> mm)" by code_simp
    show "mf_NodeID (mm_config (case performLeaderElection (bi_mria ?bi) of Ok mm \<Rightarrow> mm)) = ''core1''" by code_simp
  qed
  then show ?thesis using leader_election [where bi = ?bi, OF n] ids by auto
qed

end
