(* ===== verification/Tls_Connection.thy ===== *)
theory Tls_Connection
  imports Connection
begin

text \<open>
  Connections over TLS: \<open>handleTLSConnection\<close> in \<open>pkg/broker/broker.go\<close> and the authentication by
  certificates, \<open>pkg/auth/x509/authenticator.go\<close>.

  A certificate is what the library parsed; the regular expressions, \<open>strings.ToLower\<close> and the parser of
  PEM texts are the argument \<open>x509lib\<close>. The handshake belongs to the library: a connection starts with the
  certificates the peer presented.
\<close>

section \<open>Certificates\<close>

record Certificate =
  crt_Subject :: string
  crt_CommonName :: string
  crt_DNSNames :: "string list"
  crt_EmailAddresses :: "string list"
  crt_URIs :: "string list"
  crt_IPAddresses :: "string list"
  crt_SerialNumber :: string
  crt_Raw :: string

record X509Config =
  xc_Enabled :: bool
  xc_IdentitySource :: string
  xc_IdentityField :: string
  xc_IdentityPattern :: string
  xc_CAChainDepth :: int
  xc_VerifyCertChain :: bool
  xc_AllowedCNs :: "string list"
  xc_RevokedSerials :: "string list"

definition DefaultX509Config :: X509Config where
  "DefaultX509Config = \<lparr>xc_Enabled = False, xc_IdentitySource = ''subject_cn'', xc_IdentityField = [], xc_IdentityPattern = [],
     xc_CAChainDepth = 10, xc_VerifyCertChain = True, xc_AllowedCNs = [], xc_RevokedSerials = []\<rparr>"

record x509lib =
  xl_Compile :: "string \<Rightarrow> bool"
  xl_MatchString :: "string \<Rightarrow> string \<Rightarrow> bool"
  xl_ToLower :: "string \<Rightarrow> string"
  xl_ParsePEM :: "string \<Rightarrow> Certificate option"

text \<open>A compiled pattern is its text.\<close>

record X509Authenticator =
  xa_config :: X509Config
  xa_pattern :: "string option"
  xa_enabled :: bool

definition NewX509Authenticator :: "x509lib \<Rightarrow> X509Config option \<Rightarrow> (string, X509Authenticator) go" where
  "NewX509Authenticator lib config =
     (let config = (case config of None \<Rightarrow> DefaultX509Config | Some c \<Rightarrow> c);
          x = \<lparr>xa_config = config, xa_pattern = None, xa_enabled = xc_Enabled config\<rparr>
      in if xc_IdentityPattern config \<noteq> []
         then (if xl_Compile lib (xc_IdentityPattern config) then Ok (x\<lparr>xa_pattern := Some (xc_IdentityPattern config)\<rparr>)
               else Err ''invalid identity pattern'')
         else Ok x)"

definition matches_pattern :: "x509lib \<Rightarrow> X509Authenticator \<Rightarrow> string \<Rightarrow> bool" where
  "matches_pattern lib x ident = (case xa_pattern x of None \<Rightarrow> True | Some p \<Rightarrow> xl_MatchString lib p ident)"

definition validateCertificateIdentity :: "x509lib \<Rightarrow> X509Authenticator \<Rightarrow> string \<Rightarrow> AuthResult" where
  "validateCertificateIdentity lib x ident =
     (if ident = [] then AuthFailure else if \<not> matches_pattern lib x ident then AuthFailure else AuthSuccess)"

text \<open>The password is not looked at.\<close>

definition X509_Authenticate :: "x509lib \<Rightarrow> X509Authenticator \<Rightarrow> string \<Rightarrow> string \<Rightarrow> AuthResult" where
  "X509_Authenticate lib x username password =
     (if \<not> xa_enabled x then AuthIgnore else validateCertificateIdentity lib x username)"

definition isCertificateRevoked :: "X509Authenticator \<Rightarrow> Certificate \<Rightarrow> bool" where
  "isCertificateRevoked x cert = list_ex (\<lambda>s. s = crt_SerialNumber cert) (xc_RevokedSerials (xa_config x))"

definition isAllowedCN :: "X509Authenticator \<Rightarrow> string \<Rightarrow> bool" where
  "isAllowedCN x cn =
     list_ex (\<lambda>allowedCN. allowedCN = cn \<or>
       (has_prefix allowedCN ''*.'' \<and> (let domain = drop 2 allowedCN in has_suffix cn (''.'' @ domain) \<or> cn = domain)))
     (xc_AllowedCNs (xa_config x))"

definition first_of :: "string list \<Rightarrow> string option" where
  "first_of xs = (case xs of [] \<Rightarrow> None | x # _ \<Rightarrow> Some x)"

definition extractIdentity :: "x509lib \<Rightarrow> X509Authenticator \<Rightarrow> Certificate \<Rightarrow> (string, string) go" where
  "extractIdentity lib x cert =
     (let source = xc_IdentitySource (xa_config x); fld = xc_IdentityField (xa_config x);
          or_error = (\<lambda>v e. case v of Some s \<Rightarrow> Ok s | None \<Rightarrow> Err e)
      in if source = ''subject_dn'' then Ok (crt_Subject cert)
         else if source = ''subject_cn''
         then (if crt_CommonName cert = [] then Err ''certificate subject common name is empty'' else Ok (crt_CommonName cert))
         else if source = ''san''
         then (if fld = []
               then (case crt_DNSNames cert of
                       d # _ \<Rightarrow> Ok d
                     | [] \<Rightarrow> or_error (first_of (crt_EmailAddresses cert)) ''no suitable SAN field found'')
               else
                 let lower = xl_ToLower lib fld
                 in or_error (if lower = ''dns'' then first_of (crt_DNSNames cert)
                              else if lower = ''email'' then first_of (crt_EmailAddresses cert)
                              else if lower = ''uri'' then first_of (crt_URIs cert)
                              else if lower = ''ip'' then first_of (crt_IPAddresses cert)
                              else None) (''SAN field not found: '' @ fld))
         else if source = ''serial'' then Ok (crt_SerialNumber cert)
         else if source = ''fingerprint'' then Ok (crt_Raw cert)
         else Err (''unsupported identity source: '' @ source))"

definition AuthenticateWithCertificate :: "x509lib \<Rightarrow> X509Authenticator \<Rightarrow> Certificate list \<Rightarrow> string \<times> AuthResult" where
  "AuthenticateWithCertificate lib x certs =
     (if \<not> xa_enabled x then ([], AuthIgnore)
      else case certs of
             [] \<Rightarrow> ([], AuthIgnore)
           | clientCert # _ \<Rightarrow>
               if isCertificateRevoked x clientCert then ([], AuthFailure)
               else case extractIdentity lib x clientCert of
                      Ok ident \<Rightarrow>
                        if xc_AllowedCNs (xa_config x) \<noteq> [] \<and> \<not> isAllowedCN x (crt_CommonName clientCert) then ([], AuthFailure)
                        else if \<not> matches_pattern lib x ident then ([], AuthFailure)
                        else (ident, AuthSuccess)
                    | _ \<Rightarrow> ([], AuthError))"

definition X509_SetEnabled :: "X509Authenticator \<Rightarrow> bool \<Rightarrow> X509Authenticator" where
  "X509_SetEnabled x e = x\<lparr>xa_enabled := e, xa_config := (xa_config x)\<lparr>xc_Enabled := e\<rparr>\<rparr>"

definition X509_UpdateConfig :: "x509lib \<Rightarrow> X509Authenticator \<Rightarrow> X509Config option \<Rightarrow> (string, X509Authenticator) go" where
  "X509_UpdateConfig lib x config =
     (case config of
        None \<Rightarrow> Err ''config cannot be nil''
      | Some c \<Rightarrow>
          let done = (\<lambda>x. Ok (x\<lparr>xa_config := c, xa_enabled := xc_Enabled c\<rparr>))
          in if xc_IdentityPattern c = xc_IdentityPattern (xa_config x) then done x
             else if xc_IdentityPattern c = [] then done (x\<lparr>xa_pattern := None\<rparr>)
             else if xl_Compile lib (xc_IdentityPattern c) then done (x\<lparr>xa_pattern := Some (xc_IdentityPattern c)\<rparr>)
             else Err ''invalid identity pattern'')"

definition AddRevokedSerial :: "X509Authenticator \<Rightarrow> string \<Rightarrow> X509Authenticator" where
  "AddRevokedSerial x serial = x\<lparr>xa_config := (xa_config x)\<lparr>xc_RevokedSerials := xc_RevokedSerials (xa_config x) @ [serial]\<rparr>\<rparr>"

definition RemoveRevokedSerial :: "X509Authenticator \<Rightarrow> string \<Rightarrow> X509Authenticator" where
  "RemoveRevokedSerial x serial = x\<lparr>xa_config := (xa_config x)\<lparr>xc_RevokedSerials := remove1 serial (xc_RevokedSerials (xa_config x))\<rparr>\<rparr>"

definition ValidateCertificateFromPEM :: "x509lib \<Rightarrow> X509Authenticator \<Rightarrow> string \<Rightarrow> (string, string) go" where
  "ValidateCertificateFromPEM lib x certPEM =
     (case xl_ParsePEM lib certPEM of
        None \<Rightarrow> Err ''failed to parse certificate''
      | Some cert \<Rightarrow>
          if isCertificateRevoked x cert then Err ''certificate is revoked''
          else go_bind (extractIdentity lib x cert) (\<lambda>ident.
                 if validateCertificateIdentity lib x ident \<noteq> AuthSuccess then Err ''certificate identity validation failed''
                 else Ok ident))"

text \<open>The authenticator as a member of the chain, and how the broker adds it.\<close>

definition x509_authenticator :: "x509lib \<Rightarrow> X509Authenticator \<Rightarrow> Authenticator" where
  "x509_authenticator lib x = \<lparr>au_Name = ''x509'', au_Enabled = xa_enabled x, au_Authenticate = X509_Authenticate lib x\<rparr>"

definition SetupCertificateAuth :: "x509lib \<Rightarrow> X509Config option \<Rightarrow> Broker \<Rightarrow> (string, Broker) go" where
  "SetupCertificateAuth lib config b =
     (case config of
        None \<Rightarrow> Err ''certificate authentication config cannot be nil''
      | Some c \<Rightarrow> go_bind (NewX509Authenticator lib (Some c)) (\<lambda>x.
          Ok (b\<lparr>b_authChain := AddAuthenticator (b_authChain b) (x509_authenticator lib x)\<rparr>)))"

section \<open>The handler\<close>

text \<open>
  The loop over the X.509 authenticators of the chain, \<open>xs\<close>: the identity and the last result, or \<open>None\<close>
  when the connection is closed.
\<close>

fun cert_loop :: "x509lib \<Rightarrow> Certificate list \<Rightarrow> X509Authenticator list \<Rightarrow> string \<times> AuthResult \<Rightarrow> (string \<times> AuthResult) option" where
  "cert_loop lib certs [] r = Some r"
| "cert_loop lib certs (x # xs) r =
     (if \<not> xa_enabled x then cert_loop lib certs xs r
      else let r' = AuthenticateWithCertificate lib x certs
           in if snd r' = AuthSuccess then Some r' else if snd r' = AuthFailure then None else cert_loop lib certs xs r')"

definition cert_auth :: "x509lib \<Rightarrow> X509Authenticator list \<Rightarrow> Certificate list \<Rightarrow> (string \<times> AuthResult) option" where
  "cert_auth lib xs certs = (if certs = [] then Some ([], AuthIgnore) else cert_loop lib certs xs ([], AuthIgnore))"

definition tls_auth :: "string \<times> AuthResult \<Rightarrow> ConnectParams \<Rightarrow> AuthChain \<Rightarrow> AuthResult" where
  "tls_auth cert cp ac =
     (if snd cert = AuthSuccess then AuthSuccess
      else AuthChain_Authenticate ac (if cp_UsernameFlag cp then cp_Username cp else []) (if cp_PasswordFlag cp then cp_Password cp else []))"

text \<open>
  The will is checked after the CONNACK and after the session was created; a bad one ends the connection
  with a second CONNACK.
\<close>

definition bad_will :: "ConnectParams \<Rightarrow> bool" where
  "bad_will cp \<longleftrightarrow> cp_WillFlag cp \<and> (cp_WillTopic cp = [] \<or> cp_WillQos cp > 2)"

definition tls_connect :: "'d env \<Rightarrow> string \<times> AuthResult \<Rightarrow> ConnectParams \<Rightarrow> Conn \<Rightarrow> 'd broker \<Rightarrow> 'd handled" where
  "tls_connect ev cert cp c st =
     (if cp_ClientIdentifier cp = [] \<and> \<not> cp_Clean cp then Ok (Return, reply c (OConnack 0x85 None), st)
      else go_bind (if cp_ClientIdentifier cp = [] then generateClientID (ev_unixNano ev) else Ok (cp_ClientIdentifier cp)) (\<lambda>clientID.
        let code = connack_code (tls_auth cert cp (b_authChain (fst st)))
        in case writePacket (c\<lparr>cn_clientID := clientID\<rparr>) (connack (b_nodeID (fst st)) (cp_RequestResponseInfo cp) code) of
             Ok c1 \<Rightarrow>
               if code \<noteq> 0 then Ok (Return, c1, st)
               else if bad_will cp
               then Ok (Return, reply c1 (OConnack 0x85 None), fst st,
                        snd (CreateOrResumeSession (ev_enc ev) (ev_dec ev) (ev_now ev) (snd st) clientID (cp_Clean cp) (session_expiry (cp_Keepalive cp))))
               else go_bind (establish ev cp clientID st) (\<lambda>(mb, st'). Ok (Continue, c1\<lparr>cn_mailbox := Some mb\<rparr>, st'))
           | _ \<Rightarrow> Ok (Return, c, st)))"

definition tls_read :: "'d env \<Rightarrow> string \<times> AuthResult \<Rightarrow> read_result \<Rightarrow> Conn \<Rightarrow> 'd broker \<Rightarrow> 'd handled" where
  "tls_read ev cert r c st = (case r of RPacket (IConnect cp) \<Rightarrow> tls_connect ev cert cp c st | _ \<Rightarrow> Ok (Break, c, st))"

text \<open>One round of the loop with what follows it; the end is never graceful.\<close>

definition tls_step :: "'d env \<Rightarrow> string \<times> AuthResult \<Rightarrow> read_result \<Rightarrow> Conn \<Rightarrow> 'd broker \<Rightarrow> (string, bool \<times> Conn \<times> 'd broker) go" where
  "tls_step ev cert r c st =
     go_bind (tls_read ev cert r c st) (\<lambda>(v, c', st').
       case v of
         Continue \<Rightarrow> Ok (True, c', st')
       | Return \<Rightarrow> Ok (False, c', st')
       | Break \<Rightarrow>
           if cn_clientID c' \<noteq> []
           then go_bind (end_session ev (cn_clientID c') False st') (\<lambda>st''. Ok (False, c', st''))
           else Ok (False, c', st'))"

text \<open>The handler: \<open>None\<close> is a connection closed before the first packet.\<close>

fun tls_loop :: "string \<times> AuthResult \<Rightarrow> ('d env \<times> read_result) list \<Rightarrow> Conn \<Rightarrow> 'd broker \<Rightarrow> (string, bool \<times> Conn \<times> 'd broker) go" where
  "tls_loop cert [] c st = Ok (True, c, st)"
| "tls_loop cert ((ev, r) # rs) c st =
     go_bind (tls_step ev cert r c st) (\<lambda>(on, c', st'). if on then tls_loop cert rs c' st' else Ok (False, c', st'))"

definition handleTLSConnection :: "x509lib \<Rightarrow> X509Authenticator list \<Rightarrow> Certificate list \<Rightarrow> ('d env \<times> read_result) list \<Rightarrow> Conn \<Rightarrow> 'd broker
    \<Rightarrow> (string, bool \<times> Conn \<times> 'd broker) go" where
  "handleTLSConnection lib xs certs rs c st =
     (case cert_auth lib xs certs of None \<Rightarrow> Ok (False, c, st) | Some cert \<Rightarrow> tls_loop cert rs c st)"

section \<open>What the handler does\<close>

text \<open>
  With an enabled X.509 authenticator without a pattern in front of the chain, nobody needs a
  certificate or a password: over a plain connection every user name that is not empty is accepted, and so
  it is over TLS without a certificate.
\<close>

lemma x509_accepts_any_user:
  assumes "SetupCertificateAuth lib (Some config) b = Ok b'" and "ac_authenticators (b_authChain b) = []" and "ac_enabled (b_authChain b)"
    and "xc_Enabled config" and "xc_IdentityPattern config = []" and "username \<noteq> []"
  shows "connack_code (connect_auth (b_authChain b') clientID username password) = 0
    \<and> (cp_UsernameFlag cp \<and> cp_Username cp = username \<longrightarrow> cert_auth lib xs [] = Some ([], AuthIgnore)
         \<and> connack_code (tls_auth ([], AuthIgnore) cp (b_authChain b')) = 0)"
proof -
  have "AuthChain_Authenticate (b_authChain b') username pw = AuthSuccess" for pw
    using assms by (auto simp: SetupCertificateAuth_def NewX509Authenticator_def Let_def AddAuthenticator_def AuthChain_Authenticate_def
        x509_authenticator_def X509_Authenticate_def validateCertificateIdentity_def matches_pattern_def)
  then show ?thesis by (auto simp: connect_auth_def tls_auth_def cert_auth_def)
qed

text \<open>
  The certificate is accepted exactly if it is not revoked, has an identity, a common name that is
  allowed, and an identity that matches; the identity becomes the user name.
\<close>

lemma certificate_accepted_iff:
  assumes "xa_enabled x"
  shows "AuthenticateWithCertificate lib x (cert # certs) = (n, AuthSuccess) \<longleftrightarrow>
    crt_SerialNumber cert \<notin> set (xc_RevokedSerials (xa_config x)) \<and> extractIdentity lib x cert = Ok n
    \<and> (xc_AllowedCNs (xa_config x) \<noteq> [] \<longrightarrow> isAllowedCN x (crt_CommonName cert)) \<and> matches_pattern lib x n"
  using assms by (auto simp: AuthenticateWithCertificate_def isCertificateRevoked_def list_ex_iff split: go.splits)

text \<open>A revoked serial number is refused until it is removed as often as it was added.\<close>

lemma revoked_count:
  "count_list (xc_RevokedSerials (xa_config (AddRevokedSerial x s))) s = Suc (count_list (xc_RevokedSerials (xa_config x)) s)"
  "isCertificateRevoked (RemoveRevokedSerial (AddRevokedSerial x s) s) cert = isCertificateRevoked x cert"
  by (simp add: AddRevokedSerial_def)
    (cases "crt_SerialNumber cert = s"; auto simp: AddRevokedSerial_def RemoveRevokedSerial_def isCertificateRevoked_def list_ex_iff remove1_append)

text \<open>
  (C33) Over TLS a client can do nothing but connect: the first packet of any other kind ends the
  connection without an answer, as an ungraceful end of the session, so that nothing is ever subscribed,
  published or acknowledged. And the blacklist does not apply: a client it refuses over a plain connection
  is admitted over TLS, its credentials being the same.
\<close>

theorem tls_serves_connect_only:
  fixes st :: "'d broker"
  shows "(\<not> (\<exists>cp. r = RPacket (IConnect cp)) \<longrightarrow>
        tls_step ev cert r c st =
          (if cn_clientID c = [] then Ok (False, c, st) else go_bind (end_session ev (cn_clientID c) False st) (\<lambda>st'. Ok (False, c, st'))))
    \<and> (connect_checks (ev_unixNano ev) cp = Ok (Accept (cid, u, p)) \<and> cp_ClientIdentifier cp = cid \<and> cid \<noteq> []
        \<and> fst (mw_CheckClientConnection (ev_lib ev) (ev_now ev) (b_blacklistMiddleware (fst st)) cid u (client_ip c) ''mqtt'') = False
        \<and> connack_code (tls_auth cert cp (b_authChain (fst st))) = 0 \<and> \<not> bad_will cp \<and> cn_writable c
        \<and> establish ev cp cid st = Ok (mb, st') \<longrightarrow>
        (\<exists>b. handle_connect ev cp c st = Ok (Return, c, b, snd st))
        \<and> tls_step ev cert (RPacket (IConnect cp)) c st =
            Ok (True, c\<lparr>cn_clientID := cid, cn_mailbox := Some mb,
                        cn_written := cn_written c @ [connack (b_nodeID (fst st)) (cp_RequestResponseInfo cp) 0]\<rparr>, st'))"
proof (intro conjI impI)
  assume "\<not> (\<exists>cp. r = RPacket (IConnect cp))"
  then have "tls_read ev cert r c st = Ok (Break, c, st)"
    by (auto simp: tls_read_def split: read_result.splits in_packet.splits)
  then show "tls_step ev cert r c st =
      (if cn_clientID c = [] then Ok (False, c, st) else go_bind (end_session ev (cn_clientID c) False st) (\<lambda>st'. Ok (False, c, st')))"
    by (simp add: tls_step_def)
next
  assume A: "connect_checks (ev_unixNano ev) cp = Ok (Accept (cid, u, p)) \<and> cp_ClientIdentifier cp = cid \<and> cid \<noteq> []
        \<and> fst (mw_CheckClientConnection (ev_lib ev) (ev_now ev) (b_blacklistMiddleware (fst st)) cid u (client_ip c) ''mqtt'') = False
        \<and> connack_code (tls_auth cert cp (b_authChain (fst st))) = 0 \<and> \<not> bad_will cp \<and> cn_writable c
        \<and> establish ev cp cid st = Ok (mb, st')"
  then show "\<exists>b. handle_connect ev cp c st = Ok (Return, c, b, snd st)"
    by (cases "mw_CheckClientConnection (ev_lib ev) (ev_now ev) (b_blacklistMiddleware (fst st)) cid u (client_ip c) ''mqtt''")
       (simp add: handle_connect_def Let_def)
  from A show "tls_step ev cert (RPacket (IConnect cp)) c st =
      Ok (True, c\<lparr>cn_clientID := cid, cn_mailbox := Some mb,
                  cn_written := cn_written c @ [connack (b_nodeID (fst st)) (cp_RequestResponseInfo cp) 0]\<rparr>, st')"
    by (cases "connack (b_nodeID (fst st)) (cp_RequestResponseInfo cp) 0")
       (simp_all add: tls_step_def tls_read_def tls_connect_def writePacket_def connack_def Let_def)
qed

section \<open>An example\<close>

definition no_x509lib :: x509lib where
  "no_x509lib = \<lparr>xl_Compile = (\<lambda>_. False), xl_MatchString = (\<lambda>_ _. False), xl_ToLower = id, xl_ParsePEM = (\<lambda>_. None)\<rparr>"

definition fresh_broker :: "PersistentSession broker" where
  "fresh_broker = New_broker 0 ''n1'' None"

lemma x509_accepts_any_user_witness:
  "\<exists>b. SetupCertificateAuth no_x509lib (Some (DefaultX509Config\<lparr>xc_Enabled := True\<rparr>)) (fst fresh_broker) = Ok b
    \<and> connack_code (connect_auth (b_authChain b) ''x'' ''anybody'' ''wrong'') = 0"
proof -
  obtain b where b: "SetupCertificateAuth no_x509lib (Some (DefaultX509Config\<lparr>xc_Enabled := True\<rparr>)) (fst fresh_broker) = Ok b"
    by (simp add: SetupCertificateAuth_def NewX509Authenticator_def DefaultX509Config_def Let_def)
  have "ac_authenticators (b_authChain (fst fresh_broker)) = []" and "ac_enabled (b_authChain (fst fresh_broker))"
    by (simp_all add: fresh_broker_def New_broker_def NewAuthChain_def)
  from x509_accepts_any_user [OF b this, of "''anybody''" "''x''" "''wrong''"] b show ?thesis
    by (auto simp: DefaultX509Config_def)
qed

definition banned :: BlacklistManager where
  "banned = (case AddEntry no_library 2 (NewBlacklistManager 1) (value_block ''x'' ClientIDBlacklist ''evil'') of Ok bm \<Rightarrow> bm)"

definition banning_broker :: "PersistentSession broker" where
  "banning_broker = ((fst fresh_broker)\<lparr>b_blacklistMiddleware := NewBlacklistMiddleware (Some banned) None\<rparr>, snd fresh_broker)"

definition evil_params :: ConnectParams where
  "evil_params = resume_params\<lparr>cp_ClientIdentifier := ''evil'', cp_Clean := True\<rparr>"

lemma banning_broker_parts:
  "b_blacklistMiddleware (fst banning_broker) = NewBlacklistMiddleware (Some banned) None" "b_authChain (fst banning_broker) = NewAuthChain"
  by (simp_all add: banning_broker_def fresh_broker_def New_broker_def)

lemma evil_banned:
  "fst (mw_CheckClientConnection (ev_lib sample_env) (ev_now sample_env) (b_blacklistMiddleware (fst banning_broker)) ''evil'' []
     (client_ip (new_conn ''1.2.3.4:5'')) ''mqtt'') = False"
proof -
  have "fst (mw_CheckClientConnection no_library 9 (NewBlacklistMiddleware (Some banned) None) ''evil'' [] ''1.2.3.4'' ''mqtt'') = False" by code_simp
  moreover have "client_ip (new_conn ''1.2.3.4:5'') = ''1.2.3.4''" by code_simp
  ultimately show ?thesis unfolding banning_broker_parts by (simp add: sample_env_def)
qed

lemma evil_authenticated: "connack_code (tls_auth ([], AuthIgnore) evil_params (b_authChain (fst banning_broker))) = 0"
  by (simp add: banning_broker_parts tls_auth_def AuthChain_Authenticate_def NewAuthChain_def)

lemma evil_established: "\<exists>mb st'. establish sample_env evil_params ''evil'' banning_broker = Ok (mb, st')"
proof -
  have "take_over ''evil'' (fst banning_broker) = Ok (fst banning_broker)"
    by (simp add: take_over_def banning_broker_def fresh_broker_def New_broker_def Get_def NewMemStore_def)
  then show ?thesis by (simp add: establish_def registerSession_def Let_def split_beta)
qed

theorem tls_serves_connect_only_witness:
  "(\<exists>b. handle_connect sample_env evil_params (new_conn ''1.2.3.4:5'') banning_broker = Ok (Return, new_conn ''1.2.3.4:5'', b, snd banning_broker))
    \<and> (\<exists>c st. tls_step sample_env ([], AuthIgnore) (RPacket (IConnect evil_params)) (new_conn ''1.2.3.4:5'') banning_broker = Ok (True, c, st))
    \<and> tls_step sample_env ([], AuthIgnore) (RPacket IPingreq) (new_conn ''1.2.3.4:5'') banning_broker = Ok (False, new_conn ''1.2.3.4:5'', banning_broker)"
proof -
  let ?c = "new_conn ''1.2.3.4:5''" and ?cert = "([] :: string, AuthIgnore)"
  obtain mb st' where e: "establish sample_env evil_params ''evil'' banning_broker = Ok (mb, st')" using evil_established by blast
  have checks: "connect_checks (ev_unixNano sample_env) evil_params = Ok (Accept (''evil'', [], []))"
    by (simp add: connect_checks_def evil_params_def resume_params_def)
  have params: "cp_ClientIdentifier evil_params = ''evil''" "\<not> bad_will evil_params" "cn_writable ?c" "cn_clientID ?c = []"
    by (simp_all add: evil_params_def resume_params_def bad_will_def new_conn_def)
  note all = tls_serves_connect_only [where ev = sample_env and cert = ?cert and c = ?c and st = banning_broker and r = "RPacket IPingreq"
      and cp = evil_params and cid = "''evil''" and u = "[]" and p = "[]" and mb = mb and st' = st']
  have ping: "tls_step sample_env ?cert (RPacket IPingreq) ?c banning_broker = Ok (False, ?c, banning_broker)"
    using conjunct1 [OF all] by (simp add: params(4))
  show ?thesis using conjunct2 [OF all] checks params evil_banned evil_authenticated e ping by blast
qed

end
