(* ===== verification/Certificate_Manager.thy ===== *)
theory Certificate_Manager
  imports Prelude
begin

text \<open>
  The certificate manager, \<open>pkg/tls/certificate.go\<close>: the tables of certificates and of TLS configurations,
  and the configuration a listener is started with. Reading PEM texts, key pairs and the verification of a
  chain are the argument \<open>certlib\<close>.
\<close>

section \<open>State\<close>

record StoredCertificate =
  sc_ID :: string
  sc_Name :: string
  sc_Type :: string
  sc_Content :: string
  sc_Key :: string
  sc_Chain :: "string list"
  sc_Fingerprint :: string
  sc_Subject :: string
  sc_Issuer :: string
  sc_NotBefore :: time
  sc_NotAfter :: time
  sc_CreatedAt :: time
  sc_UpdatedAt :: time
  sc_Enabled :: bool

record CertificateInfo =
  in_Subject :: string
  in_Issuer :: string
  in_SerialNumber :: string
  in_NotBefore :: time
  in_NotAfter :: time
  in_DNSNames :: "string list"
  in_IPAddresses :: "string list"
  in_Fingerprint :: string

record TLSConfig =
  tc_Enabled :: bool
  tc_Port :: int
  tc_CertFile :: string
  tc_KeyFile :: string
  tc_CACertFile :: string
  tc_Verify :: string
  tc_Ciphers :: "string list"
  tc_Versions :: "string list"
  tc_ClientCertAuth :: bool
  tc_ReuseSession :: bool
  tc_HonorCipherOrder :: bool
  tc_ServerName :: string
  tc_CertificateID :: string
  tc_CACertificateID :: string

record CertificateManager =
  ctm_certificates :: "(string, StoredCertificate) gomap"
  ctm_configs :: "(string, TLSConfig) gomap"

record certlib =
  ct_Parse :: "string \<Rightarrow> CertificateInfo option"
  ct_KeyPair :: "string \<Rightarrow> string \<Rightarrow> bool"
  ct_AppendCerts :: "string \<Rightarrow> bool"
  ct_Verify :: "string list \<Rightarrow> string \<Rightarrow> bool"

text \<open>What \<open>tls.Config\<close> gets; the zero value asks for no client certificate.\<close>

datatype ClientAuth = NoClientCert | VerifyClientCertIfGiven | RequireAndVerifyClientCert

record GoTLSConfig =
  gt_ServerName :: string
  gt_ClientAuth :: ClientAuth
  gt_Certificates :: "(string \<times> string) list"
  gt_ClientCAs :: "string option"

section \<open>Operations\<close>

definition NewCertificateManager :: CertificateManager where
  "NewCertificateManager = \<lparr>ctm_certificates = [], ctm_configs = []\<rparr>"

definition AddCertificate :: "certlib \<Rightarrow> time \<Rightarrow> StoredCertificate \<Rightarrow> CertificateManager \<Rightarrow> (string, CertificateManager) go" where
  "AddCertificate lib now cert cm =
     (if sc_ID cert = [] then Err ''certificate ID cannot be empty''
      else case ct_Parse lib (sc_Content cert) of
             None \<Rightarrow> Err ''invalid certificate content''
           | Some info \<Rightarrow>
               Ok (cm\<lparr>ctm_certificates := gm_set (ctm_certificates cm) (sc_ID cert)
                 (cert\<lparr>sc_Subject := in_Subject info, sc_Issuer := in_Issuer info, sc_NotBefore := in_NotBefore info,
                       sc_NotAfter := in_NotAfter info, sc_Fingerprint := in_Fingerprint info, sc_UpdatedAt := now,
                       sc_CreatedAt := (if sc_CreatedAt cert = 0 then now else sc_CreatedAt cert)\<rparr>)\<rparr>))"

definition GetCertificate :: "string \<Rightarrow> CertificateManager \<Rightarrow> (string, StoredCertificate) go" where
  "GetCertificate cid cm =
     (case gm_get (ctm_certificates cm) cid of None \<Rightarrow> Err (''certificate with ID '' @ cid @ '' not found'') | Some c \<Rightarrow> Ok c)"

definition ListCertificates :: "CertificateManager \<Rightarrow> StoredCertificate list" where
  "ListCertificates cm = map snd (ctm_certificates cm)"

definition DeleteCertificate :: "string \<Rightarrow> CertificateManager \<Rightarrow> (string, CertificateManager) go" where
  "DeleteCertificate cid cm =
     (case gm_get (ctm_certificates cm) cid of
        None \<Rightarrow> Err (''certificate with ID '' @ cid @ '' not found'')
      | Some _ \<Rightarrow> Ok (cm\<lparr>ctm_certificates := gm_del (ctm_certificates cm) cid\<rparr>))"

definition SetTLSConfig :: "string \<Rightarrow> TLSConfig \<Rightarrow> CertificateManager \<Rightarrow> CertificateManager" where
  "SetTLSConfig cid config cm = cm\<lparr>ctm_configs := gm_set (ctm_configs cm) cid config\<rparr>"

text \<open>Authorities whose text does not parse are left out of the pool.\<close>

definition ValidateCertificate :: "certlib \<Rightarrow> time \<Rightarrow> string \<Rightarrow> string list \<Rightarrow> (string, unit) go" where
  "ValidateCertificate lib now certContent caCerts =
     (case ct_Parse lib certContent of
        None \<Rightarrow> Err ''invalid client certificate''
      | Some clientCert \<Rightarrow>
          if now < in_NotBefore clientCert then Err ''certificate is not yet valid''
          else if now > in_NotAfter clientCert then Err ''certificate has expired''
          else if caCerts = [] then Ok ()
          else if ct_Verify lib (filter (\<lambda>ca. ct_Parse lib ca \<noteq> None) caCerts) certContent then Ok ()
          else Err ''certificate verification failed'')"

definition client_auth :: "string \<Rightarrow> ClientAuth" where
  "client_auth verify =
     (if verify = ''none'' then NoClientCert
      else if verify = ''verify_peer'' then VerifyClientCertIfGiven
      else if verify = ''verify_peer_fail_if_no_peer_cert'' then RequireAndVerifyClientCert
      else NoClientCert)"

definition GetTLSConfig :: "certlib \<Rightarrow> string \<Rightarrow> CertificateManager \<Rightarrow> (string, GoTLSConfig) go" where
  "GetTLSConfig lib configID cm =
     (case gm_get (ctm_configs cm) configID of
        None \<Rightarrow> Err (''TLS config with ID '' @ configID @ '' not found'')
      | Some config \<Rightarrow>
          go_bind (if tc_CertificateID config = [] then Ok []
                   else case gm_get (ctm_certificates cm) (tc_CertificateID config) of
                          None \<Rightarrow> Err (''server certificate with ID '' @ tc_CertificateID config @ '' not found'')
                        | Some cert \<Rightarrow> if ct_KeyPair lib (sc_Content cert) (sc_Key cert) then Ok [(sc_Content cert, sc_Key cert)]
                                       else Err ''failed to load server certificate'') (\<lambda>certs.
          go_bind (if tc_CACertificateID config = [] \<or> client_auth (tc_Verify config) = NoClientCert then Ok None
                   else case gm_get (ctm_certificates cm) (tc_CACertificateID config) of
                          None \<Rightarrow> Err (''CA certificate with ID '' @ tc_CACertificateID config @ '' not found'')
                        | Some ca \<Rightarrow> if ct_AppendCerts lib (sc_Content ca) then Ok (Some (sc_Content ca))
                                     else Err ''failed to parse CA certificate'') (\<lambda>cas.
            Ok \<lparr>gt_ServerName = tc_ServerName config, gt_ClientAuth = client_auth (tc_Verify config), gt_Certificates = certs, gt_ClientCAs = cas\<rparr>)))"

definition IsExpiringSoon :: "time \<Rightarrow> string \<Rightarrow> duration \<Rightarrow> CertificateManager \<Rightarrow> bool" where
  "IsExpiringSoon now certID within cm =
     (case gm_get (ctm_certificates cm) certID of None \<Rightarrow> False | Some cert \<Rightarrow> sc_NotAfter cert - now \<le> within)"

definition GetExpiringCertificates :: "time \<Rightarrow> duration \<Rightarrow> CertificateManager \<Rightarrow> StoredCertificate list" where
  "GetExpiringCertificates now within cm = filter (\<lambda>cert. sc_NotAfter cert < now + within) (ListCertificates cm)"

section \<open>Lemmas\<close>

text \<open>A certificate that was added is found, under its identifier, with the data of its text.\<close>

lemma AddCertificate_found:
  assumes "AddCertificate lib now cert cm = Ok cm'"
  obtains info where "ct_Parse lib (sc_Content cert) = Some info"
    and "\<exists>c. GetCertificate (sc_ID cert) cm' = Ok c \<and> sc_Content c = sc_Content cert \<and> sc_NotAfter c = in_NotAfter info"
    and "\<And>k. k \<noteq> sc_ID cert \<Longrightarrow> GetCertificate k cm' = GetCertificate k cm"
  using assms by (auto simp: AddCertificate_def GetCertificate_def split: if_splits option.splits)

text \<open>A listener verifies clients only if the configuration names one of two modes; any other text means none.\<close>

lemma unknown_mode_verifies_nobody:
  assumes "GetTLSConfig lib cid cm = Ok t" and "gm_get (ctm_configs cm) cid = Some config"
    and "tc_Verify config \<noteq> ''verify_peer''" and "tc_Verify config \<noteq> ''verify_peer_fail_if_no_peer_cert''"
  shows "gt_ClientAuth t = NoClientCert \<and> gt_ClientCAs t = None"
  using assms by (auto simp: GetTLSConfig_def client_auth_def split: if_splits)

text \<open>Neither the switch of a configuration nor that of a certificate is looked at.\<close>

lemma switches_ignored:
  assumes "gm_get (ctm_configs cm) cid = Some config"
  shows "GetTLSConfig lib cid (SetTLSConfig cid (config\<lparr>tc_Enabled := e, tc_Versions := v, tc_Ciphers := ciphers\<rparr>) cm) = GetTLSConfig lib cid cm"
  using assms by (cases config) (simp add: GetTLSConfig_def SetTLSConfig_def split: option.splits)

text \<open>The two questions about expiry differ at the last moment only.\<close>

lemma expiring_agree:
  assumes "gm_get (ctm_certificates cm) cid = Some c" and "sc_NotAfter c \<noteq> now + within"
  shows "IsExpiringSoon now cid within cm \<longleftrightarrow> sc_NotAfter c < now + within"
  using assms by (auto simp: IsExpiringSoon_def)

end
