(* ===== verification/Metrics.thy ===== *)
theory Metrics
  imports Prelude
begin

text \<open>
  The counters of the broker, \<open>pkg/metrics/metrics.go\<close>. They are cells of memory that goroutines change
  with the operations of \<open>sync/atomic\<close> and no lock, so a method is a list of atomic instructions, a goroutine in
  a method is a \<open>thread\<close> with the local variables \<open>count\<close> and \<open>max\<close>, and a run is an interleaving of
  calls and single instructions. What the Prometheus client is told is recorded in order. The counters are integers:
  an \<open>int64\<close> that counts events does not reach its bound.
\<close>

section \<open>The counters\<close>

datatype cell =
    connectionsCount | connectionsMax | connectionsTotal | disconnectionsTotal
  | sessionsCount | sessionsMax | sessionsPersistent | sessionsTransient
  | subscriptionsCount | subscriptionsMax | subscriptionsShared
  | messagesReceived | messagesSent | messagesDropped | messagesRetained | messagesQos0 | messagesQos1 | messagesQos2
  | routesCount | routesMax | topicsCount | topicsMax
  | packetsReceived | packetsSent | packetsConnect | packetsDisconnect | packetsPublish | packetsSubscribe | packetsUnsubscribe
  | errorsTotal | authFailures | aclDenied | nodesRunning | nodesStopped

datatype prom_call = PInc string | PDec string | PSet string int

record MetricsManager =
  mm_cells :: "cell \<Rightarrow> int"
  mm_prom :: "prom_call list"
  mm_startTime :: time

definition NewMetricsManager :: "time \<Rightarrow> MetricsManager" where
  "NewMetricsManager now = \<lparr>mm_cells = (\<lambda>_. 0), mm_prom = [], mm_startTime = now\<rparr>"

section \<open>Instructions\<close>

text \<open>
  \<open>CountInt64\<close> is \<open>count := atomic.AddInt64(...)\<close>, \<open>SetInt64\<close> stores the argument \<open>count\<close>. \<open>MaxLoop\<close> is one round
  of the loop that raises a maximum, up to the comparison; the compare-and-swap of the round is \<open>Swap\<close>.
\<close>

datatype instr =
    AddInt64 cell int | CountInt64 cell int | SetInt64 cell int | MaxLoop cell | Swap cell | LoadInt64 cell | Prom prom_call

record thread =
  th_count :: int
  th_max :: int
  th_loaded :: "int list"
  th_code :: "instr list"

definition set_cell :: "cell \<Rightarrow> int \<Rightarrow> MetricsManager \<Rightarrow> MetricsManager" where
  "set_cell a v m = m\<lparr>mm_cells := (mm_cells m)(a := v)\<rparr>"

definition exec :: "thread \<Rightarrow> MetricsManager \<Rightarrow> thread \<times> MetricsManager" where
  "exec t m =
     (case th_code t of
        [] \<Rightarrow> (t, m)
      | i # rest \<Rightarrow>
          let t' = t\<lparr>th_code := rest\<rparr> in
          (case i of
             AddInt64 a d \<Rightarrow> (t', set_cell a (mm_cells m a + d) m)
           | CountInt64 a d \<Rightarrow> (t'\<lparr>th_count := mm_cells m a + d\<rparr>, set_cell a (mm_cells m a + d) m)
           | SetInt64 a n \<Rightarrow> (t'\<lparr>th_count := n\<rparr>, set_cell a n m)
           | MaxLoop a \<Rightarrow>
               (if th_count t \<le> mm_cells m a then t'\<lparr>th_max := mm_cells m a\<rparr> else t'\<lparr>th_max := mm_cells m a, th_code := Swap a # rest\<rparr>, m)
           | Swap a \<Rightarrow>
               (if mm_cells m a = th_max t then (t', set_cell a (th_count t) m) else (t'\<lparr>th_code := MaxLoop a # rest\<rparr>, m))
           | LoadInt64 a \<Rightarrow> (t'\<lparr>th_loaded := th_loaded t @ [mm_cells m a]\<rparr>, m)
           | Prom p \<Rightarrow> (t', m\<lparr>mm_prom := mm_prom m @ [p]\<rparr>)))"

section \<open>The methods\<close>

definition IncConnections :: "instr list" where
  "IncConnections =
     [CountInt64 connectionsCount 1, AddInt64 connectionsTotal 1, MaxLoop connectionsMax,
      Prom (PInc ''ConnectionsGauge''), Prom (PInc ''ConnectionsTotal'')]"

definition DecConnections :: "instr list" where
  "DecConnections = [AddInt64 connectionsCount (-1), AddInt64 disconnectionsTotal 1, Prom (PDec ''ConnectionsGauge'')]"

definition IncSessions :: "bool \<Rightarrow> instr list" where
  "IncSessions persistent =
     [CountInt64 sessionsCount 1, AddInt64 (if persistent then sessionsPersistent else sessionsTransient) 1, MaxLoop sessionsMax,
      Prom (PInc ''SessionsGauge'')]"

definition DecSessions :: "bool \<Rightarrow> instr list" where
  "DecSessions persistent =
     [AddInt64 sessionsCount (-1), AddInt64 (if persistent then sessionsPersistent else sessionsTransient) (-1), Prom (PDec ''SessionsGauge'')]"

definition IncSubscriptions :: "bool \<Rightarrow> instr list" where
  "IncSubscriptions shared =
     CountInt64 subscriptionsCount 1 # (if shared then [AddInt64 subscriptionsShared 1] else []) @
     [MaxLoop subscriptionsMax, Prom (PInc ''SubscriptionsGauge'')]"

definition DecSubscriptions :: "bool \<Rightarrow> instr list" where
  "DecSubscriptions shared =
     AddInt64 subscriptionsCount (-1) # (if shared then [AddInt64 subscriptionsShared (-1)] else []) @ [Prom (PDec ''SubscriptionsGauge'')]"

definition IncMessagesReceived :: "byte \<Rightarrow> instr list" where
  "IncMessagesReceived qos =
     AddInt64 messagesReceived 1 #
     (if qos = 0 then [AddInt64 messagesQos0 1] else if qos = 1 then [AddInt64 messagesQos1 1]
      else if qos = 2 then [AddInt64 messagesQos2 1] else []) @ [Prom (PInc ''MessagesReceivedCounter'')]"

definition IncMessagesSent :: "byte \<Rightarrow> instr list" where
  "IncMessagesSent qos = [AddInt64 messagesSent 1, Prom (PInc ''MessagesSentCounter'')]"

definition IncMessagesDropped :: "instr list" where
  "IncMessagesDropped = [AddInt64 messagesDropped 1, Prom (PInc ''MessagesDroppedCounter'')]"

definition IncMessagesRetained :: "instr list" where
  "IncMessagesRetained = [AddInt64 messagesRetained 1]"

definition IncPacketsReceived :: "string \<Rightarrow> instr list" where
  "IncPacketsReceived packetType =
     AddInt64 packetsReceived 1 #
     (if packetType = ''CONNECT'' then [AddInt64 packetsConnect 1]
      else if packetType = ''DISCONNECT'' then [AddInt64 packetsDisconnect 1]
      else if packetType = ''PUBLISH'' then [AddInt64 packetsPublish 1]
      else if packetType = ''SUBSCRIBE'' then [AddInt64 packetsSubscribe 1]
      else if packetType = ''UNSUBSCRIBE'' then [AddInt64 packetsUnsubscribe 1] else []) @ [Prom (PInc ''PacketsReceivedCounter'')]"

definition IncPacketsSent :: "instr list" where
  "IncPacketsSent = [AddInt64 packetsSent 1, Prom (PInc ''PacketsSentCounter'')]"

definition IncErrors :: "instr list" where
  "IncErrors = [AddInt64 errorsTotal 1]"

definition IncAuthFailures :: "instr list" where
  "IncAuthFailures = [AddInt64 authFailures 1, AddInt64 errorsTotal 1]"

definition IncAclDenied :: "instr list" where
  "IncAclDenied = [AddInt64 aclDenied 1, AddInt64 errorsTotal 1]"

definition SetRoutes :: "int \<Rightarrow> instr list" where
  "SetRoutes n = [SetInt64 routesCount n, MaxLoop routesMax]"

definition SetTopics :: "int \<Rightarrow> instr list" where
  "SetTopics n = [SetInt64 topicsCount n, MaxLoop topicsMax]"

text \<open>The cells a snapshot loads, in the order of the fields of \<open>Statistics\<close>.\<close>

definition snapshot_cells :: "cell list" where
  "snapshot_cells =
     [connectionsCount, connectionsMax, sessionsCount, sessionsMax, sessionsPersistent, sessionsTransient,
      subscriptionsCount, subscriptionsMax, subscriptionsShared, routesCount, routesMax, topicsCount, topicsMax,
      messagesReceived, messagesSent, messagesDropped, messagesRetained, messagesQos0, messagesQos1, messagesQos2,
      packetsReceived, packetsSent, packetsConnect, packetsDisconnect, packetsPublish, packetsSubscribe, packetsUnsubscribe,
      errorsTotal, authFailures, aclDenied]"

definition snapshot :: "instr list" where
  "snapshot = map LoadInt64 snapshot_cells"

text \<open>A snapshot taken while no method is running: what the loaded cells and the clock give.\<close>

record Statistics =
  sta_cells :: "(cell \<times> int) list"
  sta_Uptime :: int
  sta_StartTime :: time

definition GetStatistics :: "time \<Rightarrow> MetricsManager \<Rightarrow> Statistics" where
  "GetStatistics now m =
     \<lparr>sta_cells = map (\<lambda>a. (a, mm_cells m a)) snapshot_cells,
      sta_Uptime = (now - mm_startTime m) div second, sta_StartTime = mm_startTime m\<rparr>"

definition stat :: "Statistics \<Rightarrow> cell \<Rightarrow> int" where
  "stat s a = gm_get0 0 (sta_cells s) a"

definition UpdatePrometheusMetrics :: "time \<Rightarrow> MetricsManager \<Rightarrow> MetricsManager" where
  "UpdatePrometheusMetrics now m =
     (let stats = GetStatistics now m
      in m\<lparr>mm_prom := mm_prom m @
            [PSet ''ConnectionsGauge'' (stat stats connectionsCount), PSet ''SessionsGauge'' (stat stats sessionsCount),
             PSet ''SubscriptionsGauge'' (stat stats subscriptionsCount), PSet ''UptimeGauge'' (sta_Uptime stats)]\<rparr>)"

section \<open>Interleavings\<close>

datatype call =
    CIncConnections | CDecConnections | CIncSessions bool | CDecSessions bool | CIncSubscriptions bool | CDecSubscriptions bool
  | CIncMessagesReceived byte | CIncMessagesSent byte | CIncMessagesDropped | CIncMessagesRetained
  | CIncPacketsReceived string | CIncPacketsSent | CIncErrors | CIncAuthFailures | CIncAclDenied
  | CSetRoutes int | CSetTopics int | CGetStatistics

fun code :: "call \<Rightarrow> instr list" where
  "code CIncConnections = IncConnections"
| "code CDecConnections = DecConnections"
| "code (CIncSessions p) = IncSessions p"
| "code (CDecSessions p) = DecSessions p"
| "code (CIncSubscriptions s) = IncSubscriptions s"
| "code (CDecSubscriptions s) = DecSubscriptions s"
| "code (CIncMessagesReceived q) = IncMessagesReceived q"
| "code (CIncMessagesSent q) = IncMessagesSent q"
| "code CIncMessagesDropped = IncMessagesDropped"
| "code CIncMessagesRetained = IncMessagesRetained"
| "code (CIncPacketsReceived t) = IncPacketsReceived t"
| "code CIncPacketsSent = IncPacketsSent"
| "code CIncErrors = IncErrors"
| "code CIncAuthFailures = IncAuthFailures"
| "code CIncAclDenied = IncAclDenied"
| "code (CSetRoutes n) = SetRoutes n"
| "code (CSetTopics n) = SetTopics n"
| "code CGetStatistics = snapshot"

lemmas method_defs = IncConnections_def DecConnections_def IncSessions_def DecSessions_def IncSubscriptions_def DecSubscriptions_def
  IncMessagesReceived_def IncMessagesSent_def IncMessagesDropped_def IncMessagesRetained_def IncPacketsReceived_def
  IncPacketsSent_def IncErrors_def IncAuthFailures_def IncAclDenied_def SetRoutes_def SetTopics_def

datatype event = Invoke call | Step nat

type_synonym metrics_state = "MetricsManager \<times> thread list"

definition do_event :: "metrics_state \<Rightarrow> event \<Rightarrow> metrics_state" where
  "do_event s e =
     (case e of
        Invoke c \<Rightarrow> (fst s, snd s @ [\<lparr>th_count = 0, th_max = 0, th_loaded = [], th_code = code c\<rparr>])
      | Step i \<Rightarrow>
          if i < length (snd s) then let (t, m) = exec (snd s ! i) (fst s) in (m, (snd s)[i := t]) else s)"

definition run_events :: "time \<Rightarrow> event list \<Rightarrow> metrics_state" where
  "run_events now es = foldl do_event (NewMetricsManager now, []) es"

definition finished :: "metrics_state \<Rightarrow> bool" where
  "finished s \<longleftrightarrow> (\<forall>t \<in> set (snd s). th_code t = [])"

text \<open>The values a cell has had since the start.\<close>

definition history :: "time \<Rightarrow> cell \<Rightarrow> event list \<Rightarrow> int set" where
  "history now a es = (\<lambda>k. mm_cells (fst (run_events now (take k es))) a) ` {..length es}"

lemma run_events_snoc [simp]: "run_events now (es @ [e]) = do_event (run_events now es) e"
  by (simp add: run_events_def)

lemma run_events_Nil [simp]: "run_events now [] = (NewMetricsManager now, [])"
  by (simp add: run_events_def)

lemma history_Nil [simp]: "history now a [] = {0}"
  by (simp add: history_def NewMetricsManager_def)

lemma history_snoc [simp]: "history now a (es @ [e]) = insert (mm_cells (fst (run_events now (es @ [e]))) a) (history now a es)"
  by (simp add: history_def atMost_Suc del: run_events_snoc)

lemma finite_history [simp]: "finite (history now a es)"
  by (simp add: history_def)

lemma set_cell_simps [simp]: "mm_cells (set_cell a v m) = (mm_cells m)(a := v)"
  by (simp add: set_cell_def)

section \<open>Maxima in every interleaving\<close>

text \<open>
  What a pair of a counter and its maximum relies on: the counter is raised and set only as the first
  instruction of a method that goes on to raise the maximum, and nothing else writes the maximum.
\<close>

definition counting :: "instr \<Rightarrow> bool" where
  "counting i \<longleftrightarrow> (case i of CountInt64 _ _ \<Rightarrow> True | SetInt64 _ _ \<Rightarrow> True | _ \<Rightarrow> False)"

definition quiet :: "cell \<Rightarrow> cell \<Rightarrow> instr \<Rightarrow> bool" where
  "quiet c m i \<longleftrightarrow>
     (case i of
        AddInt64 a d \<Rightarrow> a \<noteq> m \<and> (a = c \<longrightarrow> d \<le> 0)
      | CountInt64 a _ \<Rightarrow> a \<noteq> m \<and> a \<noteq> c
      | SetInt64 a _ \<Rightarrow> a \<noteq> m \<and> a \<noteq> c
      | MaxLoop a \<Rightarrow> a \<noteq> c
      | Swap a \<Rightarrow> a \<noteq> c
      | _ \<Rightarrow> True)"

definition aloof :: "cell \<Rightarrow> cell \<Rightarrow> instr list \<Rightarrow> bool" where
  "aloof c m is \<longleftrightarrow> list_all (\<lambda>i. quiet c m i \<and> i \<noteq> MaxLoop m \<and> i \<noteq> Swap m) is"

definition raising :: "cell \<Rightarrow> instr list \<Rightarrow> bool" where
  "raising m is \<longleftrightarrow> MaxLoop m \<in> set is \<or> Swap m \<in> set is"

definition counted :: "cell \<Rightarrow> cell \<Rightarrow> instr list \<Rightarrow> bool" where
  "counted c m is \<longleftrightarrow> list_all (\<lambda>i. quiet c m i \<and> \<not> counting i) is \<and> Swap m \<notin> set (tl is)"

fun opens :: "cell \<Rightarrow> cell \<Rightarrow> instr list \<Rightarrow> bool" where
  "opens c m (CountInt64 a d # is) \<longleftrightarrow> a = c \<and> counted c m is \<and> MaxLoop m \<in> set is \<and> Swap m \<notin> set is"
| "opens c m (SetInt64 a n # is) \<longleftrightarrow> a = c \<and> counted c m is \<and> MaxLoop m \<in> set is \<and> Swap m \<notin> set is"
| "opens c m _ \<longleftrightarrow> False"

locale high_water =
  fixes c m :: cell
  assumes distinct_cells: "c \<noteq> m"
    and methods: "aloof c m (code f) \<or> opens c m (code f)"
begin

definition tinv :: "int set \<Rightarrow> thread \<Rightarrow> bool" where
  "tinv H t \<longleftrightarrow> aloof c m (th_code t) \<or> opens c m (th_code t)
     \<or> counted c m (th_code t) \<and> th_count t \<in> H \<and> (th_code t \<noteq> [] \<and> hd (th_code t) = Swap m \<longrightarrow> th_max t < th_count t)"

definition covers :: "thread \<Rightarrow> int \<Rightarrow> bool" where
  "covers t v \<longleftrightarrow> counted c m (th_code t) \<and> raising m (th_code t) \<and> v \<le> th_count t"

definition inv :: "int set \<Rightarrow> metrics_state \<Rightarrow> bool" where
  "inv H s \<longleftrightarrow> (\<forall>t \<in> set (snd s). tinv H t) \<and> mm_cells (fst s) m \<in> H \<and> mm_cells (fst s) c \<in> H
     \<and> (\<forall>v \<in> H. v \<le> mm_cells (fst s) m \<or> (\<exists>t \<in> set (snd s). covers t v))"

lemma tinv_mono: "tinv H t \<Longrightarrow> H \<subseteq> H' \<Longrightarrow> tinv H' t"
  by (auto simp: tinv_def)

lemma opens_cases:
  assumes "opens c m is"
  obtains d rest where "is = CountInt64 c d # rest" "counted c m rest" "MaxLoop m \<in> set rest" "Swap m \<notin> set rest"
    | n rest where "is = SetInt64 c n # rest" "counted c m rest" "MaxLoop m \<in> set rest" "Swap m \<notin> set rest"
  using assms by (cases "(c, m, is)" rule: opens.cases) auto

lemma Swap_tl: "Swap m \<notin> set (tl is) \<Longrightarrow> Swap m \<notin> set (tl (tl is))"
  by (cases "is"; cases "tl is") auto

text \<open>One instruction of a thread that follows the rules.\<close>

definition good_step :: "int set \<Rightarrow> MetricsManager \<Rightarrow> thread \<Rightarrow> MetricsManager \<Rightarrow> thread \<Rightarrow> bool" where
  "good_step H mem t mem' t' \<longleftrightarrow>
     tinv (insert (mm_cells mem' c) H) t' \<and> mm_cells mem m \<le> mm_cells mem' m \<and> (mm_cells mem' m = mm_cells mem m \<or> mm_cells mem' m \<in> H)
     \<and> (mm_cells mem' c \<le> mm_cells mem c \<or> covers t' (mm_cells mem' c))
     \<and> (\<forall>v. covers t v \<longrightarrow> covers t' v \<or> v \<le> mm_cells mem' m)"

lemma aloof_not_covers: "aloof c m (th_code t) \<Longrightarrow> \<not> covers t v"
  by (auto simp: aloof_def covers_def raising_def list_all_iff)

lemma aloof_step:
  assumes "aloof c m (th_code t)" and "exec t mem = (t', mem')" and "th_code t \<noteq> []"
  shows "good_step H mem t mem' t'"
  using assms distinct_cells aloof_not_covers [OF assms(1)]
  by (cases "th_code t"; cases "hd (th_code t)")
    (auto simp: good_step_def exec_def Let_def tinv_def aloof_def quiet_def split: if_splits)

lemma not_hd: "Swap m \<notin> set is \<Longrightarrow> is \<noteq> [] \<Longrightarrow> hd is \<noteq> Swap m"
  using hd_in_set by metis

lemma opens_step:
  assumes "opens c m (th_code t)" and "exec t mem = (t', mem')"
  shows "good_step H mem t mem' t'"
proof -
  have "\<not> covers t v" for v
    using assms(1) by (cases "(c, m, th_code t)" rule: opens.cases) (auto simp: covers_def counted_def counting_def)
  with assms distinct_cells show ?thesis
    by (elim opens_cases) (auto simp: good_step_def exec_def tinv_def covers_def raising_def dest: not_hd)
qed

lemma counted_tl: "counted c m (i # is) \<Longrightarrow> counted c m is \<and> Swap m \<notin> set is"
  using Swap_tl [of "i # is"] by (auto simp: counted_def)

lemma counted_step:
  assumes "counted c m (th_code t)" and "th_count t \<in> H" and "th_code t \<noteq> []"
    and "hd (th_code t) = Swap m \<Longrightarrow> th_max t < th_count t" and "exec t mem = (t', mem')"
  shows "good_step H mem t mem' t'"
proof (cases "th_code t")
  case (Cons i rest)
  note r = counted_tl [OF assms(1) [unfolded Cons]]
  from assms(1) Cons have q: "quiet c m i" "\<not> counting i" by (auto simp: counted_def)
  have r2: "counted c m (Swap a # rest)" "counted c m (MaxLoop a # rest)" if "a \<noteq> c" for a
    using r that by (auto simp: counted_def quiet_def counting_def)
  have h: "rest \<noteq> [] \<Longrightarrow> hd rest \<noteq> Swap m" using r not_hd by blast
  show ?thesis
    using assms(2,4,5) Cons q r r2 h distinct_cells
    by (cases i) (auto simp: good_step_def exec_def Let_def tinv_def covers_def raising_def quiet_def counting_def split: if_splits)
qed (use assms(3) in simp)

lemma thread_step:
  assumes "tinv H t" and "exec t mem = (t', mem')" and "th_code t \<noteq> []"
  shows "good_step H mem t mem' t'"
  using assms aloof_step opens_step counted_step unfolding tinv_def by blast

lemma exec_done: "th_code t = [] \<Longrightarrow> exec t mem = (t, mem)"
  by (simp add: exec_def)

lemma inv_invoke: "inv H s \<Longrightarrow> inv (insert (mm_cells (fst s) c) H) (do_event s (Invoke f))"
  using methods [of f] by (auto simp: inv_def do_event_def tinv_def)

lemma inv_step:
  assumes "inv H s"
  shows "inv (insert (mm_cells (fst (do_event s e)) c) H) (do_event s e)"
proof (cases e)
  case (Invoke f)
  then show ?thesis using inv_invoke [OF assms, of f] by (simp add: do_event_def)
next
  case (Step i)
  show ?thesis
  proof (cases "i < length (snd s) \<and> th_code (snd s ! i) \<noteq> []")
    case False
    then have "do_event s e = s" using Step by (auto simp: do_event_def exec_done)
    then show ?thesis using assms by (auto simp: inv_def insert_absorb)
  next
    case True
    let ?t = "snd s ! i"
    obtain t' mem' where x: "exec ?t (fst s) = (t', mem')" by (cases "exec ?t (fst s)")
    with Step True have e: "do_event s e = (mem', (snd s)[i := t'])" by (simp add: do_event_def)
    have "tinv H ?t" using assms True by (auto simp: inv_def)
    from thread_step [OF this x] True have g: "good_step H (fst s) ?t mem' t'" by simp
    have t: "\<forall>t \<in> set ((snd s)[i := t']). tinv (insert (mm_cells mem' c) H) t"
      using g assms by (auto simp: inv_def good_step_def dest!: set_update_subset_insert [THEN subsetD] intro: tinv_mono)
    have i: "t' \<in> set ((snd s)[i := t'])" using True by (auto simp: set_update_memI)
    have keep: "v \<le> mm_cells mem' m \<or> (\<exists>t \<in> set ((snd s)[i := t']). covers t v)" if "v \<in> H" for v
    proof -
      from assms that consider "v \<le> mm_cells (fst s) m" | t where "t \<in> set (snd s)" "covers t v" by (auto simp: inv_def)
      then show ?thesis
      proof cases
        case 1 with g show ?thesis by (auto simp: good_step_def)
      next
        case 2
        then obtain j where j: "j < length (snd s)" "covers (snd s ! j) v" by (auto simp: in_set_conv_nth)
        show ?thesis
        proof (cases "j = i")
          case True with j g i show ?thesis by (auto simp: good_step_def)
        next
          case False
          with j have "snd s ! j \<in> set ((snd s)[i := t'])" by (metis length_list_update nth_list_update_neq nth_mem)
          with j show ?thesis by blast
        qed
      qed
    qed
    have "v \<le> mm_cells mem' m \<or> (\<exists>t \<in> set ((snd s)[i := t']). covers t v)" if v: "v = mm_cells mem' c" for v
    proof (cases "covers t' v")
      case False
      with g v have "v \<le> mm_cells (fst s) c" by (auto simp: good_step_def)
      moreover from assms have "mm_cells (fst s) c \<in> H" by (simp add: inv_def)
      ultimately show ?thesis using keep [of "mm_cells (fst s) c"] by (auto simp: covers_def)
    qed (use i in blast)
    then show ?thesis using t keep g assms e by (auto simp: inv_def good_step_def)
  qed
qed

lemma inv_run: "inv (history now c es) (run_events now es)"
proof (induction es rule: rev_induct)
  case Nil
  show ?case by (simp add: inv_def NewMetricsManager_def)
next
  case (snoc e es)
  from inv_step [OF snoc, of e] show ?case by simp
qed

text \<open>Once no method is running, the maximum is the largest value the counter has had.\<close>

lemma finished_max:
  assumes "finished (run_events now es)"
  shows "mm_cells (fst (run_events now es)) m = Max (history now c es)"
proof (rule Max_eqI [symmetric])
  have i: "inv (history now c es) (run_events now es)" by (rule inv_run)
  show "mm_cells (fst (run_events now es)) m \<in> history now c es" using i by (simp add: inv_def)
  fix v assume "v \<in> history now c es"
  with i assms show "v \<le> mm_cells (fst (run_events now es)) m"
    by (fastforce simp: inv_def finished_def covers_def raising_def)
qed simp

end

lemma snapshot_aloof: "aloof c m snapshot"
  by (auto simp: aloof_def snapshot_def list_all_iff quiet_def)

definition maximum_of :: "cell \<Rightarrow> cell option" where
  "maximum_of c =
     (case c of
        connectionsCount \<Rightarrow> Some connectionsMax
      | sessionsCount \<Rightarrow> Some sessionsMax
      | subscriptionsCount \<Rightarrow> Some subscriptionsMax
      | routesCount \<Rightarrow> Some routesMax
      | topicsCount \<Rightarrow> Some topicsMax
      | _ \<Rightarrow> None)"

lemma methods_disciplined: "maximum_of c = Some m \<Longrightarrow> aloof c m (code f) \<or> opens c m (code f)"
  by (cases "f = CGetStatistics", simp add: snapshot_aloof)
    (cases f; cases c; simp add: maximum_of_def method_defs aloof_def counted_def quiet_def counting_def)

interpretation connections: high_water connectionsCount connectionsMax
  by standard (simp_all add: methods_disciplined maximum_of_def)

interpretation sessions: high_water sessionsCount sessionsMax
  by standard (simp_all add: methods_disciplined maximum_of_def)

interpretation subscriptions: high_water subscriptionsCount subscriptionsMax
  by standard (simp_all add: methods_disciplined maximum_of_def)

interpretation routes: high_water routesCount routesMax
  by standard (simp_all add: methods_disciplined maximum_of_def)

interpretation topics: high_water topicsCount topicsMax
  by standard (simp_all add: methods_disciplined maximum_of_def)

section \<open>Exact counts in every interleaving\<close>

definition added :: "cell \<Rightarrow> instr list \<Rightarrow> int" where
  "added a is = sum_list (map (\<lambda>i. case i of AddInt64 b d \<Rightarrow> if b = a then d else 0
                                      | CountInt64 b d \<Rightarrow> if b = a then d else 0 | _ \<Rightarrow> 0) is)"

definition only_added :: "cell \<Rightarrow> instr list \<Rightarrow> bool" where
  "only_added a is \<longleftrightarrow> list_all (\<lambda>i. case i of SetInt64 b _ \<Rightarrow> b \<noteq> a | MaxLoop b \<Rightarrow> b \<noteq> a | Swap b \<Rightarrow> b \<noteq> a | _ \<Rightarrow> True) is"

fun invoked :: "event list \<Rightarrow> call list" where
  "invoked [] = []"
| "invoked (Invoke f # es) = f # invoked es"
| "invoked (Step i # es) = invoked es"

lemma invoked_append [simp]: "invoked (es @ fs) = invoked es @ invoked fs"
  by (induction es rule: invoked.induct) auto

lemma exec_added:
  assumes "only_added a (th_code t)" and "exec t m = (t', m')"
  shows "only_added a (th_code t') \<and> mm_cells m' a + added a (th_code t') = mm_cells m a + added a (th_code t)"
  using assms by (cases "th_code t"; cases "hd (th_code t)") (auto simp: exec_def Let_def only_added_def added_def split: if_splits)

text \<open>The cells that are neither set nor maxima.\<close>

definition summed :: "cell \<Rightarrow> bool" where
  "summed a \<longleftrightarrow> a \<notin> {connectionsMax, sessionsMax, subscriptionsMax, routesCount, routesMax, topicsCount, topicsMax}"

lemma code_only_added: "summed a \<Longrightarrow> only_added a (code f)"
  by (cases f) (auto simp: summed_def only_added_def method_defs snapshot_def list_all_iff)

lemma sum_list_update_map:
  assumes "i < length xs"
  shows "sum_list (map f (xs[i := x])) = sum_list (map f xs) + f x - (f (xs ! i) :: int)"
  using assms
proof (induction xs arbitrary: i)
  case (Cons y ys)
  then show ?case by (cases i) auto
qed simp

lemma run_added:
  assumes "summed a"
  shows "(\<forall>t \<in> set (snd (run_events now es)). only_added a (th_code t))
    \<and> mm_cells (fst (run_events now es)) a + sum_list (map (\<lambda>t. added a (th_code t)) (snd (run_events now es)))
        = sum_list (map (\<lambda>f. added a (code f)) (invoked es))"
proof (induction es rule: rev_induct)
  case Nil
  show ?case by (simp add: NewMetricsManager_def)
next
  case (snoc e es)
  let ?s = "run_events now es"
  show ?case
  proof (cases e)
    case (Invoke f)
    with snoc code_only_added [OF assms] show ?thesis by (auto simp: do_event_def)
  next
    case (Step i)
    show ?thesis
    proof (cases "i < length (snd ?s)")
      case True
      obtain t' m' where x: "exec (snd ?s ! i) (fst ?s) = (t', m')" by (cases "exec (snd ?s ! i) (fst ?s)")
      with exec_added [of a "snd ?s ! i"] snoc True have "only_added a (th_code t')"
        "mm_cells m' a + added a (th_code t') = mm_cells (fst ?s) a + added a (th_code (snd ?s ! i))" by simp_all
      with snoc x Step True show ?thesis
        by (auto simp: do_event_def sum_list_update_map [OF True] dest!: set_update_subset_insert [THEN subsetD])
    qed (use snoc Step in \<open>simp add: do_event_def\<close>)
  qed
qed

lemma finished_added:
  assumes "summed a" and "finished (run_events now es)"
  shows "mm_cells (fst (run_events now es)) a = sum_list (map (\<lambda>f. added a (code f)) (invoked es))"
proof -
  have "sum_list (map (\<lambda>t. added a (th_code t)) (snd (run_events now es))) = 0"
    using assms(2) by (simp add: finished_def added_def cong: map_cong)
  then show ?thesis using run_added [OF assms(1), of now es] by simp
qed

text \<open>The number of calls of a kind.\<close>

definition calls :: "call \<Rightarrow> event list \<Rightarrow> int" where
  "calls f es = int (count_list (invoked es) f)"

lemma connections_added:
  "sum_list (map (\<lambda>f. added connectionsCount (code f)) fs) = int (count_list fs CIncConnections) - int (count_list fs CDecConnections)"
  "sum_list (map (\<lambda>f. added sessionsCount (code f)) fs)
     = int (count_list fs (CIncSessions True)) + int (count_list fs (CIncSessions False))
       - int (count_list fs (CDecSessions True)) - int (count_list fs (CDecSessions False))"
  "sum_list (map (\<lambda>f. added errorsTotal (code f)) fs)
     = int (count_list fs CIncErrors) + int (count_list fs CIncAuthFailures) + int (count_list fs CIncAclDenied)"
proof (induction fs)
  case (Cons f fs)
  case 1 with Cons(1) show ?case by (cases f) (auto simp: added_def method_defs snapshot_def o_def)
  case 2 with Cons(2) show ?case by (cases f) (auto simp: added_def method_defs snapshot_def o_def)
  case 3 with Cons(3) show ?case by (cases f) (auto simp: added_def method_defs snapshot_def o_def)
qed simp_all

text \<open>A goroutine that is not disturbed ends its method: every instruction takes at most three steps.\<close>

abbreviation alone :: "nat \<Rightarrow> thread \<times> MetricsManager \<Rightarrow> thread \<times> MetricsManager" where
  "alone n \<equiv> (\<lambda>(t, m). exec t m) ^^ n"

lemma alone_next:
  assumes "th_code t = i # rest"
  shows "\<exists>n \<le> 3. th_code (fst (alone n (t, m))) = rest"
proof -
  have swapped: "th_code (fst (alone 1 (t, m))) = rest" if "th_code t = Swap a # rest" "mm_cells m a = th_max t" for t a
    using that by (simp add: exec_def)
  have looped: "\<exists>n \<le> 2. th_code (fst (alone n (t, m))) = rest" if c: "th_code t = MaxLoop a # rest" for t a
  proof (cases "th_count t \<le> mm_cells m a")
    case True
    then have "th_code (fst (alone 1 (t, m))) = rest" using c by (simp add: exec_def)
    then show ?thesis by (intro exI [of _ 1]) simp
  next
    case False
    then have "th_code (fst (alone (Suc 1) (t, m))) = rest" unfolding funpow_Suc_right using c by (simp add: exec_def)
    then show ?thesis by (intro exI [of _ 2]) (simp add: numeral_2_eq_2)
  qed
  consider a where "i = Swap a" "mm_cells m a \<noteq> th_max t" | a where "i = MaxLoop a"
    | "(\<forall>a. i \<noteq> Swap a) \<or> (\<exists>a. i = Swap a \<and> mm_cells m a = th_max t)" "\<forall>a. i \<noteq> MaxLoop a" by blast
  then show ?thesis
  proof cases
    case 1
    then have e: "exec t m = (t\<lparr>th_code := MaxLoop a # rest\<rparr>, m)" using assms by (simp add: exec_def)
    from looped [of "t\<lparr>th_code := MaxLoop a # rest\<rparr>" a] obtain n where "n \<le> 2"
      "th_code (fst (alone n (t\<lparr>th_code := MaxLoop a # rest\<rparr>, m))) = rest" by auto
    with e have "Suc n \<le> 3" "th_code (fst (alone (Suc n) (t, m))) = rest" by (simp_all add: funpow_Suc_right del: funpow.simps)
    then show ?thesis by blast
  next
    case 2
    with looped [of t a] assms obtain n where "n \<le> 2" "th_code (fst (alone n (t, m))) = rest" by blast
    then show ?thesis by (intro exI [of _ n]) simp
  next
    case 3
    then have "th_code (fst (alone 1 (t, m))) = rest" using assms swapped by (cases i) (auto simp: exec_def Let_def)
    then show ?thesis by (intro exI [of _ 1]) simp
  qed
qed

lemma alone_finishes: "\<exists>n \<le> 3 * length (th_code t). th_code (fst (alone n (t, m))) = []"
proof (induction "th_code t" arbitrary: t m)
  case Nil
  then show ?case by (intro exI [of _ 0]) simp
next
  case (Cons i rest)
  from alone_next [of t i rest m] Cons.hyps(2) obtain k where k: "k \<le> 3" "th_code (fst (alone k (t, m))) = rest" by auto
  obtain t' m' where tm: "alone k (t, m) = (t', m')" by (cases "alone k (t, m)")
  from Cons.hyps(1) [of t' m'] k tm obtain n where n: "n \<le> 3 * length rest" "th_code (fst (alone n (t', m'))) = []" by auto
  have "alone (n + k) (t, m) = alone n (t', m')" by (simp add: funpow_add tm)
  with n k Cons.hyps(2) [symmetric] show ?case by (intro exI [of _ "n + k"]) auto
qed

text \<open>
  (C40) Without any lock the counters are right in every interleaving of the goroutines: once no method is
  running, each maximum is the largest value its counter ever had, no raise being lost by the loops that compare and
  swap, and each counter is the number of increments less the number of decrements.
\<close>

theorem counters_exact:
  assumes "finished (run_events now es)"
  shows "(\<forall>c m. maximum_of c = Some m \<longrightarrow> mm_cells (fst (run_events now es)) m = Max (history now c es))
    \<and> mm_cells (fst (run_events now es)) connectionsCount = calls CIncConnections es - calls CDecConnections es
    \<and> mm_cells (fst (run_events now es)) sessionsCount
        = calls (CIncSessions True) es + calls (CIncSessions False) es - calls (CDecSessions True) es - calls (CDecSessions False) es
    \<and> mm_cells (fst (run_events now es)) errorsTotal = calls CIncErrors es + calls CIncAuthFailures es + calls CIncAclDenied es"
proof (intro conjI allI impI)
  fix c m assume "maximum_of c = Some m"
  then show "mm_cells (fst (run_events now es)) m = Max (history now c es)"
    using assms by (cases c)
      (auto simp: maximum_of_def connections.finished_max sessions.finished_max subscriptions.finished_max routes.finished_max topics.finished_max)
qed (use assms in \<open>simp_all add: finished_added summed_def connections_added calls_def\<close>)

text \<open>Two connections whose loops overlap: the first compare-and-swap fails and is repeated.\<close>

definition overlapping :: "event list" where
  "overlapping = [Invoke CIncConnections, Invoke CIncConnections, Step 0, Step 0, Step 0, Step 1, Step 1, Step 1, Step 1, Step 0, Step 0, Step 0, Step 0,
     Step 1, Step 1, Step 0, Invoke CDecConnections, Step 2, Step 2, Step 2]"

lemma overlapping_simps:
  "finished (run_events 0 overlapping)" "mm_cells (fst (run_events 0 overlapping)) connectionsMax = 2"
  "calls CIncConnections overlapping = 2" "calls CDecConnections overlapping = 1"
  by (simp_all add: overlapping_def run_events_def do_event_def exec_def IncConnections_def DecConnections_def finished_def
      NewMetricsManager_def calls_def Let_def)

theorem counters_exact_witness:
  "mm_cells (fst (run_events 0 overlapping)) connectionsMax = 2 \<and> Max (history 0 connectionsCount overlapping) = 2
   \<and> mm_cells (fst (run_events 0 overlapping)) connectionsCount = 1"
proof -
  have "maximum_of connectionsCount = Some connectionsMax" by (simp add: maximum_of_def)
  then have "Max (history 0 connectionsCount overlapping) = 2"
    using counters_exact [OF overlapping_simps(1), THEN conjunct1, rule_format, of connectionsCount connectionsMax] overlapping_simps(2) by simp
  then show ?thesis using counters_exact [OF overlapping_simps(1), THEN conjunct2, THEN conjunct1] overlapping_simps by simp
qed

text \<open>A snapshot taken in between can show more connections than the maximum.\<close>

lemma snapshot_inconsistent:
  "let s = fst (run_events 0 [Invoke CIncConnections, Step 0])
   in stat (GetStatistics 0 s) connectionsCount = 1 \<and> stat (GetStatistics 0 s) connectionsMax = 0"
  by (simp add: run_events_def do_event_def exec_def IncConnections_def NewMetricsManager_def GetStatistics_def stat_def snapshot_cells_def)

end
