(* ===== verification/Admin.thy ===== *)
theory Admin
  imports Broker Metrics
begin

text \<open>
  The management API, \<open>pkg/admin/admin.go\<close>, with the side of it that the broker provides
  (\<open>GetConnections\<close> and its neighbours in \<open>pkg/broker/broker.go\<close>). A handler maps a request and the state \<open>'b\<close>
  behind the interface to a response and a new state; \<open>Panic\<close> is a panic of the handler, after which the
  HTTP server drops the connection. Page numbers are 64-bit integers with the wrap-around written out. Decoding of
  JSON is the argument of the handlers that read a body. Fields that nothing sets, and the metadata of a blacklist
  entry, which nothing reads, are left out.
\<close>

section \<open>What the API shows\<close>

record ConnectionInfo =
  co_ClientID :: string
  co_Username :: string
  co_PeerHost :: string
  co_SockPort :: int
  co_Protocol :: string
  co_ConnectedAt :: time
  co_KeepAlive :: int
  co_CleanStart :: bool
  co_ProtoVer :: int
  co_SubscriptionsCount :: int
  co_Node :: string

record SessionInfo =
  se_ClientID :: string
  se_Username :: string
  se_CreatedAt :: time
  se_ConnectedAt :: "time option"
  se_ExpiryInterval :: int
  se_SubscriptionsCount :: int
  se_Node :: string

record SubscriptionInfo =
  su_ClientID :: string
  su_Topic :: string
  su_QoS :: int
  su_Node :: string

record RouteInfo =
  ro_Topic :: string
  ro_Nodes :: "string list"

text \<open>Loads are in tenths.\<close>

record SysMonInfo =
  sm_ProcCount :: int
  sm_ProcessLimit :: int
  sm_MemoryTotal :: int
  sm_MemoryUsed :: int
  sm_CPUIdle :: int
  sm_CPULoad1 :: int
  sm_CPULoad5 :: int
  sm_CPULoad15 :: int

record NodeInfo =
  ni_Node :: string
  ni_NodeStatus :: string
  ni_OtpRelease :: string
  ni_Version :: string
  ni_Uptime :: int
  ni_Datetime :: time
  ni_SysMon :: SysMonInfo

record PaginationMeta =
  pm_Page :: int
  pm_Limit :: int
  pm_Count :: nat
  pm_Total :: nat

datatype api_data =
    DStats Statistics
  | DConnections "ConnectionInfo list" PaginationMeta | DConnection ConnectionInfo
  | DSessions "SessionInfo list" PaginationMeta | DSession SessionInfo
  | DSubscriptions "SubscriptionInfo list" PaginationMeta | DClientSubscriptions "SubscriptionInfo list"
  | DRoutes "RouteInfo list" PaginationMeta | DRoute RouteInfo
  | DNodes "NodeInfo list" | DNode NodeInfo
  | DStatus NodeInfo Statistics | DHealth string time | DResult string
  | DEntries "BlacklistEntry list" | DEntry BlacklistEntry | DBlacklistStats BlacklistStats

record APIResponse =
  ap_Code :: int
  ap_Message :: string
  ap_Data :: "api_data option"

type_synonym response = "int \<times> APIResponse option"

definition writeSuccess :: "api_data \<Rightarrow> response" where
  "writeSuccess d = (200, Some \<lparr>ap_Code = 0, ap_Message = [], ap_Data = Some d\<rparr>)"

definition writeError :: "int \<Rightarrow> string \<Rightarrow> response" where
  "writeError statusCode message = (statusCode, Some \<lparr>ap_Code = statusCode, ap_Message = message, ap_Data = None\<rparr>)"

definition method_not_allowed :: response where
  "method_not_allowed = writeError 405 ''Method not allowed''"

record 'b BrokerInterface =
  bi_GetConnections :: "time \<Rightarrow> 'b \<Rightarrow> ConnectionInfo list"
  bi_GetSessions :: "time \<Rightarrow> 'b \<Rightarrow> SessionInfo list"
  bi_GetSubscriptions :: "'b \<Rightarrow> SubscriptionInfo list"
  bi_GetRoutes :: "'b \<Rightarrow> RouteInfo list"
  bi_DisconnectClient :: "string \<Rightarrow> 'b \<Rightarrow> (string, 'b) go"
  bi_KickoutSession :: "string \<Rightarrow> 'b \<Rightarrow> (string, 'b) go"
  bi_GetNodeInfo :: "time \<Rightarrow> 'b \<Rightarrow> NodeInfo"
  bi_GetClusterNodes :: "time \<Rightarrow> 'b \<Rightarrow> NodeInfo list"
  bi_GetBlacklistMiddleware :: "'b \<Rightarrow> BlacklistMiddleware option"
  bi_set_manager :: "BlacklistManager \<Rightarrow> 'b \<Rightarrow> 'b"

record request =
  aq_Method :: string
  aq_Path :: string
  aq_Query :: "string \<Rightarrow> string"
  aq_Body :: string

type_synonym 'b handled_request = "(string, response \<times> 'b) go"

section \<open>Pages\<close>

text \<open>The value of a 64-bit signed integer.\<close>

definition int64 :: "int \<Rightarrow> int" where
  "int64 x = signed_take_bit 63 x"

definition in_int64 :: "int \<Rightarrow> bool" where
  "in_int64 x \<longleftrightarrow> - (2 ^ 63) \<le> x \<and> x < 2 ^ 63"

text \<open>\<open>strconv.Atoi\<close>: an optional sign and digits, and an error outside the range of \<open>int\<close>.\<close>

definition digits_value :: "string \<Rightarrow> int" where
  "digits_value ds = foldl (\<lambda>n d. 10 * n + (of_char d - 48)) 0 ds"

definition Atoi :: "string \<Rightarrow> int option" where
  "Atoi s =
     (let ds = (if s \<noteq> [] \<and> (hd s = CHR ''+'' \<or> hd s = CHR ''-'') then tl s else s);
          n = (if s \<noteq> [] \<and> hd s = CHR ''-'' then - digits_value ds else digits_value ds)
      in if ds \<noteq> [] \<and> list_all (\<lambda>d. d \<in> set ''0123456789'') ds \<and> in_int64 n then Some n else None)"

definition getPagination :: "request \<Rightarrow> int \<times> int" where
  "getPagination r =
     ((case Atoi (aq_Query r ''page'') of Some p \<Rightarrow> if p > 0 then p else 1 | None \<Rightarrow> 1),
      (case Atoi (aq_Query r ''limit'') of Some l \<Rightarrow> if l > 0 \<and> l \<le> 1000 then l else 20 | None \<Rightarrow> 20))"

text \<open>The slice the four lists share: \<open>xs[start:end]\<close> panics on bounds that are negative or out of order.\<close>

definition paginate :: "int \<times> int \<Rightarrow> 'a list \<Rightarrow> (string, 'a list \<times> PaginationMeta) go" where
  "paginate pl xs =
     (let (page, limit) = pl;
          start = int64 (int64 (page - 1) * limit);
          stop = int64 (start + limit);
          start' = (if start > int (length xs) then int (length xs) else start);
          stop' = (if stop > int (length xs) then int (length xs) else stop)
      in if start' < 0 \<or> stop' < start' then Panic
         else (let part = take (nat (stop' - start')) (drop (nat start') xs)
               in Ok (part, \<lparr>pm_Page = page, pm_Limit = limit, pm_Count = length part, pm_Total = length xs\<rparr>)))"

section \<open>Handlers\<close>

definition extractIDFromPath :: "string \<Rightarrow> string \<Rightarrow> string" where
  "extractIDFromPath path pre = (if \<not> has_prefix path pre then [] else drop (length pre) path)"

definition handleStats :: "time \<Rightarrow> MetricsManager \<Rightarrow> request \<Rightarrow> response" where
  "handleStats now m r = (if aq_Method r \<noteq> ''GET'' then method_not_allowed else writeSuccess (DStats (GetStatistics now m)))"

definition handleMetrics :: "time \<Rightarrow> MetricsManager \<Rightarrow> request \<Rightarrow> response" where
  "handleMetrics now m r = (if aq_Method r \<noteq> ''GET'' then method_not_allowed else writeSuccess (DStats (GetStatistics now m)))"

definition handleConnections :: "'b BrokerInterface \<Rightarrow> time \<Rightarrow> request \<Rightarrow> 'b \<Rightarrow> 'b handled_request" where
  "handleConnections bi now r b =
     (if aq_Method r \<noteq> ''GET'' then Ok (method_not_allowed, b)
      else go_bind (paginate (getPagination r) (bi_GetConnections bi now b)) (\<lambda>(xs, meta). Ok (writeSuccess (DConnections xs meta), b)))"

definition handleConnectionByID :: "'b BrokerInterface \<Rightarrow> time \<Rightarrow> request \<Rightarrow> 'b \<Rightarrow> 'b handled_request" where
  "handleConnectionByID bi now r b =
     (let clientID = extractIDFromPath (aq_Path r) ''/api/v5/connections/''
      in if clientID = [] then Ok (writeError 400 ''Client ID is required'', b)
         else if aq_Method r = ''GET''
         then (case find (\<lambda>c. co_ClientID c = clientID) (bi_GetConnections bi now b) of
                 Some c \<Rightarrow> Ok (writeSuccess (DConnection c), b)
               | None \<Rightarrow> Ok (writeError 404 ''Connection not found'', b))
         else if aq_Method r = ''DELETE''
         then (case bi_DisconnectClient bi clientID b of
                 Ok b' \<Rightarrow> Ok (writeSuccess (DResult ''disconnected''), b')
               | Err e \<Rightarrow> Ok (writeError 500 e, b)
               | Panic \<Rightarrow> Panic | Blocked \<Rightarrow> Blocked)
         else Ok (method_not_allowed, b))"

definition handleSessions :: "'b BrokerInterface \<Rightarrow> time \<Rightarrow> request \<Rightarrow> 'b \<Rightarrow> 'b handled_request" where
  "handleSessions bi now r b =
     (if aq_Method r \<noteq> ''GET'' then Ok (method_not_allowed, b)
      else go_bind (paginate (getPagination r) (bi_GetSessions bi now b)) (\<lambda>(xs, meta). Ok (writeSuccess (DSessions xs meta), b)))"

definition handleSessionByID :: "'b BrokerInterface \<Rightarrow> time \<Rightarrow> request \<Rightarrow> 'b \<Rightarrow> 'b handled_request" where
  "handleSessionByID bi now r b =
     (let clientID = extractIDFromPath (aq_Path r) ''/api/v5/sessions/''
      in if clientID = [] then Ok (writeError 400 ''Client ID is required'', b)
         else if aq_Method r = ''GET''
         then (case find (\<lambda>s. se_ClientID s = clientID) (bi_GetSessions bi now b) of
                 Some s \<Rightarrow> Ok (writeSuccess (DSession s), b)
               | None \<Rightarrow> Ok (writeError 404 ''Session not found'', b))
         else if aq_Method r = ''DELETE''
         then (case bi_KickoutSession bi clientID b of
                 Ok b' \<Rightarrow> Ok (writeSuccess (DResult ''kicked out''), b')
               | Err e \<Rightarrow> Ok (writeError 500 e, b)
               | Panic \<Rightarrow> Panic | Blocked \<Rightarrow> Blocked)
         else Ok (method_not_allowed, b))"

definition handleSubscriptions :: "'b BrokerInterface \<Rightarrow> request \<Rightarrow> 'b \<Rightarrow> 'b handled_request" where
  "handleSubscriptions bi r b =
     (if aq_Method r \<noteq> ''GET'' then Ok (method_not_allowed, b)
      else go_bind (paginate (getPagination r) (bi_GetSubscriptions bi b)) (\<lambda>(xs, meta). Ok (writeSuccess (DSubscriptions xs meta), b)))"

definition handleSubscriptionByID :: "'b BrokerInterface \<Rightarrow> request \<Rightarrow> 'b \<Rightarrow> response" where
  "handleSubscriptionByID bi r b =
     (let clientID = extractIDFromPath (aq_Path r) ''/api/v5/subscriptions/''
      in if clientID = [] then writeError 400 ''Client ID is required''
         else if aq_Method r \<noteq> ''GET'' then method_not_allowed
         else writeSuccess (DClientSubscriptions (filter (\<lambda>s. su_ClientID s = clientID) (bi_GetSubscriptions bi b))))"

definition handleRoutes :: "'b BrokerInterface \<Rightarrow> request \<Rightarrow> 'b \<Rightarrow> 'b handled_request" where
  "handleRoutes bi r b =
     (if aq_Method r \<noteq> ''GET'' then Ok (method_not_allowed, b)
      else go_bind (paginate (getPagination r) (bi_GetRoutes bi b)) (\<lambda>(xs, meta). Ok (writeSuccess (DRoutes xs meta), b)))"

definition handleRouteByTopic :: "'b BrokerInterface \<Rightarrow> request \<Rightarrow> 'b \<Rightarrow> response" where
  "handleRouteByTopic bi r b =
     (let topic = extractIDFromPath (aq_Path r) ''/api/v5/routes/''
      in if topic = [] then writeError 400 ''Topic is required''
         else if aq_Method r \<noteq> ''GET'' then method_not_allowed
         else (case find (\<lambda>x. ro_Topic x = topic) (bi_GetRoutes bi b) of
                 Some x \<Rightarrow> writeSuccess (DRoute x)
               | None \<Rightarrow> writeError 404 ''Route not found''))"

definition handleNodes :: "'b BrokerInterface \<Rightarrow> time \<Rightarrow> request \<Rightarrow> 'b \<Rightarrow> response" where
  "handleNodes bi now r b =
     (if aq_Method r \<noteq> ''GET'' then method_not_allowed else writeSuccess (DNodes (bi_GetClusterNodes bi now b)))"

definition handleNodeByID :: "'b BrokerInterface \<Rightarrow> time \<Rightarrow> request \<Rightarrow> 'b \<Rightarrow> response" where
  "handleNodeByID bi now r b =
     (let nodeID = extractIDFromPath (aq_Path r) ''/api/v5/nodes/''
      in if nodeID = [] then writeError 400 ''Node ID is required''
         else if aq_Method r \<noteq> ''GET'' then method_not_allowed
         else (case find (\<lambda>x. ni_Node x = nodeID) (bi_GetClusterNodes bi now b) of
                 Some x \<Rightarrow> writeSuccess (DNode x)
               | None \<Rightarrow> writeError 404 ''Node not found''))"

definition handleStatus :: "'b BrokerInterface \<Rightarrow> time \<Rightarrow> MetricsManager \<Rightarrow> request \<Rightarrow> 'b \<Rightarrow> response" where
  "handleStatus bi now m r b =
     (if aq_Method r \<noteq> ''GET'' then method_not_allowed else writeSuccess (DStatus (bi_GetNodeInfo bi now b) (GetStatistics now m)))"

definition handleHealth :: "time \<Rightarrow> request \<Rightarrow> response" where
  "handleHealth now r = (if aq_Method r \<noteq> ''GET'' then method_not_allowed else writeSuccess (DHealth ''ok'' now))"

definition handlePrometheusStats :: "time \<Rightarrow> MetricsManager \<Rightarrow> request \<Rightarrow> response \<times> MetricsManager" where
  "handlePrometheusStats now m r =
     (if aq_Method r \<noteq> ''GET'' then (method_not_allowed, m)
      else (let m' = UpdatePrometheusMetrics now m in (writeSuccess (DStats (GetStatistics now m')), m')))"

section \<open>The blacklist over the API\<close>

record CreateRequest =
  cr_Type :: string
  cr_Value :: string
  cr_Pattern :: string
  cr_Action :: string
  cr_Reason :: string
  cr_Description :: string
  cr_Enabled :: bool
  cr_ExpiresAt :: "time option"
  cr_CreatedBy :: string

record UpdateRequest =
  ur_Value :: string
  ur_Pattern :: string
  ur_Action :: string
  ur_Reason :: string
  ur_Description :: string
  ur_Enabled :: "bool option"
  ur_ExpiresAt :: "time option"

fun error_text :: "blacklist_error \<Rightarrow> string" where
  "error_text ErrEntryNotFound = ''blacklist entry not found''"
| "error_text ErrEntryAlreadyExists = ''blacklist entry already exists''"
| "error_text ErrInvalidPattern = ''invalid regex pattern''"
| "error_text ErrInvalidType = ''invalid blacklist type''"
| "error_text ErrInvalidAction = ''invalid blacklist action''"
| "error_text (ErrText s) = s"

text \<open>Every blacklist handler starts with the middleware; the manager of a middleware without one is nil.\<close>

definition with_manager :: "'b BrokerInterface \<Rightarrow> 'b \<Rightarrow> (BlacklistManager \<Rightarrow> 'b handled_request) \<Rightarrow> 'b handled_request" where
  "with_manager bi b f =
     (case bi_GetBlacklistMiddleware bi b of
        None \<Rightarrow> Ok (writeError 500 ''Blacklist middleware not available'', b)
      | Some mw \<Rightarrow> (case mw_manager mw of None \<Rightarrow> Panic | Some bm \<Rightarrow> f bm))"

definition handleBlacklistList :: "'b BrokerInterface \<Rightarrow> time \<Rightarrow> request \<Rightarrow> 'b \<Rightarrow> 'b handled_request" where
  "handleBlacklistList bi now r b =
     with_manager bi b (\<lambda>bm.
       let enabledStr = aq_Query r ''enabled'';
           enabled = (if enabledStr = ''true'' then Some True else if enabledStr = ''false'' then Some False else None)
       in Ok (writeSuccess (DEntries (ListEntries now bm (aq_Query r ''type'') enabled)), b))"

definition new_entry :: "time \<Rightarrow> CreateRequest \<Rightarrow> BlacklistEntry" where
  "new_entry now cr =
     \<lparr>be_ID = cr_Type cr @ ''_'' @ show_int (unix_nano now), be_Type = cr_Type cr, be_Value = cr_Value cr, be_Pattern = cr_Pattern cr,
      be_Action = cr_Action cr, be_Reason = cr_Reason cr, be_Description = cr_Description cr, be_CreatedAt = 0, be_UpdatedAt = 0,
      be_ExpiresAt = cr_ExpiresAt cr, be_Enabled = cr_Enabled cr, be_CreatedBy = cr_CreatedBy cr, be_compiledPattern = None\<rparr>"

definition handleBlacklistCreate ::
  "(string \<Rightarrow> CreateRequest option) \<Rightarrow> library \<Rightarrow> 'b BrokerInterface \<Rightarrow> time \<Rightarrow> request \<Rightarrow> 'b \<Rightarrow> 'b handled_request" where
  "handleBlacklistCreate decode lib bi now r b =
     (case bi_GetBlacklistMiddleware bi b of
        None \<Rightarrow> Ok (writeError 500 ''Blacklist middleware not available'', b)
      | Some mw \<Rightarrow>
     (case decode (aq_Body r) of
        None \<Rightarrow> Ok (writeError 400 ''Invalid JSON format'', b)
      | Some cr \<Rightarrow>
          if cr_Type cr = [] then Ok (writeError 400 ''Type is required'', b)
          else if cr_Value cr = [] \<and> cr_Pattern cr = [] then Ok (writeError 400 ''Either value or pattern is required'', b)
          else if cr_Action cr = [] then Ok (writeError 400 ''Action is required'', b)
          else with_manager bi b (\<lambda>bm.
            case AddEntry lib now bm (new_entry now cr) of
              Ok bm' \<Rightarrow>
                (case GetEntry bm' (be_ID (new_entry now cr)) of
                   Ok e \<Rightarrow> Ok ((201, Some \<lparr>ap_Code = 0, ap_Message = [], ap_Data = Some (DEntry e)\<rparr>), bi_set_manager bi bm' b)
                 | _ \<Rightarrow> Panic)
            | Err e \<Rightarrow> Ok (writeError 400 (''Failed to add blacklist entry: '' @ error_text e), b)
            | Panic \<Rightarrow> Panic | Blocked \<Rightarrow> Blocked)))"

definition handleBlacklistGetByID :: "'b BrokerInterface \<Rightarrow> string \<Rightarrow> 'b \<Rightarrow> 'b handled_request" where
  "handleBlacklistGetByID bi entryID b =
     with_manager bi b (\<lambda>bm.
       case GetEntry bm entryID of
         Ok e \<Rightarrow> Ok (writeSuccess (DEntry e), b)
       | _ \<Rightarrow> Ok (writeError 404 ''Blacklist entry not found'', b))"

definition updated_entry :: "UpdateRequest \<Rightarrow> BlacklistEntry \<Rightarrow> BlacklistEntry" where
  "updated_entry ur e =
     e\<lparr>be_Value := (if ur_Value ur \<noteq> [] then ur_Value ur else be_Value e),
       be_Pattern := (if ur_Pattern ur \<noteq> [] then ur_Pattern ur else be_Pattern e),
       be_Action := (if ur_Action ur \<noteq> [] then ur_Action ur else be_Action e),
       be_Reason := (if ur_Reason ur \<noteq> [] then ur_Reason ur else be_Reason e),
       be_Description := (if ur_Description ur \<noteq> [] then ur_Description ur else be_Description e),
       be_Enabled := (case ur_Enabled ur of Some en \<Rightarrow> en | None \<Rightarrow> be_Enabled e),
       be_ExpiresAt := (case ur_ExpiresAt ur of Some t \<Rightarrow> Some t | None \<Rightarrow> be_ExpiresAt e)\<rparr>"

definition handleBlacklistUpdate ::
  "(string \<Rightarrow> UpdateRequest option) \<Rightarrow> library \<Rightarrow> 'b BrokerInterface \<Rightarrow> time \<Rightarrow> request \<Rightarrow> string \<Rightarrow> 'b \<Rightarrow> 'b handled_request" where
  "handleBlacklistUpdate decode lib bi now r entryID b =
     (case bi_GetBlacklistMiddleware bi b of
        None \<Rightarrow> Ok (writeError 500 ''Blacklist middleware not available'', b)
      | Some mw \<Rightarrow>
     (case decode (aq_Body r) of
        None \<Rightarrow> Ok (writeError 400 ''Invalid JSON format'', b)
      | Some ur \<Rightarrow>
          with_manager bi b (\<lambda>bm.
            case GetEntry bm entryID of
              Ok e \<Rightarrow>
                (let e' = updated_entry ur e; (bm', err) = UpdateEntry lib now bm entryID e'
                 in case err of
                      None \<Rightarrow> Ok (writeSuccess (DEntry e'), bi_set_manager bi bm' b)
                    | Some x \<Rightarrow> Ok (writeError 400 (''Failed to update blacklist entry: '' @ error_text x), bi_set_manager bi bm' b))
            | _ \<Rightarrow> Ok (writeError 404 ''Blacklist entry not found'', b))))"

definition handleBlacklistDelete :: "'b BrokerInterface \<Rightarrow> time \<Rightarrow> string \<Rightarrow> 'b \<Rightarrow> 'b handled_request" where
  "handleBlacklistDelete bi now entryID b =
     with_manager bi b (\<lambda>bm.
       case RemoveEntry now bm entryID of
         Ok bm' \<Rightarrow> Ok ((204, None), bi_set_manager bi bm' b)
       | Err e \<Rightarrow>
           Ok (if error_text e = ''blacklist entry not found'' then writeError 404 ''Blacklist entry not found''
               else writeError 500 (''Failed to delete blacklist entry: '' @ error_text e), b)
       | Panic \<Rightarrow> Panic | Blocked \<Rightarrow> Blocked)"

definition handleBlacklist ::
  "(string \<Rightarrow> CreateRequest option) \<Rightarrow> library \<Rightarrow> 'b BrokerInterface \<Rightarrow> time \<Rightarrow> request \<Rightarrow> 'b \<Rightarrow> 'b handled_request" where
  "handleBlacklist decode lib bi now r b =
     (if aq_Method r = ''GET'' then handleBlacklistList bi now r b
      else if aq_Method r = ''POST'' then handleBlacklistCreate decode lib bi now r b
      else Ok (method_not_allowed, b))"

definition handleBlacklistByID ::
  "(string \<Rightarrow> UpdateRequest option) \<Rightarrow> library \<Rightarrow> 'b BrokerInterface \<Rightarrow> time \<Rightarrow> request \<Rightarrow> 'b \<Rightarrow> 'b handled_request" where
  "handleBlacklistByID decode lib bi now r b =
     (let pre = ''/api/v5/blacklist/'';
          path = (if has_prefix (aq_Path r) pre then drop (length pre) (aq_Path r) else aq_Path r);
          entryID = hd (go_split CHR ''/'' path)
      in if entryID = [] then Ok (writeError 400 ''Blacklist entry ID is required'', b)
         else if aq_Method r = ''GET'' then handleBlacklistGetByID bi entryID b
         else if aq_Method r = ''PUT'' then handleBlacklistUpdate decode lib bi now r entryID b
         else if aq_Method r = ''DELETE'' then handleBlacklistDelete bi now entryID b
         else Ok (method_not_allowed, b))"

definition no_stats :: BlacklistStats where
  "no_stats = \<lparr>bs_TotalEntries = 0, bs_EntriesByType = [], bs_EntriesByAction = [], bs_TotalBlocks = 0,
     bs_BlocksByType = [], bs_RecentBlocks = [], bs_LastUpdated = 0\<rparr>"

definition handleBlacklistStats :: "'b BrokerInterface \<Rightarrow> request \<Rightarrow> 'b \<Rightarrow> response" where
  "handleBlacklistStats bi r b =
     (if aq_Method r \<noteq> ''GET'' then method_not_allowed
      else case bi_GetBlacklistMiddleware bi b of
             None \<Rightarrow> writeError 500 ''Blacklist middleware not available''
           | Some mw \<Rightarrow> writeSuccess (DBlacklistStats (case mw_manager mw of None \<Rightarrow> no_stats | Some bm \<Rightarrow> bm_stats bm)))"

section \<open>Routes of the server\<close>

datatype endpoint =
    EStats | EMetrics | EConnections | EConnectionByID | ESessions | ESessionByID | ESubscriptions | ESubscriptionByID
  | ERoutes | ERouteByTopic | ENodes | ENodeByID | EBlacklist | EBlacklistByID | EBlacklistStats | EStatus | EHealth | EPrometheusStats

definition RegisterRoutes :: "(string \<times> endpoint) list" where
  "RegisterRoutes =
     [(''/api/v5/stats'', EStats), (''/api/v5/metrics'', EMetrics),
      (''/api/v5/connections'', EConnections), (''/api/v5/connections/'', EConnectionByID),
      (''/api/v5/sessions'', ESessions), (''/api/v5/sessions/'', ESessionByID),
      (''/api/v5/subscriptions'', ESubscriptions), (''/api/v5/subscriptions/'', ESubscriptionByID),
      (''/api/v5/routes'', ERoutes), (''/api/v5/routes/'', ERouteByTopic),
      (''/api/v5/nodes'', ENodes), (''/api/v5/nodes/'', ENodeByID),
      (''/api/v5/blacklist'', EBlacklist), (''/api/v5/blacklist/'', EBlacklistByID), (''/api/v5/blacklist/stats'', EBlacklistStats),
      (''/api/v5/status'', EStatus), (''/health'', EHealth), (''/api/v5/prometheus/stats'', EPrometheusStats)]"

text \<open>
  \<open>http.ServeMux\<close>: a pattern that ends in a slash stands for all paths below it, the longest pattern wins. A path with empty
  or dotted segments is answered by a redirection to its clean form, and so is a path that lacks only the slash of a pattern.
\<close>

definition mux_matches :: "string \<Rightarrow> string \<Rightarrow> bool" where
  "mux_matches path pattern \<longleftrightarrow> path = pattern \<or> pattern \<noteq> [] \<and> last pattern = CHR ''/'' \<and> has_prefix path pattern"

definition mux_handler :: "(string \<times> 'h) list \<Rightarrow> string \<Rightarrow> 'h option" where
  "mux_handler routes path =
     (case filter (\<lambda>(p, h). mux_matches path p) routes of
        [] \<Rightarrow> None
      | x # xs \<Rightarrow> Some (snd (foldl (\<lambda>u v. if length (fst v) > length (fst u) then v else u) x xs)))"

definition clean_path :: "string \<Rightarrow> string" where
  "clean_path p =
     (let segments = foldl (\<lambda>acc x. if x = [] \<or> x = ''.'' then acc else if x = ''..'' then butlast acc else acc @ [x]) [] (go_split CHR ''/'' p);
          np = CHR ''/'' # go_join CHR ''/'' segments
      in if p \<noteq> [] \<and> last p = CHR ''/'' \<and> np \<noteq> ''/'' then np @ ''/'' else np)"

datatype 'h routed = Moved string | NotFound | Handled 'h

definition mux_route :: "(string \<times> 'h) list \<Rightarrow> string \<Rightarrow> string \<Rightarrow> 'h routed" where
  "mux_route routes meth path =
     (let p = (if meth = ''CONNECT'' then path else clean_path path)
      in if p \<notin> fst ` set routes \<and> p @ ''/'' \<in> fst ` set routes then Moved (clean_path path @ ''/'')
         else if p \<noteq> path then Moved p
         else case mux_handler routes path of None \<Rightarrow> NotFound | Some h \<Rightarrow> Handled h)"

record api_server =
  as_lib :: library
  as_decode_create :: "string \<Rightarrow> CreateRequest option"
  as_decode_update :: "string \<Rightarrow> UpdateRequest option"

definition ServeHTTP ::
  "api_server \<Rightarrow> 'b BrokerInterface \<Rightarrow> time \<Rightarrow> request \<Rightarrow> MetricsManager \<times> 'b \<Rightarrow> (string, response \<times> MetricsManager \<times> 'b) go" where
  "ServeHTTP s bi now r mb =
     (let (m, b) = mb;
          keep = (\<lambda>x. Ok (x, m, b));
          lift = (\<lambda>res. go_bind res (\<lambda>(x, b'). Ok (x, m, b')))
      in case mux_route RegisterRoutes (aq_Method r) (aq_Path r) of
           Moved _ \<Rightarrow> Ok ((301, None), m, b)
         | NotFound \<Rightarrow> Ok ((404, None), m, b)
         | Handled e \<Rightarrow>
             (case e of
                EStats \<Rightarrow> keep (handleStats now m r)
              | EMetrics \<Rightarrow> keep (handleMetrics now m r)
              | EConnections \<Rightarrow> lift (handleConnections bi now r b)
              | EConnectionByID \<Rightarrow> lift (handleConnectionByID bi now r b)
              | ESessions \<Rightarrow> lift (handleSessions bi now r b)
              | ESessionByID \<Rightarrow> lift (handleSessionByID bi now r b)
              | ESubscriptions \<Rightarrow> lift (handleSubscriptions bi r b)
              | ESubscriptionByID \<Rightarrow> keep (handleSubscriptionByID bi r b)
              | ERoutes \<Rightarrow> lift (handleRoutes bi r b)
              | ERouteByTopic \<Rightarrow> keep (handleRouteByTopic bi r b)
              | ENodes \<Rightarrow> keep (handleNodes bi now r b)
              | ENodeByID \<Rightarrow> keep (handleNodeByID bi now r b)
              | EBlacklist \<Rightarrow> lift (handleBlacklist (as_decode_create s) (as_lib s) bi now r b)
              | EBlacklistByID \<Rightarrow> lift (handleBlacklistByID (as_decode_update s) (as_lib s) bi now r b)
              | EBlacklistStats \<Rightarrow> keep (handleBlacklistStats bi r b)
              | EStatus \<Rightarrow> keep (handleStatus bi now m r b)
              | EHealth \<Rightarrow> keep (handleHealth now r)
              | EPrometheusStats \<Rightarrow> (case handlePrometheusStats now m r of (x, m') \<Rightarrow> Ok (x, m', b))))"

section \<open>The broker's side\<close>

definition GetConnections :: "time \<Rightarrow> Broker \<Rightarrow> ConnectionInfo list" where
  "GetConnections now b =
     [\<lparr>co_ClientID = ''test-client-1'', co_Username = ''test'', co_PeerHost = ''127.0.0.1'', co_SockPort = 1883, co_Protocol = ''MQTT'',
       co_ConnectedAt = now - hour, co_KeepAlive = 60, co_CleanStart = True, co_ProtoVer = 4, co_SubscriptionsCount = 1,
       co_Node = b_nodeID b\<rparr>]"

definition GetSessions :: "time \<Rightarrow> Broker \<Rightarrow> SessionInfo list" where
  "GetSessions now b =
     [\<lparr>se_ClientID = ''test-client-1'', se_Username = ''test'', se_CreatedAt = now - hour, se_ConnectedAt = Some (now - hour),
       se_ExpiryInterval = 3600, se_SubscriptionsCount = 1, se_Node = b_nodeID b\<rparr>]"

definition GetSubscriptions :: "Broker \<Rightarrow> SubscriptionInfo list" where
  "GetSubscriptions b = [\<lparr>su_ClientID = ''test-client-1'', su_Topic = ''test/topic'', su_QoS = 1, su_Node = b_nodeID b\<rparr>]"

definition GetRoutes :: "Broker \<Rightarrow> RouteInfo list" where
  "GetRoutes b = [\<lparr>ro_Topic = ''test/topic'', ro_Nodes = [b_nodeID b]\<rparr>]"

definition DisconnectClient :: "string \<Rightarrow> Broker \<Rightarrow> (string, Broker) go" where
  "DisconnectClient clientID b = Ok b"

definition KickoutSession :: "string \<Rightarrow> Broker \<Rightarrow> (string, Broker) go" where
  "KickoutSession clientID b = Ok b"

definition GetNodeInfo :: "time \<Rightarrow> Broker \<Rightarrow> NodeInfo" where
  "GetNodeInfo now b =
     \<lparr>ni_Node = b_nodeID b, ni_NodeStatus = ''running'', ni_OtpRelease = ''Go 1.21'', ni_Version = ''1.0.0'', ni_Uptime = 3600, ni_Datetime = now,
      ni_SysMon = \<lparr>sm_ProcCount = 100, sm_ProcessLimit = 1000, sm_MemoryTotal = 1024 * 1024 * 1024, sm_MemoryUsed = 512 * 1024 * 1024,
                   sm_CPUIdle = 855, sm_CPULoad1 = 5, sm_CPULoad5 = 7, sm_CPULoad15 = 3\<rparr>\<rparr>"

definition GetClusterNodes :: "time \<Rightarrow> Broker \<Rightarrow> NodeInfo list" where
  "GetClusterNodes now b = [GetNodeInfo now b]"

definition broker_interface :: "Broker BrokerInterface" where
  "broker_interface =
     \<lparr>bi_GetConnections = GetConnections, bi_GetSessions = GetSessions, bi_GetSubscriptions = GetSubscriptions, bi_GetRoutes = GetRoutes,
      bi_DisconnectClient = DisconnectClient, bi_KickoutSession = KickoutSession, bi_GetNodeInfo = GetNodeInfo,
      bi_GetClusterNodes = GetClusterNodes, bi_GetBlacklistMiddleware = (\<lambda>b. Some (b_blacklistMiddleware b)),
      bi_set_manager = (\<lambda>bm b. b\<lparr>b_blacklistMiddleware := (b_blacklistMiddleware b)\<lparr>mw_manager := Some bm\<rparr>\<rparr>)\<rparr>"

section \<open>Pages are right up to the overflow\<close>

lemma int64_id: "in_int64 x \<Longrightarrow> int64 x = x"
  by (simp add: int64_def in_int64_def signed_take_bit_int_eq_self)

lemma paginate_exact:
  assumes "1 \<le> page" and "1 \<le> limit" and "page * limit < 2 ^ 63"
  shows "paginate (page, limit) xs =
    (let part = take (nat limit) (drop (nat ((page - 1) * limit)) xs)
     in Ok (part, \<lparr>pm_Page = page, pm_Limit = limit, pm_Count = length part, pm_Total = length xs\<rparr>))"
proof -
  have "page - 1 \<le> (page - 1) * limit" "0 \<le> (page - 1) * limit" using assms by (simp_all add: mult_le_cancel_left1)
  moreover have "(page - 1) * limit + limit = page * limit" by (simp add: algebra_simps)
  ultimately have i: "in_int64 (page - 1)" "in_int64 ((page - 1) * limit)" "in_int64 ((page - 1) * limit + limit)"
    using assms by (auto simp: in_int64_def)
  let ?n = "(page - 1) * limit" and ?l = "int (length xs)"
  have "take (nat (?l - ?n)) (drop (nat ?n) xs) = take (nat limit) (drop (nat ?n) xs)" if "?l < ?n + limit" "?n \<le> ?l"
  proof -
    have "length (drop (nat ?n) xs) \<le> nat (?l - ?n)" "length (drop (nat ?n) xs) \<le> nat limit" using that by auto
    then show ?thesis by simp
  qed
  then show ?thesis
    using i assms not_less [of ?n 0] \<open>0 \<le> ?n\<close> by (simp add: paginate_def Let_def int64_id not_less)
qed

lemma concat_pages: "concat (map (\<lambda>i. take k (drop (i * k) xs)) [0..<n]) = take (n * k) xs"
  by (induction n) (simp_all add: take_add [symmetric] add.commute)

text \<open>
  As long as the end of the page fits in 64 bits, page \<open>p\<close> of a list is exactly its part between
  \<open>(p - 1) * limit\<close> and \<open>p * limit\<close>, so that the pages in order give the list; the defaults and the limits of a
  request keep the size of a page between 1 and 1000. Beyond, the product wraps around: whenever it
  wraps to a negative number the handler panics, and a page that wraps to zero shows the first page again.
\<close>

lemma pages_partition:
  fixes xs :: "'a list"
  assumes "1 \<le> limit" and "int n * limit < 2 ^ 63"
  shows "(\<exists>pages. length pages = n \<and> concat pages = take (n * nat limit) xs
        \<and> (\<forall>i < n. \<exists>meta. paginate (int i + 1, limit) xs = Ok (pages ! i, meta) \<and> pm_Count meta = length (pages ! i) \<and> pm_Total meta = length xs))
    \<and> (let (p, l) = getPagination r in 1 \<le> p \<and> p < 2 ^ 63 \<and> 1 \<le> l \<and> l \<le> 1000)
    \<and> (in_int64 page \<and> 1 \<le> page \<and> int64 ((page - 1) * limit) < 0 \<longrightarrow> paginate (page, limit) xs = Panic)
    \<and> (in_int64 page \<and> 1 \<le> page \<and> limit < 2 ^ 63 \<and> int64 ((page - 1) * limit) = 0 \<longrightarrow>
         go_bind (paginate (page, limit) xs) (\<lambda>(part, _). Ok part) = (Ok (take (nat limit) xs) :: (string, 'a list) go))"
proof (intro conjI impI)
  define pages where "pages = map (\<lambda>i. take (nat limit) (drop (i * nat limit) xs)) [0..<n]"
  have "paginate (int i + 1, limit) xs = Ok (pages ! i,
      \<lparr>pm_Page = int i + 1, pm_Limit = limit, pm_Count = length (pages ! i), pm_Total = length xs\<rparr>)" if "i < n" for i
  proof -
    have "(int i + 1) * limit \<le> int n * limit" using that assms(1) by (intro mult_right_mono) auto
    with assms have "(int i + 1) * limit < 2 ^ 63" by linarith
    from paginate_exact [OF _ assms(1) this, of xs] that assms(1) show ?thesis
      by (simp add: pages_def nat_mult_distrib Let_def)
  qed
  then show "\<exists>pages. length pages = n \<and> concat pages = take (n * nat limit) xs
      \<and> (\<forall>i < n. \<exists>meta. paginate (int i + 1, limit) xs = Ok (pages ! i, meta) \<and> pm_Count meta = length (pages ! i) \<and> pm_Total meta = length xs)"
    by (intro exI [of _ pages]) (auto simp: pages_def concat_pages)
  show "let (p, l) = getPagination r in 1 \<le> p \<and> p < 2 ^ 63 \<and> 1 \<le> l \<and> l \<le> 1000"
    by (auto simp: getPagination_def Atoi_def in_int64_def Let_def split: option.splits if_splits)
next
  assume "in_int64 page \<and> 1 \<le> page \<and> int64 ((page - 1) * limit) < 0"
  moreover from this have "int64 (page - 1) = page - 1" by (intro int64_id) (auto simp: in_int64_def)
  ultimately show "paginate (page, limit) xs = Panic" by (simp add: paginate_def Let_def)
next
  assume a: "in_int64 page \<and> 1 \<le> page \<and> limit < 2 ^ 63 \<and> int64 ((page - 1) * limit) = 0"
  then have "int64 (page - 1) = page - 1" "int64 limit = limit" using assms by (auto intro!: int64_id simp: in_int64_def)
  with a assms show "go_bind (paginate (page, limit) xs) (\<lambda>(part, _). Ok part) = Ok (take (nat limit) xs)"
    by (auto simp: paginate_def Let_def)
qed

definition get :: "string \<Rightarrow> string \<Rightarrow> string \<Rightarrow> request" where
  "get path page limit =
     \<lparr>aq_Method = ''GET'', aq_Path = path, aq_Query = (\<lambda>k. if k = ''page'' then page else if k = ''limit'' then limit else []), aq_Body = []\<rparr>"

lemma pages_partition_witness:
  "(\<exists>pages. length pages = 2 \<and> concat pages = ''abc'') \<and> paginate (2 ^ 62 + 1, 2) ''abc'' = Panic
   \<and> go_bind (paginate (2 ^ 60 + 1, 16) ''abc'') (\<lambda>(part, _). Ok part) = (Ok ''abc'' :: (string, string) go)"
proof -
  have "int64 ((2 ^ 62 + 1 - 1) * 2) < 0" "int64 ((2 ^ 60 + 1 - 1) * 16) = 0" by code_simp+
  then have "paginate (2 ^ 62 + 1, 2) ''abc'' = Panic"
    "go_bind (paginate (2 ^ 60 + 1, 16) ''abc'') (\<lambda>(part, _). Ok part) = (Ok (take (nat 16) ''abc'') :: (string, string) go)"
    using pages_partition [of 2 0 "''abc''" "get [] [] []" "2 ^ 62 + 1"] pages_partition [of 16 0 "''abc''" "get [] [] []" "2 ^ 60 + 1"]
    by (simp_all add: in_int64_def)
  moreover from pages_partition [of 2 2 "''abc''" "get [] [] []" 1] have "\<exists>pages. length pages = 2 \<and> concat pages = ''abc''" by auto
  ultimately show ?thesis by simp
qed

text \<open>One request to the API of any broker does it.\<close>

lemma huge_page_panics:
  "ServeHTTP s broker_interface now (get ''/api/v5/connections'' ''4611686018427387905'' ''2'') (m, b) = Panic"
proof -
  let ?r = "get ''/api/v5/connections'' ''4611686018427387905'' ''2''"
  have "getPagination ?r = (4611686018427387905, 2)" by code_simp
  moreover have "int64 (int64 (4611686018427387905 - 1) * 2) < 0" by code_simp
  ultimately have "handleConnections broker_interface now ?r b = Panic"
    by (simp add: handleConnections_def get_def paginate_def Let_def)
  moreover have "mux_route RegisterRoutes (aq_Method ?r) (aq_Path ?r) = Handled EConnections" by code_simp
  ultimately show ?thesis by (simp add: ServeHTTP_def Let_def)
qed

section \<open>A block over the API and what clients see\<close>

lemma AddEntry_lookup:
  assumes "AddEntry lib now bm e = Ok bm'"
  obtains e' where "be_ID e' = be_ID e" "be_Type e' = be_Type e" "be_Value e' = be_Value e" "be_Pattern e' = be_Pattern e"
    "be_Enabled e' = be_Enabled e" "be_ExpiresAt e' = be_ExpiresAt e"
    "\<And>i. gm_get (bm_entries bm') i = (if i = be_ID e then Some e' else gm_get (bm_entries bm) i)"
proof (rule AddEntry_cases [OF assms])
  fix e' assume e: "be_ID e' = be_ID e" "be_Type e' = be_Type e" "be_Value e' = be_Value e" "be_Pattern e' = be_Pattern e"
    "be_Enabled e' = be_Enabled e" "be_ExpiresAt e' = be_ExpiresAt e"
    "\<exists>st. bm' = (addToTypeIndex (bm\<lparr>bm_entries := gm_set (bm_entries bm) (be_ID e') e'\<rparr>) e')\<lparr>bm_stats := st\<rparr>"
  from e(7) have "bm_entries bm' = gm_set (bm_entries bm) (be_ID e') e'" by (auto simp: addToTypeIndex_def)
  with e show thesis by (intro that [of e']) simp_all
qed

lemma RemoveEntry_lookup:
  assumes "RemoveEntry now bm i = Ok bm'"
  shows "gm_get (bm_entries bm') j = (if j = i then None else gm_get (bm_entries bm) j)"
  using assms by (auto simp: RemoveEntry_def remove_object_def removeFromTypeIndex_def Let_def split: option.splits)

definition checks_on :: "MiddlewareConfig \<Rightarrow> bool" where
  "checks_on c \<longleftrightarrow> mc_EnableClientIDCheck c \<or> mc_EnableUsernameCheck c \<or> mc_EnableIPAddressCheck c"

lemma client_allowed_iff:
  assumes "mw_manager mw = Some bm" and "bl_inv bm" and "checks_on (mw_config mw)"
  shows "fst (mw_CheckClientConnection lib t mw cid u ip proto) \<longleftrightarrow>
    \<not> blocks t bm ClientIDBlacklist (regex_match cid) cid \<and> \<not> blocks t bm UsernameBlacklist (regex_match u) u
    \<and> \<not> blocks t bm IPAddressBlacklist (matchIPPattern lib ip) ip"
proof -
  note exact = check_type_exact [OF assms(2), symmetric]
  show ?thesis
    unfolding exact mw_CheckClientConnection_def CheckClientConnection_def using assms(1,3)
    by (auto simp: checks_on_def checkClientID_def checkUsername_def checkIPAddress_def split: option.splits)
qed

lemma blocks_cong:
  "(\<And>i. gm_get (bm_entries bm) i = gm_get (bm_entries bm') i) \<Longrightarrow> blocks t bm ty m v = blocks t bm' ty m v"
  by (simp add: blocks_def)

lemma ex_insert_Some: "g k = None \<Longrightarrow> (\<exists>i x. (if i = k then Some e else g i) = Some x \<and> P x) \<longleftrightarrow> P e \<or> (\<exists>i x. g i = Some x \<and> P x)"
  by (metis option.discI option.inject)

lemma blocks_insert:
  assumes "\<And>i. gm_get (bm_entries bm') i = (if i = k then Some e else gm_get (bm_entries bm) i)" and "gm_get (bm_entries bm) k = None"
  shows "blocks t bm' ty m v \<longleftrightarrow> be_Type e = ty \<and> active t e \<and> (if be_Pattern e = [] then be_Value e = v else m e) \<or> blocks t bm ty m v"
  unfolding blocks_def assms(1)
  by (rule ex_insert_Some [of "gm_get (bm_entries bm)" k e "\<lambda>e. be_Type e = ty \<and> active t e \<and> (if be_Pattern e = [] then be_Value e = v else m e)"])
    (rule assms(2))

lemma digit_no_slash: "k < 10 \<Longrightarrow> digit k \<noteq> CHR ''/''"
proof
  assume k: "k < 10" and "digit k = CHR ''/''"
  then have "of_char (digit k) = (47 :: nat)" by simp
  with k show False by (simp add: digit_def)
qed

lemma show_nat_no_slash: "CHR ''/'' \<notin> set (show_nat n)"
proof (induction n rule: show_nat.induct)
  case (1 n)
  then show ?case using digit_no_slash [of n] digit_no_slash [of "n mod 10"] by (subst show_nat.simps) auto
qed

lemma show_int_no_slash: "CHR ''/'' \<notin> set (show_int i)"
  by (simp add: show_int_def show_nat_no_slash)

lemma clean_path_join:
  assumes "ls \<noteq> []" and "\<forall>l \<in> set ls. CHR ''/'' \<notin> set l \<and> l \<notin> {[], ''.'', ''..''}"
  shows "clean_path (CHR ''/'' # go_join CHR ''/'' ls) = CHR ''/'' # go_join CHR ''/'' ls"
proof -
  have segments: "foldl (\<lambda>acc x. if x = [] \<or> x = ''.'' then acc else if x = ''..'' then butlast acc else acc @ [x]) acc ls = acc @ ls" for acc
    using assms(2) by (induction ls arbitrary: acc) auto
  have "go_split CHR ''/'' (CHR ''/'' # go_join CHR ''/'' ls) = [] # ls" using assms by (simp add: go_split_join)
  moreover have "last (CHR ''/'' # go_join CHR ''/'' ls) \<noteq> CHR ''/''"
    using assms by (induction "CHR ''/''" ls rule: go_join.induct) (auto simp: go_join_Cons, metis last_in_set)
  ultimately show ?thesis using segments [of "[]"] by (simp add: clean_path_def Let_def)
qed

lemma block_path:
  "CHR ''/'' \<notin> set s \<Longrightarrow> mux_route RegisterRoutes ''DELETE'' (''/api/v5/blacklist/clientid_'' @ s) = Handled EBlacklistByID"
  "mux_route RegisterRoutes ''POST'' ''/api/v5/blacklist'' = Handled EBlacklist"
proof -
  assume "CHR ''/'' \<notin> set s"
  then have "clean_path (''/api/v5/blacklist/clientid_'' @ s) = ''/api/v5/blacklist/clientid_'' @ s"
    using clean_path_join [of "[''api'', ''v5'', ''blacklist'', ''clientid_'' @ s]"] by simp
  then show "mux_route RegisterRoutes ''DELETE'' (''/api/v5/blacklist/clientid_'' @ s) = Handled EBlacklistByID"
    by (simp add: mux_route_def mux_handler_def RegisterRoutes_def mux_matches_def has_prefix_def)
qed code_simp

lemma api_create:
  assumes "mw_manager (b_blacklistMiddleware b) = Some bm" and "as_decode_create s (aq_Body r) = Some cr"
    and "aq_Method r = ''POST''" and "aq_Path r = ''/api/v5/blacklist''"
    and "cr_Type cr = ClientIDBlacklist" and "cr_Value cr \<noteq> []" and "cr_Pattern cr = []" and "cr_Action cr = ActionDeny"
    and "gm_get (bm_entries bm) (be_ID (new_entry now cr)) = None"
  shows "\<exists>bm' e. AddEntry (as_lib s) now bm (new_entry now cr) = Ok bm' \<and> GetEntry bm' (be_ID (new_entry now cr)) = Ok e
    \<and> ServeHTTP s broker_interface now r (m, b) =
        Ok ((201, Some \<lparr>ap_Code = 0, ap_Message = [], ap_Data = Some (DEntry e)\<rparr>), m, bi_set_manager broker_interface bm' b)"
proof -
  have "validateEntry (new_entry now cr) = None" using assms by (simp add: validateEntry_def new_entry_def)
  then obtain bm' where a: "AddEntry (as_lib s) now bm (new_entry now cr) = Ok bm'"
    using assms by (auto simp: AddEntry_def Let_def new_entry_def)
  from AddEntry_lookup [OF this] obtain e where e: "GetEntry bm' (be_ID (new_entry now cr)) = Ok e"
    unfolding GetEntry_def by (metis option.simps(5))
  have "handleBlacklistCreate (as_decode_create s) (as_lib s) broker_interface now r b =
      Ok ((201, Some \<lparr>ap_Code = 0, ap_Message = [], ap_Data = Some (DEntry e)\<rparr>), bi_set_manager broker_interface bm' b)"
    using a e assms(1,2,5-8) by (simp add: handleBlacklistCreate_def with_manager_def broker_interface_def)
  moreover have "mux_route RegisterRoutes (aq_Method r) (aq_Path r) = Handled EBlacklist" unfolding assms(3,4) by (rule block_path)
  ultimately show ?thesis using a e assms(3) by (simp add: ServeHTTP_def Let_def handleBlacklist_def)
qed

lemma api_delete:
  assumes "mw_manager (b_blacklistMiddleware b) = Some bm" and "RemoveEntry now bm (''clientid_'' @ s) = Ok bm'" and "CHR ''/'' \<notin> set s"
    and "aq_Method r = ''DELETE''" and "aq_Path r = ''/api/v5/blacklist/clientid_'' @ s"
  shows "ServeHTTP srv broker_interface now r (m, b) = Ok ((204, None), m, bi_set_manager broker_interface bm' b)"
proof -
  have "handleBlacklistByID (as_decode_update srv) (as_lib srv) broker_interface now r b =
      Ok ((204, None), bi_set_manager broker_interface bm' b)"
    using assms by (simp add: handleBlacklistByID_def Let_def handleBlacklistDelete_def with_manager_def broker_interface_def has_prefix_def
        go_split_no_sep [OF assms(3)])
  moreover have "mux_route RegisterRoutes (aq_Method r) (aq_Path r) = Handled EBlacklistByID" unfolding assms(4,5) by (rule block_path) (rule assms(3))
  ultimately show ?thesis by (simp add: ServeHTTP_def Let_def)
qed

text \<open>What an entry for a client identifier adds to what is blocked.\<close>

lemma added_block:
  assumes "bl_inv bm" and "AddEntry lib now bm e = Ok bm1" and "be_Type e = ClientIDBlacklist" and "be_Pattern e = []"
    and "be_Enabled e" and "be_ExpiresAt e = None" and "\<nexists>i. value_entry bm ClientIDBlacklist (be_Value e) i"
    and "gm_get (bm_entries bm) (be_ID e) = None"
  shows "bl_inv bm1" and "blocks t bm1 ty ma v \<longleftrightarrow> ty = ClientIDBlacklist \<and> v = be_Value e \<or> blocks t bm ty ma v"
proof -
  show "bl_inv bm1" using AddEntry_inv [OF assms(1,2)] assms(3,7) by simp
  from AddEntry_lookup [OF assms(2)] obtain y where y: "be_Type y = be_Type e" "be_Value y = be_Value e"
    "be_Pattern y = be_Pattern e" "be_Enabled y = be_Enabled e" "be_ExpiresAt y = be_ExpiresAt e"
    and get: "\<And>i. gm_get (bm_entries bm1) i = (if i = be_ID e then Some y else gm_get (bm_entries bm) i)" by metis
  have "active t y" using y assms by (simp add: active_def)
  with blocks_insert [of bm1 "be_ID e" y bm t ty ma v] get y assms
  show "blocks t bm1 ty ma v \<longleftrightarrow> ty = ClientIDBlacklist \<and> v = be_Value e \<or> blocks t bm ty ma v" by auto
qed

abbreviation allowed :: "library \<Rightarrow> time \<Rightarrow> Broker \<Rightarrow> string \<Rightarrow> string \<Rightarrow> string \<Rightarrow> bool" where
  "allowed lib t b cid u ip \<equiv> fst (mw_CheckClientConnection lib t (b_blacklistMiddleware b) cid u ip ''mqtt'')"

text \<open>
  (C17) Blocking a client over the management API works and can be undone. A request that creates an entry
  for a client identifier that has none is answered 201 with the entry; from then on the connection check of the broker
  refuses exactly that client identifier besides what it refused before. Deleting the entry by the identifier of the
  answer is answered 204 and every later check decides as if neither request had been made.
\<close>

theorem api_block_roundtrip:
  fixes b :: Broker
  assumes mgr: "mw_manager (b_blacklistMiddleware b) = Some bm" and inv: "bl_inv bm" and on: "checks_on (mw_config (b_blacklistMiddleware b))"
    and post: "as_decode_create s (aq_Body r) = Some cr" "aq_Method r = ''POST''" "aq_Path r = ''/api/v5/blacklist''"
    and cr: "cr_Type cr = ClientIDBlacklist" "cr_Value cr = client" "client \<noteq> []" "cr_Pattern cr = []" "cr_Action cr = ActionDeny"
      "cr_Enabled cr" "cr_ExpiresAt cr = None"
    and new: "\<nexists>i. value_entry bm ClientIDBlacklist client i" "gm_get (bm_entries bm) (be_ID (new_entry now cr)) = None"
    and delete: "aq_Method r2 = ''DELETE''" "aq_Path r2 = ''/api/v5/blacklist/'' @ be_ID (new_entry now cr)"
  shows "\<exists>e b1 b2. ServeHTTP s broker_interface now r (m, b) =
        Ok ((201, Some \<lparr>ap_Code = 0, ap_Message = [], ap_Data = Some (DEntry e)\<rparr>), m, b1)
    \<and> be_ID e = be_ID (new_entry now cr) \<and> be_Value e = client
    \<and> (\<forall>lib t cid u ip. allowed lib t b1 cid u ip \<longleftrightarrow> cid \<noteq> client \<and> allowed lib t b cid u ip)
    \<and> ServeHTTP s broker_interface now2 r2 (m, b1) = Ok ((204, None), m, b2)
    \<and> (\<forall>lib t cid u ip. allowed lib t b2 cid u ip \<longleftrightarrow> allowed lib t b cid u ip)"
proof -
  let ?e = "new_entry now cr"
  have e: "be_Type ?e = ClientIDBlacklist" "be_Value ?e = client" "be_Pattern ?e = []" "be_Enabled ?e" "be_ExpiresAt ?e = None"
    "be_ID ?e = ''clientid_'' @ show_int (unix_nano now)" using cr by (simp_all add: new_entry_def)
  from api_create [OF mgr post cr(1) _ cr(4,5) new(2), of m] cr obtain bm1 x where
    a: "AddEntry (as_lib s) now bm ?e = Ok bm1" and x: "GetEntry bm1 (be_ID ?e) = Ok x"
    and r1: "ServeHTTP s broker_interface now r (m, b) =
      Ok ((201, Some \<lparr>ap_Code = 0, ap_Message = [], ap_Data = Some (DEntry x)\<rparr>), m, bi_set_manager broker_interface bm1 b)" by auto
  let ?b1 = "bi_set_manager broker_interface bm1 b"
  have b1: "mw_manager (b_blacklistMiddleware ?b1) = Some bm1" "mw_config (b_blacklistMiddleware ?b1) = mw_config (b_blacklistMiddleware b)"
    by (simp_all add: broker_interface_def)
  from AddEntry_lookup [OF a] obtain y where y: "be_ID y = be_ID ?e" "be_Type y = be_Type ?e" "be_Value y = be_Value ?e"
    "be_Pattern y = be_Pattern ?e" "be_Enabled y = be_Enabled ?e" "be_ExpiresAt y = be_ExpiresAt ?e"
    and get: "\<And>i. gm_get (bm_entries bm1) i = (if i = be_ID ?e then Some y else gm_get (bm_entries bm) i)" by metis
  note added = added_block [OF inv a e(1,3-5) _ new(2), unfolded e(2), OF new(1)]
  have inv1: "bl_inv bm1" by (rule added(1))
  have after: "blocks t bm1 ty ma v \<longleftrightarrow> ty = ClientIDBlacklist \<and> v = client \<or> blocks t bm ty ma v" for t ty ma v by (rule added(2))
  have d1: "allowed lib t ?b1 cid u ip \<longleftrightarrow> cid \<noteq> client \<and> allowed lib t b cid u ip" for lib t cid u ip
    using client_allowed_iff [OF b1(1) inv1] client_allowed_iff [OF mgr inv on] on b1(2) by (auto simp: after)
  obtain bm2 where d: "RemoveEntry now2 bm1 (be_ID ?e) = Ok bm2" using get by (auto simp: RemoveEntry_def)
  let ?b2 = "bi_set_manager broker_interface bm2 ?b1"
  have "ServeHTTP s broker_interface now2 r2 (m, ?b1) = Ok ((204, None), m, ?b2)"
    using api_delete [OF b1(1) d [unfolded e(6)] show_int_no_slash delete(1)] delete(2) e(6) by simp
  moreover have "blocks t bm2 ty ma v = blocks t bm ty ma v" for t ty ma v
    using RemoveEntry_lookup [OF d] get new(2) by (intro blocks_cong) auto
  then have "allowed lib t ?b2 cid u ip \<longleftrightarrow> allowed lib t b cid u ip" for lib t cid u ip
    using client_allowed_iff [of "b_blacklistMiddleware ?b2" bm2] RemoveEntry_inv [OF inv1 d] client_allowed_iff [OF mgr inv on] on
    by (simp add: broker_interface_def)
  moreover have "x = y" using x get by (simp add: GetEntry_def)
  ultimately show ?thesis using r1 d1 y e by blast
qed

definition block_mallory :: CreateRequest where
  "block_mallory = \<lparr>cr_Type = ''clientid'', cr_Value = ''mallory'', cr_Pattern = [], cr_Action = ''deny'', cr_Reason = [], cr_Description = [],
     cr_Enabled = True, cr_ExpiresAt = None, cr_CreatedBy = ''admin''\<rparr>"

definition sample_server :: api_server where
  "sample_server = \<lparr>as_lib = no_library, as_decode_create = (\<lambda>_. Some block_mallory), as_decode_update = (\<lambda>_. None)\<rparr>"

definition api_request :: "string \<Rightarrow> string \<Rightarrow> request" where
  "api_request meth path = \<lparr>aq_Method = meth, aq_Path = path, aq_Query = (\<lambda>_. []), aq_Body = []\<rparr>"

theorem api_block_roundtrip_witness:
  "\<exists>e b1 b2. ServeHTTP sample_server broker_interface 5 (api_request ''POST'' ''/api/v5/blacklist'') (NewMetricsManager 0, sample_broker) =
        Ok ((201, Some \<lparr>ap_Code = 0, ap_Message = [], ap_Data = Some (DEntry e)\<rparr>), NewMetricsManager 0, b1)
    \<and> \<not> allowed no_library 6 b1 ''mallory'' [] []
    \<and> ServeHTTP sample_server broker_interface 7 (api_request ''DELETE'' (''/api/v5/blacklist/'' @ be_ID e)) (NewMetricsManager 0, b1) =
        Ok ((204, None), NewMetricsManager 0, b2)
    \<and> allowed no_library 8 b2 ''mallory'' [] []"
proof -
  let ?r2 = "api_request ''DELETE'' (''/api/v5/blacklist/'' @ be_ID (new_entry 5 block_mallory))"
  have mgr: "mw_manager (b_blacklistMiddleware sample_broker) = Some (NewBlacklistManager 0)"
    and on: "checks_on (mw_config (b_blacklistMiddleware sample_broker))"
    by (simp_all add: sample_broker_def New_broker_def NewBlacklistMiddleware_def checks_on_def DefaultMiddlewareConfig_def)
  have none: "blocks t (NewBlacklistManager 0) ty ma v = False" for t ty ma v by (simp add: blocks_def NewBlacklistManager_def)
  have old: "allowed no_library 8 sample_broker ''mallory'' [] []"
    using client_allowed_iff [OF mgr bl_inv_new on, of no_library 8 "''mallory''" "[]" "[]"] by (simp add: none)
  have new: "\<nexists>i. value_entry (NewBlacklistManager 0) ClientIDBlacklist ''mallory'' i"
    "gm_get (bm_entries (NewBlacklistManager 0)) (be_ID (new_entry 5 block_mallory)) = None"
    by (simp_all add: value_entry_def NewBlacklistManager_def)
  from api_block_roundtrip [OF mgr bl_inv_new on _ _ _ _ _ _ _ _ _ _ new, of sample_server "api_request ''POST'' ''/api/v5/blacklist''"
      ?r2 "NewMetricsManager 0" 7]
  obtain e b1 b2 where "ServeHTTP sample_server broker_interface 5 (api_request ''POST'' ''/api/v5/blacklist'') (NewMetricsManager 0, sample_broker) =
        Ok ((201, Some \<lparr>ap_Code = 0, ap_Message = [], ap_Data = Some (DEntry e)\<rparr>), NewMetricsManager 0, b1)"
    "be_ID e = be_ID (new_entry 5 block_mallory)"
    "\<forall>lib t cid u ip. allowed lib t b1 cid u ip \<longleftrightarrow> cid \<noteq> ''mallory'' \<and> allowed lib t sample_broker cid u ip"
    "ServeHTTP sample_server broker_interface 7 ?r2 (NewMetricsManager 0, b1) = Ok ((204, None), NewMetricsManager 0, b2)"
    "\<forall>lib t cid u ip. allowed lib t b2 cid u ip \<longleftrightarrow> allowed lib t sample_broker cid u ip"
    by (auto simp: sample_server_def api_request_def block_mallory_def)
  then show ?thesis using old by (intro exI [of _ e] exI [of _ b1] exI [of _ b2]) simp
qed

text \<open>
  What the API says of clients does not depend on them: it shows the same connection, session and subscription for
  every broker of a name, and disconnecting or kicking out a client changes nothing.
\<close>

lemma api_ignores_clients:
  assumes "b_nodeID b = b_nodeID b'"
  shows "GetConnections now b = GetConnections now b' \<and> GetSessions now b = GetSessions now b'
    \<and> GetSubscriptions b = GetSubscriptions b' \<and> GetRoutes b = GetRoutes b'
    \<and> bi_DisconnectClient broker_interface c b = Ok b \<and> bi_KickoutSession broker_interface c b = Ok b"
  using assms by (simp add: GetConnections_def GetSessions_def GetSubscriptions_def GetRoutes_def broker_interface_def
      DisconnectClient_def KickoutSession_def)

end
