(* ===== verification/Config.thy ===== *)
theory Config
  imports Auth
begin

text \<open>
  The configuration of the broker, \<open>pkg/config/config.go\<close>: the file that is loaded and saved, its users, and the
  authentication set up from it. Reading and writing YAML and JSON is the argument \<open>configlib\<close>; files are a map
  from paths to contents.
\<close>

section \<open>State\<close>

record UserConfig =
  uc_Username :: string
  uc_Password :: string
  uc_Algorithm :: string
  uc_Enabled :: bool

record AuthConfig =
  acf_Enabled :: bool
  acf_Users :: "UserConfig list"

record BrokerConfig =
  bc_NodeID :: string
  bc_MQTTPort :: string
  bc_GRPCPort :: string
  bc_MetricsPort :: string
  bc_DashboardPort :: string
  bc_Auth :: AuthConfig

record Config =
  cfg_Broker :: BrokerConfig

record configlib =
  cl_yaml_marshal :: "Config \<Rightarrow> string option"
  cl_yaml_unmarshal :: "string \<Rightarrow> Config option"
  cl_json_marshal :: "Config \<Rightarrow> string option"
  cl_json_unmarshal :: "string \<Rightarrow> Config option"
  cl_writable :: "string \<Rightarrow> bool"

type_synonym files = "(string, string) gomap"

abbreviation users :: "Config \<Rightarrow> UserConfig list" where
  "users c \<equiv> acf_Users (bc_Auth (cfg_Broker c))"

definition set_users :: "UserConfig list \<Rightarrow> Config \<Rightarrow> Config" where
  "set_users us c = c\<lparr>cfg_Broker := (cfg_Broker c)\<lparr>bc_Auth := (bc_Auth (cfg_Broker c))\<lparr>acf_Users := us\<rparr>\<rparr>\<rparr>"

lemma users_set_users [simp]: "users (set_users us c) = us"
  by (simp add: set_users_def)

definition DefaultConfig :: Config where
  "DefaultConfig =
     \<lparr>cfg_Broker = \<lparr>bc_NodeID = ''emqx-go-node'', bc_MQTTPort = '':1883'', bc_GRPCPort = '':8081'', bc_MetricsPort = '':8082'',
        bc_DashboardPort = '':18083'',
        bc_Auth = \<lparr>acf_Enabled = True,
          acf_Users = [\<lparr>uc_Username = ''admin'', uc_Password = ''admin123'', uc_Algorithm = ''bcrypt'', uc_Enabled = True\<rparr>,
                       \<lparr>uc_Username = ''user1'', uc_Password = ''password123'', uc_Algorithm = ''sha256'', uc_Enabled = True\<rparr>,
                       \<lparr>uc_Username = ''test'', uc_Password = ''test'', uc_Algorithm = ''plain'', uc_Enabled = True\<rparr>]\<rparr>\<rparr>\<rparr>"

section \<open>Validation\<close>

definition known_algorithm :: "string \<Rightarrow> bool" where
  "known_algorithm a \<longleftrightarrow> a = ''plain'' \<or> a = ''sha256'' \<or> a = ''bcrypt''"

definition unsupported :: "string \<Rightarrow> string" where
  "unsupported a = ''unsupported algorithm: '' @ a @ '' (supported: plain, sha256, bcrypt)''"

fun validate_users :: "nat \<Rightarrow> string list \<Rightarrow> UserConfig list \<Rightarrow> (string, unit) go" where
  "validate_users i usernames [] = Ok ()"
| "validate_users i usernames (user # rest) =
     (if uc_Username user = [] then Err (''user '' @ show_nat i @ '': username cannot be empty'')
      else if uc_Username user \<in> set usernames then Err (''duplicate username: '' @ uc_Username user)
      else if uc_Password user = [] then Err (''user '' @ uc_Username user @ '': password cannot be empty'')
      else if \<not> known_algorithm (uc_Algorithm user) then Err (''user '' @ uc_Username user @ '': '' @ unsupported (uc_Algorithm user))
      else validate_users (Suc i) (uc_Username user # usernames) rest)"

definition validateConfig :: "Config \<Rightarrow> (string, unit) go" where
  "validateConfig c =
     (if bc_NodeID (cfg_Broker c) = [] then Err ''node_id cannot be empty''
      else if bc_MQTTPort (cfg_Broker c) = [] then Err ''mqtt_port cannot be empty''
      else validate_users 0 [] (users c))"

section \<open>Files\<close>

text \<open>\<open>filepath.Ext\<close>: from the last dot of the last element of the path.\<close>

definition Ext :: "string \<Rightarrow> string" where
  "Ext path =
     (let element = last (go_split CHR ''/'' path); parts = go_split CHR ''.'' element
      in if length parts < 2 then [] else CHR ''.'' # last parts)"

definition lower :: "char \<Rightarrow> char" where
  "lower c = (if 65 \<le> (of_char c :: nat) \<and> (of_char c :: nat) \<le> 90 then char_of (of_char c + 32 :: nat) else c)"

datatype config_format = Yaml | Json

definition format_of :: "string \<Rightarrow> config_format option" where
  "format_of path =
     (let ext = map lower (Ext path)
      in if ext = ''.yaml'' \<or> ext = ''.yml'' then Some Yaml else if ext = ''.json'' then Some Json else None)"

definition unsupported_format :: "string \<Rightarrow> string" where
  "unsupported_format path = ''unsupported config file format: '' @ map lower (Ext path) @ '' (supported: .yaml, .yml, .json)''"

fun unmarshal :: "configlib \<Rightarrow> config_format \<Rightarrow> string \<Rightarrow> Config option" where
  "unmarshal lib Yaml = cl_yaml_unmarshal lib"
| "unmarshal lib Json = cl_json_unmarshal lib"

fun marshal :: "configlib \<Rightarrow> config_format \<Rightarrow> Config \<Rightarrow> string option" where
  "marshal lib Yaml = cl_yaml_marshal lib"
| "marshal lib Json = cl_json_marshal lib"

definition LoadConfig :: "configlib \<Rightarrow> files \<Rightarrow> string \<Rightarrow> (string, Config) go" where
  "LoadConfig lib fs path =
     (if path = [] then Ok DefaultConfig
      else case gm_get fs path of
             None \<Rightarrow> Err (''failed to read config file '' @ path)
           | Some data \<Rightarrow>
               (case format_of path of
                  None \<Rightarrow> Err (unsupported_format path)
                | Some f \<Rightarrow>
                    (case unmarshal lib f data of
                       None \<Rightarrow> Err (''failed to parse config file '' @ path)
                     | Some c \<Rightarrow>
                         (case validateConfig c of
                            Ok _ \<Rightarrow> Ok c
                          | Err e \<Rightarrow> Err (''invalid configuration: '' @ e)
                          | Panic \<Rightarrow> Panic | Blocked \<Rightarrow> Blocked))))"

definition SaveConfig :: "configlib \<Rightarrow> files \<Rightarrow> Config \<Rightarrow> string \<Rightarrow> (string, files) go" where
  "SaveConfig lib fs c path =
     (case format_of path of
        None \<Rightarrow> Err (unsupported_format path)
      | Some f \<Rightarrow>
          (case marshal lib f c of
             None \<Rightarrow> Err ''failed to marshal config''
           | Some data \<Rightarrow>
               if cl_writable lib path then Ok (gm_set fs path data) else Err (''failed to write config file '' @ path)))"

section \<open>Users\<close>

definition Config_AddUser :: "Config \<Rightarrow> string \<Rightarrow> string \<Rightarrow> string \<Rightarrow> bool \<Rightarrow> (string, Config) go" where
  "Config_AddUser c username password algorithm enabled =
     (if list_ex (\<lambda>u. uc_Username u = username) (users c) then Err (''user '' @ username @ '' already exists'')
      else if \<not> known_algorithm algorithm then Err (unsupported algorithm)
      else Ok (set_users (users c @ [\<lparr>uc_Username = username, uc_Password = password, uc_Algorithm = algorithm, uc_Enabled = enabled\<rparr>]) c))"

fun update_first :: "string \<Rightarrow> (UserConfig \<Rightarrow> UserConfig) \<Rightarrow> UserConfig list \<Rightarrow> UserConfig list" where
  "update_first username f [] = []"
| "update_first username f (u # us) = (if uc_Username u = username then f u # us else u # update_first username f us)"

definition Config_UpdateUser :: "Config \<Rightarrow> string \<Rightarrow> string \<Rightarrow> string \<Rightarrow> bool \<Rightarrow> (string, Config) go" where
  "Config_UpdateUser c username password algorithm enabled =
     (if \<not> list_ex (\<lambda>u. uc_Username u = username) (users c) then Err (''user '' @ username @ '' not found'')
      else if algorithm \<noteq> [] \<and> \<not> known_algorithm algorithm then Err (unsupported algorithm)
      else Ok (set_users (update_first username (\<lambda>u. u\<lparr>uc_Algorithm := (if algorithm \<noteq> [] then algorithm else uc_Algorithm u),
             uc_Password := (if password \<noteq> [] then password else uc_Password u), uc_Enabled := enabled\<rparr>) (users c)) c))"

fun remove_first :: "string \<Rightarrow> UserConfig list \<Rightarrow> UserConfig list" where
  "remove_first username [] = []"
| "remove_first username (u # us) = (if uc_Username u = username then us else u # remove_first username us)"

definition Config_RemoveUser :: "Config \<Rightarrow> string \<Rightarrow> (string, Config) go" where
  "Config_RemoveUser c username =
     (if \<not> list_ex (\<lambda>u. uc_Username u = username) (users c) then Err (''user '' @ username @ '' not found'')
      else Ok (set_users (remove_first username (users c)) c))"

section \<open>Authentication from the configuration\<close>

definition algorithm_of :: "string \<Rightarrow> HashAlgorithm" where
  "algorithm_of a = (if a = ''plain'' then HashPlain else if a = ''sha256'' then HashSHA256 else if a = ''bcrypt'' then HashBcrypt else HashOther a)"

fun add_users :: "hashes \<Rightarrow> UserConfig list \<Rightarrow> MemoryAuthenticator \<Rightarrow> (string, MemoryAuthenticator) go" where
  "add_users H [] ma = Ok ma"
| "add_users H (uc # rest) ma =
     (case AddUser H ma (uc_Username uc) (uc_Password uc) (algorithm_of (uc_Algorithm uc)) of
        Ok ma1 \<Rightarrow>
          (case SetUserEnabled ma1 (uc_Username uc) (uc_Enabled uc) of
             Ok ma2 \<Rightarrow> add_users H rest ma2
           | Err e \<Rightarrow> Err (''failed to set user '' @ uc_Username uc @ '' enabled status: '' @ e)
           | Panic \<Rightarrow> Panic | Blocked \<Rightarrow> Blocked)
      | Err e \<Rightarrow> Err (''failed to add user '' @ uc_Username uc @ '': '' @ e)
      | Panic \<Rightarrow> Panic | Blocked \<Rightarrow> Blocked)"

text \<open>The chain after the call and its error, if any.\<close>

definition ConfigureAuth :: "hashes \<Rightarrow> Config \<Rightarrow> AuthChain \<Rightarrow> AuthChain \<times> string option" where
  "ConfigureAuth H c ac =
     (let ac0 = AuthChain_Clear ac
      in if \<not> acf_Enabled (bc_Auth (cfg_Broker c)) then (AuthChain_SetEnabled ac0 False, None)
         else (let ac1 = AuthChain_SetEnabled ac0 True
               in case add_users H (users c) NewMemoryAuthenticator of
                    Ok ma \<Rightarrow> (AddAuthenticator ac1 (memory_authenticator H ma), None)
                  | Err e \<Rightarrow> (ac1, Some e)
                  | _ \<Rightarrow> (ac1, Some [])))"

section \<open>What validation guarantees\<close>

definition user_ok :: "UserConfig \<Rightarrow> bool" where
  "user_ok u \<longleftrightarrow> uc_Username u \<noteq> [] \<and> uc_Password u \<noteq> [] \<and> known_algorithm (uc_Algorithm u)"

definition config_ok :: "Config \<Rightarrow> bool" where
  "config_ok c \<longleftrightarrow> bc_NodeID (cfg_Broker c) \<noteq> [] \<and> bc_MQTTPort (cfg_Broker c) \<noteq> []
     \<and> (\<forall>u \<in> set (users c). user_ok u) \<and> distinct (map uc_Username (users c))"

lemma validate_users_iff:
  "validate_users i names us = Ok () \<longleftrightarrow>
     (\<forall>u \<in> set us. user_ok u) \<and> distinct (map uc_Username us) \<and> uc_Username ` set us \<inter> set names = {}"
  by (induction us arbitrary: i names) (auto simp: user_ok_def)

lemma validateConfig_iff: "validateConfig c = Ok () \<longleftrightarrow> config_ok c"
  by (auto simp: validateConfig_def config_ok_def validate_users_iff)

lemma validate_users_returns: "validate_users i names us \<noteq> Panic \<and> validate_users i names us \<noteq> Blocked"
  by (induction us arbitrary: i names) auto

lemma validateConfig_cases: "validateConfig c = Ok () \<or> (\<exists>e. validateConfig c = Err e)"
  using validate_users_returns [of 0 "[]" "users c"]
  by (cases "validate_users 0 [] (users c)") (auto simp: validateConfig_def)

lemma DefaultConfig_ok: "config_ok DefaultConfig"
  by (simp add: config_ok_def DefaultConfig_def user_ok_def known_algorithm_def)

lemma LoadConfig_ok: "LoadConfig lib fs path = Ok c \<Longrightarrow> config_ok c"
  by (auto simp: LoadConfig_def DefaultConfig_ok intro: validateConfig_iff [THEN iffD1] split: if_splits option.splits go.splits)

lemma update_first_users:
  "map uc_Username (update_first n f us) = map uc_Username us" if "\<And>u. uc_Username (f u) = uc_Username u"
  using that by (induction us) auto

lemma set_update_first: "set (update_first n f us) \<subseteq> set us \<union> f ` set us"
  by (induction us) auto

lemma remove_first_users: "map uc_Username (remove_first n us) = remove1 n (map uc_Username us)" "set (remove_first n us) \<subseteq> set us"
  by (induction us) auto

text \<open>
  Changing the users of a valid configuration keeps it valid, except that a user can be added with an empty
  name or password.
\<close>

lemma users_stay_valid:
  assumes "config_ok c"
  shows "Config_AddUser c u p a e = Ok c' \<Longrightarrow> u \<noteq> [] \<Longrightarrow> p \<noteq> [] \<Longrightarrow> config_ok c'"
    and "Config_UpdateUser c u p a e = Ok c' \<Longrightarrow> config_ok c'"
    and "Config_RemoveUser c u = Ok c' \<Longrightarrow> config_ok c'"
proof -
  have [simp]: "bc_NodeID (cfg_Broker (set_users us c)) = bc_NodeID (cfg_Broker c)"
    "bc_MQTTPort (cfg_Broker (set_users us c)) = bc_MQTTPort (cfg_Broker c)" for us by (simp_all add: set_users_def)
  show "config_ok c'" if "Config_AddUser c u p a e = Ok c'" "u \<noteq> []" "p \<noteq> []"
    using assms that by (auto simp: config_ok_def Config_AddUser_def user_ok_def list_ex_iff split: if_splits)
  show "config_ok c'" if "Config_UpdateUser c u p a e = Ok c'"
    using assms that set_update_first
    by (fastforce simp: config_ok_def Config_UpdateUser_def user_ok_def update_first_users split: if_splits)
  show "config_ok c'" if "Config_RemoveUser c u = Ok c'"
    using assms that remove_first_users(2) [of u "users c"]
    by (auto simp: config_ok_def Config_RemoveUser_def remove_first_users(1) split: if_splits)
qed

section \<open>Saving and loading\<close>

text \<open>What is relied on of the YAML and JSON packages: what they wrote they read back.\<close>

definition codec_ok :: "configlib \<Rightarrow> bool" where
  "codec_ok lib \<longleftrightarrow> (\<forall>f c s. marshal lib f c = Some s \<longrightarrow> unmarshal lib f s = Some c)"

text \<open>
  A configuration that was saved loads again as it was exactly if it is valid: node and port are given
  and every user has a name of his own, a password and a known algorithm. What does not load is refused with an
  error, and the operations on users keep a configuration valid as long as no user is added with an empty
  name or password; such a user can be added and saved, and the file does not load any more.
\<close>

lemma saved_config_loads:
  assumes "codec_ok lib" and "SaveConfig lib fs c path = Ok fs'"
  shows "(LoadConfig lib fs' path = Ok c \<longleftrightarrow> config_ok c) \<and> (\<not> config_ok c \<longrightarrow> (\<exists>e. LoadConfig lib fs' path = Err e))
    \<and> (\<forall>u p a en c2 fs2. config_ok c \<and> Config_AddUser c u p a en = Ok c2 \<and> SaveConfig lib fs' c2 path = Ok fs2 \<longrightarrow>
         (if u \<noteq> [] \<and> p \<noteq> [] then LoadConfig lib fs2 path = Ok c2 else \<exists>e. LoadConfig lib fs2 path = Err e))"
proof -
  have load: "LoadConfig lib fs2 path = (case validateConfig d of Ok _ \<Rightarrow> Ok d | Err e \<Rightarrow> Err (''invalid configuration: '' @ e) | Panic \<Rightarrow> Panic | Blocked \<Rightarrow> Blocked)"
    if "SaveConfig lib fs1 d path = Ok fs2" for d fs1 fs2
  proof -
    have "path \<noteq> []" using that by (auto simp: SaveConfig_def format_of_def Ext_def Let_def split: option.splits)
    with that assms(1) show ?thesis
      by (auto simp: SaveConfig_def LoadConfig_def codec_ok_def split: option.splits if_splits)
  qed
  have iff: "(LoadConfig lib fs2 path = Ok d \<longleftrightarrow> config_ok d) \<and> (\<not> config_ok d \<longrightarrow> (\<exists>e. LoadConfig lib fs2 path = Err e))"
    if "SaveConfig lib fs1 d path = Ok fs2" for d fs1 fs2
    unfolding load [OF that] using validateConfig_cases [of d] validateConfig_iff [of d] by auto
  have "config_ok c2 \<longleftrightarrow> u \<noteq> [] \<and> p \<noteq> []" if "config_ok c" "Config_AddUser c u p a en = Ok c2" for u p a en c2
  proof
    assume "config_ok c2"
    with that(2) show "u \<noteq> [] \<and> p \<noteq> []" by (auto simp: Config_AddUser_def config_ok_def user_ok_def split: if_splits)
  qed (use users_stay_valid(1) [OF that] in blast)
  with iff [OF assms(2)] iff show ?thesis by meson
qed

section \<open>Who can log in\<close>

definition user_for :: "hashes \<Rightarrow> UserConfig \<Rightarrow> User \<Rightarrow> bool" where
  "user_for H uc u \<longleftrightarrow> u_Enabled u = uc_Enabled uc \<and> u_Algorithm u = algorithm_of (uc_Algorithm uc)
     \<and> hashPassword H (uc_Password uc) (u_Salt u) (u_Algorithm u) = Ok (u_PasswordHash u)"

lemma add_users_table:
  assumes "add_users H us ma = Ok ma'" and "distinct (map uc_Username us)"
  shows "ma_enabled ma' = ma_enabled ma
    \<and> (\<forall>uc \<in> set us. \<exists>u. gm_get (ma_users ma') (uc_Username uc) = Some u \<and> user_for H uc u)
    \<and> (\<forall>n. n \<notin> uc_Username ` set us \<longrightarrow> gm_get (ma_users ma') n = gm_get (ma_users ma) n)"
  using assms
proof (induction us arbitrary: ma)
  case (Cons uc us)
  let ?n = "uc_Username uc"
  from Cons.prems obtain ma1 ma2 where a: "AddUser H ma ?n (uc_Password uc) (algorithm_of (uc_Algorithm uc)) = Ok ma1"
    and s: "SetUserEnabled ma1 ?n (uc_Enabled uc) = Ok ma2" and r: "add_users H us ma2 = Ok ma'"
    by (auto split: go.splits)
  from a s obtain u where u: "gm_get (ma_users ma2) ?n = Some u" "user_for H uc u" and e: "ma_enabled ma2 = ma_enabled ma"
    and o: "\<And>n. n \<noteq> ?n \<Longrightarrow> gm_get (ma_users ma2) n = gm_get (ma_users ma) n"
    by (auto simp: AddUser_def SetUserEnabled_def user_for_def Let_def split: if_splits go.splits option.splits)
  from Cons.IH [OF r] Cons.prems(2) u e o show ?case by auto
qed simp


section \<open>An example\<close>

text \<open>A codec that writes one configuration only, and hashes that can be read.\<close>

definition one_config :: "Config \<Rightarrow> configlib" where
  "one_config c = \<lparr>cl_yaml_marshal = (\<lambda>d. if d = c then Some ''c'' else None), cl_yaml_unmarshal = (\<lambda>s. if s = ''c'' then Some c else None),
     cl_json_marshal = (\<lambda>_. None), cl_json_unmarshal = (\<lambda>_. None), cl_writable = (\<lambda>_. True)\<rparr>"

definition open_hashes :: hashes where
  "open_hashes = \<lparr>h_sha256hex = rev, h_bcrypt = (\<lambda>p. Some (''$2'' @ p)), h_bcrypt_compare = (\<lambda>h p. h = ''$2'' @ p)\<rparr>"

lemma one_config_codec: "codec_ok (one_config c)"
  unfolding codec_ok_def
proof (intro allI impI)
  fix f d s assume "marshal (one_config c) f d = Some s"
  then show "unmarshal (one_config c) f s = Some d" by (cases f) (auto simp: one_config_def split: if_splits)
qed

lemma yaml_path: "format_of ''etc/emqx.YAML'' = Some Yaml"
  by code_simp

lemma saved_config_loads_witness:
  "SaveConfig (one_config DefaultConfig) [] DefaultConfig ''etc/emqx.YAML'' = Ok [(''etc/emqx.YAML'', ''c'')]
   \<and> LoadConfig (one_config DefaultConfig) [(''etc/emqx.YAML'', ''c'')] ''etc/emqx.YAML'' = Ok DefaultConfig"
proof -
  have "SaveConfig (one_config DefaultConfig) [] DefaultConfig ''etc/emqx.YAML'' = Ok [(''etc/emqx.YAML'', ''c'')]"
    by (simp add: SaveConfig_def yaml_path one_config_def)
  with saved_config_loads [OF one_config_codec this] DefaultConfig_ok show ?thesis by blast
qed


text \<open>
  If a user cannot be added, for instance because bcrypt refuses a password of more than 72 bytes, the
  chain is left empty and switched on, and an empty chain accepts everybody.
\<close>

lemma failed_configuration_opens:
  assumes "ConfigureAuth H c ac = (ac', Some e)"
  shows "AuthChain_Authenticate ac' u p = AuthSuccess"
  using assms by (auto simp: ConfigureAuth_def Let_def AuthChain_Authenticate_def AuthChain_SetEnabled_def AuthChain_Clear_def
      split: if_splits go.splits)

end
