(* ===== verification/Health.thy ===== *)
theory Health
  imports Metrics
begin

text \<open>
  Health checks, \<open>pkg/monitor/health.go\<close>: the checker with its table of checks, and the HTTP endpoints that
  report it. What the Go runtime says of memory and goroutines is a record given to each run, with whatever else a
  registered check looks at in \<open>rt_other\<close>; the pause of the last collection is in nanoseconds.
\<close>

section \<open>State\<close>

record 'x runtime =
  rt_Alloc :: int
  rt_TotalAlloc :: int
  rt_Sys :: int
  rt_NumGC :: nat
  rt_PauseNs :: "nat \<Rightarrow> int"
  rt_NumGoroutine :: int
  rt_other :: 'x

record 'x HealthCheck =
  hk_Name :: string
  hk_CheckFunc :: "'x runtime \<Rightarrow> string option"
  hk_Critical :: bool
  hk_LastChecked :: time
  hk_LastError :: "string option"
  hk_Enabled :: bool

record SystemInfo =
  si_Alloc :: int
  si_TotalAlloc :: int
  si_Sys :: int
  si_NumGC :: nat
  si_GCPause :: int
  si_Goroutines :: int

record 'x HealthChecker =
  hc_healthy :: bool
  hc_lastCheck :: time
  hc_errors :: "string list"
  hc_memStats :: "'x runtime option"
  hc_checks :: "(string, 'x HealthCheck) gomap"

record CheckResult =
  chr_Status :: string
  chr_LastChecked :: time
  chr_Message :: string
  chr_Critical :: bool

record HealthStatus =
  hst_Status :: string
  hst_Timestamp :: time
  hst_Uptime :: int
  hst_Version :: string
  hst_Node :: string
  hst_Checks :: "(string, CheckResult) gomap"
  hst_SystemInfo :: SystemInfo

text \<open>The variables of the package.\<close>

record monitor_globals =
  mg_startTime :: time
  mg_version :: string
  mg_nodeID :: string

definition SetVersion :: "string \<Rightarrow> monitor_globals \<Rightarrow> monitor_globals" where
  "SetVersion v g = g\<lparr>mg_version := v\<rparr>"

definition SetNodeID :: "string \<Rightarrow> monitor_globals \<Rightarrow> monitor_globals" where
  "SetNodeID i g = g\<lparr>mg_nodeID := i\<rparr>"

section \<open>Checks\<close>

definition RegisterCheck :: "string \<Rightarrow> ('x runtime \<Rightarrow> string option) \<Rightarrow> bool \<Rightarrow> 'x HealthChecker \<Rightarrow> 'x HealthChecker" where
  "RegisterCheck name checkFunc critical hc =
     hc\<lparr>hc_checks := gm_set (hc_checks hc) name
          \<lparr>hk_Name = name, hk_CheckFunc = checkFunc, hk_Critical = critical, hk_LastChecked = 0, hk_LastError = None, hk_Enabled = True\<rparr>\<rparr>"

definition memory_check :: "'x runtime \<Rightarrow> string option" where
  "memory_check rt =
     (if rt_Sys rt > 1024 * 1024 * 1024 * 8 then Some (''high memory usage: '' @ show_int (rt_Sys rt) @ '' bytes'') else None)"

definition goroutine_check :: "'x runtime \<Rightarrow> string option" where
  "goroutine_check rt =
     (if rt_NumGoroutine rt > 10000 then Some (''high goroutine count: '' @ show_int (rt_NumGoroutine rt)) else None)"

definition NewHealthChecker :: "time \<Rightarrow> 'x HealthChecker" where
  "NewHealthChecker now =
     RegisterCheck ''goroutines'' goroutine_check False
       (RegisterCheck ''memory'' memory_check False
         \<lparr>hc_healthy = True, hc_lastCheck = now, hc_errors = [], hc_memStats = None, hc_checks = []\<rparr>)"

definition UnregisterCheck :: "string \<Rightarrow> 'x HealthChecker \<Rightarrow> 'x HealthChecker" where
  "UnregisterCheck name hc = hc\<lparr>hc_checks := gm_del (hc_checks hc) name\<rparr>"

definition set_check_enabled :: "bool \<Rightarrow> string \<Rightarrow> 'x HealthChecker \<Rightarrow> 'x HealthChecker" where
  "set_check_enabled en name hc =
     (case gm_get (hc_checks hc) name of
        None \<Rightarrow> hc
      | Some check \<Rightarrow> hc\<lparr>hc_checks := gm_set (hc_checks hc) name (check\<lparr>hk_Enabled := en\<rparr>)\<rparr>)"

definition EnableCheck :: "string \<Rightarrow> 'x HealthChecker \<Rightarrow> 'x HealthChecker" where
  "EnableCheck = set_check_enabled True"

definition DisableCheck :: "string \<Rightarrow> 'x HealthChecker \<Rightarrow> 'x HealthChecker" where
  "DisableCheck = set_check_enabled False"

definition getOverallStatus :: "'x HealthChecker \<Rightarrow> string" where
  "getOverallStatus hc = (if hc_healthy hc then ''healthy'' else ''unhealthy'')"

text \<open>Before the first run the memory statistics are zero.\<close>

definition getSystemInfo :: "'x HealthChecker \<Rightarrow> SystemInfo" where
  "getSystemInfo hc =
     (case hc_memStats hc of
        None \<Rightarrow> \<lparr>si_Alloc = 0, si_TotalAlloc = 0, si_Sys = 0, si_NumGC = 0, si_GCPause = 0, si_Goroutines = 0\<rparr>
      | Some rt \<Rightarrow>
          \<lparr>si_Alloc = rt_Alloc rt, si_TotalAlloc = rt_TotalAlloc rt, si_Sys = rt_Sys rt, si_NumGC = rt_NumGC rt,
           si_GCPause = (if rt_NumGC rt > 0 then rt_PauseNs rt ((rt_NumGC rt + 255) mod 256) else 0), si_Goroutines = rt_NumGoroutine rt\<rparr>)"

definition status_of :: "monitor_globals \<Rightarrow> time \<Rightarrow> time \<Rightarrow> (string, CheckResult) gomap \<Rightarrow> 'x HealthChecker \<Rightarrow> HealthStatus" where
  "status_of g now timestamp results hc =
     \<lparr>hst_Status = getOverallStatus hc, hst_Timestamp = timestamp, hst_Uptime = (now - mg_startTime g) div second,
      hst_Version = mg_version g, hst_Node = mg_nodeID g, hst_Checks = results, hst_SystemInfo = getSystemInfo hc\<rparr>"

text \<open>One enabled check: the check with its result noted, the result, and the line of a critical failure.\<close>

definition run_check :: "'x runtime \<Rightarrow> time \<Rightarrow> string \<Rightarrow> 'x HealthCheck \<Rightarrow> 'x HealthCheck \<times> CheckResult \<times> string list" where
  "run_check rt now name check =
     (case hk_CheckFunc check rt of
        Some err \<Rightarrow>
          (check\<lparr>hk_LastError := Some err, hk_LastChecked := now\<rparr>,
           \<lparr>chr_Status = ''failed'', chr_LastChecked = now, chr_Message = err, chr_Critical = hk_Critical check\<rparr>,
           if hk_Critical check then [name @ '': '' @ err] else [])
      | None \<Rightarrow>
          (check\<lparr>hk_LastError := None, hk_LastChecked := now\<rparr>,
           \<lparr>chr_Status = ''passed'', chr_LastChecked = now, chr_Message = [], chr_Critical = hk_Critical check\<rparr>, []))"

fun run_all :: "'x runtime \<Rightarrow> time \<Rightarrow> (string, 'x HealthCheck) gomap \<Rightarrow> (string, 'x HealthCheck) gomap \<times> (string, CheckResult) gomap \<times> string list" where
  "run_all rt now [] = ([], [], [])"
| "run_all rt now ((name, check) # rest) =
     (let (checks, results, errs) = run_all rt now rest
      in if \<not> hk_Enabled check then ((name, check) # checks, results, errs)
         else (let (check', result, e) = run_check rt now name check
               in ((name, check') # checks, (name, result) # results, e @ errs)))"

definition RunChecks :: "monitor_globals \<Rightarrow> 'x runtime \<Rightarrow> time \<Rightarrow> 'x HealthChecker \<Rightarrow> HealthStatus \<times> 'x HealthChecker" where
  "RunChecks g rt now hc =
     (let (checks, results, criticalErrors) = run_all rt now (hc_checks hc);
          hc' = hc\<lparr>hc_lastCheck := now, hc_memStats := Some rt, hc_checks := checks, hc_healthy := (criticalErrors = []), hc_errors := criticalErrors\<rparr>
      in (status_of g now now results hc', hc'))"

definition last_result :: "'x HealthCheck \<Rightarrow> CheckResult option" where
  "last_result check =
     (if \<not> hk_Enabled check then None
      else Some \<lparr>chr_Status = (if hk_LastChecked check = 0 then ''unknown'' else if hk_LastError check \<noteq> None then ''failed'' else ''passed''),
                 chr_LastChecked = hk_LastChecked check,
                 chr_Message = (if hk_LastChecked check \<noteq> 0 then (case hk_LastError check of Some e \<Rightarrow> e | None \<Rightarrow> []) else []),
                 chr_Critical = hk_Critical check\<rparr>)"

definition GetStatus :: "monitor_globals \<Rightarrow> time \<Rightarrow> 'x HealthChecker \<Rightarrow> HealthStatus" where
  "GetStatus g now hc = status_of g now (hc_lastCheck hc) (gm_filter_map (\<lambda>_. last_result) (hc_checks hc)) hc"

definition IsHealthy :: "'x HealthChecker \<Rightarrow> bool" where
  "IsHealthy hc = hc_healthy hc"

section \<open>Endpoints\<close>

datatype health_body = HText string | HBasic string time | HStatus HealthStatus | HApi HealthStatus Statistics

definition handleHealth :: "time \<Rightarrow> string \<Rightarrow> 'x HealthChecker \<Rightarrow> int \<times> health_body" where
  "handleHealth now meth hc =
     (if meth \<noteq> ''GET'' then (405, HText ''Method not allowed'')
      else if IsHealthy hc then (200, HBasic ''ok'' now) else (503, HBasic ''unhealthy'' now))"

definition handleLiveness :: "string \<Rightarrow> int \<times> health_body" where
  "handleLiveness meth = (if meth \<noteq> ''GET'' then (405, HText ''Method not allowed'') else (200, HText ''OK''))"

definition handleReadiness :: "string \<Rightarrow> 'x HealthChecker \<Rightarrow> int \<times> health_body" where
  "handleReadiness meth hc =
     (if meth \<noteq> ''GET'' then (405, HText ''Method not allowed'')
      else if IsHealthy hc then (200, HText ''OK'') else (503, HText ''Service Unavailable''))"

definition handleDetailedHealth :: "monitor_globals \<Rightarrow> 'x runtime \<Rightarrow> time \<Rightarrow> string \<Rightarrow> 'x HealthChecker \<Rightarrow> (int \<times> health_body) \<times> 'x HealthChecker" where
  "handleDetailedHealth g rt now meth hc =
     (if meth \<noteq> ''GET'' then ((405, HText ''Method not allowed''), hc)
      else (let (status, hc') = RunChecks g rt now hc
            in ((if hst_Status status \<noteq> ''healthy'' then 503 else 200, HStatus status), hc')))"

definition handleAPIHealth :: "monitor_globals \<Rightarrow> time \<Rightarrow> string \<Rightarrow> MetricsManager \<Rightarrow> 'x HealthChecker \<Rightarrow> int \<times> health_body" where
  "handleAPIHealth g now meth m hc =
     (if meth \<noteq> ''GET'' then (405, HText ''Method not allowed'')
      else (200, HApi (GetStatus g now hc) (GetStatistics now m)))"

section \<open>What is reported\<close>

definition critical_failures :: "'x runtime \<Rightarrow> 'x HealthChecker \<Rightarrow> string set" where
  "critical_failures rt hc =
     {name. \<exists>check. gm_get (hc_checks hc) name = Some check \<and> hk_Enabled check \<and> hk_Critical check \<and> hk_CheckFunc check rt \<noteq> None}"

definition check_after :: "'x runtime \<Rightarrow> time \<Rightarrow> 'x HealthCheck \<Rightarrow> 'x HealthCheck" where
  "check_after rt now check =
     (if hk_Enabled check then check\<lparr>hk_LastError := hk_CheckFunc check rt, hk_LastChecked := now\<rparr> else check)"

lemma run_all_exact:
  assumes "now \<noteq> 0"
  shows "run_all rt now cs =
    (map (\<lambda>(n, c). (n, check_after rt now c)) cs, gm_filter_map (\<lambda>_ c. last_result (check_after rt now c)) cs,
     concat (map (\<lambda>(n, c). case hk_CheckFunc c rt of Some e \<Rightarrow> if hk_Enabled c \<and> hk_Critical c then [n @ '': '' @ e] else [] | None \<Rightarrow> []) cs))"
proof (induction cs)
  case (Cons p cs)
  obtain n c where p: "p = (n, c)" by (cases p)
  with Cons assms show ?case by (auto simp: run_check_def check_after_def last_result_def split: option.splits)
qed simp

lemma gm_filter_map_map: "gm_filter_map f (map (\<lambda>(n, c). (n, g c)) cs) = gm_filter_map (\<lambda>n c. f n (g c)) cs"
  by (induction cs) (auto split: option.splits)

text \<open>
  After a run the status is healthy exactly if no check that is enabled and critical fails, every enabled check is
  reported with what it returned, and the endpoints that do not run the checks report the same.
\<close>

lemma status_follows_checks:
  assumes "gm_wf (hc_checks hc)" and "now \<noteq> 0" and "RunChecks g rt now hc = (status, hc')"
  shows "(hst_Status status = ''healthy'' \<longleftrightarrow> critical_failures rt hc = {})
    \<and> (fst (handleReadiness ''GET'' hc') = 200 \<longleftrightarrow> critical_failures rt hc = {})
    \<and> GetStatus g now hc' = status
    \<and> (\<forall>name check. gm_get (hc_checks hc) name = Some check \<and> hk_Enabled check \<longrightarrow>
         (\<exists>r. gm_get (hst_Checks status) name = Some r \<and> (chr_Status r = ''failed'' \<longleftrightarrow> hk_CheckFunc check rt \<noteq> None)))"
proof -
  let ?errs = "concat (map (\<lambda>(n, c). case hk_CheckFunc c rt of Some e \<Rightarrow> if hk_Enabled c \<and> hk_Critical c then [n @ '': '' @ e] else [] | None \<Rightarrow> []) (hc_checks hc))"
  have s: "status = status_of g now now (gm_filter_map (\<lambda>_ c. last_result (check_after rt now c)) (hc_checks hc)) hc'"
    and h: "hc' = hc\<lparr>hc_lastCheck := now, hc_memStats := Some rt, hc_checks := map (\<lambda>(n, c). (n, check_after rt now c)) (hc_checks hc),
                     hc_healthy := (?errs = []), hc_errors := ?errs\<rparr>"
    using assms(3) by (auto simp: RunChecks_def run_all_exact [OF assms(2)] Let_def)
  have "critical_failures rt hc = {n. \<exists>c. (n, c) \<in> set (hc_checks hc) \<and> hk_Enabled c \<and> hk_Critical c \<and> hk_CheckFunc c rt \<noteq> None}"
    using gm_get_iff [OF assms(1)] by (auto simp: critical_failures_def)
  then have e: "?errs = [] \<longleftrightarrow> critical_failures rt hc = {}"
    by (auto split: option.splits)
  have "gm_get (hst_Checks status) name = last_result (check_after rt now check)"
    if "gm_get (hc_checks hc) name = Some check" for name check
    using that assms(1) by (simp add: s status_of_def)
  with e show ?thesis
    by (auto simp: s h status_of_def getOverallStatus_def GetStatus_def gm_filter_map_map handleReadiness_def IsHealthy_def
        last_result_def check_after_def assms(2) simp del: concat_eq_Nil_conv)
qed

text \<open>
  No check the checker starts with is critical, so the broker, which registers no others, is ready for ever,
  however much memory and however many goroutines it has.
\<close>

definition never_critical :: "'x HealthChecker \<Rightarrow> bool" where
  "never_critical hc \<longleftrightarrow> hc_healthy hc \<and> gm_wf (hc_checks hc) \<and> (\<forall>(n, c) \<in> set (hc_checks hc). \<not> hk_Critical c)"

lemma never_critical_new: "never_critical (NewHealthChecker now)"
  by (simp add: never_critical_def NewHealthChecker_def RegisterCheck_def)

lemma never_critical_run:
  assumes "never_critical hc" and "now \<noteq> 0"
  shows "never_critical (snd (RunChecks g rt now hc)) \<and> hst_Status (fst (RunChecks g rt now hc)) = ''healthy''"
  using assms
  by (auto simp: never_critical_def RunChecks_def run_all_exact Let_def status_of_def getOverallStatus_def check_after_def o_def case_prod_unfold
      split: option.splits)

text \<open>A check that is removed or switched off after it failed leaves the broker unready until the next run.\<close>

lemma disabled_failure_remains: "IsHealthy (DisableCheck name hc) = IsHealthy hc" "IsHealthy (UnregisterCheck name hc) = IsHealthy hc"
  by (simp_all add: IsHealthy_def DisableCheck_def set_check_enabled_def UnregisterCheck_def split: option.splits)

end
