(* ===== verification/Dashboard.thy ===== *)
theory Dashboard
  imports Admin Health Certificate_Manager Tls_Connection Rule_Engine Connector_Manager Integration
begin

text \<open>
  The dashboard server, \<open>pkg/dashboard/server.go\<close>: its routes, the login with its cookie, and the handlers of its
  API over the certificate manager, the rule engine, the integration engine, the connector manager and the management API.
  A handler maps a request and the state of all of them to a new state and a response; a handler that waits for
  ever leaves its traces in the state. The program gives the server every component, so the answers for a missing one do not
  occur, and no directories for files, which are left out of the configuration. Rendering of templates is not looked at: a page is the name of its template. The
  data for demonstration that some handlers return is the constructor \<open>BDemo\<close> with the name of the list.
\<close>

section \<open>Requests, responses and state\<close>

record dash_request = request +
  dr_Cookie :: "string option"
  dr_BasicAuth :: "(string \<times> string) option"
  dr_FormUsername :: string
  dr_FormPassword :: string

record DashboardConfig =
  dc_Address :: string
  dc_Port :: int
  dc_Username :: string
  dc_Password :: string
  dc_EnableAuth :: bool

definition DashboardDefaultConfig :: DashboardConfig where
  "DashboardDefaultConfig =
     \<lparr>dc_Address = ''0.0.0.0'', dc_Port = 18083, dc_Username = ''admin'', dc_Password = ''public'', dc_EnableAuth = True\<rparr>"

datatype 'f dash_body =
    BText string | BPage string "string option" | BStats Statistics | BHealth Health.HealthStatus | BDemo string
  | BBlacklist "(string \<times> string \<times> string \<times> string \<times> string) list"
  | BCertificates "StoredCertificate list" | BCertificate StoredCertificate | BTLSConfig string bool | BX509 X509Config
  | BMessage string | BMessageID string string
  | BRules "'f Rule list" | BRule "'f Rule" | BRuleError rule_error | BActionTypes "string list"
  | BBridges "'f Bridge list" | BBridge "'f Bridge" | BIntegrationMetrics "'f IntegrationMetrics" | BIntegrationConnectors "(string \<times> bool) list"
  | BConnectors "(string \<times> 'f ConnectorConfig \<times> ConnectorStatus) list" | BConnectorInfo "'f ConnectorConfig \<times> ConnectorStatus" | BTypes "string list"
  | BAdmin response

record 'f dash_response =
  dp_Status :: int
  dp_SetCookie :: "string option"
  dp_Location :: string
  dp_Body :: "'f dash_body"

record ('f, 'c, 'w) dash_state =
  ds_metrics :: MetricsManager
  ds_broker :: Broker
  ds_health :: "unit HealthChecker"
  ds_certificates :: CertificateManager
  ds_rules :: "'f rules"
  ds_integration :: "('f, 'w) DataIntegrationEngine"
  ds_connectors :: "('c, 'f) ConnectorManager"
  ds_world :: 'w

text \<open>The libraries and decoders the handlers use.\<close>

record ('f, 'c, 'w, 'v) dash_env =
  de_now :: time
  de_globals :: monitor_globals
  de_api :: api_server
  de_certlib :: certlib
  de_sqllib :: "'f sqllib"
  de_registry :: "('f, 'v) registry"
  de_floats :: "'f floats"
  de_ops :: "('c, 'f, 'w) connector_ops"
  de_certificate :: "string \<Rightarrow> StoredCertificate option"
  de_tlsconfig :: "string \<Rightarrow> TLSConfig option"
  de_x509 :: "string \<Rightarrow> X509Config option"
  de_rule :: "string \<Rightarrow> 'f Rule option"
  de_bridge :: "string \<Rightarrow> 'f Bridge option"
  de_connector :: "string \<Rightarrow> 'f ConnectorConfig option"
  de_object :: "string \<Rightarrow> (string list option) option"

type_synonym ('f, 'c, 'w) answered = "('f, 'c, 'w) dash_state \<times> (string, 'f dash_response) go"

definition respond :: "int \<Rightarrow> 'f dash_body \<Rightarrow> 'f dash_response" where
  "respond status body = \<lparr>dp_Status = status, dp_SetCookie = None, dp_Location = [], dp_Body = body\<rparr>"

definition http_Error :: "string \<Rightarrow> int \<Rightarrow> 'f dash_response" where
  "http_Error text status = respond status (BText text)"

definition not_allowed :: "'f dash_response" where
  "not_allowed = http_Error ''Method not allowed'' 405"

definition http_Redirect :: "string \<Rightarrow> 'f dash_response" where
  "http_Redirect location = \<lparr>dp_Status = 302, dp_SetCookie = None, dp_Location = location, dp_Body = BText []\<rparr>"

definition dash_writeJSON :: "'f dash_body \<Rightarrow> 'f dash_response" where
  "dash_writeJSON body = respond 200 body"

definition trim_prefix :: "string \<Rightarrow> string \<Rightarrow> string" where
  "trim_prefix s p = (if has_prefix s p then drop (length p) s else s)"

section \<open>Login\<close>

definition validateCredentials :: "DashboardConfig \<Rightarrow> string \<Rightarrow> string \<Rightarrow> bool" where
  "validateCredentials cfg username password \<longleftrightarrow> username = dc_Username cfg \<and> password = dc_Password cfg"

definition validateSession :: "string \<Rightarrow> bool" where
  "validateSession token \<longleftrightarrow> token = ''valid_session_token''"

definition setSessionCookie :: "'f dash_response \<Rightarrow> 'f dash_response" where
  "setSessionCookie p = p\<lparr>dp_SetCookie := Some ''valid_session_token''\<rparr>"

definition set_cookie_on :: "('f, 'c, 'w) answered \<Rightarrow> ('f, 'c, 'w) answered" where
  "set_cookie_on a = (fst a, go_bind (snd a) (\<lambda>p. Ok (setSessionCookie p)))"

definition authMiddleware ::
  "DashboardConfig \<Rightarrow> (dash_request \<Rightarrow> ('f, 'c, 'w) dash_state \<Rightarrow> ('f, 'c, 'w) answered) \<Rightarrow> dash_request \<Rightarrow> ('f, 'c, 'w) dash_state \<Rightarrow> ('f, 'c, 'w) answered" where
  "authMiddleware cfg nxt r st =
     (if \<not> dc_EnableAuth cfg then nxt r st
      else if (case dr_Cookie r of Some token \<Rightarrow> validateSession token | None \<Rightarrow> False) then nxt r st
      else if (case dr_BasicAuth r of Some (u, p) \<Rightarrow> validateCredentials cfg u p | None \<Rightarrow> False) then set_cookie_on (nxt r st)
      else if has_prefix (aq_Path r) ''/api/'' then (st, Ok (http_Error ''Unauthorized'' 401))
      else (st, Ok (http_Redirect ''/login'')))"

definition handleLogin :: "DashboardConfig \<Rightarrow> dash_request \<Rightarrow> 'f dash_response" where
  "handleLogin cfg r =
     (if aq_Method r = ''GET'' then respond 200 (BPage ''login.html'' None)
      else if aq_Method r = ''POST''
      then (if validateCredentials cfg (dr_FormUsername r) (dr_FormPassword r)
            then setSessionCookie (http_Redirect ''/dashboard'')
            else respond 200 (BPage ''login.html'' (Some ''Invalid username or password'')))
      else not_allowed)"

definition handleLogout :: "'f dash_response" where
  "handleLogout = (http_Redirect ''/login'')\<lparr>dp_SetCookie := Some []\<rparr>"

definition page :: "string \<Rightarrow> dash_request \<Rightarrow> 'f dash_response" where
  "page template r = (if aq_Method r \<noteq> ''GET'' then not_allowed else respond 200 (BPage template None))"

section \<open>Certificates and TLS\<close>

definition handleAPICertificates :: "('f, 'c, 'w, 'v) dash_env \<Rightarrow> dash_request \<Rightarrow> ('f, 'c, 'w) dash_state \<Rightarrow> ('f, 'c, 'w) answered" where
  "handleAPICertificates ev r st =
     (if aq_Method r = ''GET'' then (st, Ok (dash_writeJSON (BCertificates (ListCertificates (ds_certificates st)))))
      else if aq_Method r = ''POST''
      then (case de_certificate ev (aq_Body r) of
              None \<Rightarrow> (st, Ok (http_Error ''Invalid JSON'' 400))
            | Some cert \<Rightarrow>
                (case AddCertificate (de_certlib ev) (de_now ev) cert (ds_certificates st) of
                   Ok cm \<Rightarrow> (st\<lparr>ds_certificates := cm\<rparr>, Ok (dash_writeJSON (BMessageID ''Certificate added successfully'' (sc_ID cert))))
                 | Err e \<Rightarrow> (st, Ok (http_Error e 400))
                 | Panic \<Rightarrow> (st, Panic) | Blocked \<Rightarrow> (st, Blocked)))
      else (st, Ok not_allowed))"

definition handleAPICertificateByID :: "dash_request \<Rightarrow> ('f, 'c, 'w) dash_state \<Rightarrow> ('f, 'c, 'w) answered" where
  "handleAPICertificateByID r st =
     (let path = trim_prefix (aq_Path r) ''/api/certificates/''
      in if path = [] then (st, Ok (http_Error ''Certificate ID required'' 400))
         else if aq_Method r = ''GET''
         then (st, case GetCertificate path (ds_certificates st) of
                     Ok cert \<Rightarrow> Ok (dash_writeJSON (BCertificate cert))
                   | Err e \<Rightarrow> Ok (http_Error e 404) | Panic \<Rightarrow> Panic | Blocked \<Rightarrow> Blocked)
         else if aq_Method r = ''DELETE''
         then (case DeleteCertificate path (ds_certificates st) of
                 Ok cm \<Rightarrow> (st\<lparr>ds_certificates := cm\<rparr>, Ok (dash_writeJSON (BMessage ''Certificate deleted successfully'')))
               | Err e \<Rightarrow> (st, Ok (http_Error e 404)) | Panic \<Rightarrow> (st, Panic) | Blocked \<Rightarrow> (st, Blocked))
         else (st, Ok not_allowed))"

definition tls_config_id :: "time \<Rightarrow> string" where
  "tls_config_id now = ''tls-config-'' @ show_int (unix now)"

definition handleAPITLSConfig :: "('f, 'c, 'w, 'v) dash_env \<Rightarrow> dash_request \<Rightarrow> ('f, 'c, 'w) dash_state \<Rightarrow> ('f, 'c, 'w) answered" where
  "handleAPITLSConfig ev r st =
     (if aq_Method r \<noteq> ''POST'' then (st, Ok not_allowed)
      else case de_tlsconfig ev (aq_Body r) of
             None \<Rightarrow> (st, Ok (http_Error ''Invalid JSON'' 400))
           | Some config \<Rightarrow>
               (st\<lparr>ds_certificates := SetTLSConfig (tls_config_id (de_now ev)) config (ds_certificates st)\<rparr>,
                Ok (dash_writeJSON (BMessageID ''TLS configuration added successfully'' (tls_config_id (de_now ev))))))"

definition handleAPITLSConfigByID :: "('f, 'c, 'w, 'v) dash_env \<Rightarrow> dash_request \<Rightarrow> ('f, 'c, 'w) dash_state \<Rightarrow> ('f, 'c, 'w) answered" where
  "handleAPITLSConfigByID ev r st =
     (let path = trim_prefix (aq_Path r) ''/api/tls-config/''
      in if path = [] then (st, Ok (http_Error ''TLS config ID required'' 400))
         else if aq_Method r \<noteq> ''GET'' then (st, Ok not_allowed)
         else (st, case GetTLSConfig (de_certlib ev) path (ds_certificates st) of
                     Ok t \<Rightarrow> Ok (dash_writeJSON (BTLSConfig (gt_ServerName t) (gt_ClientAuth t \<noteq> NoClientCert)))
                   | Err e \<Rightarrow> Ok (http_Error e 404) | Panic \<Rightarrow> Panic | Blocked \<Rightarrow> Blocked))"

definition handleAPIX509Auth :: "('f, 'c, 'w, 'v) dash_env \<Rightarrow> dash_request \<Rightarrow> 'f dash_response" where
  "handleAPIX509Auth ev r =
     (if aq_Method r = ''GET'' then dash_writeJSON (BX509 DefaultX509Config)
      else if aq_Method r = ''POST''
      then (case de_x509 ev (aq_Body r) of None \<Rightarrow> http_Error ''Invalid JSON'' 400 | Some config \<Rightarrow> dash_writeJSON (BX509 config))
      else not_allowed)"

section \<open>Rules\<close>

definition rules_changed :: "int \<Rightarrow> 'f dash_response \<Rightarrow> (rule_error, 'f rules) go \<Rightarrow> ('f, 'c, 'w) dash_state \<Rightarrow> ('f, 'c, 'w) answered" where
  "rules_changed status ok res st =
     (case res of
        Ok rs \<Rightarrow> (st\<lparr>ds_rules := rs\<rparr>, Ok ok)
      | Err e \<Rightarrow> (st, Ok (respond status (BRuleError e)))
      | Panic \<Rightarrow> (st, Panic) | Blocked \<Rightarrow> (st, Blocked))"

definition handleAPIGetRules :: "('f, 'c, 'w) dash_state \<Rightarrow> 'f dash_response" where
  "handleAPIGetRules st = dash_writeJSON (BRules (map snd (ListRules (ds_rules st))))"

definition handleAPICreateRule :: "('f, 'c, 'w, 'v) dash_env \<Rightarrow> dash_request \<Rightarrow> ('f, 'c, 'w) dash_state \<Rightarrow> ('f, 'c, 'w) answered" where
  "handleAPICreateRule ev r st =
     (case de_rule ev (aq_Body r) of
        None \<Rightarrow> (st, Ok (http_Error ''Invalid JSON'' 400))
      | Some rule \<Rightarrow>
          rules_changed 400 (respond 201 (BMessage ''Rule created successfully''))
            (CreateRule (de_sqllib ev) (de_registry ev) (de_now ev) (ds_rules st) rule) st)"

definition handleAPIUpdateRule :: "('f, 'c, 'w, 'v) dash_env \<Rightarrow> dash_request \<Rightarrow> string \<Rightarrow> ('f, 'c, 'w) dash_state \<Rightarrow> ('f, 'c, 'w) answered" where
  "handleAPIUpdateRule ev r ruleID st =
     (case de_rule ev (aq_Body r) of
        None \<Rightarrow> (st, Ok (http_Error ''Invalid JSON'' 400))
      | Some rule \<Rightarrow>
          rules_changed 400 (dash_writeJSON (BMessage ''Rule updated successfully''))
            (UpdateRule (de_sqllib ev) (de_registry ev) (de_now ev) (ds_rules st) ruleID rule) st)"

definition handleAPIDeleteRule :: "string \<Rightarrow> ('f, 'c, 'w) dash_state \<Rightarrow> ('f, 'c, 'w) answered" where
  "handleAPIDeleteRule ruleID st =
     rules_changed 404 (dash_writeJSON (BMessage ''Rule deleted successfully'')) (DeleteRule (ds_rules st) ruleID) st"

definition handleAPIEnableRule :: "('f, 'c, 'w, 'v) dash_env \<Rightarrow> string \<Rightarrow> ('f, 'c, 'w) dash_state \<Rightarrow> ('f, 'c, 'w) answered" where
  "handleAPIEnableRule ev ruleID st =
     rules_changed 404 (dash_writeJSON (BMessage ''Rule enabled successfully'')) (EnableRule (de_now ev) (ds_rules st) ruleID) st"

definition handleAPIDisableRule :: "('f, 'c, 'w, 'v) dash_env \<Rightarrow> string \<Rightarrow> ('f, 'c, 'w) dash_state \<Rightarrow> ('f, 'c, 'w) answered" where
  "handleAPIDisableRule ev ruleID st =
     rules_changed 404 (dash_writeJSON (BMessage ''Rule disabled successfully'')) (DisableRule (de_now ev) (ds_rules st) ruleID) st"

definition handleAPIGetRule :: "string \<Rightarrow> ('f, 'c, 'w) dash_state \<Rightarrow> ('f, 'c, 'w) answered" where
  "handleAPIGetRule ruleID st =
     (st, case GetRule (ds_rules st) ruleID of
            Ok rule \<Rightarrow> Ok (dash_writeJSON (BRule rule))
          | Err e \<Rightarrow> Ok (respond 404 (BRuleError e)) | Panic \<Rightarrow> Panic | Blocked \<Rightarrow> Blocked)"

definition handleAPIRules :: "('f, 'c, 'w, 'v) dash_env \<Rightarrow> dash_request \<Rightarrow> ('f, 'c, 'w) dash_state \<Rightarrow> ('f, 'c, 'w) answered" where
  "handleAPIRules ev r st =
     (if aq_Method r = ''GET'' then (st, Ok (handleAPIGetRules st))
      else if aq_Method r = ''POST'' then handleAPICreateRule ev r st
      else (st, Ok not_allowed))"

text \<open>Enabling and disabling is done for every method of the request.\<close>

definition handleAPIRuleByID :: "('f, 'c, 'w, 'v) dash_env \<Rightarrow> dash_request \<Rightarrow> ('f, 'c, 'w) dash_state \<Rightarrow> ('f, 'c, 'w) answered" where
  "handleAPIRuleByID ev r st =
     (let pathParts = go_split CHR ''/'' (trim_prefix (aq_Path r) ''/api/rules/''); ruleID = hd pathParts
      in if ruleID = [] then (st, Ok (http_Error ''Rule ID is required'' 400))
         else if length pathParts > 1
         then (if pathParts ! 1 = ''enable'' then handleAPIEnableRule ev ruleID st
               else if pathParts ! 1 = ''disable'' then handleAPIDisableRule ev ruleID st
               else (st, Ok (http_Error ''Invalid action'' 400)))
         else if aq_Method r = ''GET'' then handleAPIGetRule ruleID st
         else if aq_Method r = ''PUT'' then handleAPIUpdateRule ev r ruleID st
         else if aq_Method r = ''DELETE'' then handleAPIDeleteRule ruleID st
         else (st, Ok not_allowed))"

definition handleAPIActionTypes :: "('f, 'c, 'w, 'v) dash_env \<Rightarrow> 'f dash_response" where
  "handleAPIActionTypes ev = dash_writeJSON (BActionTypes (GetActionTypes (de_registry ev)))"

text \<open>The schemas of actions and connectors are constants of their types.\<close>

definition handleAPIActionSchema :: "('f, 'c, 'w, 'v) dash_env \<Rightarrow> dash_request \<Rightarrow> 'f dash_response" where
  "handleAPIActionSchema ev r =
     (let actionType = trim_prefix (aq_Path r) ''/api/action-schemas/''
      in if actionType = [] then http_Error ''Action type is required'' 400
         else case gm_get (de_registry ev) actionType of
                None \<Rightarrow> http_Error (''unknown action type: '' @ actionType) 404
              | Some _ \<Rightarrow> dash_writeJSON (BTypes [actionType]))"

section \<open>Bridges\<close>

definition handleAPIBridges :: "('f, 'c, 'w, 'v) dash_env \<Rightarrow> dash_request \<Rightarrow> ('f, 'c, 'w) dash_state \<Rightarrow> ('f, 'c, 'w) answered" where
  "handleAPIBridges ev r st =
     (if aq_Method r = ''GET'' then (st, Ok (dash_writeJSON (BBridges (ListBridges (ds_integration st)))))
      else if aq_Method r = ''POST''
      then (case de_bridge ev (aq_Body r) of
              None \<Rightarrow> (st, Ok (http_Error ''Invalid JSON'' 400))
            | Some bridge \<Rightarrow>
                (case CreateBridge (de_floats ev) (de_now ev) (ds_integration st) bridge of
                   Ok die \<Rightarrow> (st\<lparr>ds_integration := die\<rparr>, Ok (dash_writeJSON (BMessageID ''Bridge created successfully'' (br_ID bridge))))
                 | Err e \<Rightarrow> (st, Ok (http_Error e 400)) | Panic \<Rightarrow> (st, Panic) | Blocked \<Rightarrow> (st, Blocked)))
      else (st, Ok not_allowed))"

definition bridge_changed :: "string \<Rightarrow> int \<Rightarrow> (string, ('f, 'w) DataIntegrationEngine) go \<Rightarrow> ('f, 'c, 'w) dash_state \<Rightarrow> ('f, 'c, 'w) answered" where
  "bridge_changed message status res st =
     (case res of
        Ok die \<Rightarrow> (st\<lparr>ds_integration := die\<rparr>, Ok (dash_writeJSON (BMessage message)))
      | Err e \<Rightarrow> (st, Ok (http_Error e status)) | Panic \<Rightarrow> (st, Panic) | Blocked \<Rightarrow> (st, Blocked))"

definition handleAPIBridgeByID :: "('f, 'c, 'w, 'v) dash_env \<Rightarrow> dash_request \<Rightarrow> ('f, 'c, 'w) dash_state \<Rightarrow> ('f, 'c, 'w) answered" where
  "handleAPIBridgeByID ev r st =
     (let parts = go_split CHR ''/'' (trim_prefix (aq_Path r) ''/api/integration/bridges/''); bridgeID = hd parts
      in if bridgeID = [] then (st, Ok (http_Error ''Bridge ID required'' 400))
         else if length parts > 1
         then (if parts ! 1 = ''enable''
               then (case EnableBridge (de_now ev) (ds_integration st) bridgeID (ds_world st) of
                       ((die, w), err) \<Rightarrow>
                         (st\<lparr>ds_integration := die, ds_world := w\<rparr>,
                          Ok (case err of None \<Rightarrow> dash_writeJSON (BMessage ''Bridge enabled successfully'') | Some e \<Rightarrow> http_Error e 400)))
               else if parts ! 1 = ''disable''
               then bridge_changed ''Bridge disabled successfully'' 400 (DisableBridge (de_now ev) (ds_integration st) bridgeID) st
               else (st, Ok (http_Error ''Invalid action'' 400)))
         else if aq_Method r = ''GET''
         then (st, case GetBridge (ds_integration st) bridgeID of
                     Ok bridge \<Rightarrow> Ok (dash_writeJSON (BBridge bridge))
                   | Err e \<Rightarrow> Ok (http_Error e 404) | Panic \<Rightarrow> Panic | Blocked \<Rightarrow> Blocked)
         else if aq_Method r = ''PUT''
         then (case de_bridge ev (aq_Body r) of
                 None \<Rightarrow> (st, Ok (http_Error ''Invalid JSON'' 400))
               | Some bridge \<Rightarrow>
                   bridge_changed ''Bridge updated successfully'' 400 (UpdateBridge (de_now ev) (ds_integration st) bridgeID bridge) st)
         else if aq_Method r = ''DELETE''
         then bridge_changed ''Bridge deleted successfully'' 404 (DeleteBridge (ds_integration st) bridgeID) st
         else (st, Ok not_allowed))"

definition handleAPIIntegrationConnectors :: "dash_request \<Rightarrow> ('f, 'c, 'w) dash_state \<Rightarrow> 'f dash_response" where
  "handleAPIIntegrationConnectors r st =
     (if aq_Method r \<noteq> ''GET'' then not_allowed
      else dash_writeJSON (BIntegrationConnectors
             (map (\<lambda>c. (co_ID c, co_IsConnected c (ds_world st))) (Integration.ListConnectors (ds_integration st)))))"

definition handleAPIIntegrationMetrics :: "dash_request \<Rightarrow> ('f, 'c, 'w) dash_state \<Rightarrow> ('f, 'c, 'w) answered" where
  "handleAPIIntegrationMetrics r st =
     (if aq_Method r \<noteq> ''GET'' then (st, Ok not_allowed)
      else (let (m, die) = Integration.GetMetrics (ds_integration st) (ds_world st)
            in (st\<lparr>ds_integration := die\<rparr>, Ok (dash_writeJSON (BIntegrationMetrics m)))))"

section \<open>Connectors\<close>

fun describe_connectors :: "('c, 'f, 'w) connector_ops \<Rightarrow> time \<Rightarrow> (ref, 'c) gomap \<Rightarrow> (string, ref) gomap
    \<Rightarrow> (string, (string \<times> 'f ConnectorConfig \<times> ConnectorStatus) list) go" where
  "describe_connectors ops now store [] = Ok []"
| "describe_connectors ops now store ((cid, r) # rest) =
     (case gm_get store r of
        None \<Rightarrow> Panic
      | Some c \<Rightarrow>
          go_bind (op_GetConfig ops c) (\<lambda>config. go_bind (op_Status ops now c) (\<lambda>status. go_bind (op_GetMetrics ops c) (\<lambda>_.
          go_bind (describe_connectors ops now store rest) (\<lambda>ds. Ok ((cid, config, status) # ds))))))"

text \<open>An operation of the connector manager: its error is answered with \<open>status\<close>.\<close>

definition connectors_changed ::
  "int \<Rightarrow> ('c, 'f, 'a) managed \<Rightarrow> ('a \<Rightarrow> ('f, 'c, 'w) dash_state \<Rightarrow> ('f, 'c, 'w) answered) \<Rightarrow> ('f, 'c, 'w) dash_state \<Rightarrow> ('f, 'c, 'w) answered" where
  "connectors_changed status res done st =
     (case res of
        (cm, Ok x) \<Rightarrow> done x (st\<lparr>ds_connectors := cm\<rparr>)
      | (cm, Err e) \<Rightarrow> (st\<lparr>ds_connectors := cm\<rparr>, Ok (http_Error e status))
      | (cm, Panic) \<Rightarrow> (st\<lparr>ds_connectors := cm\<rparr>, Panic)
      | (cm, Blocked) \<Rightarrow> (st\<lparr>ds_connectors := cm\<rparr>, Blocked))"

text \<open>The end of an operation that changes the world and may have failed.\<close>

definition world_changed :: "int \<Rightarrow> string \<Rightarrow> 'w \<times> string option \<Rightarrow> ('f, 'c, 'w) dash_state \<Rightarrow> ('f, 'c, 'w) answered" where
  "world_changed status message x st =
     (st\<lparr>ds_world := fst x\<rparr>, Ok (case snd x of None \<Rightarrow> dash_writeJSON (BMessage message) | Some e \<Rightarrow> http_Error e status))"

definition handleAPIConnectors :: "('f, 'c, 'w, 'v) dash_env \<Rightarrow> dash_request \<Rightarrow> ('f, 'c, 'w) dash_state \<Rightarrow> ('f, 'c, 'w) answered" where
  "handleAPIConnectors ev r st =
     (if aq_Method r = ''GET''
      then connectors_changed 500 (Connector_Manager.ListConnectors (ds_connectors st))
             (\<lambda>cs st. (st, go_bind (describe_connectors (de_ops ev) (de_now ev) (cm_store (ds_connectors st)) cs)
                                   (\<lambda>ds. Ok (dash_writeJSON (BConnectors ds))))) st
      else if aq_Method r = ''POST''
      then (case de_connector ev (aq_Body r) of
              None \<Rightarrow> (st, Ok (http_Error ''Invalid JSON'' 400))
            | Some config \<Rightarrow>
                connectors_changed 400 (CreateConnector (de_now ev) config (ds_connectors st))
                  (\<lambda>_ st. (st, Ok (dash_writeJSON (BMessageID ''Connector created successfully'' (cc_ID config))))) st)
      else (st, Ok not_allowed))"

definition connector_action :: "('f, 'c, 'w, 'v) dash_env \<Rightarrow> string \<Rightarrow> string \<Rightarrow> ('f, 'c, 'w) dash_state \<Rightarrow> ('f, 'c, 'w) answered" where
  "connector_action ev action path st =
     (let run = (\<lambda>f. connectors_changed 400 (f (de_ops ev) (de_now ev) path (ds_connectors st) (ds_world st))
                        (world_changed 400 (''Connector '' @ path @ '' '' @ action @ ''ed successfully'')) st)
      in if action = ''start'' then run StartConnector
         else if action = ''stop'' then run StopConnector
         else if action = ''restart'' then run RestartConnector
         else (st, Ok (http_Error ''Invalid action'' 400)))"

definition handleAPIConnectorByID :: "('f, 'c, 'w, 'v) dash_env \<Rightarrow> dash_request \<Rightarrow> ('f, 'c, 'w) dash_state \<Rightarrow> ('f, 'c, 'w) answered" where
  "handleAPIConnectorByID ev r st =
     (let path = trim_prefix (aq_Path r) ''/api/connectors/''
      in if path = [] then (st, Ok (http_Error ''Connector ID required'' 400))
         else if aq_Method r = ''GET''
         then connectors_changed 404 (GetConnectorInfo (de_ops ev) (de_now ev) path (ds_connectors st))
                (\<lambda>info st. (st, Ok (dash_writeJSON (BConnectorInfo info)))) st
         else if aq_Method r = ''PUT''
         then (case de_connector ev (aq_Body r) of
                 None \<Rightarrow> (st, Ok (http_Error ''Invalid JSON'' 400))
               | Some config \<Rightarrow>
                   connectors_changed 400 (UpdateConnector (de_ops ev) (de_now ev) path config (ds_connectors st))
                     (\<lambda>_ st. (st, Ok (dash_writeJSON (BMessage ''Connector updated successfully'')))) st)
         else if aq_Method r = ''DELETE''
         then connectors_changed 404 (DeleteConnector (de_ops ev) (de_now ev) path (ds_connectors st) (ds_world st))
                (world_changed 404 ''Connector deleted successfully'') st
         else if aq_Method r = ''POST'' then connector_action ev (aq_Query r ''action'') path st
         else (st, Ok not_allowed))"

definition handleAPIConnectorTypes :: "dash_request \<Rightarrow> ('f, 'c, 'w) dash_state \<Rightarrow> ('f, 'c, 'w) answered" where
  "handleAPIConnectorTypes r st =
     (if aq_Method r \<noteq> ''GET'' then (st, Ok not_allowed)
      else connectors_changed 500 (GetConnectorTypes (ds_connectors st)) (\<lambda>ts st. (st, Ok (dash_writeJSON (BTypes ts)))) st)"

section \<open>Data for demonstration\<close>

definition demo :: "string \<Rightarrow> dash_request \<Rightarrow> 'f dash_response" where
  "demo name r = (if aq_Method r \<noteq> ''GET'' then not_allowed else dash_writeJSON (BDemo name))"

text \<open>
  The blacklist of the dashboard changes nothing. \<open>de_object\<close> decodes a JSON object to the keys whose value
  is not null; the JSON text \<open>null\<close> decodes to the nil map, into which \<open>PUT\<close> writes.
\<close>

definition demo_entries :: "(string \<times> string \<times> string \<times> string \<times> string) list" where
  "demo_entries =
     [(''demo-blocked-client'', ''clientid'', ''malicious-client'', ''deny'', ''Suspicious behavior detected''),
      (''demo-blocked-user'', ''username'', ''baduser'', ''deny'', ''Account compromised'')]"

definition handleAPIBlacklist :: "('f, 'c, 'w, 'v) dash_env \<Rightarrow> dash_request \<Rightarrow> 'f dash_response" where
  "handleAPIBlacklist ev r =
     (if aq_Method r = ''GET''
      then (let typeFilter = aq_Query r ''type''
            in dash_writeJSON (BBlacklist (filter (\<lambda>(_, ty, _). typeFilter = [] \<or> ty = typeFilter) demo_entries)))
      else if aq_Method r = ''POST''
      then (case de_object ev (aq_Body r) of
              None \<Rightarrow> http_Error ''Invalid JSON'' 400
            | Some m \<Rightarrow>
                let keys = (case m of None \<Rightarrow> [] | Some ks \<Rightarrow> ks)
                in if ''type'' \<notin> set keys \<or> ''action'' \<notin> set keys then http_Error ''Type and action are required'' 400
                   else respond 201 (BMessageID ''Blacklist entry created successfully'' (''blacklist-entry-'' @ show_int (unix_nano (de_now ev)))))
      else not_allowed)"

definition handleAPIBlacklistByID :: "('f, 'c, 'w, 'v) dash_env \<Rightarrow> dash_request \<Rightarrow> (string, 'f dash_response) go" where
  "handleAPIBlacklistByID ev r =
     (let path = trim_prefix (aq_Path r) ''/api/blacklist/''
      in if path = [] then Ok (http_Error ''Blacklist entry ID required'' 400)
         else if aq_Method r = ''GET'' then Ok (dash_writeJSON (BBlacklist [(path, ''clientid'', ''demo-client'', ''deny'', ''Demo entry'')]))
         else if aq_Method r = ''PUT''
         then (case de_object ev (aq_Body r) of
                 None \<Rightarrow> Ok (http_Error ''Invalid JSON'' 400)
               | Some None \<Rightarrow> Panic
               | Some (Some _) \<Rightarrow> Ok (dash_writeJSON (BMessage ''Blacklist entry updated successfully'')))
         else if aq_Method r = ''DELETE'' then Ok (respond 204 (BMessage ''Blacklist entry deleted successfully''))
         else Ok not_allowed)"

section \<open>The server\<close>

definition proxyAdminAPI :: "('f, 'c, 'w, 'v) dash_env \<Rightarrow> dash_request \<Rightarrow> ('f, 'c, 'w) dash_state \<Rightarrow> ('f, 'c, 'w) answered" where
  "proxyAdminAPI ev r st =
     (case ServeHTTP (de_api ev) broker_interface (de_now ev) (request.truncate r) (ds_metrics st, ds_broker st) of
        Ok (p, m, b) \<Rightarrow> (st\<lparr>ds_metrics := m, ds_broker := b\<rparr>, Ok (respond (fst p) (BAdmin p)))
      | Err e \<Rightarrow> (st, Err e) | Panic \<Rightarrow> (st, Panic) | Blocked \<Rightarrow> (st, Blocked))"

datatype dash_endpoint =
    PPage string | PRulesPage | PLogin | PLogout | PStatic | PStats | PDemo string | PHealth
  | PBlacklist | PBlacklistByID | PCertificates | PCertificateByID | PTLSConfig | PTLSConfigByID | PX509
  | PConnectors | PConnectorByID | PConnectorTypes | PRules | PRuleByID | PActionTypes | PActionSchema
  | PBridges | PBridgeByID | PIntegrationConnectors | PIntegrationMetrics | PAdmin

definition setupRoutes :: "(string \<times> dash_endpoint) list" where
  "setupRoutes =
     [(''/static/'', PStatic), (''/'', PPage ''dashboard.html''), (''/dashboard'', PPage ''dashboard.html''),
      (''/connections'', PPage ''connections.html''), (''/sessions'', PPage ''sessions.html''),
      (''/subscriptions'', PPage ''subscriptions.html''), (''/monitoring'', PPage ''monitoring.html''),
      (''/blacklist'', PPage ''blacklist.html''), (''/certificates'', PPage ''certificates.html''),
      (''/tls-config'', PPage ''tls-config.html''), (''/connectors'', PPage ''connectors.html''), (''/rules'', PRulesPage),
      (''/integration'', PPage ''integration.html''), (''/login'', PLogin), (''/logout'', PLogout),
      (''/api/dashboard/stats'', PStats), (''/api/dashboard/connections'', PDemo ''connections''),
      (''/api/dashboard/sessions'', PDemo ''sessions''), (''/api/dashboard/subscriptions'', PDemo ''subscriptions''),
      (''/api/dashboard/health'', PHealth), (''/api/blacklist'', PBlacklist), (''/api/blacklist/'', PBlacklistByID),
      (''/api/blacklist/stats'', PDemo ''blacklist stats''), (''/api/certificates'', PCertificates),
      (''/api/certificates/'', PCertificateByID), (''/api/tls-config'', PTLSConfig), (''/api/tls-config/'', PTLSConfigByID),
      (''/api/x509-auth'', PX509), (''/api/connectors'', PConnectors), (''/api/connectors/'', PConnectorByID),
      (''/api/connector-types'', PConnectorTypes), (''/api/rules'', PRules), (''/api/rules/'', PRuleByID),
      (''/api/action-types'', PActionTypes), (''/api/action-schemas/'', PActionSchema),
      (''/api/integration/bridges'', PBridges), (''/api/integration/bridges/'', PBridgeByID),
      (''/api/integration/connectors'', PIntegrationConnectors), (''/api/integration/metrics'', PIntegrationMetrics),
      (''/api/v5/'', PAdmin)]"

text \<open>The handler of an endpoint without the login; serving files is the library's.\<close>

fun endpoint_handler ::
  "DashboardConfig \<Rightarrow> ('f, 'c, 'w, 'v) dash_env \<Rightarrow> dash_endpoint \<Rightarrow> dash_request \<Rightarrow> ('f, 'c, 'w) dash_state \<Rightarrow> ('f, 'c, 'w) answered" where
  "endpoint_handler cfg ev (PPage template) r st = (st, Ok (page template r))"
| "endpoint_handler cfg ev PRulesPage r st = (st, Ok (respond 200 (BPage ''rules.html'' None)))"
| "endpoint_handler cfg ev PLogin r st = (st, Ok (handleLogin cfg r))"
| "endpoint_handler cfg ev PLogout r st = (st, Ok handleLogout)"
| "endpoint_handler cfg ev PStatic r st = (st, Ok (respond 200 (BPage (aq_Path r) None)))"
| "endpoint_handler cfg ev PStats r st =
     (st, Ok (if aq_Method r \<noteq> ''GET'' then not_allowed else dash_writeJSON (BStats (GetStatistics (de_now ev) (ds_metrics st)))))"
| "endpoint_handler cfg ev (PDemo name) r st = (st, Ok (demo name r))"
| "endpoint_handler cfg ev PHealth r st =
     (st, Ok (if aq_Method r \<noteq> ''GET'' then not_allowed else dash_writeJSON (BHealth (GetStatus (de_globals ev) (de_now ev) (ds_health st)))))"
| "endpoint_handler cfg ev PBlacklist r st = (st, Ok (handleAPIBlacklist ev r))"
| "endpoint_handler cfg ev PBlacklistByID r st = (st, handleAPIBlacklistByID ev r)"
| "endpoint_handler cfg ev PCertificates r st = handleAPICertificates ev r st"
| "endpoint_handler cfg ev PCertificateByID r st = handleAPICertificateByID r st"
| "endpoint_handler cfg ev PTLSConfig r st = handleAPITLSConfig ev r st"
| "endpoint_handler cfg ev PTLSConfigByID r st = handleAPITLSConfigByID ev r st"
| "endpoint_handler cfg ev PX509 r st = (st, Ok (handleAPIX509Auth ev r))"
| "endpoint_handler cfg ev PConnectors r st = handleAPIConnectors ev r st"
| "endpoint_handler cfg ev PConnectorByID r st = handleAPIConnectorByID ev r st"
| "endpoint_handler cfg ev PConnectorTypes r st = handleAPIConnectorTypes r st"
| "endpoint_handler cfg ev PRules r st = handleAPIRules ev r st"
| "endpoint_handler cfg ev PRuleByID r st = handleAPIRuleByID ev r st"
| "endpoint_handler cfg ev PActionTypes r st = (st, Ok (handleAPIActionTypes ev))"
| "endpoint_handler cfg ev PActionSchema r st = (st, Ok (handleAPIActionSchema ev r))"
| "endpoint_handler cfg ev PBridges r st = handleAPIBridges ev r st"
| "endpoint_handler cfg ev PBridgeByID r st = handleAPIBridgeByID ev r st"
| "endpoint_handler cfg ev PIntegrationConnectors r st = (st, Ok (handleAPIIntegrationConnectors r st))"
| "endpoint_handler cfg ev PIntegrationMetrics r st = handleAPIIntegrationMetrics r st"
| "endpoint_handler cfg ev PAdmin r st = proxyAdminAPI ev r st"

definition open_endpoint :: "dash_endpoint \<Rightarrow> bool" where
  "open_endpoint e \<longleftrightarrow> e = PStatic \<or> e = PLogin \<or> e = PLogout"

definition dash_ServeHTTP :: "DashboardConfig \<Rightarrow> ('f, 'c, 'w, 'v) dash_env \<Rightarrow> dash_request \<Rightarrow> ('f, 'c, 'w) dash_state \<Rightarrow> ('f, 'c, 'w) answered" where
  "dash_ServeHTTP cfg ev r st =
     (case mux_route setupRoutes (aq_Method r) (aq_Path r) of
        Moved location \<Rightarrow> (st, Ok ((respond 301 (BText []))\<lparr>dp_Location := location\<rparr>))
      | NotFound \<Rightarrow> (st, Ok (http_Error ''404 page not found'' 404))
      | Handled e \<Rightarrow> if open_endpoint e then endpoint_handler cfg ev e r st else authMiddleware cfg (endpoint_handler cfg ev e) r st)"

section \<open>Who gets in\<close>

definition logged_in :: "DashboardConfig \<Rightarrow> dash_request \<Rightarrow> bool" where
  "logged_in cfg r \<longleftrightarrow> dr_Cookie r = Some ''valid_session_token'' \<or> dr_BasicAuth r = Some (dc_Username cfg, dc_Password cfg)"

lemma authMiddleware_cookie:
  "dr_Cookie r = Some ''valid_session_token'' \<Longrightarrow> authMiddleware cfg nxt r st = nxt r st"
  by (simp add: authMiddleware_def validateSession_def)

lemma authMiddleware_refuses:
  assumes "dc_EnableAuth cfg"
  shows "\<not> logged_in cfg r \<Longrightarrow> authMiddleware cfg nxt r st =
      (st, Ok (if has_prefix (aq_Path r) ''/api/'' then http_Error ''Unauthorized'' 401 else http_Redirect ''/login''))"
  using assms by (auto simp: authMiddleware_def logged_in_def validateSession_def validateCredentials_def split: option.splits)

lemma handler_ignores_switch: "endpoint_handler (cfg\<lparr>dc_EnableAuth := x\<rparr>) ev e r st = endpoint_handler cfg ev e r st"
  by (cases "(cfg, ev, e, r, st)" rule: endpoint_handler.cases) (simp_all add: handleLogin_def validateCredentials_def)

lemma open_endpoint_keeps: "open_endpoint e \<Longrightarrow> fst (endpoint_handler cfg ev e r st) = st"
  by (auto simp: open_endpoint_def)


text \<open>
  What that means for the clients: with the cookie alone anybody who reaches the dashboard makes the broker
  refuse a client of his choice, over the management API behind it.
\<close>

lemma anybody_blocks_clients:
  assumes "dc_EnableAuth cfg" and "dr_Cookie r = Some ''valid_session_token''"
    and mgr: "mw_manager (b_blacklistMiddleware (ds_broker st)) = Some bm" and inv: "bl_inv bm"
    and on: "checks_on (mw_config (b_blacklistMiddleware (ds_broker st)))"
    and post: "as_decode_create (de_api ev) (aq_Body r) = Some cr" "aq_Method r = ''POST''" "aq_Path r = ''/api/v5/blacklist''"
    and cr: "cr_Type cr = ClientIDBlacklist" "cr_Value cr = client" "client \<noteq> []" "cr_Pattern cr = []" "cr_Action cr = ActionDeny"
      "cr_Enabled cr" "cr_ExpiresAt cr = None"
    and new: "\<nexists>i. value_entry bm ClientIDBlacklist client i" "gm_get (bm_entries bm) (be_ID (new_entry (de_now ev) cr)) = None"
  shows "\<exists>st' p. dash_ServeHTTP cfg ev r st = (st', Ok p) \<and> dp_Status p = 201 \<and> (\<forall>lib t u ip. \<not> allowed lib t (ds_broker st') client u ip)"
proof -
  let ?e = "new_entry (de_now ev) cr"
  have t: "aq_Body (request.truncate r) = aq_Body r" "aq_Method (request.truncate r) = aq_Method r" "aq_Path (request.truncate r) = aq_Path r"
    by (simp_all add: request.truncate_def)
  from api_create [OF mgr, of "de_api ev" "request.truncate r" cr "de_now ev" "ds_metrics st"] post cr new(2) t
  obtain bm' e where a: "AddEntry (as_lib (de_api ev)) (de_now ev) bm ?e = Ok bm'"
    and s: "ServeHTTP (de_api ev) broker_interface (de_now ev) (request.truncate r) (ds_metrics st, ds_broker st) =
      Ok ((201, Some \<lparr>ap_Code = 0, ap_Message = [], ap_Data = Some (DEntry e)\<rparr>), ds_metrics st, bi_set_manager broker_interface bm' (ds_broker st))"
    by auto
  have e: "be_Type ?e = ClientIDBlacklist" "be_Pattern ?e = []" "be_Enabled ?e" "be_ExpiresAt ?e = None" "be_Value ?e = client"
    using cr by (simp_all add: new_entry_def)
  note added = added_block [OF inv a e(1-4) _ new(2), unfolded e(5), OF new(1)]
  have "mux_route setupRoutes (aq_Method r) (aq_Path r) = Handled PAdmin" unfolding post(2,3) by code_simp
  then have "dash_ServeHTTP cfg ev r st = (st\<lparr>ds_broker := bi_set_manager broker_interface bm' (ds_broker st)\<rparr>,
      Ok (respond 201 (BAdmin (201, Some \<lparr>ap_Code = 0, ap_Message = [], ap_Data = Some (DEntry e)\<rparr>))))"
    using s by (simp add: dash_ServeHTTP_def open_endpoint_def authMiddleware_cookie [OF assms(2)] proxyAdminAPI_def)
  moreover have "\<not> allowed lib t (bi_set_manager broker_interface bm' (ds_broker st)) client u ip" for lib t u ip
    using client_allowed_iff [of "b_blacklistMiddleware (bi_set_manager broker_interface bm' (ds_broker st))" bm'] added on
    by (simp add: broker_interface_def)
  ultimately show ?thesis by (auto simp: respond_def)
qed

section \<open>An example\<close>

definition intruder :: dash_request where
  "intruder = \<lparr>aq_Method = ''DELETE'', aq_Path = ''/api/rules/r'', aq_Query = (\<lambda>_. []), aq_Body = [],
     dr_Cookie = None, dr_BasicAuth = Some (''admin'', ''guess''), dr_FormUsername = [], dr_FormPassword = []\<rparr>"


end
