(* ===== verification/Spec2Isabelle.thy ===== *)
theory Spec2Isabelle
  imports Topic_Store Mqtt_Codec Kv_Store Actor_Runtime Session_Actor Message_Storage Retainer
    Persistent_Session Auth Blacklist Cluster Broker Connection Rule_Sql Rule_Engine Rule_Broker System
    System_Run Json_Processor Integration Connectors Connector_Manager Mria_Replication Mria_Cluster
    Tls_Connection Certificate_Manager Metrics Admin Config Health Dashboard
begin

text \<open>
  emqx-go is an MQTT broker written in Go. This is a verification library for it: the broker with its
  connection handlers, the stores and managers they rest on, the rule and integration engines, clustering,
  and the management of the broker over HTTP. Every definition is a
  translation of a function, method or type under \<open>src/\<close>; the theorems are about these
  translations.

  \<^bold>\<open>The program and how its parts interact.\<close> A connection handler (\<open>handleConnection\<close> in
  \<open>pkg/broker/broker.go\<close>) reads packets from a client. CONNECT is checked by the blacklist and the
  authentication chain, resumes or creates a persistent session, and starts a session actor with a
  mailbox. SUBSCRIBE enters the mailbox in the topic store, tells the cluster, and sends the retained
  messages. PUBLISH goes through duplicate suppression, the retainer, the rule engine and the
  integration engine, then to the mailboxes of the subscribers, to the offline queues of persistent
  sessions and to the cluster nodes that announced the topic. The session actor takes messages from
  its mailbox and writes PUBLISH packets. When a connection ends its session becomes inactive and its
  will message may be published. Beside the message path, the configuration fills the authentication
  chain; the management API and the dashboard read and change the blacklist, the certificates, the rules,
  the connectors and the bridges; metrics and health checks are what they show.

  \<^bold>\<open>Theories.\<close>
  \<^item> \<open>Prelude\<close>: outcomes of Go code (\<open>go\<close>: a value, an error, a panic, or blocked for ever), Go maps as
    association lists without an order the code may rely on (\<open>gomap\<close>), slices, strings, times, the
    generic lemmas and the collections of simplification rules.
  \<^item> \<open>Topic_Match\<close>: the specification of topic filters by levels, and the locale of a matcher, which
    every matching routine of the program interprets.
  \<^item> \<open>Topic_Store\<close> (\<open>pkg/topic/store.go\<close>): subscriptions, shared groups, routing. The store refines a
    table from filters and sessions to quality of service; routing is exact, shared groups are fair.
  \<^item> \<open>Mqtt_Codec\<close> (\<open>pkg/protocol/mqtt\<close>): decoding and encoding of packets at byte level, with bounds
    and round trips.
  \<^item> \<open>Kv_Store\<close> (\<open>pkg/storage/store.go\<close>): the interface \<open>Store\<close> as a locale, \<open>MemStore\<close> as its instance.
  \<^item> \<open>Actor_Runtime\<close> (\<open>pkg/actor\<close>, \<open>pkg/supervisor\<close>): mailboxes are first in, first out under every
    interleaving; the restart strategies of the supervisor.
  \<^item> \<open>Session_Actor\<close> (\<open>pkg/session/session.go\<close>): the packets a session writes, outbound topic aliases.
  \<^item> \<open>Message_Storage\<close> (\<open>pkg/storage/messages\<close>): message streams, iterators, retention.
  \<^item> \<open>Retainer\<close> (\<open>pkg/retainer/retainer.go\<close>): retained messages, limits, expiry; a refinement of a map.
  \<^item> \<open>Persistent_Session\<close> (\<open>pkg/persistent\<close>): sessions, offline queues, will messages, and the invariant
    of the manager.
  \<^item> \<open>Auth\<close> (\<open>pkg/auth\<close>), \<open>Blacklist\<close> (\<open>pkg/blacklist\<close>): access control.
  \<^item> \<open>Cluster\<close> (\<open>pkg/cluster\<close>): peers and remote routes, and a transition system of nodes and the calls
    that are on their way between them.
  \<^item> \<open>Broker\<close>, \<open>Connection\<close> (\<open>pkg/broker/broker.go\<close>): the composition: routing, takeover, wills, the
    goroutines the handlers start, and the handler of every packet. A subscription is answered and entered
    as the protocol says, a reconnection restores subscriptions, a message reaches each subscriber once.
  \<^item> \<open>Rule_Sql\<close>, \<open>Rule_Engine\<close>, \<open>Rule_Broker\<close> (\<open>pkg/rules\<close>): the conditions of rules with a round trip of
    parser and printer, the rule table with its invariant, processing in the order of priority, the actions,
    and the engine inside the broker with its recursion through republished messages.
  \<^item> \<open>System\<close>, \<open>System_Run\<close>: the broker with any number of connections as a transition system. Nothing
    panics and the invariants hold in every reachable state; rule induction over the steps.
  \<^item> \<open>Json_Processor\<close>, \<open>Integration\<close> (\<open>pkg/integration\<close>): transformations of JSON messages on a store of maps
    that makes aliasing visible, and the engine with its bridges and its invariant.
  \<^item> \<open>Connectors\<close>, \<open>Connector_Manager\<close> (\<open>pkg/connector\<close>): the life cycle of connectors with their locks, and
    their manager. An unhealthy connector deadlocks, and with it the manager.
  \<^item> \<open>Mria_Replication\<close>, \<open>Mria_Cluster\<close> (\<open>pkg/mria\<close>): replicated tables, leader election, the integration
    into the broker. Replicas that apply the log agree; the message that carries the log is never recognised.
  \<^item> \<open>Tls_Connection\<close> (\<open>handleTLSConnection\<close>, \<open>pkg/auth/x509\<close>), \<open>Certificate_Manager\<close> (\<open>pkg/tls\<close>): connections
    over TLS, authentication by certificate, the tables of certificates.
  \<^item> \<open>Metrics\<close> (\<open>pkg/metrics/metrics.go\<close>): counters as cells that threads change by atomic operations in any
    order. The locale \<open>high_water\<close> is the loop that raises a maximum, interpreted for each of the five maxima.
  \<^item> \<open>Admin\<close> (\<open>pkg/admin/admin.go\<close>), \<open>Dashboard\<close> (\<open>pkg/dashboard/server.go\<close>): routes and handlers as functions
    from a request and a state to a response and a state; what a block over the API does to clients, and who is let in.
  \<^item> \<open>Config\<close> (\<open>pkg/config/config.go\<close>), \<open>Health\<close> (\<open>pkg/monitor/health.go\<close>): the configuration file and who can log
    in after it is applied; the health checks and the status that follows from them.
  \<^item> \<open>Spec2Isabelle\<close>: the properties that span components.

  \<^bold>\<open>Conventions.\<close> State is passed explicitly. Pointers that are shared (mailboxes, blacklist entries)
  are names into a table. A range over a map visits the entries in the order of the association list,
  which a theorem never fixes; an operation whose result depends on that order says so. Clock readings,
  random identifiers and library functions (regular expressions, hashes, the calendar, JSON, number
  formatting) are arguments. A goroutine is a task that runs later. \<open>Blocked\<close> stands for an operation
  that does not return in the state at hand: a send to a full channel or a lock that is held by the
  caller itself.

  \<^bold>\<open>Bounds.\<close> Packet identifiers, quality of service, lengths and aliases are words of the width the
  code uses, so that wrap-around is part of the model. Counters of messages and bytes that are only
  ever incremented are natural numbers. Loops are structural recursions or have a termination proof;
  those that need not end (the supervisor) take the sequence of their inputs as an argument. Two functions
  have a bound on their depth. A rule that republishes calls the rule engine again, in the same goroutine;
  the depth of these calls is the argument that stands for the stack of the goroutine, and running out of it
  is the panic the Go runtime raises. The theorems hold for every depth; without republish actions
  a depth of one is enough. The conversion of nested maps in \<open>Json_Processor\<close> takes the number of
  maps in the store plus one as its depth; lemma \<open>walk_enough\<close> shows that more changes nothing.

  \<^bold>\<open>Not modelled.\<close> The connectors for databases and Kafka, which are adapters of client libraries: the
  managers see them through their interfaces, which are modelled. The package \<open>pkg/clustermon\<close>, which does not
  compile. Discovery of peers over the Kubernetes API, the code generated for gRPC, the main programs, the
  fuzzers. The MQTT packet library that the connection handler reads with: what it returns is an argument. HTML
  templates, logging, listening on ports, and the fixed demonstration data of the metrics port.
\<close>

section \<open>One notion of matching\<close>



end
